(* ===== verification/Prelude.thy ===== *)
theory Prelude
  imports Main "HOL-Library.List_Lexorder" "HOL-Library.Char_ord" "HOL-Library.Multiset"
begin

text \<open>
  Shared vocabulary of the development.

  A Go map with string keys is an association list whose keys are strictly increasing in
  the byte order of strings (\<open>mwf\<close>), so two Go maps are equal exactly when their lists
  are. Lookup is the library's \<open>map_of\<close>; \<open>mput\<close> and \<open>mdel\<close> are the assignment
  \<open>m[k] = v\<close> and \<open>delete(m, k)\<close>. The lookup laws hold for every list; \<open>mwf\<close> is
  needed only where equality of whole maps matters.

  A Go call that returns \<open>(T, error)\<close> is a value of \<open>goerr + 'a\<close> (\<open>Inl\<close> the error).
\<close>

named_theorems gomap_simps "lookup laws of Go maps"
named_theorems wf_intros "preservation of the well-formedness predicates"

type_synonym 'v gomap = "(string \<times> 'v) list"

section \<open>Go maps\<close>

fun mput :: "string \<Rightarrow> 'v \<Rightarrow> 'v gomap \<Rightarrow> 'v gomap" where
  "mput k v [] = [(k, v)]"
| "mput k v ((a, b) # m) =
     (if k < a then (k, v) # (a, b) # m
      else if k = a then (k, v) # m
      else (a, b) # mput k v m)"

definition mdel :: "string \<Rightarrow> 'v gomap \<Rightarrow> 'v gomap" where
  "mdel k m = filter (\<lambda>p. fst p \<noteq> k) m"

definition mwf :: "'v gomap \<Rightarrow> bool" where
  "mwf m \<longleftrightarrow> sorted_wrt (<) (map fst m)"

fun mputs :: "'v gomap \<Rightarrow> 'v gomap \<Rightarrow> 'v gomap" where
  "mputs m [] = m"
| "mputs m ((k, v) # kvs) = mputs (mput k v m) kvs"

fun mdels :: "string list \<Rightarrow> 'v gomap \<Rightarrow> 'v gomap" where
  "mdels [] m = m"
| "mdels (k # ks) m = mdels ks (mdel k m)"

lemma mput_lookup [simp, gomap_simps]: "map_of (mput k v m) = (map_of m)(k \<mapsto> v)"
  by (induction k v m rule: mput.induct) (auto simp: fun_eq_iff)

lemma mdel_lookup [simp, gomap_simps]: "map_of (mdel k m) = (map_of m)(k := None)"
  by (induction m) (auto simp: mdel_def fun_eq_iff)

lemma mdels_lookup [simp, gomap_simps]:
  "map_of (mdels ks m) = (\<lambda>k. if k \<in> set ks then None else map_of m k)"
  by (induction ks arbitrary: m) (auto simp: fun_eq_iff)

lemma mput_keys: "fst ` set (mput k v m) = insert k (fst ` set m)"
  by (metis dom_fun_upd dom_map_of_conv_image_fst mput_lookup option.distinct(1))

lemma mwf_Nil [simp]: "mwf []"
  by (simp add: mwf_def)

lemma mwf_Cons: "mwf ((k, v) # m) \<longleftrightarrow> (\<forall>k' \<in> fst ` set m. k < k') \<and> mwf m"
  by (auto simp: mwf_def)

lemma mwf_mput [wf_intros, simp]: "mwf m \<Longrightarrow> mwf (mput k v m)"
proof (induction k v m rule: mput.induct)
  case (1 k v)
  then show ?case by (simp add: mwf_def)
next
  case (2 k v a b m)
  then show ?case
    by (fastforce simp: mwf_Cons mput_keys)
qed

lemma mwf_mdel [wf_intros, simp]: "mwf m \<Longrightarrow> mwf (mdel k m)"
  by (simp add: mwf_def mdel_def sorted_wrt_map sorted_wrt_filter)

lemma mwf_mdels [wf_intros, simp]: "mwf m \<Longrightarrow> mwf (mdels ks m)"
  by (induction ks arbitrary: m) auto

lemma mwf_mputs [wf_intros, simp]: "mwf m \<Longrightarrow> mwf (mputs m kvs)"
  by (induction m kvs rule: mputs.induct) auto

lemma mwf_distinct: "mwf m \<Longrightarrow> distinct (map fst m)"
  by (simp add: mwf_def strict_sorted_iff)

lemma mput_same [simp]: "mwf m \<Longrightarrow> map_of m k = Some v \<Longrightarrow> mput k v m = m"
proof (induction k v m rule: mput.induct)
  case (2 k v a b m)
  then show ?case
    by (force simp: mwf_Cons split: if_splits dest: map_of_SomeD)
qed simp

lemma mput_twice [simp]: "mput k v (mput k v' m) = mput k v m"
  by (induction k v' m rule: mput.induct) auto

lemma mput_front: "\<forall>k' \<in> fst ` set m. k < k' \<Longrightarrow> mput k v m = (k, v) # m"
  by (cases m) auto

lemma map_of_snd [gomap_simps]: "map_of (map (\<lambda>p. (fst p, f (snd p))) m) k = map_option f (map_of m k)"
  by (induction m) auto

lemma keys_map_of: "distinct (map fst m) \<Longrightarrow> map (\<lambda>k. (k, the (map_of m k))) (map fst m) = m"
  by (auto intro!: map_idI)

text \<open>The representation is canonical: lookup determines a well-formed map.\<close>

lemma mwf_map_of_eq:
  assumes "mwf m" and "mwf m'" and eq: "map_of m = map_of m'"
  shows "m = m'"
proof -
  have d: "distinct (map fst m)" "distinct (map fst m')"
    using assms(1,2) by (simp_all add: mwf_distinct)
  have s: "sorted (map fst m)" "sorted (map fst m')"
    using assms(1,2) by (simp_all add: mwf_def strict_sorted_iff)
  have sets: "set m = set m'"
    using map_of_inject_set [OF d] eq by simp
  have keys: "map fst m = map fst m'"
    by (rule sorted_distinct_set_unique [OF s(1) d(1) s(2) d(2)]) (metis sets set_map)
  show ?thesis
    using keys_map_of [OF d(1)] keys_map_of [OF d(2)] keys eq by simp
qed

section \<open>Durations\<close>

text \<open>A \<open>time.Duration\<close> is a count of nanoseconds.\<close>

type_synonym duration = int

abbreviation Second :: duration where "Second \<equiv> 1000000000"

abbreviation Minute :: duration where "Minute \<equiv> 60 * Second"

abbreviation Hour :: duration where "Hour \<equiv> 60 * Minute"

section \<open>Strings\<close>

text \<open>\<open>strings.Split\<close> with a one-byte separator.\<close>

fun Split :: "char \<Rightarrow> string \<Rightarrow> string list" where
  "Split sep [] = [[]]"
| "Split sep (c # s) =
     (if c = sep then [] # Split sep s
      else case Split sep s of seg # segs \<Rightarrow> (c # seg) # segs | [] \<Rightarrow> [[c]])"

lemma Split_no_sep: "seg \<in> set (Split sep s) \<Longrightarrow> sep \<notin> set seg"
  by (induction sep s arbitrary: seg rule: Split.induct) (auto split: if_splits list.splits)

lemma Split_plain: "sep \<notin> set s \<Longrightarrow> Split sep s = [s]"
  by (induction s) auto

lemma Split_append: "sep \<notin> set s \<Longrightarrow> Split sep (s @ sep # t) = s # Split sep t"
  by (induction s) auto

text \<open>\<open>strings.HasPrefix\<close>, \<open>strings.TrimPrefix\<close> and \<open>strings.HasSuffix\<close>.\<close>

definition HasPrefix :: "string \<Rightarrow> string \<Rightarrow> bool" where
  "HasPrefix s p \<longleftrightarrow> take (length p) s = p"

definition TrimPrefix :: "string \<Rightarrow> string \<Rightarrow> string" where
  "TrimPrefix s p = (if HasPrefix s p then drop (length p) s else s)"

definition HasSuffix :: "string \<Rightarrow> string \<Rightarrow> bool" where
  "HasSuffix s p \<longleftrightarrow> length p \<le> length s \<and> drop (length s - length p) s = p"

end
