(* ===== verification/Json.thy ===== *)
theory Json
  imports Prelude
begin

text \<open>
  Values of Go's \<open>any\<close> as \<open>encoding/json\<close> produces them, and the part of that package
  the operator uses.

  Numbers are integers: every numeric field of the custom resources is an \<open>int\<close> or an
  \<open>int64\<close>. Decoding rounds to the nearest \<open>float64\<close> (\<open>float64\<close>). A JSON document is
  \<open>Enc j\<close>, its text identified with the value it denotes (object keys in sorted order, as
  \<open>json.Marshal\<close> writes them); text that is not a JSON document is \<open>Raw s\<close>.
\<close>

datatype json =
    JNull
  | JBool bool
  | JNum int
  | JStr string
  | JArr "json list"
  | JObj "(string \<times> json) list"

datatype "text" = Raw string | Enc json

section \<open>Rounding to float64\<close>

function exp53 :: "nat \<Rightarrow> nat" where
  "exp53 a = (if a < 2 ^ 53 then 0 else Suc (exp53 (a div 2)))"
  by pat_completeness auto
termination
  by (relation "measure id") auto

declare exp53.simps [simp del]

definition round_even :: "nat \<Rightarrow> nat \<Rightarrow> nat" where
  "round_even a e =
     (let q = a div 2 ^ e; r = a mod 2 ^ e
      in if 2 ^ e < 2 * r \<or> 2 ^ e = 2 * r \<and> odd q then Suc q else q)"

definition float64 :: "int \<Rightarrow> int" where
  "float64 n =
     (let a = nat \<bar>n\<bar>; e = exp53 a
      in sgn n * int (round_even a e * 2 ^ e))"

fun jround :: "json \<Rightarrow> json" where
  "jround (JNum n) = JNum (float64 n)"
| "jround (JArr js) = JArr (map jround js)"
| "jround (JObj m) = JObj (map (\<lambda>p. (fst p, jround (snd p))) m)"
| "jround j = j"

section \<open>Encoding and decoding\<close>

definition Marshal :: "json \<Rightarrow> text" where
  "Marshal j = Enc j"

fun Unmarshal :: "text \<Rightarrow> json option" where
  "Unmarshal (Raw s) = None"
| "Unmarshal (Enc j) = Some (jround j)"

text \<open>\<open>json.Unmarshal\<close> into a \<open>map[string]any\<close>: an object, or \<open>null\<close> for the nil map.\<close>

definition Unmarshal_map :: "text \<Rightarrow> json gomap option" where
  "Unmarshal_map t =
     (case Unmarshal t of
        Some (JObj m) \<Rightarrow> Some m
      | Some JNull \<Rightarrow> Some []
      | _ \<Rightarrow> None)"

section \<open>Type assertions\<close>

text \<open>
  \<open>x, _ := v.(T)\<close> gives the zero value when \<open>v\<close> has another dynamic type; \<open>any_map\<close>,
  \<open>any_list\<close> and \<open>any_str\<close> keep the \<open>ok\<close> result as an option. Lookup of an absent key
  is the nil interface, so the argument is the optional value found in a map.
\<close>

fun any_map :: "json option \<Rightarrow> json gomap option" where
  "any_map (Some (JObj m)) = Some m"
| "any_map _ = None"

fun any_list :: "json option \<Rightarrow> json list option" where
  "any_list (Some (JArr l)) = Some l"
| "any_list _ = None"

fun any_str :: "json option \<Rightarrow> string option" where
  "any_str (Some (JStr s)) = Some s"
| "any_str _ = None"

definition str_or_empty :: "json option \<Rightarrow> string" where
  "str_or_empty v = (case any_str v of None \<Rightarrow> [] | Some s \<Rightarrow> s)"

section \<open>Well-formed values\<close>

text \<open>Every object of the value, at any depth, is a Go map.\<close>

fun jwf :: "json \<Rightarrow> bool" where
  "jwf (JArr js) \<longleftrightarrow> list_all jwf js"
| "jwf (JObj m) \<longleftrightarrow> mwf m \<and> list_all (\<lambda>p. jwf (snd p)) m"
| "jwf _ \<longleftrightarrow> True"

definition mjwf :: "json gomap \<Rightarrow> bool" where
  "mjwf m \<longleftrightarrow> mwf m \<and> (\<forall>p \<in> set m. jwf (snd p))"

lemma jwf_JObj [simp]: "jwf (JObj m) \<longleftrightarrow> mjwf m"
  by (auto simp: mjwf_def list_all_iff)

declare jwf.simps(2) [simp del]

lemma mjwf_Nil [simp]: "mjwf []"
  by (simp add: mjwf_def)

lemma mjwf_Cons: "mjwf ((k, v) # m) \<longleftrightarrow> (\<forall>k' \<in> fst ` set m. k < k') \<and> jwf v \<and> mjwf m"
  by (auto simp: mjwf_def mwf_Cons)

lemma mjwf_mwf [simp, dest]: "mjwf m \<Longrightarrow> mwf m"
  by (simp add: mjwf_def)

lemma mjwf_lookup [dest]: "mjwf m \<Longrightarrow> map_of m k = Some v \<Longrightarrow> jwf v"
  by (force simp: mjwf_def dest: map_of_SomeD)

lemma set_mput: "set (mput k v m) \<subseteq> insert (k, v) (set m)"
  by (induction k v m rule: mput.induct) auto

lemma mjwf_mput [wf_intros, simp]: "mjwf m \<Longrightarrow> jwf v \<Longrightarrow> mjwf (mput k v m)"
  using set_mput [of k v m] by (auto simp: mjwf_def)

lemma mjwf_mdel [wf_intros, simp]: "mjwf m \<Longrightarrow> mjwf (mdel k m)"
  by (auto simp: mjwf_def mdel_def intro: mwf_mdel [unfolded mdel_def])

lemma mjwf_mdels [wf_intros, simp]: "mjwf m \<Longrightarrow> mjwf (mdels ks m)"
  by (induction ks arbitrary: m) auto

lemma mjwf_mputs [wf_intros, simp]:
  "mjwf m \<Longrightarrow> \<forall>p \<in> set kvs. jwf (snd p) \<Longrightarrow> mjwf (mputs m kvs)"
  by (induction m kvs rule: mputs.induct) auto

lemma any_map_wf: "mjwf m \<Longrightarrow> any_map (map_of m k) = Some n \<Longrightarrow> mjwf n"
  by (cases "map_of m k" rule: any_map.cases) (auto dest: mjwf_lookup)

section \<open>Rounding is exact up to 2 to the 53 and idempotent\<close>

lemma exp53_small: "a < 2 ^ 53 \<Longrightarrow> exp53 a = 0"
  by (simp add: exp53.simps)

lemma exp53_scaled: "2 ^ 52 \<le> q \<Longrightarrow> q < 2 ^ 53 \<Longrightarrow> exp53 (q * 2 ^ e) = e"
proof (induction e)
  case 0
  then show ?case by (simp add: exp53_small)
next
  case (Suc e)
  have "2 ^ 53 \<le> q * 2 ^ Suc e"
  proof -
    have "(2::nat) ^ 52 * 2 \<le> q * 2 ^ Suc e"
      using Suc.prems by (intro mult_le_mono) simp_all
    then show ?thesis by simp
  qed
  moreover have "q * 2 ^ Suc e div 2 = q * 2 ^ e" by simp
  ultimately show ?case
    using Suc by (subst exp53.simps) simp
qed

lemma exp53_bounds: "2 ^ 52 \<le> a \<Longrightarrow> 2 ^ 52 \<le> a div 2 ^ exp53 a \<and> a div 2 ^ exp53 a < 2 ^ 53"
proof (induction a rule: exp53.induct)
  case (1 a)
  show ?case
  proof (cases "a < 2 ^ 53")
    case True
    with "1.prems" show ?thesis by (simp add: exp53_small)
  next
    case False
    then have "2 ^ 52 \<le> a div 2" by simp
    with False "1.IH" show ?thesis
      by (subst (1 2) exp53.simps) (simp add: div_mult2_eq)
  qed
qed

lemma round_even_exact: "round_even (q * 2 ^ e) e = q"
  by (simp add: round_even_def Let_def)

lemma float64_exact: "\<bar>n\<bar> < 2 ^ 53 \<Longrightarrow> float64 n = n"
proof -
  assume "\<bar>n\<bar> < 2 ^ 53"
  then have "exp53 (nat \<bar>n\<bar>) = 0" by (intro exp53_small) (simp add: nat_less_iff)
  then show ?thesis
    using round_even_exact [of "nat \<bar>n\<bar>" 0] by (simp add: float64_def sgn_mult_abs)
qed

lemma round_even_stable:
  assumes "2 ^ 52 \<le> a"
  shows "round_even (round_even a (exp53 a) * 2 ^ exp53 a)
      (exp53 (round_even a (exp53 a) * 2 ^ exp53 a)) * 2 ^ exp53 (round_even a (exp53 a) * 2 ^ exp53 a)
    = round_even a (exp53 a) * 2 ^ exp53 a"
proof -
  define e where "e = exp53 a"
  define q where "q = round_even a e"
  have "2 ^ 52 \<le> q" "q \<le> 2 ^ 53"
    using exp53_bounds [OF assms] by (auto simp: q_def e_def round_even_def Let_def)
  then consider "q < 2 ^ 53" | "q * 2 ^ e = 2 ^ 52 * 2 ^ Suc e" by fastforce
  then have "round_even (q * 2 ^ e) (exp53 (q * 2 ^ e)) * 2 ^ exp53 (q * 2 ^ e) = q * 2 ^ e"
  proof cases
    case 1
    then show ?thesis
      using \<open>2 ^ 52 \<le> q\<close> by (simp add: exp53_scaled round_even_exact)
  next
    case 2
    then show ?thesis
      using exp53_scaled [of "2 ^ 52" "Suc e"] round_even_exact [of "2 ^ 52" "Suc e"] by simp
  qed
  then show ?thesis by (simp add: q_def e_def)
qed

lemma float64_idem [simp]: "float64 (float64 n) = float64 n"
proof (cases "\<bar>n\<bar> < 2 ^ 53")
  case True
  then show ?thesis by (simp add: float64_exact)
next
  case False
  define a where "a = nat \<bar>n\<bar>"
  from False have a: "2 ^ 52 \<le> a" and n: "n \<noteq> 0" by (auto simp: a_def)
  let ?b = "round_even a (exp53 a) * 2 ^ exp53 a"
  have pos: "0 < ?b"
    using exp53_bounds [OF a] by (auto simp: round_even_def Let_def)
  have "nat \<bar>sgn n * int ?b\<bar> = ?b" "sgn (sgn n * int ?b) = sgn n"
    using n pos by (auto simp: abs_mult sgn_mult nat_mult_distrib abs_sgn_eq)
  then show ?thesis
    using round_even_stable [OF a]
    by (simp add: float64_def Let_def flip: a_def del: of_nat_mult)
qed

lemma jround_idem [simp]: "jround (jround j) = jround j"
  by (induction j rule: jround.induct) auto

lemma jround_wf [wf_intros]: "jwf j \<Longrightarrow> jwf (jround j)"
  by (induction j rule: jround.induct)
    (auto simp: list_all_iff mjwf_def mwf_def comp_def)

text \<open>A decoded value survives a round trip through its encoding.\<close>

lemma Unmarshal_Marshal: "Unmarshal (Marshal (jround j)) = Some (jround j)"
  by (simp add: Marshal_def)

end
