(* ===== verification/Errors.thy ===== *)
theory Errors
  imports Prelude
begin

text \<open>
  Error values of the operator: the sentinel errors and \<open>APIError\<close> of
  \<open>internal/keycloak/errors.go\<close>, \<open>fmt.Errorf\<close> with and without \<open>%w\<close>, and the errors
  handed up by the Kubernetes client and by \<open>net/http\<close>. \<open>Panic\<close> is a run-time panic that
  controller-runtime recovers and returns as the error of the reconciler.

  An error made by \<open>fmt.Errorf\<close> keeps the format and its arguments, so two errors are
  equal when the calls that made them are; a message is the error it is rendered from.
\<close>

datatype goerr =
    ErrNotFound
  | ErrConflict
  | ErrAuth
  | APIError (StatusCode: int) string string string
  | Errorf "string list"
  | Wrapf "string list" goerr
  | KubeErr string
  | TransportErr string
  | Panic string

text \<open>\<open>errors.Is\<close> follows the chain of wrapped errors.\<close>

fun errors_Is :: "goerr \<Rightarrow> goerr \<Rightarrow> bool" where
  "errors_Is (Wrapf args e) target \<longleftrightarrow> Wrapf args e = target \<or> errors_Is e target"
| "errors_Is e target \<longleftrightarrow> e = target"

text \<open>\<open>errors.As\<close> with an \<open>*APIError\<close> target: the status code of the first one in the chain.\<close>

fun errors_As_APIError :: "goerr \<Rightarrow> int option" where
  "errors_As_APIError (Wrapf args e) = errors_As_APIError e"
| "errors_As_APIError (APIError code _ _ _) = Some code"
| "errors_As_APIError _ = None"

text \<open>Messages of conditions and events.\<close>

datatype msg = Lit string | ErrMsg goerr | Prefixed string goerr

text \<open>A chain ends in at most one sentinel: the classes the reconcilers branch on are disjoint.\<close>

fun root_cause :: "goerr \<Rightarrow> goerr" where
  "root_cause (Wrapf args e) = root_cause e"
| "root_cause e = e"

definition sentinel :: "goerr \<Rightarrow> bool" where
  "sentinel e \<longleftrightarrow> e = ErrNotFound \<or> e = ErrConflict \<or> e = ErrAuth"

lemma errors_Is_sentinel: "sentinel t \<Longrightarrow> errors_Is e t \<longleftrightarrow> root_cause e = t"
  by (induction e t rule: errors_Is.induct) (auto simp: sentinel_def)

lemma errors_Is_simps [simp]:
  "errors_Is e ErrNotFound \<longleftrightarrow> root_cause e = ErrNotFound"
  "errors_Is e ErrConflict \<longleftrightarrow> root_cause e = ErrConflict"
  "errors_Is e ErrAuth \<longleftrightarrow> root_cause e = ErrAuth"
  by (simp_all add: errors_Is_sentinel sentinel_def)

lemma errors_As_sentinel: "errors_As_APIError e = Some c \<Longrightarrow> \<not> sentinel (root_cause e)"
  by (induction e rule: errors_As_APIError.induct) (auto simp: sentinel_def)

end
