(* ===== verification/Api.thy ===== *)
theory Api
  imports Json Errors
begin

text \<open>
  The custom resources of \<open>api/v1alpha1\<close>: constants and policies (\<open>common.go\<close>), the six
  managed spec types and the connection, their accessor methods (\<open>methods.go\<close>) and their
  JSON encoding.

  A spec is a record of the fields the operator reads by name; the representation fields
  it only passes through are one map \<open>fields\<close> from JSON name to value, and a table per
  spec type lists the declared fields with their types, in the order of the struct. A
  pointer field is nil when its name is absent from \<open>fields\<close>. Encoding follows the
  \<open>omitempty\<close> tags: absent pointers, empty slices and empty maps are left out.
\<close>

section \<open>Constants\<close>

definition ManagedAnnotation :: string where
  "ManagedAnnotation = ''keycloak.ctn-solutions.io/managed''"

definition ManagedValue :: string where
  "ManagedValue = ''true''"

definition LastAppliedAnnotation :: string where
  "LastAppliedAnnotation = ''keycloak.ctn-solutions.io/last-applied''"

definition AllowProtectedAnnotation :: string where
  "AllowProtectedAnnotation = ''keycloak.ctn-solutions.io/allow-protected''"

definition FinalizerName :: string where
  "FinalizerName = ''keycloak.ctn-solutions.io/finalizer''"

definition ClientSecretKey :: string where
  "ClientSecretKey = ''clientSecret''"

definition ProtectedRealmNames :: "string list" where
  "ProtectedRealmNames = [''master'']"

definition AdoptionCreateOnly :: string where
  "AdoptionCreateOnly = ''CreateOnly''"

definition AdoptionAdopt :: string where
  "AdoptionAdopt = ''Adopt''"

definition AdoptionFailIfExists :: string where
  "AdoptionFailIfExists = ''FailIfExists''"

definition DeletionOrphan :: string where
  "DeletionOrphan = ''Orphan''"

definition DeletionDelete :: string where
  "DeletionDelete = ''Delete''"

lemmas policy_defs = AdoptionCreateOnly_def AdoptionAdopt_def AdoptionFailIfExists_def
  DeletionOrphan_def DeletionDelete_def

lemma policies_distinct [simp]:
  "AdoptionCreateOnly \<noteq> AdoptionAdopt" "AdoptionAdopt \<noteq> AdoptionCreateOnly"
  "AdoptionCreateOnly \<noteq> AdoptionFailIfExists" "AdoptionFailIfExists \<noteq> AdoptionCreateOnly"
  "AdoptionAdopt \<noteq> AdoptionFailIfExists" "AdoptionFailIfExists \<noteq> AdoptionAdopt"
  "DeletionOrphan \<noteq> DeletionDelete" "DeletionDelete \<noteq> DeletionOrphan"
  by (simp_all add: policy_defs)

text \<open>Condition types, their status values and the reasons.\<close>

definition ConditionReady :: string where "ConditionReady = ''Ready''"

definition ConditionSynced :: string where "ConditionSynced = ''Synced''"

datatype condStatus = ConditionTrue | ConditionFalse | ConditionUnknown

datatype reason =
    ReasonSucceeded
  | ReasonRetrying
  | ReasonFailed
  | ReasonConnectionUnavailable
  | ReasonAlreadyExists
  | ReasonSecretMissing
  | ReasonProtectedRealm

section \<open>Shared structures\<close>

record SecretKeySelector =
  sel_name :: string
  sel_key :: string

record SecretKeysSelector =
  sels_name :: string
  sels_keys :: "string gomap"

record condition =
  cond_type :: string
  cond_status :: condStatus
  cond_generation :: int
  cond_reason :: reason
  cond_message :: msg

text \<open>\<open>secretName\<close> is the extra field of \<open>ClientStatus\<close>; it stays empty for the other kinds.\<close>

record ResourceStatus =
  conditions :: "condition list"
  observedGeneration :: int
  secretName :: string

record 's object =
  obj_kind :: string
  obj_namespace :: string
  obj_name :: string
  obj_uid :: string
  obj_generation :: int
  obj_annotations :: "text gomap"
  obj_finalizers :: "string list"
  obj_deletionTimestamp :: "int option"
  obj_status :: ResourceStatus
  obj_spec :: 's

record ProtocolMapper =
  pm_name :: "string option"
  pm_protocol :: "string option"
  pm_protocolMapper :: "string option"
  pm_consentRequired :: "bool option"
  pm_config :: "string gomap"

record IdentityProviderMapper =
  im_name :: string
  im_identityProviderMapper :: "string option"
  im_config :: "string gomap"

record RoleComposites =
  comp_realmRoles :: "string list"
  comp_clientRoles :: "string list gomap"

section \<open>Representation fields\<close>

datatype fkind = KBool | KStr | KInt | KStrs | KMap | KStrsMap | KMappers

datatype fval =
    VBool bool
  | VStr string
  | VInt int
  | VStrs "string list"
  | VMap "string gomap"
  | VStrsMap "string list gomap"
  | VMappers "ProtocolMapper list"

fun kindOf :: "fval \<Rightarrow> fkind" where
  "kindOf (VBool _) = KBool"
| "kindOf (VStr _) = KStr"
| "kindOf (VInt _) = KInt"
| "kindOf (VStrs _) = KStrs"
| "kindOf (VMap _) = KMap"
| "kindOf (VStrsMap _) = KStrsMap"
| "kindOf (VMappers _) = KMappers"

definition jstrs :: "string list \<Rightarrow> json" where
  "jstrs l = JArr (map JStr l)"

definition jmap :: "string gomap \<Rightarrow> json" where
  "jmap m = JObj (mputs [] (map (\<lambda>p. (fst p, JStr (snd p))) m))"

definition jstrsmap :: "string list gomap \<Rightarrow> json" where
  "jstrsmap m = JObj (mputs [] (map (\<lambda>p. (fst p, jstrs (snd p))) m))"

definition jopt :: "string \<Rightarrow> ('a \<Rightarrow> json) \<Rightarrow> 'a option \<Rightarrow> json gomap" where
  "jopt k f v = (case v of None \<Rightarrow> [] | Some x \<Rightarrow> [(k, f x)])"

definition protocolMapperJSON :: "ProtocolMapper \<Rightarrow> json" where
  "protocolMapperJSON m = JObj (mputs []
     (jopt ''name'' JStr (pm_name m) @ jopt ''protocol'' JStr (pm_protocol m) @
      jopt ''protocolMapper'' JStr (pm_protocolMapper m) @
      jopt ''consentRequired'' JBool (pm_consentRequired m) @
      (if pm_config m = [] then [] else [(''config'', jmap (pm_config m))])))"

fun fieldJSON :: "fval \<Rightarrow> json option" where
  "fieldJSON (VBool b) = Some (JBool b)"
| "fieldJSON (VStr s) = Some (JStr s)"
| "fieldJSON (VInt n) = Some (JNum n)"
| "fieldJSON (VStrs l) = (if l = [] then None else Some (jstrs l))"
| "fieldJSON (VMap m) = (if m = [] then None else Some (jmap m))"
| "fieldJSON (VStrsMap m) = (if m = [] then None else Some (jstrsmap m))"
| "fieldJSON (VMappers l) = (if l = [] then None else Some (JArr (map protocolMapperJSON l)))"

fun encodeFields :: "(string \<times> fkind) list \<Rightarrow> fval gomap \<Rightarrow> json gomap" where
  "encodeFields [] fs = []"
| "encodeFields ((k, kind) # tab) fs =
     (case map_of fs k of
        None \<Rightarrow> encodeFields tab fs
      | Some v \<Rightarrow>
          (if kindOf v = kind
           then (case fieldJSON v of None \<Rightarrow> [] | Some j \<Rightarrow> [(k, j)]) @ encodeFields tab fs
           else encodeFields tab fs))"

section \<open>The spec types\<close>

record SpecBase =
  keycloakRef :: string
  spec_realm :: string
  adoptionPolicy :: "string option"
  deletionPolicy :: "string option"

record RealmSpec = SpecBase +
  smtpServerSecretRef :: "SecretKeysSelector option"
  realm_fields :: "fval gomap"

definition RealmSpec_general :: "(string \<times> fkind) list" where
  "RealmSpec_general =
     [(''enabled'', KBool), (''displayName'', KStr), (''displayNameHtml'', KStr),
      (''sslRequired'', KStr), (''notBefore'', KInt), (''registrationAllowed'', KBool),
      (''registrationEmailAsUsername'', KBool), (''loginWithEmailAllowed'', KBool),
      (''duplicateEmailsAllowed'', KBool), (''resetPasswordAllowed'', KBool),
      (''rememberMe'', KBool), (''verifyEmail'', KBool), (''userManagedAccessAllowed'', KBool),
      (''ssoSessionIdleTimeout'', KInt), (''ssoSessionMaxLifespan'', KInt),
      (''ssoSessionIdleTimeoutRememberMe'', KInt), (''ssoSessionMaxLifespanRememberMe'', KInt),
      (''clientSessionIdleTimeout'', KInt), (''clientSessionMaxLifespan'', KInt),
      (''clientOfflineSessionIdleTimeout'', KInt), (''clientOfflineSessionMaxLifespan'', KInt),
      (''accessTokenLifespan'', KInt), (''accessTokenLifespanForImplicitFlow'', KInt),
      (''offlineSessionIdleTimeout'', KInt), (''offlineSessionMaxLifespanEnabled'', KBool),
      (''offlineSessionMaxLifespan'', KInt), (''accessCodeLifespan'', KInt),
      (''accessCodeLifespanUserAction'', KInt), (''accessCodeLifespanLogin'', KInt),
      (''actionTokenGeneratedByAdminLifespan'', KInt),
      (''actionTokenGeneratedByUserLifespan'', KInt), (''oauth2DeviceCodeLifespan'', KInt),
      (''oauth2DevicePollingInterval'', KInt), (''revokeRefreshToken'', KBool),
      (''refreshTokenMaxReuse'', KInt), (''loginTheme'', KStr), (''accountTheme'', KStr),
      (''adminTheme'', KStr), (''emailTheme'', KStr), (''smtpServer'', KMap)]"

definition RealmSpec_policies :: "(string \<times> fkind) list" where
  "RealmSpec_policies =
     [(''eventsEnabled'', KBool), (''eventsExpiration'', KInt), (''eventsListeners'', KStrs),
      (''enabledEventTypes'', KStrs), (''adminEventsEnabled'', KBool),
      (''adminEventsDetailsEnabled'', KBool), (''passwordPolicy'', KStr),
      (''bruteForceProtected'', KBool), (''permanentLockout'', KBool),
      (''maxFailureWaitSeconds'', KInt), (''minimumQuickLoginWaitSeconds'', KInt),
      (''waitIncrementSeconds'', KInt), (''quickLoginCheckMilliSeconds'', KInt),
      (''maxDeltaTimeSeconds'', KInt), (''failureFactor'', KInt), (''otpPolicyType'', KStr),
      (''otpPolicyAlgorithm'', KStr), (''otpPolicyInitialCounter'', KInt),
      (''otpPolicyDigits'', KInt), (''otpPolicyLookAheadWindow'', KInt),
      (''otpPolicyPeriod'', KInt), (''otpPolicyCodeReusable'', KBool),
      (''webAuthnPolicyRpEntityName'', KStr), (''webAuthnPolicySignatureAlgorithms'', KStrs),
      (''webAuthnPolicyRpId'', KStr), (''webAuthnPolicyAttestationConveyancePreference'', KStr),
      (''webAuthnPolicyAuthenticatorAttachment'', KStr),
      (''webAuthnPolicyRequireResidentKey'', KStr),
      (''webAuthnPolicyUserVerificationRequirement'', KStr),
      (''webAuthnPolicyCreateTimeout'', KInt),
      (''webAuthnPolicyAvoidSameAuthenticatorRegister'', KBool),
      (''webAuthnPolicyAcceptableAaguids'', KStrs),
      (''webAuthnPolicyPasswordlessRpEntityName'', KStr),
      (''webAuthnPolicyPasswordlessSignatureAlgorithms'', KStrs),
      (''webAuthnPolicyPasswordlessRpId'', KStr),
      (''webAuthnPolicyPasswordlessAttestationConveyancePreference'', KStr),
      (''webAuthnPolicyPasswordlessAuthenticatorAttachment'', KStr),
      (''webAuthnPolicyPasswordlessRequireResidentKey'', KStr),
      (''webAuthnPolicyPasswordlessUserVerificationRequirement'', KStr),
      (''webAuthnPolicyPasswordlessCreateTimeout'', KInt),
      (''webAuthnPolicyPasswordlessAvoidSameAuthenticatorRegister'', KBool),
      (''webAuthnPolicyPasswordlessAcceptableAaguids'', KStrs),
      (''internationalizationEnabled'', KBool), (''supportedLocales'', KStrs),
      (''defaultLocale'', KStr), (''defaultDefaultClientScopes'', KStrs),
      (''defaultOptionalClientScopes'', KStrs), (''defaultSignatureAlgorithm'', KStr),
      (''attributes'', KMap), (''browserSecurityHeaders'', KMap),
      (''organizationsEnabled'', KBool)]"

definition RealmSpec_table :: "(string \<times> fkind) list" where
  "RealmSpec_table = RealmSpec_general @ RealmSpec_policies"

record ClientSpec = SpecBase +
  clientId :: string
  secretRef :: "SecretKeySelector option"
  secretOutput :: "SecretKeySelector option"
  defaultClientScopes :: "string list option"
  optionalClientScopes :: "string list option"
  client_fields :: "fval gomap"

definition ClientSpec_table :: "(string \<times> fkind) list" where
  "ClientSpec_table =
     [(''name'', KStr), (''description'', KStr), (''enabled'', KBool), (''protocol'', KStr),
      (''publicClient'', KBool), (''bearerOnly'', KBool), (''standardFlowEnabled'', KBool),
      (''implicitFlowEnabled'', KBool), (''directAccessGrantsEnabled'', KBool),
      (''serviceAccountsEnabled'', KBool), (''authorizationServicesEnabled'', KBool),
      (''frontchannelLogout'', KBool), (''fullScopeAllowed'', KBool),
      (''consentRequired'', KBool), (''displayOnConsentScreen'', KBool),
      (''consentScreenText'', KStr), (''alwaysDisplayInConsole'', KBool),
      (''surrogateAuthRequired'', KBool), (''rootUrl'', KStr), (''baseUrl'', KStr),
      (''adminUrl'', KStr), (''redirectUris'', KStrs), (''webOrigins'', KStrs),
      (''nodeReRegistrationTimeout'', KInt), (''clientAuthenticatorType'', KStr),
      (''protocolMappers'', KMappers), (''attributes'', KMap),
      (''authenticationFlowBindingOverrides'', KMap)]"

record ClientScopeSpec = SpecBase +
  scope_name :: string
  scope_fields :: "fval gomap"

definition ClientScopeSpec_table :: "(string \<times> fkind) list" where
  "ClientScopeSpec_table =
     [(''description'', KStr), (''protocol'', KStr), (''attributes'', KMap),
      (''protocolMappers'', KMappers), (''displayOnConsentScreen'', KBool),
      (''consentScreenText'', KStr)]"

record RealmRoleSpec = SpecBase +
  role_name :: string
  role_description :: "string option"
  role_composite :: "bool option"
  role_composites :: "RoleComposites option"
  role_attributes :: "string list gomap"

record IdentityProviderSpec = SpecBase +
  idp_alias :: string
  providerId :: string
  configSecretRef :: "SecretKeysSelector option"
  mappers :: "IdentityProviderMapper list"
  idp_fields :: "fval gomap"

definition IdentityProviderSpec_table :: "(string \<times> fkind) list" where
  "IdentityProviderSpec_table =
     [(''displayName'', KStr), (''enabled'', KBool), (''trustEmail'', KBool),
      (''storeToken'', KBool), (''addReadTokenRoleOnCreate'', KBool), (''linkOnly'', KBool),
      (''firstBrokerLoginFlowAlias'', KStr), (''postBrokerLoginFlowAlias'', KStr),
      (''config'', KMap)]"

record GroupSpec = SpecBase +
  group_name :: string
  group_attributes :: "string list gomap"
  group_realmRoles :: "string list option"
  group_clientRoles :: "string list gomap option"

record KeycloakConnectionSpec =
  conn_url :: string
  conn_credentialsSecretRef :: string
  conn_auth :: "string option"
  conn_adminRealm :: "string option"
  conn_insecureSkipVerify :: "bool option"

section \<open>JSON encoding of the specs\<close>

definition baseJSON :: "'a SpecBase_scheme \<Rightarrow> json gomap" where
  "baseJSON s =
     [(''keycloakRef'', JObj [(''name'', JStr (keycloakRef s))]), (''realm'', JStr (spec_realm s))] @
     jopt ''adoptionPolicy'' JStr (adoptionPolicy s) @ jopt ''deletionPolicy'' JStr (deletionPolicy s)"

definition selectorJSON :: "SecretKeySelector \<Rightarrow> json" where
  "selectorJSON s = JObj
     (mputs [] ([(''name'', JStr (sel_name s))] @
        (if sel_key s = [] then [] else [(''key'', JStr (sel_key s))])))"

definition selectorsJSON :: "SecretKeysSelector \<Rightarrow> json" where
  "selectorsJSON s = JObj (mputs [] [(''name'', JStr (sels_name s)), (''keys'', jmap (sels_keys s))])"

definition compositesJSON :: "RoleComposites \<Rightarrow> json" where
  "compositesJSON c = JObj (mputs []
     ((if comp_realmRoles c = [] then [] else [(''realmRoles'', jstrs (comp_realmRoles c))]) @
      (if comp_clientRoles c = [] then [] else [(''clientRoles'', jstrsmap (comp_clientRoles c))])))"

definition idpMapperJSON :: "IdentityProviderMapper \<Rightarrow> json gomap" where
  "idpMapperJSON m = [(''name'', JStr (im_name m))] @
     jopt ''identityProviderMapper'' JStr (im_identityProviderMapper m) @
     (if im_config m = [] then [] else [(''config'', jmap (im_config m))])"

definition RealmSpec_JSON :: "RealmSpec \<Rightarrow> json gomap" where
  "RealmSpec_JSON s = baseJSON s @ jopt ''smtpServerSecretRef'' selectorsJSON (smtpServerSecretRef s) @
     encodeFields RealmSpec_table (realm_fields s)"

definition ClientSpec_JSON :: "ClientSpec \<Rightarrow> json gomap" where
  "ClientSpec_JSON s = baseJSON s @ [(''clientId'', JStr (clientId s))] @
     jopt ''secretRef'' selectorJSON (secretRef s) @ jopt ''secretOutput'' selectorJSON (secretOutput s) @
     jopt ''defaultClientScopes'' jstrs (defaultClientScopes s) @
     jopt ''optionalClientScopes'' jstrs (optionalClientScopes s) @
     encodeFields ClientSpec_table (client_fields s)"

definition ClientScopeSpec_JSON :: "ClientScopeSpec \<Rightarrow> json gomap" where
  "ClientScopeSpec_JSON s = baseJSON s @ [(''name'', JStr (scope_name s))] @
     encodeFields ClientScopeSpec_table (scope_fields s)"

definition RealmRoleSpec_JSON :: "RealmRoleSpec \<Rightarrow> json gomap" where
  "RealmRoleSpec_JSON s = baseJSON s @ [(''name'', JStr (role_name s))] @
     jopt ''description'' JStr (role_description s) @ jopt ''composite'' JBool (role_composite s) @
     jopt ''composites'' compositesJSON (role_composites s) @
     (if role_attributes s = [] then [] else [(''attributes'', jstrsmap (role_attributes s))])"

definition IdentityProviderSpec_JSON :: "IdentityProviderSpec \<Rightarrow> json gomap" where
  "IdentityProviderSpec_JSON s = baseJSON s @
     [(''alias'', JStr (idp_alias s)), (''providerId'', JStr (providerId s))] @
     jopt ''configSecretRef'' selectorsJSON (configSecretRef s) @
     (if mappers s = [] then []
      else [(''mappers'', JArr (map (\<lambda>m. JObj (mputs [] (idpMapperJSON m))) (mappers s)))]) @
     encodeFields IdentityProviderSpec_table (idp_fields s)"

definition GroupSpec_JSON :: "GroupSpec \<Rightarrow> json gomap" where
  "GroupSpec_JSON s = baseJSON s @ [(''name'', JStr (group_name s))] @
     (if group_attributes s = [] then [] else [(''attributes'', jstrsmap (group_attributes s))]) @
     jopt ''realmRoles'' jstrs (group_realmRoles s) @
     jopt ''clientRoles'' jstrsmap (group_clientRoles s)"

section \<open>Accessor methods\<close>

definition RealmSpec_ConnectionName :: "RealmSpec \<Rightarrow> string" where
  "RealmSpec_ConnectionName s = keycloakRef s"

definition RealmSpec_TargetRealm :: "RealmSpec \<Rightarrow> string" where
  "RealmSpec_TargetRealm s = spec_realm s"

definition RealmSpec_Adoption :: "RealmSpec \<Rightarrow> string" where
  "RealmSpec_Adoption s =
     (case adoptionPolicy s of
        Some p \<Rightarrow> if p \<noteq> [] then p else AdoptionCreateOnly
      | None \<Rightarrow> AdoptionCreateOnly)"

definition RealmSpec_Deletion :: "RealmSpec \<Rightarrow> string" where
  "RealmSpec_Deletion s =
     (case deletionPolicy s of
        Some p \<Rightarrow> if p \<noteq> [] then p else DeletionOrphan
      | None \<Rightarrow> DeletionOrphan)"

definition ClientSpec_ConnectionName :: "ClientSpec \<Rightarrow> string" where
  "ClientSpec_ConnectionName s = keycloakRef s"

definition ClientSpec_TargetRealm :: "ClientSpec \<Rightarrow> string" where
  "ClientSpec_TargetRealm s = spec_realm s"

definition ClientSpec_Adoption :: "ClientSpec \<Rightarrow> string" where
  "ClientSpec_Adoption s =
     (case adoptionPolicy s of
        Some p \<Rightarrow> if p \<noteq> [] then p else AdoptionCreateOnly
      | None \<Rightarrow> AdoptionCreateOnly)"

definition ClientSpec_Deletion :: "ClientSpec \<Rightarrow> string" where
  "ClientSpec_Deletion s =
     (case deletionPolicy s of
        Some p \<Rightarrow> if p \<noteq> [] then p else DeletionDelete
      | None \<Rightarrow> DeletionDelete)"

definition ClientScopeSpec_ConnectionName :: "ClientScopeSpec \<Rightarrow> string" where
  "ClientScopeSpec_ConnectionName s = keycloakRef s"

definition ClientScopeSpec_TargetRealm :: "ClientScopeSpec \<Rightarrow> string" where
  "ClientScopeSpec_TargetRealm s = spec_realm s"

definition ClientScopeSpec_Adoption :: "ClientScopeSpec \<Rightarrow> string" where
  "ClientScopeSpec_Adoption s =
     (case adoptionPolicy s of
        Some p \<Rightarrow> if p \<noteq> [] then p else AdoptionCreateOnly
      | None \<Rightarrow> AdoptionCreateOnly)"

definition ClientScopeSpec_Deletion :: "ClientScopeSpec \<Rightarrow> string" where
  "ClientScopeSpec_Deletion s =
     (case deletionPolicy s of
        Some p \<Rightarrow> if p \<noteq> [] then p else DeletionDelete
      | None \<Rightarrow> DeletionDelete)"

definition RealmRoleSpec_ConnectionName :: "RealmRoleSpec \<Rightarrow> string" where
  "RealmRoleSpec_ConnectionName s = keycloakRef s"

definition RealmRoleSpec_TargetRealm :: "RealmRoleSpec \<Rightarrow> string" where
  "RealmRoleSpec_TargetRealm s = spec_realm s"

definition RealmRoleSpec_Adoption :: "RealmRoleSpec \<Rightarrow> string" where
  "RealmRoleSpec_Adoption s =
     (case adoptionPolicy s of
        Some p \<Rightarrow> if p \<noteq> [] then p else AdoptionCreateOnly
      | None \<Rightarrow> AdoptionCreateOnly)"

definition RealmRoleSpec_Deletion :: "RealmRoleSpec \<Rightarrow> string" where
  "RealmRoleSpec_Deletion s =
     (case deletionPolicy s of
        Some p \<Rightarrow> if p \<noteq> [] then p else DeletionDelete
      | None \<Rightarrow> DeletionDelete)"

definition IdentityProviderSpec_ConnectionName :: "IdentityProviderSpec \<Rightarrow> string" where
  "IdentityProviderSpec_ConnectionName s = keycloakRef s"

definition IdentityProviderSpec_TargetRealm :: "IdentityProviderSpec \<Rightarrow> string" where
  "IdentityProviderSpec_TargetRealm s = spec_realm s"

definition IdentityProviderSpec_Adoption :: "IdentityProviderSpec \<Rightarrow> string" where
  "IdentityProviderSpec_Adoption s =
     (case adoptionPolicy s of
        Some p \<Rightarrow> if p \<noteq> [] then p else AdoptionCreateOnly
      | None \<Rightarrow> AdoptionCreateOnly)"

definition IdentityProviderSpec_Deletion :: "IdentityProviderSpec \<Rightarrow> string" where
  "IdentityProviderSpec_Deletion s =
     (case deletionPolicy s of
        Some p \<Rightarrow> if p \<noteq> [] then p else DeletionDelete
      | None \<Rightarrow> DeletionDelete)"

definition GroupSpec_ConnectionName :: "GroupSpec \<Rightarrow> string" where
  "GroupSpec_ConnectionName s = keycloakRef s"

definition GroupSpec_TargetRealm :: "GroupSpec \<Rightarrow> string" where
  "GroupSpec_TargetRealm s = spec_realm s"

definition GroupSpec_Adoption :: "GroupSpec \<Rightarrow> string" where
  "GroupSpec_Adoption s =
     (case adoptionPolicy s of
        Some p \<Rightarrow> if p \<noteq> [] then p else AdoptionCreateOnly
      | None \<Rightarrow> AdoptionCreateOnly)"

definition GroupSpec_Deletion :: "GroupSpec \<Rightarrow> string" where
  "GroupSpec_Deletion s =
     (case deletionPolicy s of
        Some p \<Rightarrow> if p \<noteq> [] then p else DeletionDelete
      | None \<Rightarrow> DeletionDelete)"

section \<open>Encoded specs are well formed\<close>

lemma jwf_jstrs [simp]: "jwf (jstrs l)"
  by (simp add: jstrs_def list_all_iff)

lemma jwf_jmap [simp]: "jwf (jmap m)"
  by (auto simp: jmap_def intro!: mjwf_mputs)

lemma jwf_jstrsmap [simp]: "jwf (jstrsmap m)"
  by (auto simp: jstrsmap_def intro!: mjwf_mputs)

lemma jopt_wf: "(\<And>x. jwf (f x)) \<Longrightarrow> \<forall>p \<in> set (jopt k f v). jwf (snd p)"
  by (auto simp: jopt_def split: option.splits)

lemma jwf_protocolMapper [simp]: "jwf (protocolMapperJSON m)"
  by (auto simp: protocolMapperJSON_def jopt_def mjwf_Cons split: option.splits)

lemma fieldJSON_wf: "fieldJSON v = Some j \<Longrightarrow> jwf j"
  by (cases v) (auto simp: list_all_iff split: if_splits)

lemma encodeFields_wf: "\<forall>p \<in> set (encodeFields tab fs). jwf (snd p)"
  by (induction tab fs rule: encodeFields.induct) (auto simp: fieldJSON_wf split: option.splits)

lemma baseJSON_wf: "\<forall>p \<in> set (baseJSON s). jwf (snd p)"
  by (auto simp: baseJSON_def jopt_def mjwf_Cons split: option.splits)

lemma selectors_wf [simp]: "jwf (selectorJSON s)" "jwf (selectorsJSON t)" "jwf (compositesJSON c)"
  by (auto simp: selectorJSON_def selectorsJSON_def compositesJSON_def mjwf_Cons)

lemma idpMapperJSON_wf: "\<forall>p \<in> set (idpMapperJSON m). jwf (snd p)"
  by (auto simp: idpMapperJSON_def jopt_def split: option.splits)

lemma specJSON_wf:
  "\<forall>p \<in> set (RealmSpec_JSON rs). jwf (snd p)"
  "\<forall>p \<in> set (ClientSpec_JSON cs). jwf (snd p)"
  "\<forall>p \<in> set (ClientScopeSpec_JSON ss). jwf (snd p)"
  "\<forall>p \<in> set (RealmRoleSpec_JSON ors). jwf (snd p)"
  "\<forall>p \<in> set (IdentityProviderSpec_JSON ips). jwf (snd p)"
  "\<forall>p \<in> set (GroupSpec_JSON gs). jwf (snd p)"
  using baseJSON_wf idpMapperJSON_wf
  by (auto dest: encodeFields_wf [rule_format] simp: RealmSpec_JSON_def ClientSpec_JSON_def ClientScopeSpec_JSON_def RealmRoleSpec_JSON_def
      IdentityProviderSpec_JSON_def GroupSpec_JSON_def jopt_def list_all_iff intro!: mjwf_mputs
      split: option.splits)

end
