(* ===== verification/Kube.thy ===== *)
theory Kube
  imports Api
begin

text \<open>
  The Kubernetes side of the operator, which is not code of the repository: a parameter
  \<open>K\<close>. The record lists the calls the operator makes of \<open>client.Client\<close>,
  \<open>controllerutil\<close> and \<open>meta\<close>, each as a function on the state of the cluster. An
  update, a patch or a status patch that succeeds hands back the object as the API server returned it,
  because the client decodes the response into the object it was given.

  \<open>kube_ok\<close> states the documented behaviour the properties rely on: what the finalizer and
  condition helpers compute.
\<close>

record ownerref =
  ref_uid :: string
  ref_controller :: "bool option"

record secret =
  sec_namespace :: string
  sec_name :: string
  sec_data :: "string gomap"
  sec_owners :: "ownerref list"
  sec_resourceVersion :: string

record ('k, 's) kube =
  k_getSecret :: "'k \<Rightarrow> string \<Rightarrow> string \<Rightarrow> goerr + secret"
  k_createSecret :: "'k \<Rightarrow> secret \<Rightarrow> goerr option \<times> 'k"
  k_updateSecret :: "'k \<Rightarrow> secret \<Rightarrow> goerr option \<times> 'k"
  k_update :: "'k \<Rightarrow> 's object \<Rightarrow> (goerr + 's object) \<times> 'k"
  k_patch :: "'k \<Rightarrow> 's object \<Rightarrow> 's object \<Rightarrow> (goerr + 's object) \<times> 'k"
  k_statusPatch :: "'k \<Rightarrow> 's object \<Rightarrow> 's object \<Rightarrow> (goerr + 's object) \<times> 'k"
  k_isNotFound :: "goerr \<Rightarrow> bool"
  k_setControllerReference :: "'s object \<Rightarrow> secret \<Rightarrow> goerr + secret"
  k_findCondition :: "condition list \<Rightarrow> string \<Rightarrow> condition option"
  k_setCondition :: "condition list \<Rightarrow> condition \<Rightarrow> condition list"
  k_containsFinalizer :: "string list \<Rightarrow> string \<Rightarrow> bool"
  k_addFinalizer :: "string list \<Rightarrow> string \<Rightarrow> string list"
  k_removeFinalizer :: "string list \<Rightarrow> string \<Rightarrow> string list"

definition kube_ok :: "('k, 's) kube \<Rightarrow> bool" where
  "kube_ok K \<longleftrightarrow>
     (\<forall>cs c. k_findCondition K (k_setCondition K cs c) (cond_type c) = Some c) \<and>
     (\<forall>cs c t. t \<noteq> cond_type c \<longrightarrow> k_findCondition K (k_setCondition K cs c) t = k_findCondition K cs t) \<and>
     (\<forall>fs f. k_containsFinalizer K (k_addFinalizer K fs f) f) \<and>
     (\<forall>fs f g. k_containsFinalizer K (k_removeFinalizer K fs f) g \<longleftrightarrow> g \<noteq> f \<and> k_containsFinalizer K fs g)"

text \<open>
  A status patch stores the status of the object it is given: the object handed back
  carries the conditions that were written.
\<close>

definition status_stored :: "('k, 's) kube \<Rightarrow> bool" where
  "status_stored K \<longleftrightarrow>
     (\<forall>k base obj obj' k'. k_statusPatch K k base obj = (Inr obj', k') \<longrightarrow>
        conditions (obj_status obj') = conditions (obj_status obj))"

text \<open>
  A patch or a status patch hands back the last-applied annotation of the object it was
  given: the operator is the only writer of that annotation.
\<close>

definition annotation_stored :: "('k, 's) kube \<Rightarrow> bool" where
  "annotation_stored K \<longleftrightarrow>
     (\<forall>k base obj obj' k'. k_patch K k base obj = (Inr obj', k') \<longrightarrow>
        map_of (obj_annotations obj') LastAppliedAnnotation = map_of (obj_annotations obj) LastAppliedAnnotation) \<and>
     (\<forall>k base obj obj' k'. k_statusPatch K k base obj = (Inr obj', k') \<longrightarrow>
        map_of (obj_annotations obj') LastAppliedAnnotation = map_of (obj_annotations obj) LastAppliedAnnotation)"

text \<open>
  A cluster for concrete instances: it accepts every write and returns the object it was
  given, and it holds a fixed set of Secrets. Its state is the last object written.
\<close>

fun find_type :: "condition list \<Rightarrow> string \<Rightarrow> condition option" where
  "find_type [] t = None"
| "find_type (c # cs) t = (if cond_type c = t then Some c else find_type cs t)"

fun set_type :: "condition list \<Rightarrow> condition \<Rightarrow> condition list" where
  "set_type [] c = [c]"
| "set_type (d # cs) c = (if cond_type d = cond_type c then c # cs else d # set_type cs c)"

definition demo_kube :: "secret list \<Rightarrow> ('s object list, 's) kube" where
  "demo_kube secrets =
     \<lparr>k_getSecret = (\<lambda>k ns n.
        (case filter (\<lambda>s. sec_namespace s = ns \<and> sec_name s = n) secrets of
           [] \<Rightarrow> Inl (KubeErr ''NotFound'') | s # _ \<Rightarrow> Inr s)),
      k_createSecret = (\<lambda>k s. (None, k)),
      k_updateSecret = (\<lambda>k s. (None, k)),
      k_update = (\<lambda>k obj. (Inr obj, k @ [obj])),
      k_patch = (\<lambda>k base obj. (Inr obj, k @ [obj])),
      k_statusPatch = (\<lambda>k base obj. (Inr obj, k)),
      k_isNotFound = (\<lambda>e. e = KubeErr ''NotFound''),
      k_setControllerReference = (\<lambda>obj s. Inr (s\<lparr>sec_owners := [\<lparr>ref_uid = obj_uid obj, ref_controller = Some True\<rparr>]\<rparr>)),
      k_findCondition = find_type,
      k_setCondition = set_type,
      k_containsFinalizer = (\<lambda>fs f. f \<in> set fs),
      k_addFinalizer = (\<lambda>fs f. if f \<in> set fs then fs else fs @ [f]),
      k_removeFinalizer = (\<lambda>fs f. filter (\<lambda>g. g \<noteq> f) fs)\<rparr>"

definition demo_secret :: "string \<Rightarrow> string gomap \<Rightarrow> secret" where
  "demo_secret name dat = \<lparr>sec_namespace = ''ns'', sec_name = name, sec_data = dat, sec_owners = [],
     sec_resourceVersion = []\<rparr>"

definition demo_object :: "string \<Rightarrow> 's \<Rightarrow> 's object" where
  "demo_object kind spec = \<lparr>obj_kind = kind, obj_namespace = ''ns'', obj_name = ''demo'', obj_uid = ''uid'',
     obj_generation = 1, obj_annotations = [], obj_finalizers = [FinalizerName],
     obj_deletionTimestamp = None,
     obj_status = \<lparr>conditions = [], observedGeneration = 0, secretName = []\<rparr>, obj_spec = spec\<rparr>"

lemma find_set_type: "find_type (set_type cs c) t = (if t = cond_type c then Some c else find_type cs t)"
  by (induction cs c rule: set_type.induct) auto

lemma demo_kube_ok: "kube_ok (demo_kube secrets)"
  by (auto simp: kube_ok_def demo_kube_def find_set_type)

lemma demo_kube_stored: "status_stored (demo_kube secrets)"
  by (simp add: status_stored_def demo_kube_def)

lemma demo_kube_annotation: "annotation_stored (demo_kube secrets)"
  by (simp add: annotation_stored_def demo_kube_def)

lemma kube_okD:
  assumes "kube_ok K"
  shows "k_findCondition K (k_setCondition K cs c) (cond_type c) = Some c"
    and "t \<noteq> cond_type c \<Longrightarrow> k_findCondition K (k_setCondition K cs c) t = k_findCondition K cs t"
    and "k_containsFinalizer K (k_addFinalizer K fs f) f"
    and "k_containsFinalizer K (k_removeFinalizer K fs f) g \<longleftrightarrow> g \<noteq> f \<and> k_containsFinalizer K fs g"
  using assms by (auto simp: kube_ok_def)

end
