(* ===== verification/Admin_Client.thy ===== *)
theory Admin_Client
  imports Json Errors
begin

text \<open>
  The Admin API client of \<open>internal/keycloak/client.go\<close>: token acquisition and caching,
  one authenticated request (\<open>doOnce\<close>), the retry after an authentication failure
  (\<open>Do\<close>) and the request metrics.

  The network and the clock are the environment, a parameter \<open>H\<close>: \<open>send\<close> performs one
  HTTP exchange on the state of the outside world, \<open>clock\<close> reads the time in
  nanoseconds, \<open>url_ok\<close> says whether \<open>http.NewRequest\<close> accepts a URL. A response body is
  its bytes together with the JSON value they denote, if any; a body is what the limited
  reader delivers. The client's mutable fields, the world and the metrics emitted so far
  are the state \<open>kcstate\<close>.
\<close>

section \<open>Requests, responses, environment\<close>

datatype req_body = NoBody | FormBody "(string \<times> string) list" | JsonBody json

record request =
  req_method :: string
  req_url :: string
  req_authorization :: string
  req_contentType :: string
  req_body :: req_body

record response =
  resp_status :: int
  resp_bytes :: string
  resp_json :: "json option"

record 'n http =
  send :: "'n \<Rightarrow> request \<Rightarrow> (string + response) \<times> 'n"
  clock :: "'n \<Rightarrow> int"
  url_ok :: "string \<Rightarrow> bool"

text \<open>The metrics the operator emits (\<open>internal/metrics\<close>), in the order of the calls; the
  duration histograms carry no state the program reads and are left out.\<close>

datatype metric =
    AdminRequestsTotal string string string
  | ReconciliationsTotal string string
  | DriftCorrectionsTotal string
  | ConnectionUp string string int
  | ServerInfoDelete string string
  | ServerInfoSet string string string

section \<open>Configuration and client state\<close>

definition DefaultAdminRealm :: string where "DefaultAdminRealm = ''master''"

definition DefaultAdminClientID :: string where "DefaultAdminClientID = ''admin-cli''"

definition AuthPassword :: string where "AuthPassword = ''password''"

definition AuthClient :: string where "AuthClient = ''client''"

record Config =
  ConnectionName :: string
  URL :: string
  AdminRealm :: string
  Auth :: string
  Username :: string
  Password :: string
  ClientID :: string
  ClientSecret :: string
  InsecureSkipVerify :: bool

record Client =
  cfg :: Config
  accessToken :: string
  tokenExpiry :: int

record 'n kcstate =
  cli :: Client
  wire :: 'n
  mlog :: "metric list"

definition New :: "Config \<Rightarrow> Client" where
  "New c =
     (let c1 = (if AdminRealm c = [] then c\<lparr>AdminRealm := DefaultAdminRealm\<rparr> else c);
          c2 = (if Auth c1 = [] then c1\<lparr>Auth := AuthPassword\<rparr> else c1)
      in \<lparr>cfg = c2, accessToken = [], tokenExpiry = 0\<rparr>)"

section \<open>URL escaping\<close>

text \<open>\<open>url.PathEscape\<close> and \<open>url.QueryEscape\<close>, byte by byte.\<close>

definition unreserved :: "char \<Rightarrow> bool" where
  "unreserved c \<longleftrightarrow>
     (let n = (of_char c :: nat)
      in 48 \<le> n \<and> n \<le> 57 \<or> 65 \<le> n \<and> n \<le> 90 \<or> 97 \<le> n \<and> n \<le> 122 \<or> c \<in> set ''-_.~'')"

definition hexdigit :: "nat \<Rightarrow> char" where
  "hexdigit d = char_of (if d < 10 then 48 + d else 55 + d)"

definition percent :: "char \<Rightarrow> string" where
  "percent c = (let n = (of_char c :: nat) in [CHR ''%'', hexdigit (n div 16), hexdigit (n mod 16)])"

definition path_plain :: "char \<Rightarrow> bool" where
  "path_plain c \<longleftrightarrow> unreserved c \<or> c \<in> set ''$&+:=@''"

definition PathEscape :: "string \<Rightarrow> string" where
  "PathEscape s = concat (map (\<lambda>c. if path_plain c then [c] else percent c) s)"

definition QueryEscape :: "string \<Rightarrow> string" where
  "QueryEscape s =
     concat (map (\<lambda>c. if unreserved c then [c] else if c = CHR '' '' then ''+'' else percent c) s)"

section \<open>Tokens\<close>

text \<open>A \<open>time.Duration\<close> is an \<open>int64\<close> count of nanoseconds: the product wraps around.\<close>

definition wrap64 :: "int \<Rightarrow> int" where
  "wrap64 n = (n + 2 ^ 63) mod 2 ^ 64 - 2 ^ 63"

definition str_field :: "json gomap \<Rightarrow> string \<Rightarrow> string option" where
  "str_field m k =
     (case map_of m k of
        None \<Rightarrow> Some []
      | Some JNull \<Rightarrow> Some []
      | Some (JStr s) \<Rightarrow> Some s
      | _ \<Rightarrow> None)"

definition int64_field :: "json gomap \<Rightarrow> string \<Rightarrow> int option" where
  "int64_field m k =
     (case map_of m k of
        None \<Rightarrow> Some 0
      | Some JNull \<Rightarrow> Some 0
      | Some (JNum n) \<Rightarrow> if - (2 ^ 63) \<le> n \<and> n < 2 ^ 63 then Some n else None
      | _ \<Rightarrow> None)"

record token_response =
  tr_access_token :: string
  tr_expires_in :: int
  tr_error :: string
  tr_error_description :: string

definition decode_token :: "json option \<Rightarrow> token_response option" where
  "decode_token body =
     (case body of
        Some JNull \<Rightarrow> Some \<lparr>tr_access_token = [], tr_expires_in = 0, tr_error = [], tr_error_description = []\<rparr>
      | Some (JObj m) \<Rightarrow>
          (case (str_field m ''access_token'', int64_field m ''expires_in'',
                 str_field m ''error'', str_field m ''error_description'') of
             (Some t, Some x, Some e, Some d) \<Rightarrow>
               Some \<lparr>tr_access_token = t, tr_expires_in = x, tr_error = e, tr_error_description = d\<rparr>
           | _ \<Rightarrow> None)
      | _ \<Rightarrow> None)"

definition truncate_body :: "string \<Rightarrow> string" where
  "truncate_body b = (if 512 < length b then take 512 b @ ''...'' else b)"

definition token_form :: "Config \<Rightarrow> (string \<times> string) list" where
  "token_form c =
     (if Auth c = AuthClient
      then [(''grant_type'', ''client_credentials''), (''client_id'', ClientID c),
            (''client_secret'', ClientSecret c)]
      else [(''grant_type'', ''password''),
            (''client_id'', if ClientID c = [] then DefaultAdminClientID else ClientID c),
            (''username'', Username c), (''password'', Password c)])"

definition token_endpoint :: "Config \<Rightarrow> string" where
  "token_endpoint c = URL c @ ''/realms/'' @ PathEscape (AdminRealm c) @ ''/protocol/openid-connect/token''"

definition token_request :: "Config \<Rightarrow> request" where
  "token_request c =
     \<lparr>req_method = ''POST'', req_url = token_endpoint c, req_authorization = [],
      req_contentType = ''application/x-www-form-urlencoded'', req_body = FormBody (token_form c)\<rparr>"

definition token_cached :: "'n http \<Rightarrow> 'n kcstate \<Rightarrow> bool" where
  "token_cached H s \<longleftrightarrow>
     accessToken (cli s) \<noteq> [] \<and> 30 * Second < tokenExpiry (cli s) - clock H (wire s)"

definition Token :: "'n http \<Rightarrow> 'n kcstate \<Rightarrow> (goerr + string) \<times> 'n kcstate" where
  "Token H s =
     (if token_cached H s then (Inr (accessToken (cli s)), s)
      else
        let c = cfg (cli s) in
        if \<not> url_ok H (token_endpoint c)
        then (Inl (Errorf [''build token request'', token_endpoint c]), s)
        else
          case send H (wire s) (token_request c) of
            (Inl e, w) \<Rightarrow> (Inl (Wrapf [''token request: %w''] (TransportErr e)), s\<lparr>wire := w\<rparr>)
          | (Inr r, w) \<Rightarrow>
              let s1 = s\<lparr>wire := w\<rparr>; code = resp_status r in
              if code = 401 \<or> code = 403
              then (Inl (Wrapf [''%w: %s'', truncate_body (resp_bytes r)] ErrAuth), s1)
              else if code \<noteq> 200
              then (Inl (APIError code ''POST'' ''/token'' (resp_bytes r)), s1)
              else
                case decode_token (resp_json r) of
                  None \<Rightarrow> (Inl (Errorf [''decode token response'', resp_bytes r]), s1)
                | Some p \<Rightarrow>
                    if tr_access_token p = [] then
                      (if tr_error p \<noteq> []
                       then (Inl (Wrapf [''%w: %s: %s'', tr_error p, tr_error_description p] ErrAuth), s1)
                       else (Inl (Wrapf [''%w: empty access token''] ErrAuth), s1))
                    else
                      (Inr (tr_access_token p),
                       s1\<lparr>cli := (cli s1)
                            \<lparr>accessToken := tr_access_token p,
                             tokenExpiry := clock H w + wrap64 (tr_expires_in p * Second)\<rparr>\<rparr>))"

definition invalidate :: "'n kcstate \<Rightarrow> 'n kcstate" where
  "invalidate s = s\<lparr>cli := (cli s)\<lparr>accessToken := [], tokenExpiry := 0\<rparr>\<rparr>"

section \<open>Requests\<close>

text \<open>
  The Go type a response is decoded into: nothing, \<open>map[string]any\<close>,
  \<open>[]map[string]any\<close>, or \<open>struct { Value string }\<close>. A nil map is the empty map.
\<close>

datatype out = OutNil | OutMap | OutMaps | OutValue

fun zeroOut :: "out \<Rightarrow> json" where
  "zeroOut OutMap = JObj []"
| "zeroOut OutMaps = JArr []"
| "zeroOut OutValue = JStr []"
| "zeroOut OutNil = JNull"

fun decode_elem :: "json \<Rightarrow> json option" where
  "decode_elem (JObj m) = Some (JObj m)"
| "decode_elem JNull = Some (JObj [])"
| "decode_elem _ = None"

fun decode_elems :: "json list \<Rightarrow> json list option" where
  "decode_elems [] = Some []"
| "decode_elems (j # js) =
     (case (decode_elem j, decode_elems js) of (Some x, Some xs) \<Rightarrow> Some (x # xs) | _ \<Rightarrow> None)"

fun decodeOut :: "out \<Rightarrow> json \<Rightarrow> json option" where
  "decodeOut OutMap j = decode_elem j"
| "decodeOut OutMaps (JArr js) = map_option JArr (decode_elems js)"
| "decodeOut OutMaps JNull = Some (JArr [])"
| "decodeOut OutMaps _ = None"
| "decodeOut OutValue (JObj m) = map_option JStr (str_field m ''value'')"
| "decodeOut OutValue JNull = Some (JStr [])"
| "decodeOut OutValue _ = None"
| "decodeOut OutNil _ = Some JNull"

definition api_request :: "Config \<Rightarrow> string \<Rightarrow> string \<Rightarrow> string \<Rightarrow> json option \<Rightarrow> request" where
  "api_request c token meth path body =
     \<lparr>req_method = meth, req_url = URL c @ path, req_authorization = ''Bearer '' @ token,
      req_contentType = (case body of None \<Rightarrow> [] | Some _ \<Rightarrow> ''application/json''),
      req_body = (case body of None \<Rightarrow> NoBody | Some j \<Rightarrow> JsonBody j)\<rparr>"

definition decode_response :: "string \<Rightarrow> string \<Rightarrow> out \<Rightarrow> response \<Rightarrow> goerr + json" where
  "decode_response meth path target r =
     (let code = resp_status r in
      if 200 \<le> code \<and> code < 300 then
        (if target \<noteq> OutNil \<and> resp_bytes r \<noteq> [] then
           (case resp_json r of
              None \<Rightarrow> Inl (Errorf [''decode response of %s %s'', meth, path])
            | Some j \<Rightarrow>
                (case decodeOut target (jround j) of
                   None \<Rightarrow> Inl (Errorf [''decode response of %s %s'', meth, path])
                 | Some v \<Rightarrow> Inr v))
         else Inr (zeroOut target))
      else if code = 404 then Inl (Wrapf [''%w: %s %s'', meth, path] ErrNotFound)
      else if code = 409 then
        Inl (Wrapf [''%w: %s %s: %s'', meth, path, truncate_body (resp_bytes r)] ErrConflict)
      else if code = 401 \<or> code = 403 then
        Inl (Wrapf [''%w: %s %s: %s'', meth, path, truncate_body (resp_bytes r)] ErrAuth)
      else Inl (APIError code meth path (resp_bytes r)))"

definition doOnce :: "'n http \<Rightarrow> string \<Rightarrow> string \<Rightarrow> json option \<Rightarrow> out \<Rightarrow> 'n kcstate \<Rightarrow>
    (goerr + json) \<times> 'n kcstate" where
  "doOnce H meth path body target s =
     (case Token H s of
        (Inl e, s1) \<Rightarrow> (Inl e, s1)
      | (Inr token, s1) \<Rightarrow>
          let c = cfg (cli s1) in
          if \<not> url_ok H (URL c @ path) then (Inl (Errorf [''build request'', URL c @ path]), s1)
          else
            case send H (wire s1) (api_request c token meth path body) of
              (Inl e, w) \<Rightarrow> (Inl (Wrapf [''%s %s: %w'', meth, path] (TransportErr e)), s1\<lparr>wire := w\<rparr>)
            | (Inr r, w) \<Rightarrow> (decode_response meth path target r, s1\<lparr>wire := w\<rparr>))"

definition status_class :: "goerr option \<Rightarrow> string" where
  "status_class err =
     (case err of
        None \<Rightarrow> ''2xx''
      | Some e \<Rightarrow>
          if errors_Is e ErrNotFound \<or> errors_Is e ErrConflict then ''4xx''
          else if errors_Is e ErrAuth then ''4xx''
          else case errors_As_APIError e of
                 Some code \<Rightarrow> if 500 \<le> code then ''5xx'' else ''4xx''
               | None \<Rightarrow> ''error'')"

definition observeRequest :: "string \<Rightarrow> goerr option \<Rightarrow> 'n kcstate \<Rightarrow> 'n kcstate" where
  "observeRequest meth err s =
     (if ConnectionName (cfg (cli s)) = [] then s
      else s\<lparr>mlog := mlog s @
               [AdminRequestsTotal (ConnectionName (cfg (cli s))) meth (status_class err)]\<rparr>)"

definition err_of :: "'e + 'a \<Rightarrow> 'e option" where
  "err_of r = (case r of Inl e \<Rightarrow> Some e | Inr _ \<Rightarrow> None)"

definition Do :: "'n http \<Rightarrow> string \<Rightarrow> string \<Rightarrow> json option \<Rightarrow> out \<Rightarrow> 'n kcstate \<Rightarrow>
    (goerr + json) \<times> 'n kcstate" where
  "Do H meth path body target s =
     (case doOnce H meth path body target s of
        (r, s1) \<Rightarrow>
          if \<not> (case r of Inl e \<Rightarrow> errors_Is e ErrAuth | Inr _ \<Rightarrow> False)
          then (r, observeRequest meth (err_of r) s1)
          else
            case doOnce H meth path body target (invalidate s1) of
              (r', s2) \<Rightarrow> (r', observeRequest meth (err_of r') s2))"

section \<open>Recording the requests\<close>

text \<open>The environment with the list of requests sent so far beside its state.\<close>

definition traced :: "'n http \<Rightarrow> ('n \<times> request list) http" where
  "traced H =
     \<lparr>send = (\<lambda>w q. case send H (fst w) q of (r, w') \<Rightarrow> (r, (w', snd w @ [q]))),
      clock = (\<lambda>w. clock H (fst w)), url_ok = url_ok H\<rparr>"

lemma traced_simps [simp]:
  "send (traced H) w q = (case send H (fst w) q of (r, w') \<Rightarrow> (r, (w', snd w @ [q])))"
  "clock (traced H) w = clock H (fst w)"
  "url_ok (traced H) = url_ok H"
  by (simp_all add: traced_def)

lemma Token_trace:
  assumes "Token (traced H) s = (r, s')"
  obtains qs where "snd (wire s') = snd (wire s) @ qs" "cfg (cli s') = cfg (cli s)" "mlog s' = mlog s"
    "qs = [] \<or> qs = [token_request (cfg (cli s))]"
    "\<And>t. r = Inr t \<Longrightarrow> t \<noteq> []"
    "\<not> token_cached (traced H) s \<Longrightarrow> url_ok H (token_endpoint (cfg (cli s))) \<Longrightarrow>
       qs = [token_request (cfg (cli s))]"
proof -
  have "\<exists>qs. snd (wire s') = snd (wire s) @ qs \<and> cfg (cli s') = cfg (cli s) \<and> mlog s' = mlog s \<and>
    (qs = [] \<or> qs = [token_request (cfg (cli s))]) \<and> (\<forall>t. r = Inr t \<longrightarrow> t \<noteq> []) \<and>
    (\<not> token_cached (traced H) s \<longrightarrow> url_ok H (token_endpoint (cfg (cli s))) \<longrightarrow>
       qs = [token_request (cfg (cli s))])"
    using assms
    by (auto simp: Token_def Let_def token_cached_def
        split: prod.splits sum.splits option.splits if_splits)
  then show thesis using that by blast
qed

definition api_shape :: "Config \<Rightarrow> string \<Rightarrow> string \<Rightarrow> json option \<Rightarrow> request \<Rightarrow> bool" where
  "api_shape c meth path body q \<longleftrightarrow> (\<exists>t. t \<noteq> [] \<and> q = api_request c t meth path body)"

lemma api_request_not_token: "api_request c t meth path body \<noteq> token_request c'"
  by (simp add: api_request_def token_request_def split: option.splits)

lemma doOnce_trace:
  assumes "doOnce (traced H) meth path body target s = (r, s')"
  obtains qs as where "snd (wire s') = snd (wire s) @ qs @ as" "cfg (cli s') = cfg (cli s)"
    "mlog s' = mlog s" "qs = [] \<or> qs = [token_request (cfg (cli s))]"
    "as = [] \<or> (\<exists>a. as = [a] \<and> api_shape (cfg (cli s)) meth path body a)"
    "\<not> token_cached (traced H) s \<Longrightarrow> url_ok H (token_endpoint (cfg (cli s))) \<Longrightarrow>
       qs = [token_request (cfg (cli s))]"
proof (cases "Token (traced H) s")
  case (Pair tr s1)
  from Token_trace [OF Pair] obtain qs where qs: "snd (wire s1) = snd (wire s) @ qs"
    "cfg (cli s1) = cfg (cli s)" "mlog s1 = mlog s" "qs = [] \<or> qs = [token_request (cfg (cli s))]"
    "\<And>t. tr = Inr t \<Longrightarrow> t \<noteq> []"
    "\<not> token_cached (traced H) s \<Longrightarrow> url_ok H (token_endpoint (cfg (cli s))) \<Longrightarrow>
       qs = [token_request (cfg (cli s))]" by metis
  have "\<exists>as. snd (wire s') = snd (wire s1) @ as \<and> cfg (cli s') = cfg (cli s1) \<and> mlog s' = mlog s1 \<and>
    (as = [] \<or> (\<exists>a. as = [a] \<and> api_shape (cfg (cli s1)) meth path body a))"
    using assms Pair qs(5)
    by (auto simp: doOnce_def Let_def api_shape_def split: prod.splits sum.splits if_splits)
  with qs show thesis using that by (metis append.assoc)
qed

lemma invalidate_simps [simp]:
  "wire (invalidate s) = wire s" "cfg (cli (invalidate s)) = cfg (cli s)" "mlog (invalidate s) = mlog s"
  "\<not> token_cached H (invalidate s)"
  by (simp_all add: invalidate_def token_cached_def)

lemma observeRequest_simps [simp]:
  "wire (observeRequest meth e s) = wire s" "cli (observeRequest meth e s) = cli s"
  by (simp_all add: observeRequest_def)

lemma attempts_bounded:
  assumes "qs = [] \<or> qs = [t]" and "qs' = [] \<or> qs' = [t]"
    and "as = [] \<or> (\<exists>a. as = [a] \<and> P a)" and "as' = [] \<or> (\<exists>a. as' = [a] \<and> P a)" and "\<not> P t"
  shows "length ((qs @ as) @ qs' @ as') \<le> 4 \<and>
    length (filter (\<lambda>q. q = t) ((qs @ as) @ qs' @ as')) \<le> 2 \<and>
    length (filter P ((qs @ as) @ qs' @ as')) \<le> 2 \<and> (\<forall>q \<in> set ((qs @ as) @ qs' @ as'). q = t \<or> P q)"
  using assms by (elim disjE exE conjE) auto

text \<open>Everything a single call of \<open>Do\<close> sends, and in which order.\<close>

lemma Do_trace:
  assumes "Do (traced H) meth path body target s = (r, s')"
  obtains qs as qs' as' where "snd (wire s') = snd (wire s) @ (qs @ as) @ qs' @ as'"
    "cfg (cli s') = cfg (cli s)"
    "qs = [] \<or> qs = [token_request (cfg (cli s))]" "qs' = [] \<or> qs' = [token_request (cfg (cli s))]"
    "as = [] \<or> (\<exists>a. as = [a] \<and> api_shape (cfg (cli s)) meth path body a)"
    "as' = [] \<or> (\<exists>a. as' = [a] \<and> api_shape (cfg (cli s)) meth path body a)"
    "(\<exists>e. r = Inl e \<and> root_cause e = ErrAuth) \<Longrightarrow> url_ok H (token_endpoint (cfg (cli s))) \<Longrightarrow>
       qs' = [token_request (cfg (cli s))]"
proof (cases "doOnce (traced H) meth path body target s")
  case first: (Pair r1 s1)
  from doOnce_trace [OF first] obtain qs as where one: "snd (wire s1) = snd (wire s) @ qs @ as"
    "cfg (cli s1) = cfg (cli s)" "qs = [] \<or> qs = [token_request (cfg (cli s))]"
    "as = [] \<or> (\<exists>a. as = [a] \<and> api_shape (cfg (cli s)) meth path body a)" by metis
  show thesis
  proof (cases "\<exists>e. r1 = Inl e \<and> root_cause e = ErrAuth")
    case False
    then have "r = r1" "wire s' = wire s1" "cli s' = cli s1"
      using assms first by (auto simp: Do_def split: sum.splits if_splits)
    then show thesis using that [of qs as "[]" "[]"] one False by auto
  next
    case True
    obtain r2 s2 where second: "doOnce (traced H) meth path body target (invalidate s1) = (r2, s2)"
      by fastforce
    from doOnce_trace [OF second] obtain qs' as' where two: "snd (wire s2) = snd (wire s1) @ qs' @ as'"
      "cfg (cli s2) = cfg (cli s1)" "qs' = [] \<or> qs' = [token_request (cfg (cli s1))]"
      "as' = [] \<or> (\<exists>a. as' = [a] \<and> api_shape (cfg (cli s1)) meth path body a)"
      "url_ok H (token_endpoint (cfg (cli s1))) \<Longrightarrow> qs' = [token_request (cfg (cli s1))]"
      by (metis invalidate_simps)
    have "wire s' = wire s2" "cli s' = cli s2"
      using assms first second True by (auto simp: Do_def split: sum.splits if_splits)
    then show thesis using that [of qs as qs' as'] one two by simp
  qed
qed

section \<open>Properties\<close>

text \<open>An environment that gives every request the same answer, for concrete instances.\<close>

definition steady :: "response \<Rightarrow> unit http" where
  "steady r = \<lparr>send = (\<lambda>w q. (Inr r, w)), clock = (\<lambda>w. 0), url_ok = (\<lambda>u. True)\<rparr>"

definition demo_state :: "'n \<Rightarrow> 'n kcstate" where
  "demo_state w =
     \<lparr>cli = New \<lparr>ConnectionName = ''ns/kc'', URL = ''http://kc'', AdminRealm = [], Auth = [],
                 Username = ''admin'', Password = ''pw'', ClientID = [], ClientSecret = [],
                 InsecureSkipVerify = False\<rparr>,
      wire = w, mlog = []\<rparr>"

text \<open>
  C15: One call of \<open>Do\<close> sends at most four requests: at most two token grants and at most
  two copies of the API request. It sends nothing else, and every copy of the API request
  carries a non-empty bearer token.
\<close>
theorem Do_requests_bounded:
  assumes "Do (traced H) meth path body target s = (r, s')"
  shows "\<exists>qs. snd (wire s') = snd (wire s) @ qs \<and> length qs \<le> 4 \<and>
    length (filter (\<lambda>q. q = token_request (cfg (cli s))) qs) \<le> 2 \<and>
    length (filter (api_shape (cfg (cli s)) meth path body) qs) \<le> 2 \<and>
    (\<forall>q \<in> set qs. q = token_request (cfg (cli s)) \<or> api_shape (cfg (cli s)) meth path body q)"
proof -
  let ?c = "cfg (cli s)"
  have no: "\<not> api_shape ?c meth path body (token_request ?c)"
    using api_request_not_token by (metis api_shape_def)
  show ?thesis
  proof (rule Do_trace [OF assms])
    fix qs as qs' as'
    assume t: "snd (wire s') = snd (wire s) @ (qs @ as) @ qs' @ as'"
      and a: "qs = [] \<or> qs = [token_request ?c]" "qs' = [] \<or> qs' = [token_request ?c]"
      "as = [] \<or> (\<exists>a. as = [a] \<and> api_shape ?c meth path body a)"
      "as' = [] \<or> (\<exists>a. as' = [a] \<and> api_shape ?c meth path body a)"
    from conjI [OF t attempts_bounded [OF a no]] show ?thesis by (rule exI)
  qed
qed

theorem Do_requests_bounded_witness:
  "\<exists>qs. snd (wire (snd (Do (traced (steady \<lparr>resp_status = 401, resp_bytes = [], resp_json = None\<rparr>))
      ''GET'' ''/admin'' None OutMap (demo_state ((), []))))) = [] @ qs \<and> length qs \<le> 4"
proof -
  let ?d = "Do (traced (steady \<lparr>resp_status = 401, resp_bytes = [], resp_json = None\<rparr>))
    ''GET'' ''/admin'' None OutMap (demo_state ((), []))"
  have "?d = (fst ?d, snd ?d)" by simp
  from Do_requests_bounded [OF this] show ?thesis by (auto simp: demo_state_def)
qed



text \<open>
  The sentinel errors mirror the HTTP status exactly: 404 is \<open>ErrNotFound\<close>, 409 is
  \<open>ErrConflict\<close>, 401 and 403 are \<open>ErrAuth\<close>, and no other status produces one of them.
\<close>
lemma sentinel_iff_status:
  "((\<exists>e. decode_response meth path target r = Inl e \<and> errors_Is e ErrNotFound) \<longleftrightarrow> resp_status r = 404) \<and>
   ((\<exists>e. decode_response meth path target r = Inl e \<and> errors_Is e ErrConflict) \<longleftrightarrow> resp_status r = 409) \<and>
   ((\<exists>e. decode_response meth path target r = Inl e \<and> errors_Is e ErrAuth) \<longleftrightarrow>
      resp_status r = 401 \<or> resp_status r = 403)"
  by (auto simp: decode_response_def Let_def split: option.splits if_splits)

text \<open>
  A granted token is cached: if the token endpoint answers 200 with a non-empty token
  whose lifetime is above 30 seconds and below the range of a 64-bit nanosecond duration,
  \<open>Token\<close> returns it, and asking again at the same instant returns it without a request.
\<close>
lemma granted_token_is_cached:
  assumes "\<not> token_cached H s" and "url_ok H (token_endpoint (cfg (cli s)))"
    and "send H (wire s) (token_request (cfg (cli s))) = (Inr r, w)"
    and "resp_status r = 200" and "decode_token (resp_json r) = Some p" and "tr_access_token p \<noteq> []"
    and "30 < tr_expires_in p" and "tr_expires_in p \<le> 9223372036"
  shows "\<exists>s1. Token H s = (Inr (tr_access_token p), s1) \<and> wire s1 = w \<and>
    Token H s1 = (Inr (tr_access_token p), s1)"
proof -
  have "wrap64 (tr_expires_in p * Second) = tr_expires_in p * Second"
    using assms(7,8) by (simp add: wrap64_def)
  moreover have "30 * Second < tr_expires_in p * Second"
    using assms(7) by simp
  ultimately show ?thesis
    using assms by (auto simp: Token_def Let_def token_cached_def)
qed

end
