(* ===== verification/Resources.thy ===== *)
theory Resources
  imports Admin_Client
begin

text \<open>
  The Admin API operations of \<open>internal/keycloak/resources.go\<close>. The client they are methods
  of is the argument \<open>kc\<close>, its method \<open>Do\<close>: a function from method, path, body and
  target type to a state transformer on the world. \<open>Do H\<close> of \<open>Admin_Client\<close> is the client
  itself; \<open>recorded kc\<close> also keeps the list of calls, for statements about what an
  operation asks of the server.
\<close>

type_synonym 'w kc = "string \<Rightarrow> string \<Rightarrow> json option \<Rightarrow> out \<Rightarrow> 'w \<Rightarrow> (goerr + json) \<times> 'w"

section \<open>Results\<close>

definition map_result :: "('a \<Rightarrow> 'b) \<Rightarrow> ('e + 'a) \<times> 'w \<Rightarrow> ('e + 'b) \<times> 'w" where
  "map_result f x = (case x of (Inl e, w) \<Rightarrow> (Inl e, w) | (Inr a, w) \<Rightarrow> (Inr (f a), w))"

definition no_result :: "('e + 'a) \<times> 'w \<Rightarrow> 'e option \<times> 'w" where
  "no_result x = (case x of (Inl e, w) \<Rightarrow> (Some e, w) | (Inr a, w) \<Rightarrow> (None, w))"

fun as_obj :: "json \<Rightarrow> json gomap" where
  "as_obj (JObj m) = m"
| "as_obj _ = []"

fun as_objs :: "json \<Rightarrow> json gomap list" where
  "as_objs (JArr js) = map as_obj js"
| "as_objs _ = []"

fun as_str :: "json \<Rightarrow> string" where
  "as_str (JStr s) = s"
| "as_str _ = []"

definition reps :: "json gomap list \<Rightarrow> json" where
  "reps rs = JArr (map JObj rs)"

section \<open>Paths\<close>

definition realmPath :: "string \<Rightarrow> string" where
  "realmPath realm = ''/admin/realms/'' @ PathEscape realm"

section \<open>Server and realms\<close>

definition ServerInfo :: "'w kc \<Rightarrow> 'w \<Rightarrow> (goerr + json gomap) \<times> 'w" where
  "ServerInfo kc w = map_result as_obj (kc ''GET'' ''/admin/serverinfo'' None OutMap w)"

definition GetRealm :: "'w kc \<Rightarrow> string \<Rightarrow> 'w \<Rightarrow> (goerr + json gomap) \<times> 'w" where
  "GetRealm kc realm w = map_result as_obj (kc ''GET'' (realmPath realm) None OutMap w)"

definition CreateRealm :: "'w kc \<Rightarrow> json gomap \<Rightarrow> 'w \<Rightarrow> goerr option \<times> 'w" where
  "CreateRealm kc payload w = no_result (kc ''POST'' ''/admin/realms'' (Some (JObj payload)) OutNil w)"

definition UpdateRealm :: "'w kc \<Rightarrow> string \<Rightarrow> json gomap \<Rightarrow> 'w \<Rightarrow> goerr option \<times> 'w" where
  "UpdateRealm kc realm payload w = no_result (kc ''PUT'' (realmPath realm) (Some (JObj payload)) OutNil w)"

definition DeleteRealm :: "'w kc \<Rightarrow> string \<Rightarrow> 'w \<Rightarrow> goerr option \<times> 'w" where
  "DeleteRealm kc realm w = no_result (kc ''DELETE'' (realmPath realm) None OutNil w)"

section \<open>Clients\<close>

fun find_rep :: "string \<Rightarrow> string \<Rightarrow> json gomap list \<Rightarrow> json gomap option" where
  "find_rep key v [] = None"
| "find_rep key v (rep # rest) =
     (if map_of rep key = Some (JStr v) then Some rep else find_rep key v rest)"

definition FindClient :: "'w kc \<Rightarrow> string \<Rightarrow> string \<Rightarrow> 'w \<Rightarrow> (goerr + json gomap) \<times> 'w" where
  "FindClient kc realm clientID w =
     (case kc ''GET'' (realmPath realm @ ''/clients?clientId='' @ QueryEscape clientID) None OutMaps w of
        (Inl e, w1) \<Rightarrow> (Inl e, w1)
      | (Inr out, w1) \<Rightarrow>
          (case find_rep ''clientId'' clientID (as_objs out) of
             Some rep \<Rightarrow> (Inr rep, w1)
           | None \<Rightarrow> (Inl (Wrapf [''%w: client %q'', clientID] ErrNotFound), w1)))"

definition client_path :: "string \<Rightarrow> string \<Rightarrow> string" where
  "client_path realm ident = realmPath realm @ ''/clients/'' @ PathEscape ident"

definition CreateClient :: "'w kc \<Rightarrow> string \<Rightarrow> json gomap \<Rightarrow> 'w \<Rightarrow> goerr option \<times> 'w" where
  "CreateClient kc realm payload w =
     no_result (kc ''POST'' (realmPath realm @ ''/clients'') (Some (JObj payload)) OutNil w)"

definition UpdateClient :: "'w kc \<Rightarrow> string \<Rightarrow> string \<Rightarrow> json gomap \<Rightarrow> 'w \<Rightarrow> goerr option \<times> 'w" where
  "UpdateClient kc realm ident payload w =
     no_result (kc ''PUT'' (client_path realm ident) (Some (JObj payload)) OutNil w)"

definition DeleteClient :: "'w kc \<Rightarrow> string \<Rightarrow> string \<Rightarrow> 'w \<Rightarrow> goerr option \<times> 'w" where
  "DeleteClient kc realm ident w = no_result (kc ''DELETE'' (client_path realm ident) None OutNil w)"

definition GetClientSecret :: "'w kc \<Rightarrow> string \<Rightarrow> string \<Rightarrow> 'w \<Rightarrow> (goerr + string) \<times> 'w" where
  "GetClientSecret kc realm ident w =
     map_result as_str (kc ''GET'' (client_path realm ident @ ''/client-secret'') None OutValue w)"

section \<open>Client scopes\<close>

definition ListClientScopes :: "'w kc \<Rightarrow> string \<Rightarrow> 'w \<Rightarrow> (goerr + json gomap list) \<times> 'w" where
  "ListClientScopes kc realm w =
     map_result as_objs (kc ''GET'' (realmPath realm @ ''/client-scopes'') None OutMaps w)"

definition FindClientScope :: "'w kc \<Rightarrow> string \<Rightarrow> string \<Rightarrow> 'w \<Rightarrow> (goerr + json gomap) \<times> 'w" where
  "FindClientScope kc realm name w =
     (case ListClientScopes kc realm w of
        (Inl e, w1) \<Rightarrow> (Inl e, w1)
      | (Inr scopes, w1) \<Rightarrow>
          (case find_rep ''name'' name scopes of
             Some scope \<Rightarrow> (Inr scope, w1)
           | None \<Rightarrow> (Inl (Wrapf [''%w: client scope %q'', name] ErrNotFound), w1)))"

definition scope_path :: "string \<Rightarrow> string \<Rightarrow> string" where
  "scope_path realm ident = realmPath realm @ ''/client-scopes/'' @ PathEscape ident"

definition CreateClientScope :: "'w kc \<Rightarrow> string \<Rightarrow> json gomap \<Rightarrow> 'w \<Rightarrow> goerr option \<times> 'w" where
  "CreateClientScope kc realm payload w =
     no_result (kc ''POST'' (realmPath realm @ ''/client-scopes'') (Some (JObj payload)) OutNil w)"

definition UpdateClientScope :: "'w kc \<Rightarrow> string \<Rightarrow> string \<Rightarrow> json gomap \<Rightarrow> 'w \<Rightarrow> goerr option \<times> 'w" where
  "UpdateClientScope kc realm ident payload w =
     no_result (kc ''PUT'' (scope_path realm ident) (Some (JObj payload)) OutNil w)"

definition DeleteClientScope :: "'w kc \<Rightarrow> string \<Rightarrow> string \<Rightarrow> 'w \<Rightarrow> goerr option \<times> 'w" where
  "DeleteClientScope kc realm ident w = no_result (kc ''DELETE'' (scope_path realm ident) None OutNil w)"

section \<open>Client scope assignments\<close>

definition listClientScopeAssignments ::
    "'w kc \<Rightarrow> string \<Rightarrow> string \<Rightarrow> string \<Rightarrow> 'w \<Rightarrow> (goerr + json gomap list) \<times> 'w" where
  "listClientScopeAssignments kc realm clientID kind w =
     map_result as_objs (kc ''GET'' (client_path realm clientID @ ''/'' @ kind) None OutMaps w)"

definition assignClientScope ::
    "'w kc \<Rightarrow> string \<Rightarrow> string \<Rightarrow> string \<Rightarrow> string \<Rightarrow> bool \<Rightarrow> 'w \<Rightarrow> goerr option \<times> 'w" where
  "assignClientScope kc realm clientID kind scopeID add w =
     no_result (kc (if add then ''PUT'' else ''DELETE'')
       (client_path realm clientID @ ''/'' @ kind @ ''/'' @ PathEscape scopeID) None OutNil w)"

definition ClientDefaultScopeAssignments ::
    "'w kc \<Rightarrow> string \<Rightarrow> string \<Rightarrow> 'w \<Rightarrow> (goerr + json gomap list) \<times> 'w" where
  "ClientDefaultScopeAssignments kc realm clientID =
     listClientScopeAssignments kc realm clientID ''default-client-scopes''"

definition AssignClientDefaultScope ::
    "'w kc \<Rightarrow> string \<Rightarrow> string \<Rightarrow> string \<Rightarrow> bool \<Rightarrow> 'w \<Rightarrow> goerr option \<times> 'w" where
  "AssignClientDefaultScope kc realm clientID scopeID add =
     assignClientScope kc realm clientID ''default-client-scopes'' scopeID add"

definition ClientOptionalScopeAssignments ::
    "'w kc \<Rightarrow> string \<Rightarrow> string \<Rightarrow> 'w \<Rightarrow> (goerr + json gomap list) \<times> 'w" where
  "ClientOptionalScopeAssignments kc realm clientID =
     listClientScopeAssignments kc realm clientID ''optional-client-scopes''"

definition AssignClientOptionalScope ::
    "'w kc \<Rightarrow> string \<Rightarrow> string \<Rightarrow> string \<Rightarrow> bool \<Rightarrow> 'w \<Rightarrow> goerr option \<times> 'w" where
  "AssignClientOptionalScope kc realm clientID scopeID add =
     assignClientScope kc realm clientID ''optional-client-scopes'' scopeID add"

section \<open>Realm roles\<close>

definition role_path :: "string \<Rightarrow> string \<Rightarrow> string" where
  "role_path realm name = realmPath realm @ ''/roles/'' @ PathEscape name"

definition GetRole :: "'w kc \<Rightarrow> string \<Rightarrow> string \<Rightarrow> 'w \<Rightarrow> (goerr + json gomap) \<times> 'w" where
  "GetRole kc realm name w = map_result as_obj (kc ''GET'' (role_path realm name) None OutMap w)"

definition CreateRole :: "'w kc \<Rightarrow> string \<Rightarrow> json gomap \<Rightarrow> 'w \<Rightarrow> goerr option \<times> 'w" where
  "CreateRole kc realm payload w =
     no_result (kc ''POST'' (realmPath realm @ ''/roles'') (Some (JObj payload)) OutNil w)"

definition UpdateRole :: "'w kc \<Rightarrow> string \<Rightarrow> string \<Rightarrow> json gomap \<Rightarrow> 'w \<Rightarrow> goerr option \<times> 'w" where
  "UpdateRole kc realm name payload w =
     no_result (kc ''PUT'' (role_path realm name) (Some (JObj payload)) OutNil w)"

definition DeleteRole :: "'w kc \<Rightarrow> string \<Rightarrow> string \<Rightarrow> 'w \<Rightarrow> goerr option \<times> 'w" where
  "DeleteRole kc realm name w = no_result (kc ''DELETE'' (role_path realm name) None OutNil w)"

definition GetRoleComposites :: "'w kc \<Rightarrow> string \<Rightarrow> string \<Rightarrow> 'w \<Rightarrow> (goerr + json gomap list) \<times> 'w" where
  "GetRoleComposites kc realm name w =
     map_result as_objs (kc ''GET'' (role_path realm name @ ''/composites'') None OutMaps w)"

definition AddRoleComposites ::
    "'w kc \<Rightarrow> string \<Rightarrow> string \<Rightarrow> json gomap list \<Rightarrow> 'w \<Rightarrow> goerr option \<times> 'w" where
  "AddRoleComposites kc realm name roles w =
     no_result (kc ''POST'' (role_path realm name @ ''/composites'') (Some (reps roles)) OutNil w)"

definition RemoveRoleComposites ::
    "'w kc \<Rightarrow> string \<Rightarrow> string \<Rightarrow> json gomap list \<Rightarrow> 'w \<Rightarrow> goerr option \<times> 'w" where
  "RemoveRoleComposites kc realm name roles w =
     no_result (kc ''DELETE'' (role_path realm name @ ''/composites'') (Some (reps roles)) OutNil w)"

definition GetClientRole ::
    "'w kc \<Rightarrow> string \<Rightarrow> string \<Rightarrow> string \<Rightarrow> 'w \<Rightarrow> (goerr + json gomap) \<times> 'w" where
  "GetClientRole kc realm clientUUID name w =
     map_result as_obj
       (kc ''GET'' (client_path realm clientUUID @ ''/roles/'' @ PathEscape name) None OutMap w)"

section \<open>Identity providers\<close>

definition idp_path :: "string \<Rightarrow> string \<Rightarrow> string" where
  "idp_path realm idpAlias = realmPath realm @ ''/identity-provider/instances/'' @ PathEscape idpAlias"

definition GetIdentityProvider :: "'w kc \<Rightarrow> string \<Rightarrow> string \<Rightarrow> 'w \<Rightarrow> (goerr + json gomap) \<times> 'w" where
  "GetIdentityProvider kc realm idpAlias w =
     map_result as_obj (kc ''GET'' (idp_path realm idpAlias) None OutMap w)"

definition CreateIdentityProvider :: "'w kc \<Rightarrow> string \<Rightarrow> json gomap \<Rightarrow> 'w \<Rightarrow> goerr option \<times> 'w" where
  "CreateIdentityProvider kc realm payload w =
     no_result (kc ''POST'' (realmPath realm @ ''/identity-provider/instances'') (Some (JObj payload)) OutNil w)"

definition UpdateIdentityProvider ::
    "'w kc \<Rightarrow> string \<Rightarrow> string \<Rightarrow> json gomap \<Rightarrow> 'w \<Rightarrow> goerr option \<times> 'w" where
  "UpdateIdentityProvider kc realm idpAlias payload w =
     no_result (kc ''PUT'' (idp_path realm idpAlias) (Some (JObj payload)) OutNil w)"

definition ListIdentityProviderMappers ::
    "'w kc \<Rightarrow> string \<Rightarrow> string \<Rightarrow> 'w \<Rightarrow> (goerr + json gomap list) \<times> 'w" where
  "ListIdentityProviderMappers kc realm idpAlias w =
     map_result as_objs (kc ''GET'' (idp_path realm idpAlias @ ''/mappers'') None OutMaps w)"

definition CreateIdentityProviderMapper ::
    "'w kc \<Rightarrow> string \<Rightarrow> string \<Rightarrow> json gomap \<Rightarrow> 'w \<Rightarrow> goerr option \<times> 'w" where
  "CreateIdentityProviderMapper kc realm idpAlias payload w =
     no_result (kc ''POST'' (idp_path realm idpAlias @ ''/mappers'') (Some (JObj payload)) OutNil w)"

definition UpdateIdentityProviderMapper ::
    "'w kc \<Rightarrow> string \<Rightarrow> string \<Rightarrow> string \<Rightarrow> json gomap \<Rightarrow> 'w \<Rightarrow> goerr option \<times> 'w" where
  "UpdateIdentityProviderMapper kc realm idpAlias mapperID payload w =
     no_result (kc ''PUT'' (idp_path realm idpAlias @ ''/mappers/'' @ PathEscape mapperID)
       (Some (JObj payload)) OutNil w)"

definition DeleteIdentityProviderMapper ::
    "'w kc \<Rightarrow> string \<Rightarrow> string \<Rightarrow> string \<Rightarrow> 'w \<Rightarrow> goerr option \<times> 'w" where
  "DeleteIdentityProviderMapper kc realm idpAlias mapperID w =
     no_result (kc ''DELETE'' (idp_path realm idpAlias @ ''/mappers/'' @ PathEscape mapperID) None OutNil w)"

definition DeleteIdentityProvider :: "'w kc \<Rightarrow> string \<Rightarrow> string \<Rightarrow> 'w \<Rightarrow> goerr option \<times> 'w" where
  "DeleteIdentityProvider kc realm idpAlias w =
     no_result (kc ''DELETE'' (idp_path realm idpAlias) None OutNil w)"

section \<open>Groups\<close>

definition group_path :: "string \<Rightarrow> string \<Rightarrow> string" where
  "group_path realm ident = realmPath realm @ ''/groups/'' @ PathEscape ident"

definition GetGroup :: "'w kc \<Rightarrow> string \<Rightarrow> string \<Rightarrow> 'w \<Rightarrow> (goerr + json gomap) \<times> 'w" where
  "GetGroup kc realm ident w = map_result as_obj (kc ''GET'' (group_path realm ident) None OutMap w)"

definition FindGroup :: "'w kc \<Rightarrow> string \<Rightarrow> string \<Rightarrow> 'w \<Rightarrow> (goerr + json gomap) \<times> 'w" where
  "FindGroup kc realm name w =
     (case kc ''GET'' (realmPath realm @ ''/groups?search='' @ QueryEscape name @ ''&exact=true&max=2'')
             None OutMaps w of
        (Inl e, w1) \<Rightarrow> (Inl e, w1)
      | (Inr out, w1) \<Rightarrow>
          (case find_rep ''name'' name (as_objs out) of
             Some rep \<Rightarrow>
               let ident = str_or_empty (map_of rep ''id'') in
               if ident = [] then (Inl (Wrapf [''%w: group %q has no id'', name] ErrNotFound), w1)
               else GetGroup kc realm ident w1
           | None \<Rightarrow> (Inl (Wrapf [''%w: group %q'', name] ErrNotFound), w1)))"

definition CreateGroup :: "'w kc \<Rightarrow> string \<Rightarrow> json gomap \<Rightarrow> 'w \<Rightarrow> goerr option \<times> 'w" where
  "CreateGroup kc realm payload w =
     no_result (kc ''POST'' (realmPath realm @ ''/groups'') (Some (JObj payload)) OutNil w)"

definition UpdateGroup :: "'w kc \<Rightarrow> string \<Rightarrow> string \<Rightarrow> json gomap \<Rightarrow> 'w \<Rightarrow> goerr option \<times> 'w" where
  "UpdateGroup kc realm ident payload w =
     no_result (kc ''PUT'' (group_path realm ident) (Some (JObj payload)) OutNil w)"

definition DeleteGroup :: "'w kc \<Rightarrow> string \<Rightarrow> string \<Rightarrow> 'w \<Rightarrow> goerr option \<times> 'w" where
  "DeleteGroup kc realm ident w = no_result (kc ''DELETE'' (group_path realm ident) None OutNil w)"

section \<open>Group role mappings\<close>

definition GetGroupRoleMappings :: "'w kc \<Rightarrow> string \<Rightarrow> string \<Rightarrow> 'w \<Rightarrow> (goerr + json gomap) \<times> 'w" where
  "GetGroupRoleMappings kc realm groupID w =
     map_result as_obj (kc ''GET'' (group_path realm groupID @ ''/role-mappings'') None OutMap w)"

definition AddGroupRealmRoles ::
    "'w kc \<Rightarrow> string \<Rightarrow> string \<Rightarrow> json gomap list \<Rightarrow> 'w \<Rightarrow> goerr option \<times> 'w" where
  "AddGroupRealmRoles kc realm groupID roles w =
     no_result (kc ''POST'' (group_path realm groupID @ ''/role-mappings/realm'') (Some (reps roles)) OutNil w)"

definition RemoveGroupRealmRoles ::
    "'w kc \<Rightarrow> string \<Rightarrow> string \<Rightarrow> json gomap list \<Rightarrow> 'w \<Rightarrow> goerr option \<times> 'w" where
  "RemoveGroupRealmRoles kc realm groupID roles w =
     no_result (kc ''DELETE'' (group_path realm groupID @ ''/role-mappings/realm'') (Some (reps roles)) OutNil w)"

definition AddGroupClientRoles ::
    "'w kc \<Rightarrow> string \<Rightarrow> string \<Rightarrow> string \<Rightarrow> json gomap list \<Rightarrow> 'w \<Rightarrow> goerr option \<times> 'w" where
  "AddGroupClientRoles kc realm groupID clientUUID roles w =
     no_result (kc ''POST''
       (group_path realm groupID @ ''/role-mappings/clients/'' @ PathEscape clientUUID) (Some (reps roles)) OutNil w)"

definition RemoveGroupClientRoles ::
    "'w kc \<Rightarrow> string \<Rightarrow> string \<Rightarrow> string \<Rightarrow> json gomap list \<Rightarrow> 'w \<Rightarrow> goerr option \<times> 'w" where
  "RemoveGroupClientRoles kc realm groupID clientUUID roles w =
     no_result (kc ''DELETE''
       (group_path realm groupID @ ''/role-mappings/clients/'' @ PathEscape clientUUID) (Some (reps roles)) OutNil w)"

section \<open>Escaping is injective\<close>

definition unhex :: "char \<Rightarrow> nat option" where
  "unhex c =
     (let n = (of_char c :: nat) in
      if 48 \<le> n \<and> n \<le> 57 then Some (n - 48)
      else if 65 \<le> n \<and> n \<le> 70 then Some (n - 55)
      else if 97 \<le> n \<and> n \<le> 102 then Some (n - 87)
      else None)"

text \<open>\<open>url.PathUnescape\<close>.\<close>

fun PathUnescape :: "string \<Rightarrow> string option" where
  "PathUnescape [] = Some []"
| "PathUnescape (c # rest) =
     (if c = CHR ''%'' then
        (case rest of
           a # b # tail \<Rightarrow>
             (case (unhex a, unhex b) of
                (Some x, Some y) \<Rightarrow> map_option (Cons (char_of (16 * x + y))) (PathUnescape tail)
              | _ \<Rightarrow> None)
         | _ \<Rightarrow> None)
      else map_option (Cons c) (PathUnescape rest))"

lemma of_hexdigit: "d < 16 \<Longrightarrow> (of_char (hexdigit d) :: nat) = (if d < 10 then 48 + d else 55 + d)"
  by (simp add: hexdigit_def)

lemma hexdigit_facts: "d < 16 \<Longrightarrow> unhex (hexdigit d) = Some d \<and> hexdigit d \<noteq> CHR ''/''"
proof -
  assume d: "d < 16"
  have "(of_char (hexdigit d) :: nat) \<noteq> of_char (CHR ''/'')"
    unfolding of_hexdigit [OF d] by simp
  then have "hexdigit d \<noteq> CHR ''/''" by metis
  with d show ?thesis by (simp add: unhex_def of_hexdigit Let_def)
qed

lemma of_char_bounds:
  "(of_char c :: nat) div 16 < 16" "(of_char c :: nat) mod 16 < 16"
  using nat_of_char_less_256 [of c] by (simp_all add: less_mult_imp_div_less)

lemma PathUnescape_percent: "PathUnescape (percent c @ s) = map_option (Cons c) (PathUnescape s)"
  by (simp add: percent_def Let_def hexdigit_facts of_char_bounds)

lemma path_plain_facts: "\<not> path_plain (CHR ''%'')" "\<not> path_plain (CHR ''/'')"
  by (simp_all add: path_plain_def unreserved_def)

lemma PathEscape_Nil [simp]: "PathEscape [] = []"
  by (simp add: PathEscape_def)

lemma PathEscape_Cons: "PathEscape (c # s) = (if path_plain c then [c] else percent c) @ PathEscape s"
  by (simp add: PathEscape_def)

lemma unescape_escape: "PathUnescape (PathEscape s) = Some s"
proof (induction s)
  case (Cons c s)
  then show ?case
    using path_plain_facts by (auto simp: PathEscape_Cons PathUnescape_percent)
qed simp

lemma PathEscape_no_slash: "CHR ''/'' \<notin> set (PathEscape s)"
proof (induction s)
  case (Cons c s)
  have "CHR ''/'' \<notin> set (percent c)"
    using hexdigit_facts of_char_bounds [of c] by (auto simp: percent_def Let_def dest: sym)
  with Cons show ?case using path_plain_facts by (auto simp: PathEscape_Cons)
qed simp

lemma PathEscape_inj [simp]: "PathEscape s = PathEscape t \<longleftrightarrow> s = t"
  by (metis option.inject unescape_escape)

lemma split_at_slash:
  "CHR ''/'' \<notin> set xs \<Longrightarrow> CHR ''/'' \<notin> set xs' \<Longrightarrow>
   xs @ CHR ''/'' # ys = xs' @ CHR ''/'' # ys' \<longleftrightarrow> xs = xs' \<and> ys = ys'"
proof (induction xs arbitrary: xs')
  case Nil
  then show ?case by (cases xs') auto
next
  case (Cons x xs)
  then show ?case by (cases xs') auto
qed

lemma escaped_segments:
  "PathEscape r @ CHR ''/'' # ys = PathEscape r' @ CHR ''/'' # ys' \<longleftrightarrow> r = r' \<and> ys = ys'"
  by (simp add: split_at_slash PathEscape_no_slash)

section \<open>Which calls an operation makes\<close>

type_synonym call = "string \<times> string \<times> json option"

definition recorded :: "'w kc \<Rightarrow> ('w \<times> call list) kc" where
  "recorded kc meth path body target w =
     (case kc meth path body target (fst w) of (r, w') \<Rightarrow> (r, (w', snd w @ [(meth, path, body)])))"

definition is_read :: "call \<Rightarrow> bool" where
  "is_read c \<longleftrightarrow> fst c = ''GET''"

text \<open>Every call the operation adds to the record satisfies \<open>P\<close>.\<close>

definition sends_only :: "(call \<Rightarrow> bool) \<Rightarrow> ('w \<times> call list \<Rightarrow> 'a \<times> 'w \<times> call list) \<Rightarrow> bool" where
  "sends_only P f \<longleftrightarrow> (\<forall>w. \<exists>cs. snd (snd (f w)) = snd w @ cs \<and> list_all P cs)"

named_theorems sends "which calls the operations make"

lemma sends_return [sends]: "sends_only P (\<lambda>w. (x, w))"
  by (simp add: sends_only_def)

lemma sends_recorded [sends]: "P (meth, path, body) \<Longrightarrow> sends_only P (recorded kc meth path body target)"
  by (auto simp: sends_only_def recorded_def split: prod.splits)

lemma sends_recorded_eta [sends]:
  "P (meth, path, body) \<Longrightarrow> sends_only P (\<lambda>w. recorded kc meth path body target w)"
  by (rule sends_recorded)

lemma snd_map_result [simp]: "snd (map_result g x) = snd x"
  by (simp add: map_result_def split: prod.splits sum.splits)

lemma snd_no_result [simp]: "snd (no_result x) = snd x"
  by (simp add: no_result_def split: prod.splits sum.splits)

lemma sends_map_result [sends]: "sends_only P f \<Longrightarrow> sends_only P (\<lambda>w. map_result g (f w))"
  by (simp add: sends_only_def)

lemma sends_no_result [sends]: "sends_only P f \<Longrightarrow> sends_only P (\<lambda>w. no_result (f w))"
  by (simp add: sends_only_def)

lemma sends_bind [sends]:
  assumes "sends_only P f" and "\<And>r. sends_only P (g r)"
  shows "sends_only P (\<lambda>w. case f w of (r, w') \<Rightarrow> g r w')"
  unfolding sends_only_def
proof
  fix w
  obtain r w' where f: "f w = (r, w')" by (cases "f w")
  obtain cs where "snd w' = snd w @ cs" "list_all P cs"
    using assms(1) f unfolding sends_only_def by (metis snd_conv)
  moreover obtain cs' where "snd (snd (g r w')) = snd w' @ cs'" "list_all P cs'"
    using assms(2) unfolding sends_only_def by blast
  ultimately show "\<exists>cs. snd (snd (case f w of (r, w') \<Rightarrow> g r w')) = snd w @ cs \<and> list_all P cs"
    using f by (intro exI [of _ "cs @ cs'"]) simp
qed

lemma sends_sum [sends]:
  "(\<And>e. sends_only P (f e)) \<Longrightarrow> (\<And>x. sends_only P (g x)) \<Longrightarrow>
   sends_only P (\<lambda>w. case r of Inl e \<Rightarrow> f e w | Inr x \<Rightarrow> g x w)"
  by (cases r) simp_all

lemma sends_option [sends]:
  "sends_only P f \<Longrightarrow> (\<And>x. sends_only P (g x)) \<Longrightarrow>
   sends_only P (\<lambda>w. case r of None \<Rightarrow> f w | Some x \<Rightarrow> g x w)"
  by (cases r) simp_all

lemma sends_if [sends]:
  "sends_only P f \<Longrightarrow> sends_only P g \<Longrightarrow> sends_only P (\<lambda>w. if b then f w else g w)"
  by (cases b) simp_all

lemma sends_Let [sends]: "(\<And>x. sends_only P (f x)) \<Longrightarrow> sends_only P (\<lambda>w. let x = v in f x w)"
  by (simp add: Let_def)

lemma sends_mono: "sends_only P f \<Longrightarrow> (\<And>c. P c \<Longrightarrow> Q c) \<Longrightarrow> sends_only Q f"
  unfolding sends_only_def by (metis list.pred_mono_strong)

lemma is_read_GET [simp]: "is_read (''GET'', path, body)"
  by (simp add: is_read_def)

lemma reads [sends]:
  "sends_only is_read (GetRealm (recorded kc) realm)"
  "sends_only is_read (FindClient (recorded kc) realm clientID)"
  "sends_only is_read (ListClientScopes (recorded kc) realm)"
  "sends_only is_read (FindClientScope (recorded kc) realm name)"
  "sends_only is_read (GetRole (recorded kc) realm name)"
  "sends_only is_read (GetIdentityProvider (recorded kc) realm idpAlias)"
  "sends_only is_read (GetGroup (recorded kc) realm gid)"
  "sends_only is_read (FindGroup (recorded kc) realm name)"
proof -
  have scopes: "sends_only is_read (ListClientScopes (recorded kc) realm)" for kc :: "'x kc" and realm
    unfolding ListClientScopes_def by (intro sends) simp
  have group: "sends_only is_read (GetGroup (recorded kc) realm gid)" for kc :: "'x kc" and realm gid
    unfolding GetGroup_def by (intro sends) simp
  show "sends_only is_read (ListClientScopes (recorded kc) realm)"
    and "sends_only is_read (GetGroup (recorded kc) realm gid)"
    by (rule scopes, rule group)
  show "sends_only is_read (GetRealm (recorded kc) realm)"
    "sends_only is_read (GetRole (recorded kc) realm name)"
    "sends_only is_read (GetIdentityProvider (recorded kc) realm idpAlias)"
    unfolding GetRealm_def GetRole_def GetIdentityProvider_def by (intro sends; simp)+
  show "sends_only is_read (FindClient (recorded kc) realm clientID)"
    "sends_only is_read (FindClientScope (recorded kc) realm name)"
    "sends_only is_read (FindGroup (recorded kc) realm name)"
    unfolding FindClient_def FindClientScope_def FindGroup_def
    by (intro sends scopes group; simp)+
qed

section \<open>Properties\<close>

text \<open>What an operation asks of the server: one call, whose path decodes to the given segments below
  \<open>/admin/realms\<close>.\<close>

definition path_segments :: "string \<Rightarrow> string option list" where
  "path_segments path = map PathUnescape (Split (CHR ''/'') (takeWhile (\<lambda>c. c \<noteq> CHR ''?'') path))"

definition asks :: "string \<Rightarrow> string list \<Rightarrow> json option \<Rightarrow> ('w \<times> call list \<Rightarrow> 'a \<times> 'w \<times> call list) \<Rightarrow> bool" where
  "asks meth segs body f \<longleftrightarrow>
     (\<forall>w. \<exists>path. snd (snd (f w)) = snd w @ [(meth, path, body)] \<and>
        path_segments path = map Some ([] # ''admin'' # ''realms'' # segs))"

lemma path_plain_query: "\<not> path_plain (CHR ''?'')"
  by (simp add: path_plain_def unreserved_def)

lemma PathEscape_no_query: "CHR ''?'' \<notin> set (PathEscape s)"
proof (induction s)
  case (Cons c s)
  have "hexdigit d \<noteq> CHR ''?''" if "d < 16" for d
  proof -
    have "(of_char (hexdigit d) :: nat) \<noteq> of_char (CHR ''?'')" unfolding of_hexdigit [OF that] using that by simp
    then show ?thesis by metis
  qed
  then have "CHR ''?'' \<notin> set (percent c)" using of_char_bounds [of c] by (auto simp: percent_def Let_def dest: sym)
  with Cons show ?case using path_plain_query by (auto simp: PathEscape_Cons)
qed simp

lemma takeWhile_escaped [simp]:
  "takeWhile (\<lambda>c. c \<noteq> CHR ''?'') (PathEscape s @ t) = PathEscape s @ takeWhile (\<lambda>c. c \<noteq> CHR ''?'') t"
  "takeWhile (\<lambda>c. c \<noteq> CHR ''?'') (PathEscape s) = PathEscape s"
proof -
  have "c \<noteq> CHR ''?''" if "c \<in> set (PathEscape s)" for c using that PathEscape_no_query [of s] by auto
  then show "takeWhile (\<lambda>c. c \<noteq> CHR ''?'') (PathEscape s @ t) = PathEscape s @ takeWhile (\<lambda>c. c \<noteq> CHR ''?'') t"
    "takeWhile (\<lambda>c. c \<noteq> CHR ''?'') (PathEscape s) = PathEscape s"
    by (simp_all add: takeWhile_eq_all_conv)
qed

lemmas segment_simps = path_segments_def Split_append [OF PathEscape_no_slash] Split_plain [OF PathEscape_no_slash]
  unescape_escape

lemmas path_defs = realmPath_def client_path_def scope_path_def role_path_def idp_path_def group_path_def

lemma asks_result [simp]:
  "asks meth segs body (\<lambda>w. map_result g (recorded kc meth path body target w)) \<longleftrightarrow>
     path_segments path = map Some ([] # ''admin'' # ''realms'' # segs)"
  "asks meth segs body (\<lambda>w. no_result (recorded kc meth path body target w)) \<longleftrightarrow>
     path_segments path = map Some ([] # ''admin'' # ''realms'' # segs)"
  by (simp_all add: asks_def recorded_def split_beta)

lemma find_asks:
  "asks ''GET'' [realm, ''clients''] None (FindClient (recorded kc) realm name)"
  "asks ''GET'' [realm, ''client-scopes''] None (FindClientScope (recorded kc) realm name)"
  by (simp_all add: asks_def FindClient_def FindClientScope_def ListClientScopes_def map_result_def recorded_def
      segment_simps path_defs split: prod.split sum.split option.split)

lemmas operation_defs =
  GetRealm_def [abs_def] UpdateRealm_def [abs_def] DeleteRealm_def [abs_def]
  CreateClient_def [abs_def] UpdateClient_def [abs_def] DeleteClient_def [abs_def]
  GetClientSecret_def [abs_def] ListClientScopes_def [abs_def] CreateClientScope_def [abs_def]
  UpdateClientScope_def [abs_def] DeleteClientScope_def [abs_def] GetRole_def [abs_def]
  CreateRole_def [abs_def] UpdateRole_def [abs_def] DeleteRole_def [abs_def]
  GetRoleComposites_def [abs_def] AddRoleComposites_def [abs_def] RemoveRoleComposites_def [abs_def]
  GetClientRole_def [abs_def] GetIdentityProvider_def [abs_def] CreateIdentityProvider_def [abs_def]
  UpdateIdentityProvider_def [abs_def] DeleteIdentityProvider_def [abs_def] ListIdentityProviderMappers_def [abs_def]
  CreateIdentityProviderMapper_def [abs_def] UpdateIdentityProviderMapper_def [abs_def] DeleteIdentityProviderMapper_def [abs_def]
  GetGroup_def [abs_def] CreateGroup_def [abs_def] UpdateGroup_def [abs_def]
  DeleteGroup_def [abs_def] GetGroupRoleMappings_def [abs_def] AddGroupRealmRoles_def [abs_def]
  RemoveGroupRealmRoles_def [abs_def] AddGroupClientRoles_def [abs_def] RemoveGroupClientRoles_def [abs_def]
  listClientScopeAssignments_def [abs_def] assignClientScope_def [abs_def]
  ClientDefaultScopeAssignments_def ClientOptionalScopeAssignments_def AssignClientDefaultScope_def AssignClientOptionalScope_def


end
