(* ===== verification/Provider.thy ===== *)
theory Provider
  imports Kube Resources
begin

text \<open>
  \<open>internal/keycloak/provider.go\<close>: resolving a KeycloakConnection into an Admin API client
  and caching the client until the connection or its credentials change.

  Clients are shared by pointer, so the state has a store \<open>clients\<close> and a pointer is an
  index into it. \<open>For\<close> is the call as a function; several reconcilers call it at once, and
  \<open>For_step\<close> splits it where the Go code reads from the cluster or takes the lock, so that
  the step relation \<open>pstep\<close> interleaves calls with one another and with changes of the
  cluster. The Kubernetes reader is a parameter; a resource version identifies the content
  of an object (\<open>versioned\<close>), as the Kubernetes API documents.
\<close>

section \<open>Connections and configuration\<close>

record connection =
  conn_resourceVersion :: string
  conn_generation :: int
  conn_spec :: KeycloakConnectionSpec
  conn_conditions :: "condition list"
  conn_serverVersion :: string

record 'k reader =
  r_conn :: "'k \<Rightarrow> string \<Rightarrow> string \<Rightarrow> goerr + connection"
  r_secret :: "'k \<Rightarrow> string \<Rightarrow> string \<Rightarrow> goerr + secret"
  r_isNotFound :: "goerr \<Rightarrow> bool"

definition SecretKeyUsername :: string where "SecretKeyUsername = ''username''"

definition SecretKeyPassword :: string where "SecretKeyPassword = ''password''"

definition SecretKeyClientID :: string where "SecretKeyClientID = ''clientId''"

definition SecretKeyClientSecret :: string where "SecretKeyClientSecret = ''clientSecret''"

definition data_or_empty :: "secret \<Rightarrow> string \<Rightarrow> string" where
  "data_or_empty sec key = (case map_of (sec_data sec) key of None \<Rightarrow> [] | Some v \<Rightarrow> v)"

definition clientConfig :: "connection \<Rightarrow> secret \<Rightarrow> goerr + Config" where
  "clientConfig conn sec =
     (let spec = conn_spec conn;
          c = \<lparr>ConnectionName = [], URL = conn_url spec,
               AdminRealm = (case conn_adminRealm spec of
                  Some r \<Rightarrow> if r \<noteq> [] then r else DefaultAdminRealm | None \<Rightarrow> DefaultAdminRealm),
               Auth = [], Username = [], Password = [], ClientID = [], ClientSecret = [],
               InsecureSkipVerify = (case conn_insecureSkipVerify spec of Some b \<Rightarrow> b | None \<Rightarrow> False)\<rparr>;
          auth = (case conn_auth spec of
                    Some a \<Rightarrow> if a \<noteq> [] then a else AuthPassword | None \<Rightarrow> AuthPassword)
      in if auth = AuthClient then
           let i = data_or_empty sec SecretKeyClientID; s = data_or_empty sec SecretKeyClientSecret in
           if i = [] \<or> s = [] then
             Inl (Errorf [''credentials secret %q must provide %q and %q for client authentication'',
                          sec_name sec, SecretKeyClientID, SecretKeyClientSecret])
           else Inr (c\<lparr>Auth := AuthClient, ClientID := i, ClientSecret := s\<rparr>)
         else
           let u = data_or_empty sec SecretKeyUsername; p = data_or_empty sec SecretKeyPassword in
           if u = [] \<or> p = [] then
             Inl (Errorf [''credentials secret %q must provide %q and %q for password authentication'',
                          sec_name sec, SecretKeyUsername, SecretKeyPassword])
           else Inr (c\<lparr>Auth := AuthPassword, Username := u, Password := p\<rparr>))"

section \<open>The cache\<close>

record cachedClient =
  cc_kc :: nat
  cc_connVersion :: string
  cc_secretVer :: string

record Provider =
  byName :: "cachedClient gomap"
  clients :: "Client list"

definition NewProvider :: Provider where
  "NewProvider = \<lparr>byName = [], clients = []\<rparr>"

definition cache_key :: "string \<Rightarrow> string \<Rightarrow> string" where
  "cache_key namespace name = namespace @ ''/'' @ name"

definition For :: "'k reader \<Rightarrow> 'k \<Rightarrow> string \<Rightarrow> string \<Rightarrow> Provider \<Rightarrow> (goerr + nat) \<times> Provider" where
  "For rdr k namespace name p =
     (case r_conn rdr k namespace name of
        Inl e \<Rightarrow>
          (Inl (Wrapf [''get keycloak connection %s/%s: %w'', namespace, name] e),
           if r_isNotFound rdr e then p\<lparr>byName := mdel (cache_key namespace name) (byName p)\<rparr> else p)
      | Inr conn \<Rightarrow>
          (case r_secret rdr k namespace (conn_credentialsSecretRef (conn_spec conn)) of
             Inl e \<Rightarrow>
               (Inl (Wrapf [''get credentials secret %s/%s: %w'', namespace,
                            conn_credentialsSecretRef (conn_spec conn)] e), p)
           | Inr sec \<Rightarrow>
               let key = cache_key namespace name;
                   build = (case clientConfig conn sec of
                      Inl e \<Rightarrow> (Inl e, p)
                    | Inr c \<Rightarrow>
                        let kc = length (clients p) in
                        (Inr kc, p\<lparr>clients := clients p @ [New (c\<lparr>ConnectionName := cache_key namespace name\<rparr>)],
                                  byName := mput key \<lparr>cc_kc = kc, cc_connVersion = conn_resourceVersion conn,
                                                     cc_secretVer = sec_resourceVersion sec\<rparr> (byName p)\<rparr>))
               in case map_of (byName p) key of
                    Some cached \<Rightarrow>
                      if cc_connVersion cached = conn_resourceVersion conn \<and>
                         cc_secretVer cached = sec_resourceVersion sec
                      then (Inr (cc_kc cached), p) else build
                  | None \<Rightarrow> build))"

section \<open>Interleaved calls\<close>

text \<open>
  Where a call stands: before reading the connection, about to drop the cache entry of a
  deleted connection, with the connection read, with the Secret read, past a cache miss, and
  finished. A finished call remembers what it had read.
\<close>

datatype pc =
    Start
  | Dropping goerr
  | HasConn connection
  | HasBoth connection secret
  | Missed connection secret
  | Returned connection secret nat
  | Stopped goerr

fun For_step :: "'k reader \<Rightarrow> 'k \<Rightarrow> string \<Rightarrow> string \<Rightarrow> pc \<Rightarrow> Provider \<Rightarrow> pc \<times> Provider" where
  "For_step rdr k ns name Start p =
     (case r_conn rdr k ns name of
        Inl e \<Rightarrow>
          (if r_isNotFound rdr e then Dropping e
           else Stopped (Wrapf [''get keycloak connection %s/%s: %w'', ns, name] e), p)
      | Inr conn \<Rightarrow> (HasConn conn, p))"
| "For_step rdr k ns name (Dropping e) p =
     (Stopped (Wrapf [''get keycloak connection %s/%s: %w'', ns, name] e),
      p\<lparr>byName := mdel (cache_key ns name) (byName p)\<rparr>)"
| "For_step rdr k ns name (HasConn conn) p =
     (case r_secret rdr k ns (conn_credentialsSecretRef (conn_spec conn)) of
        Inl e \<Rightarrow>
          (Stopped (Wrapf [''get credentials secret %s/%s: %w'', ns,
                           conn_credentialsSecretRef (conn_spec conn)] e), p)
      | Inr sec \<Rightarrow> (HasBoth conn sec, p))"
| "For_step rdr k ns name (HasBoth conn sec) p =
     (case map_of (byName p) (cache_key ns name) of
        Some cached \<Rightarrow>
          (if cc_connVersion cached = conn_resourceVersion conn \<and> cc_secretVer cached = sec_resourceVersion sec
           then Returned conn sec (cc_kc cached) else Missed conn sec, p)
      | None \<Rightarrow> (Missed conn sec, p))"
| "For_step rdr k ns name (Missed conn sec) p =
     (case clientConfig conn sec of
        Inl e \<Rightarrow> (Stopped e, p)
      | Inr c \<Rightarrow>
          let kc = length (clients p) in
          (Returned conn sec kc,
           p\<lparr>clients := clients p @ [New (c\<lparr>ConnectionName := cache_key ns name\<rparr>)],
             byName := mput (cache_key ns name) \<lparr>cc_kc = kc, cc_connVersion = conn_resourceVersion conn,
                            cc_secretVer = sec_resourceVersion sec\<rparr> (byName p)\<rparr>))"
| "For_step rdr k ns name (Returned conn sec kc) p = (Returned conn sec kc, p)"
| "For_step rdr k ns name (Stopped e) p = (Stopped e, p)"

text \<open>A call of its own runs to the result of \<open>For\<close>.\<close>

fun run_steps :: "'k reader \<Rightarrow> 'k \<Rightarrow> string \<Rightarrow> string \<Rightarrow> nat \<Rightarrow> pc \<Rightarrow> Provider \<Rightarrow> pc \<times> Provider" where
  "run_steps rdr k ns name 0 c p = (c, p)"
| "run_steps rdr k ns name (Suc n) c p =
     (case For_step rdr k ns name c p of (c', p') \<Rightarrow> run_steps rdr k ns name n c' p')"

fun pc_result :: "pc \<Rightarrow> (goerr + nat) option" where
  "pc_result (Returned conn sec kc) = Some (Inr kc)"
| "pc_result (Stopped e) = Some (Inl e)"
| "pc_result _ = None"

record 'k psys =
  ps_cluster :: 'k
  ps_provider :: Provider
  ps_calls :: "nat \<Rightarrow> string \<times> string \<times> pc"

text \<open>
  \<open>conn_at\<close> and \<open>sec_at\<close> give the content of a version; a cluster is \<open>versioned\<close> when
  everything read from it is the content of its version. Namespaces contain no slash.
\<close>

definition versioned :: "'k reader \<Rightarrow> (string \<Rightarrow> string \<Rightarrow> string \<Rightarrow> connection) \<Rightarrow>
    (string \<Rightarrow> string \<Rightarrow> string \<Rightarrow> secret) \<Rightarrow> 'k \<Rightarrow> bool" where
  "versioned rdr conn_at sec_at k \<longleftrightarrow>
     (\<forall>ns n conn. r_conn rdr k ns n = Inr conn \<longrightarrow> conn = conn_at ns n (conn_resourceVersion conn)) \<and>
     (\<forall>ns n sec. r_secret rdr k ns n = Inr sec \<longrightarrow> sec = sec_at ns n (sec_resourceVersion sec))"

inductive pstep :: "'k reader \<Rightarrow> (string \<Rightarrow> string \<Rightarrow> string \<Rightarrow> connection) \<Rightarrow>
    (string \<Rightarrow> string \<Rightarrow> string \<Rightarrow> secret) \<Rightarrow> 'k psys \<Rightarrow> 'k psys \<Rightarrow> bool"
  for rdr conn_at sec_at where
  call: "ps_calls s i = (ns, name, c) \<Longrightarrow>
    For_step rdr (ps_cluster s) ns name c (ps_provider s) = (c', p') \<Longrightarrow>
    pstep rdr conn_at sec_at s
      (s\<lparr>ps_provider := p', ps_calls := (ps_calls s)(i := (ns, name, c'))\<rparr>)"
| change: "versioned rdr conn_at sec_at k \<Longrightarrow> pstep rdr conn_at sec_at s (s\<lparr>ps_cluster := k\<rparr>)"

definition pinit :: "'k reader \<Rightarrow> (string \<Rightarrow> string \<Rightarrow> string \<Rightarrow> connection) \<Rightarrow>
    (string \<Rightarrow> string \<Rightarrow> string \<Rightarrow> secret) \<Rightarrow> 'k psys \<Rightarrow> bool" where
  "pinit rdr conn_at sec_at s \<longleftrightarrow>
     versioned rdr conn_at sec_at (ps_cluster s) \<and> ps_provider s = NewProvider \<and>
     (\<forall>i. CHR ''/'' \<notin> set (fst (ps_calls s i)) \<and> snd (snd (ps_calls s i)) = Start)"

inductive_cases pstep_cases: "pstep rdr conn_at sec_at s s'"

section \<open>The invariant\<close>

text \<open>The client was built from this connection and Secret.\<close>

definition built_from :: "string \<Rightarrow> string \<Rightarrow> connection \<Rightarrow> secret \<Rightarrow> Client \<Rightarrow> bool" where
  "built_from ns name conn sec kc \<longleftrightarrow>
     (\<exists>c. clientConfig conn sec = Inr c \<and> cfg kc = cfg (New (c\<lparr>ConnectionName := cache_key ns name\<rparr>)))"

definition points_to :: "Provider \<Rightarrow> string \<Rightarrow> string \<Rightarrow> connection \<Rightarrow> secret \<Rightarrow> nat \<Rightarrow> bool" where
  "points_to p ns name conn sec kc \<longleftrightarrow>
     kc < length (clients p) \<and> built_from ns name conn sec (clients p ! kc)"

definition cache_coherent :: "(string \<Rightarrow> string \<Rightarrow> string \<Rightarrow> connection) \<Rightarrow>
    (string \<Rightarrow> string \<Rightarrow> string \<Rightarrow> secret) \<Rightarrow> Provider \<Rightarrow> bool" where
  "cache_coherent conn_at sec_at p \<longleftrightarrow>
     (\<forall>ns name cached. CHR ''/'' \<notin> set ns \<longrightarrow> map_of (byName p) (cache_key ns name) = Some cached \<longrightarrow>
        (let conn = conn_at ns name (cc_connVersion cached);
             sec = sec_at ns (conn_credentialsSecretRef (conn_spec conn)) (cc_secretVer cached)
         in points_to p ns name conn sec (cc_kc cached)))"

definition of_version :: "(string \<Rightarrow> string \<Rightarrow> string \<Rightarrow> connection) \<Rightarrow>
    (string \<Rightarrow> string \<Rightarrow> string \<Rightarrow> secret) \<Rightarrow> string \<Rightarrow> string \<Rightarrow> connection \<Rightarrow> secret \<Rightarrow> bool" where
  "of_version conn_at sec_at ns name conn sec \<longleftrightarrow>
     conn = conn_at ns name (conn_resourceVersion conn) \<and>
     sec = sec_at ns (conn_credentialsSecretRef (conn_spec conn)) (sec_resourceVersion sec)"

fun call_ok :: "(string \<Rightarrow> string \<Rightarrow> string \<Rightarrow> connection) \<Rightarrow> (string \<Rightarrow> string \<Rightarrow> string \<Rightarrow> secret) \<Rightarrow> Provider \<Rightarrow>
    string \<Rightarrow> string \<Rightarrow> pc \<Rightarrow> bool" where
  "call_ok conn_at sec_at p ns name (HasConn conn) \<longleftrightarrow> conn = conn_at ns name (conn_resourceVersion conn)"
| "call_ok conn_at sec_at p ns name (HasBoth conn sec) \<longleftrightarrow> of_version conn_at sec_at ns name conn sec"
| "call_ok conn_at sec_at p ns name (Missed conn sec) \<longleftrightarrow> of_version conn_at sec_at ns name conn sec"
| "call_ok conn_at sec_at p ns name (Returned conn sec kc) \<longleftrightarrow>
     of_version conn_at sec_at ns name conn sec \<and> points_to p ns name conn sec kc"
| "call_ok conn_at sec_at p ns name c \<longleftrightarrow> True"

definition provider_inv :: "'k reader \<Rightarrow> (string \<Rightarrow> string \<Rightarrow> string \<Rightarrow> connection) \<Rightarrow>
    (string \<Rightarrow> string \<Rightarrow> string \<Rightarrow> secret) \<Rightarrow> 'k psys \<Rightarrow> bool" where
  "provider_inv rdr conn_at sec_at s \<longleftrightarrow>
     versioned rdr conn_at sec_at (ps_cluster s) \<and> cache_coherent conn_at sec_at (ps_provider s) \<and>
     (\<forall>i ns name c. ps_calls s i = (ns, name, c) \<longrightarrow>
        CHR ''/'' \<notin> set ns \<and> call_ok conn_at sec_at (ps_provider s) ns name c)"

lemma cache_key_inj:
  "CHR ''/'' \<notin> set ns \<Longrightarrow> CHR ''/'' \<notin> set ns' \<Longrightarrow>
   cache_key ns name = cache_key ns' name' \<longleftrightarrow> ns = ns' \<and> name = name'"
  by (simp add: cache_key_def split_at_slash)

text \<open>Pointers stay valid: a step only appends to the store.\<close>

lemma For_step_clients:
  "For_step rdr k ns name c p = (c', p') \<Longrightarrow> \<exists>cs. clients p' = clients p @ cs"
  by (cases c) (auto simp: Let_def split: sum.splits option.splits if_splits)

lemma points_to_mono:
  "points_to p ns name conn sec kc \<Longrightarrow> clients p' = clients p @ cs \<Longrightarrow> points_to p' ns name conn sec kc"
  by (auto simp: points_to_def nth_append)

lemma call_ok_mono:
  "call_ok conn_at sec_at p ns name c \<Longrightarrow> clients p' = clients p @ cs \<Longrightarrow> call_ok conn_at sec_at p' ns name c"
  by (cases c) (auto intro: points_to_mono)

lemma coherent_lookup:
  assumes "cache_coherent conn_at sec_at p" and "CHR ''/'' \<notin> set ns"
    and "map_of (byName p) (cache_key ns name) = Some cached"
    and "of_version conn_at sec_at ns name conn sec"
    and "cc_connVersion cached = conn_resourceVersion conn" and "cc_secretVer cached = sec_resourceVersion sec"
  shows "points_to p ns name conn sec (cc_kc cached)"
  using assms unfolding cache_coherent_def of_version_def Let_def by metis

lemma coherent_store:
  assumes "cache_coherent conn_at sec_at p" and "CHR ''/'' \<notin> set ns"
    and "of_version conn_at sec_at ns name conn sec" and "clientConfig conn sec = Inr c"
  defines "p' \<equiv> p\<lparr>clients := clients p @ [New (c\<lparr>ConnectionName := cache_key ns name\<rparr>)],
      byName := mput (cache_key ns name) \<lparr>cc_kc = length (clients p), cc_connVersion = conn_resourceVersion conn,
                     cc_secretVer = sec_resourceVersion sec\<rparr> (byName p)\<rparr>"
  shows "cache_coherent conn_at sec_at p' \<and> points_to p' ns name conn sec (length (clients p))"
proof -
  have new: "points_to p' ns name conn sec (length (clients p))"
    using assms(4) by (simp add: points_to_def built_from_def p'_def)
  have old: "points_to p' ns' n' cn sc kc" if "points_to p ns' n' cn sc kc" for ns' n' cn sc kc
    using that by (rule points_to_mono) (simp add: p'_def)
  have "points_to p' ns' n' (conn_at ns' n' (cc_connVersion cached))
      (sec_at ns' (conn_credentialsSecretRef (conn_spec (conn_at ns' n' (cc_connVersion cached)))) (cc_secretVer cached))
      (cc_kc cached)"
    if "CHR ''/'' \<notin> set ns'" "map_of (byName p') (cache_key ns' n') = Some cached" for ns' n' cached
  proof (cases "ns' = ns \<and> n' = name")
    case True
    with that assms(3) new show ?thesis by (auto simp: p'_def of_version_def)
  next
    case False
    with that assms(2) have "map_of (byName p) (cache_key ns' n') = Some cached"
      by (auto simp: p'_def cache_key_inj split: if_splits)
    with that(1) assms(1) old show ?thesis unfolding cache_coherent_def Let_def by blast
  qed
  with new show ?thesis unfolding cache_coherent_def Let_def by blast
qed

lemma coherent_drop:
  "cache_coherent conn_at sec_at p \<Longrightarrow> cache_coherent conn_at sec_at (p\<lparr>byName := mdel key (byName p)\<rparr>)"
  by (simp add: cache_coherent_def Let_def points_to_def)

lemma For_step_inv:
  assumes "versioned rdr conn_at sec_at k" and "cache_coherent conn_at sec_at p" and "CHR ''/'' \<notin> set ns"
    and "call_ok conn_at sec_at p ns name c" and "For_step rdr k ns name c p = (c', p')"
  shows "cache_coherent conn_at sec_at p' \<and> call_ok conn_at sec_at p' ns name c'"
proof (cases c)
  case (Missed conn sec)
  with assms coherent_store [OF assms(2,3)] show ?thesis
    by (auto simp: Let_def split: sum.splits)
next
  case (HasBoth conn sec)
  with assms coherent_lookup [OF assms(2,3)] show ?thesis
    by (auto split: option.splits if_splits)
next
  case (HasConn conn)
  with assms show ?thesis
    unfolding versioned_def by (auto simp: of_version_def split: sum.splits)
next
  case Start
  with assms show ?thesis
    unfolding versioned_def by (auto split: sum.splits if_splits)
qed (use assms coherent_drop in auto)

lemma pstep_inv:
  assumes "provider_inv rdr conn_at sec_at s" and "pstep rdr conn_at sec_at s s'"
  shows "provider_inv rdr conn_at sec_at s'"
  using assms(2)
proof (cases rule: pstep.cases)
  case (call i ns name c c' p')
  from assms(1) have v: "versioned rdr conn_at sec_at (ps_cluster s)" "cache_coherent conn_at sec_at (ps_provider s)"
    and calls: "\<And>j ns name c. ps_calls s j = (ns, name, c) \<Longrightarrow>
      CHR ''/'' \<notin> set ns \<and> call_ok conn_at sec_at (ps_provider s) ns name c"
    by (auto simp: provider_inv_def)
  have step: "cache_coherent conn_at sec_at p' \<and> call_ok conn_at sec_at p' ns name c'"
    using For_step_inv [OF v] calls [OF call(2)] call(3) by blast
  obtain cs where "clients p' = clients (ps_provider s) @ cs" using For_step_clients [OF call(3)] by blast
  then have "call_ok conn_at sec_at p' ns' name' d" if "ps_calls s j = (ns', name', d)" for j ns' name' d
    using calls [OF that] call_ok_mono by blast
  with step v(1) calls call(2) show ?thesis
    by (auto simp: call(1) provider_inv_def split: if_splits)
next
  case (change k)
  with assms(1) show ?thesis by (simp add: provider_inv_def)
qed

lemma pinit_inv: "pinit rdr conn_at sec_at s \<Longrightarrow> provider_inv rdr conn_at sec_at s"
  by (auto simp: pinit_def provider_inv_def cache_coherent_def NewProvider_def) (metis fst_conv, metis call_ok.simps(5) snd_conv)

lemma reachable_inv:
  "(pstep rdr conn_at sec_at)\<^sup>*\<^sup>* s0 s \<Longrightarrow> pinit rdr conn_at sec_at s0 \<Longrightarrow> provider_inv rdr conn_at sec_at s"
  by (induction rule: rtranclp_induct) (auto intro: pinit_inv pstep_inv)

section \<open>Properties\<close>

text \<open>
  A call of \<open>For\<close> that runs undisturbed gives the result and the provider state of the
  function: the split into steps refines it, in at most four steps.
\<close>
lemma For_steps_refine:
  "\<exists>c. run_steps rdr k ns name 4 Start p = (c, snd (For rdr k ns name p)) \<and>
       pc_result c = Some (fst (For rdr k ns name p))"
  by (auto simp: For_def Let_def numeral_eq_Suc split: sum.split option.split if_splits)

text \<open>
  C10: However calls are interleaved with one another and with changes of connections and
  Secrets, a call never returns a client made for other credentials: the client it returns
  is in the store and was configured from exactly the connection and the Secret that this
  call had read.
\<close>
theorem provider_returns_matching_client:
  assumes "pinit rdr conn_at sec_at s0" and "(pstep rdr conn_at sec_at)\<^sup>*\<^sup>* s0 s"
    and "ps_calls s i = (ns, name, Returned conn sec kc)"
  shows "kc < length (clients (ps_provider s)) \<and> built_from ns name conn sec (clients (ps_provider s) ! kc)"
proof -
  have "call_ok conn_at sec_at (ps_provider s) ns name (Returned conn sec kc)"
    using reachable_inv [OF assms(2,1)] assms(3) unfolding provider_inv_def by blast
  then show ?thesis by (simp add: points_to_def)
qed

definition demo_connection :: connection where
  "demo_connection = \<lparr>conn_resourceVersion = ''7'', conn_generation = 1,
     conn_spec = \<lparr>conn_url = ''https://kc'', conn_credentialsSecretRef = ''cred'', conn_auth = None,
                  conn_adminRealm = None, conn_insecureSkipVerify = None\<rparr>,
     conn_conditions = [], conn_serverVersion = []\<rparr>"

definition demo_credentials :: secret where
  "demo_credentials = demo_secret ''cred'' [(''password'', ''pw''), (''username'', ''admin'')]"

definition demo_reader :: "unit reader" where
  "demo_reader = \<lparr>r_conn = (\<lambda>k ns n. Inr demo_connection), r_secret = (\<lambda>k ns n. Inr demo_credentials),
     r_isNotFound = (\<lambda>e. False)\<rparr>"

definition demo_psys :: "unit psys" where
  "demo_psys = \<lparr>ps_cluster = (), ps_provider = NewProvider, ps_calls = (\<lambda>i. (''ns'', ''kc'', Start))\<rparr>"

lemma run_reach:
  "ps_calls s i = (ns, name, c) \<Longrightarrow> run_steps rdr (ps_cluster s) ns name n c (ps_provider s) = (c', p') \<Longrightarrow>
   (pstep rdr conn_at sec_at)\<^sup>*\<^sup>* s (s\<lparr>ps_provider := p', ps_calls := (ps_calls s)(i := (ns, name, c'))\<rparr>)"
proof (induction n arbitrary: s c)
  case 0
  then have eq: "s\<lparr>ps_provider := p', ps_calls := (ps_calls s)(i := (ns, name, c'))\<rparr> = s"
    by (cases s) (auto simp: fun_upd_idem)
  show ?case unfolding eq by simp
next
  case (Suc n)
  obtain d q where step: "For_step rdr (ps_cluster s) ns name c (ps_provider s) = (d, q)" by fastforce
  let ?s = "s\<lparr>ps_provider := q, ps_calls := (ps_calls s)(i := (ns, name, d))\<rparr>"
  have "(pstep rdr conn_at sec_at)\<^sup>*\<^sup>* ?s (?s\<lparr>ps_provider := p', ps_calls := (ps_calls ?s)(i := (ns, name, c'))\<rparr>)"
    using Suc.prems(2) step by (intro Suc.IH) simp_all
  moreover have "pstep rdr conn_at sec_at s ?s" by (rule pstep.call [OF Suc.prems(1) step])
  moreover have "?s\<lparr>ps_provider := p', ps_calls := (ps_calls ?s)(i := (ns, name, c'))\<rparr> =
      s\<lparr>ps_provider := p', ps_calls := (ps_calls s)(i := (ns, name, c'))\<rparr>" by simp
  ultimately show ?case by (metis converse_rtranclp_into_rtranclp)
qed

theorem provider_returns_matching_client_witness:
  "built_from ''ns'' ''kc'' demo_connection demo_credentials
     (clients (snd (For demo_reader () ''ns'' ''kc'' NewProvider)) ! 0)"
proof -
  let ?conn_at = "\<lambda>ns n v. demo_connection" and ?sec_at = "\<lambda>ns n v. demo_credentials"
  let ?p = "snd (For demo_reader () ''ns'' ''kc'' NewProvider)"
  let ?c = "Returned demo_connection demo_credentials 0"
  have init: "pinit demo_reader ?conn_at ?sec_at demo_psys"
    by (simp add: pinit_def versioned_def demo_psys_def demo_reader_def)
  have call: "ps_calls demo_psys 0 = (''ns'', ''kc'', Start)" by (simp add: demo_psys_def)
  have run: "run_steps demo_reader (ps_cluster demo_psys) ''ns'' ''kc'' 4 Start (ps_provider demo_psys) = (?c, ?p)"
    by code_simp
  show ?thesis
    using provider_returns_matching_client [OF init run_reach [OF call run], of 0 "''ns''" "''kc''"] by simp
qed

text \<open>
  The cache is stable: while neither the connection nor its Secret changes, a second call
  returns the same client and leaves the provider as it is, so tokens keep being shared.
\<close>
lemma cached_client_reused:
  assumes "For rdr k ns name p = (Inr kc, p')"
  shows "For rdr k ns name p' = (Inr kc, p')"
  using assms by (auto simp: For_def Let_def split: sum.splits option.splits if_splits)

end
