(* ===== verification/Lastapplied.thy ===== *)
theory Lastapplied
  imports Json
begin

text \<open>
  The field-ownership algebra of \<open>internal/controller/lastapplied.go\<close>: the payload to
  enforce from the spec and the last-applied annotation (\<open>EffectivePayload\<close>), overlaying
  it on the remote representation (\<open>MergePayload\<close>) and detecting drift
  (\<open>PayloadDiffers\<close>).

  A Go \<open>range\<close> over a map visits the keys in an unspecified order. The definitions follow
  the order of the association list; the results are shown not to depend on it.
\<close>

section \<open>The operations\<close>

fun zeroFor :: "json \<Rightarrow> json option" where
  "zeroFor (JStr _) = Some (JStr [])"
| "zeroFor (JBool _) = Some (JBool False)"
| "zeroFor (JArr _) = Some (JArr [])"
| "zeroFor (JObj _) = Some (JObj [])"
| "zeroFor _ = None"

fun deepCopyValue :: "json \<Rightarrow> json"
  and deepCopyMap :: "json gomap \<Rightarrow> json gomap" where
  "deepCopyValue (JObj m) = JObj (deepCopyMap m)"
| "deepCopyValue (JArr js) = JArr (map deepCopyValue js)"
| "deepCopyValue j = j"
| "deepCopyMap [] = []"
| "deepCopyMap ((k, v) # m) = mput k (deepCopyValue v) (deepCopyMap m)"

fun resetRemoved :: "json gomap \<Rightarrow> json gomap \<Rightarrow> json gomap" where
  "resetRemoved payload [] = payload"
| "resetRemoved payload ((k, previous) # prev) =
     (case map_of payload k of
        Some _ \<Rightarrow> resetRemoved payload prev
      | None \<Rightarrow>
          (case zeroFor previous of
             Some zero \<Rightarrow> resetRemoved (mput k zero payload) prev
           | None \<Rightarrow> resetRemoved payload prev))"

definition EffectivePayload :: "json gomap \<Rightarrow> text \<Rightarrow> json gomap option" where
  "EffectivePayload specMap lastApplied =
     (let payload = deepCopyMap specMap
      in if lastApplied = Raw [] then Some payload
         else case Unmarshal_map lastApplied of
                None \<Rightarrow> None
              | Some prev \<Rightarrow> Some (resetRemoved payload prev))"

fun MergePayload :: "json gomap \<Rightarrow> json gomap \<Rightarrow> json gomap" where
  "MergePayload remote [] = remote"
| "MergePayload remote ((k, v) # payload) =
     (if v = JNull then MergePayload (mdel k remote) payload
      else MergePayload (mput k v remote) payload)"

definition keycloakMaskedValue :: string where
  "keycloakMaskedValue = ''**********''"

fun isZeroValue :: "json \<Rightarrow> bool" where
  "isZeroValue (JStr s) \<longleftrightarrow> s = []"
| "isZeroValue (JBool b) \<longleftrightarrow> \<not> b"
| "isZeroValue (JArr l) \<longleftrightarrow> length l = 0"
| "isZeroValue (JObj m) \<longleftrightarrow> length m = 0"
| "isZeroValue _ \<longleftrightarrow> False"

definition deepEqualJSON :: "json \<Rightarrow> json \<Rightarrow> bool" where
  "deepEqualJSON a b \<longleftrightarrow> Marshal a = Marshal b"

definition jsonEqual :: "json \<Rightarrow> json \<Rightarrow> bool" where
  "jsonEqual a b =
     (case (Unmarshal (Marshal a), Unmarshal (Marshal b)) of
        (Some aNorm, Some bNorm) \<Rightarrow> Marshal a = Marshal b \<or> deepEqualJSON aNorm bNorm
      | _ \<Rightarrow> False)"

text \<open>
  The loop over the desired list marks the remote elements it has used. \<open>firstMatch\<close> is
  the inner loop: the first unused remote element equal to the desired one is marked.
\<close>

function (sequential) PayloadDiffers :: "json gomap \<Rightarrow> json gomap \<Rightarrow> bool"
  and managedValueEqual :: "json \<Rightarrow> json \<Rightarrow> bool"
  and matchItems :: "json list \<Rightarrow> (bool \<times> json) list \<Rightarrow> bool"
  and firstMatch :: "json \<Rightarrow> (bool \<times> json) list \<Rightarrow> (bool \<times> json) list option" where
  "PayloadDiffers remote [] = False"
| "PayloadDiffers remote ((k, want) # payload) =
     (let got = map_of remote k
      in if want = JNull then
           (if got \<noteq> None \<and> got \<noteq> Some JNull then True else PayloadDiffers remote payload)
         else if isZeroValue want then
           (case got of
              None \<Rightarrow> PayloadDiffers remote payload
            | Some g \<Rightarrow>
                if g \<noteq> JNull \<and> \<not> managedValueEqual want g then True
                else PayloadDiffers remote payload)
         else
           (case got of
              None \<Rightarrow> True
            | Some g \<Rightarrow>
                if g = JNull then True
                else if \<not> managedValueEqual want g then True
                else PayloadDiffers remote payload))"
| "managedValueEqual (JObj wantMap) got =
     (case got of JObj gotMap \<Rightarrow> \<not> PayloadDiffers gotMap wantMap | _ \<Rightarrow> False)"
| "managedValueEqual (JArr wantList) got =
     (case got of
        JArr gotList \<Rightarrow>
          length wantList = length gotList \<and>
          matchItems wantList (map (\<lambda>g. (False, g)) gotList)
      | _ \<Rightarrow> False)"
| "managedValueEqual want got =
     (if got = JStr keycloakMaskedValue then True else jsonEqual want got)"
| "matchItems [] gots = True"
| "matchItems (w # ws) gots =
     (case firstMatch w gots of None \<Rightarrow> False | Some gots' \<Rightarrow> matchItems ws gots')"
| "firstMatch w [] = None"
| "firstMatch w ((used, g) # gots) =
     (if used then map_option (Cons (used, g)) (firstMatch w gots)
      else if managedValueEqual w g then Some ((True, g) # gots)
      else map_option (Cons (used, g)) (firstMatch w gots))"
  by pat_completeness auto
termination
  by (relation "measures
      [case_sum (case_sum (\<lambda>(r, p). size (JObj p) - 1) (\<lambda>(w, g). size w))
        (case_sum (\<lambda>(ws, gs). size_list size ws) (\<lambda>(w, gs). size w)),
       case_sum (case_sum (\<lambda>_. 0) (\<lambda>_. 0)) (case_sum (\<lambda>_. 0) (\<lambda>(w, gs). Suc (length gs)))]")
    auto

section \<open>Comparing values\<close>

lemma jsonEqual_iff: "jsonEqual a b \<longleftrightarrow> jround a = jround b"
  by (auto simp: jsonEqual_def deepEqualJSON_def Marshal_def)

text \<open>Whether one payload entry asks for a change of the remote representation.\<close>

definition entryDiffers :: "json gomap \<Rightarrow> string \<Rightarrow> json \<Rightarrow> bool" where
  "entryDiffers remote k want \<longleftrightarrow>
     (if want = JNull then map_of remote k \<noteq> None \<and> map_of remote k \<noteq> Some JNull
      else case map_of remote k of
             None \<Rightarrow> \<not> isZeroValue want
           | Some g \<Rightarrow> if g = JNull then \<not> isZeroValue want else \<not> managedValueEqual want g)"

lemma PayloadDiffers_Cons:
  "PayloadDiffers remote ((k, want) # payload) \<longleftrightarrow>
     entryDiffers remote k want \<or> PayloadDiffers remote payload"
  by (auto simp: entryDiffers_def Let_def split: option.splits)

lemma PayloadDiffers_iff:
  "PayloadDiffers remote payload \<longleftrightarrow> (\<exists>(k, want) \<in> set payload. entryDiffers remote k want)"
proof (induction payload)
  case (Cons p payload)
  then show ?case by (cases p) (simp add: PayloadDiffers_Cons del: PayloadDiffers.simps)
qed simp

declare PayloadDiffers.simps(2) [simp del]

lemma entryDiffers_cong: "map_of r k = map_of r' k \<Longrightarrow> entryDiffers r k w = entryDiffers r' k w"
  by (simp add: entryDiffers_def)

lemma firstMatch_used:
  "managedValueEqual w g \<Longrightarrow>
   firstMatch w (map (Pair True) us @ (False, g) # rest) =
     Some (map (Pair True) us @ (True, g) # rest)"
  by (induction us) auto

lemma matchItems_self:
  assumes "\<forall>w \<in> set ws. managedValueEqual w w"
  shows "matchItems ws (map (Pair True) us @ map (Pair False) ws)"
  using assms
proof (induction ws arbitrary: us)
  case (Cons w ws)
  have "matchItems ws (map (Pair True) (us @ [w]) @ map (Pair False) ws)"
    by (rule Cons.IH) (use Cons.prems in simp)
  with Cons.prems show ?case by (simp add: firstMatch_used)
qed simp

lemma managedValueEqual_refl: "jwf w \<Longrightarrow> managedValueEqual w w"
proof (induction w)
  case (JArr ws)
  then show ?case using matchItems_self [of ws "[]"] by (simp add: list_all_iff)
next
  case (JObj m)
  have "\<not> entryDiffers m k want" if "(k, want) \<in> set m" for k want
  proof -
    from that JObj.prems have "map_of m k = Some want"
      by (simp add: mwf_distinct)
    moreover from that JObj have "managedValueEqual want want"
      by (force simp: mjwf_def)
    ultimately show ?thesis by (simp add: entryDiffers_def)
  qed
  then show ?case by (auto simp: PayloadDiffers_iff)
qed (simp_all add: jsonEqual_iff)

section \<open>Lists are compared up to order\<close>

definition unused :: "(bool \<times> json) list \<Rightarrow> json multiset" where
  "unused gots = mset (map snd (filter (\<lambda>p. \<not> fst p) gots))"

lemma unused_simps [simp]:
  "unused [] = {#}"
  "unused ((u, g) # gots) = (if u then unused gots else add_mset g (unused gots))"
  "unused (map (Pair False) gs) = mset gs"
  by (simp_all add: unused_def comp_def)

lemma firstMatch_sound:
  "firstMatch w gots = Some gots' \<Longrightarrow>
   \<exists>g. managedValueEqual w g \<and> unused gots = add_mset g (unused gots')"
proof (induction gots arbitrary: gots')
  case (Cons p gots)
  then show ?case by (cases p) (auto split: if_splits)
qed simp

lemma matchItems_sound:
  "matchItems ws gots \<Longrightarrow> \<exists>gs. list_all2 managedValueEqual ws gs \<and> mset gs \<subseteq># unused gots"
proof (induction ws arbitrary: gots)
  case (Cons w ws)
  then obtain gots' where f: "firstMatch w gots = Some gots'" and m: "matchItems ws gots'"
    by (auto split: option.splits)
  from firstMatch_sound [OF f] obtain g
    where g: "managedValueEqual w g" "unused gots = add_mset g (unused gots')" by blast
  from Cons.IH [OF m] obtain gs
    where "list_all2 managedValueEqual ws gs" "mset gs \<subseteq># unused gots'" by blast
  with g show ?case by (intro exI [of _ "g # gs"]) simp
qed (auto intro: exI [of _ "[]"])

lemma firstMatch_complete:
  assumes "\<And>g. g \<in># unused gots \<Longrightarrow> managedValueEqual w g \<longleftrightarrow> g = w" and "w \<in># unused gots"
  shows "\<exists>gots'. firstMatch w gots = Some gots' \<and> unused gots = add_mset w (unused gots')"
  using assms
proof (induction gots)
  case (Cons p gots)
  then show ?case by (cases p) (fastforce split: if_splits)
qed simp

lemma matchItems_complete:
  assumes "\<And>w g. w \<in> set ws \<Longrightarrow> g \<in># unused gots \<Longrightarrow> managedValueEqual w g \<longleftrightarrow> g = w"
    and "mset ws \<subseteq># unused gots"
  shows "matchItems ws gots"
  using assms
proof (induction ws arbitrary: gots)
  case (Cons w ws)
  have "w \<in># unused gots"
    using mset_subset_eqD [OF Cons.prems(2)] by simp
  with firstMatch_complete [of gots w] Cons.prems(1) obtain gots'
    where "firstMatch w gots = Some gots'" and u: "unused gots = add_mset w (unused gots')"
    by auto
  moreover have "matchItems ws gots'"
    using Cons.prems u by (intro Cons.IH) auto
  ultimately show ?case by simp
qed simp

lemma array_match:
  assumes "managedValueEqual (JArr ws) (JArr gs)"
  shows "\<exists>gs'. mset gs' = mset gs \<and> list_all2 managedValueEqual ws gs'"
proof -
  from assms have len: "length ws = length gs" and "matchItems ws (map (Pair False) gs)"
    by simp_all
  from matchItems_sound [OF this(2)] obtain gs'
    where m: "list_all2 managedValueEqual ws gs'" and sub: "mset gs' \<subseteq># mset gs" by auto
  have "length gs' = length gs" using list_all2_lengthD [OF m] len by simp
  then have "mset gs' = mset gs"
    using sub by (metis mset_subset_size nless_le size_mset subset_mset.nless_le)
  with m show ?thesis by blast
qed

section \<open>Payload algebra\<close>

lemma deepCopyValue_id: "jwf j \<Longrightarrow> deepCopyValue j = j"
  and deepCopyMap_id: "mjwf m \<Longrightarrow> deepCopyMap m = m"
  by (induction j and m rule: deepCopyValue_deepCopyMap.induct)
    (auto simp: list_all_iff map_idI mjwf_Cons mput_front)

lemma deepCopyMap_lookup: "map_of (deepCopyMap m) k = map_option deepCopyValue (map_of m k)"
  by (induction m) auto

lemma resetRemoved_lookup:
  assumes "distinct (map fst prev)"
  shows "map_of (resetRemoved payload prev) k =
    (case map_of payload k of Some v \<Rightarrow> Some v | None \<Rightarrow> Option.bind (map_of prev k) zeroFor)"
  using assms
proof (induction payload prev rule: resetRemoved.induct)
  case (2 payload k' previous prev)
  then have "map_of prev k' = None" by (simp add: map_of_eq_None_iff)
  with 2 show ?case by (auto split: option.splits)
qed (simp split: option.splits)

lemma resetRemoved_wf [wf_intros]: "mjwf payload \<Longrightarrow> mjwf (resetRemoved payload prev)"
proof (induction payload prev rule: resetRemoved.induct)
  case (2 payload k previous prev)
  moreover have "jwf zero" if "zeroFor previous = Some zero" for zero
    using that by (cases previous) auto
  ultimately show ?case by (auto split: option.splits)
qed simp

lemma MergePayload_find:
  assumes "distinct (map fst payload)"
  shows "map_of (MergePayload remote payload) k =
    (case map_of payload k of
       None \<Rightarrow> map_of remote k
     | Some v \<Rightarrow> if v = JNull then None else Some v)"
  using assms
proof (induction remote payload rule: MergePayload.induct)
  case (2 remote k' v payload)
  then have "map_of payload k' = None" by (simp add: map_of_eq_None_iff)
  with 2 show ?case by (auto split: option.splits)
qed simp

lemma MergePayload_wf [wf_intros]: "mjwf remote \<Longrightarrow> mjwf payload \<Longrightarrow> mjwf (MergePayload remote payload)"
proof (induction remote payload rule: MergePayload.induct)
  case (2 remote k v payload)
  then show ?case by (simp add: mjwf_Cons)
qed simp

lemma mjwf_decoded: "jwf (JObj m) \<Longrightarrow> Unmarshal_map (Enc (JObj m)) = Some prev \<Longrightarrow> mjwf prev"
  using jround_wf [of "JObj m"] by (auto simp: Unmarshal_map_def)

lemma EffectivePayload_wf [wf_intros]:
  assumes "mjwf specMap" and "EffectivePayload specMap lastApplied = Some payload"
  shows "mjwf payload"
  using assms by (auto simp: EffectivePayload_def deepCopyMap_id resetRemoved_wf Let_def
      split: if_splits option.splits)

lemma effective_lookup:
  assumes "mjwf specMap" and "mjwf applied"
  shows "\<exists>payload. EffectivePayload specMap (Marshal (JObj applied)) = Some payload \<and>
    mjwf payload \<and>
    (\<forall>k. map_of payload k =
       (case map_of specMap k of
          Some v \<Rightarrow> Some v
        | None \<Rightarrow> Option.bind (map_of applied k) zeroFor))"
proof -
  obtain prev where prev: "Unmarshal_map (Enc (JObj applied)) = Some prev"
    by (simp add: Unmarshal_map_def)
  have wf: "mjwf prev" using assms(2) prev mjwf_decoded by simp
  have "map_of prev k = map_option jround (map_of applied k)" for k
    using prev by (auto simp: Unmarshal_map_def map_of_snd)
  moreover have "zeroFor (jround j) = zeroFor j" for j by (cases j) simp_all
  ultimately have "Option.bind (map_of prev k) zeroFor = Option.bind (map_of applied k) zeroFor" for k
    by (cases "map_of applied k") simp_all
  with assms(1) prev wf show ?thesis
    by (auto simp: EffectivePayload_def Marshal_def deepCopyMap_id Let_def resetRemoved_lookup
        mwf_distinct resetRemoved_wf split: option.splits)
qed

section \<open>Properties\<close>

text \<open>
  C14: The effective payload is, key by key, the spec's value where the spec has the key,
  otherwise the zero value of what was last applied (strings, booleans, lists, maps), and
  nothing for numbers and for keys never applied; a well-formed annotation never fails.
\<close>
theorem EffectivePayload_lookup:
  assumes "mjwf specMap" and "mjwf applied"
  shows "\<exists>payload. EffectivePayload specMap (Marshal (JObj applied)) = Some payload \<and>
    mjwf payload \<and>
    (\<forall>k. map_of payload k =
       (case map_of specMap k of
          Some v \<Rightarrow> Some v
        | None \<Rightarrow>
            (case map_of applied k of
               Some (JStr _) \<Rightarrow> Some (JStr [])
             | Some (JBool _) \<Rightarrow> Some (JBool False)
             | Some (JArr _) \<Rightarrow> Some (JArr [])
             | Some (JObj _) \<Rightarrow> Some (JObj [])
             | Some (JNum _) \<Rightarrow> None
             | Some JNull \<Rightarrow> None
             | None \<Rightarrow> None)))"
proof -
  have zero: "Option.bind x zeroFor =
      (case x of Some (JStr _) \<Rightarrow> Some (JStr []) | Some (JBool _) \<Rightarrow> Some (JBool False) | Some (JArr _) \<Rightarrow> Some (JArr [])
       | Some (JObj _) \<Rightarrow> Some (JObj []) | Some (JNum _) \<Rightarrow> None | Some JNull \<Rightarrow> None | None \<Rightarrow> None)" for x
    by (simp split: option.split json.split)
  show ?thesis using effective_lookup [OF assms] unfolding zero .
qed

theorem EffectivePayload_lookup_witness:
  "\<exists>payload. EffectivePayload [(''realm'', JStr ''demo'')]
      (Marshal (JObj [(''accessTokenLifespan'', JNum 300), (''attributes'', JObj [(''a'', JStr ''1'')]),
         (''displayName'', JStr ''Old''), (''enabled'', JBool True), (''supportedLocales'', JArr [JStr ''en''])])) = Some payload \<and>
    map_of payload ''displayName'' = Some (JStr []) \<and> map_of payload ''enabled'' = Some (JBool False) \<and>
    map_of payload ''supportedLocales'' = Some (JArr []) \<and> map_of payload ''attributes'' = Some (JObj []) \<and>
    map_of payload ''accessTokenLifespan'' = None \<and> map_of payload ''realm'' = Some (JStr ''demo'')"
  using EffectivePayload_lookup [of "[(''realm'', JStr ''demo'')]"
      "[(''accessTokenLifespan'', JNum 300), (''attributes'', JObj [(''a'', JStr ''1'')]),
        (''displayName'', JStr ''Old''), (''enabled'', JBool True), (''supportedLocales'', JArr [JStr ''en''])]"]
  by (auto simp: mjwf_def mwf_def)

text \<open>
  C9: Drift correction converges: the representation that \<open>MergePayload\<close> produces no
  longer differs from the payload, whatever the remote representation was, and it keeps
  every remote key the payload does not manage.
\<close>
theorem merge_converges:
  assumes "mjwf payload"
  shows "\<not> PayloadDiffers (MergePayload remote payload) payload \<and>
    (\<forall>k. map_of payload k = None \<longrightarrow> map_of (MergePayload remote payload) k = map_of remote k)"
proof -
  have d: "distinct (map fst payload)" using assms by (simp add: mwf_distinct)
  have "\<not> entryDiffers (MergePayload remote payload) k want" if "(k, want) \<in> set payload" for k want
    using that d assms managedValueEqual_refl [of want]
    by (auto simp: entryDiffers_def MergePayload_find mjwf_def)
  then show ?thesis using d by (auto simp: PayloadDiffers_iff MergePayload_find)
qed

theorem merge_converges_witness:
  "\<not> PayloadDiffers (MergePayload [(''enabled'', JBool True), (''x'', JNum 1)] [(''enabled'', JBool False)])
      [(''enabled'', JBool False)] \<and>
   map_of (MergePayload [(''enabled'', JBool True), (''x'', JNum 1)] [(''enabled'', JBool False)]) ''x'' = Some (JNum 1)"
  using merge_converges [of "[(''enabled'', JBool False)]" "[(''enabled'', JBool True), (''x'', JNum 1)]"]
  by (simp add: mjwf_def mwf_def)

text \<open>
  C32: Go iterates over a map in an unspecified order. Neither the drift test nor the merged
  representation depends on the order in which the payload is visited.
\<close>
theorem payload_order_irrelevant:
  assumes "distinct (map fst payload)" and "mset payload' = mset payload"
  shows "PayloadDiffers remote payload' = PayloadDiffers remote payload \<and>
    map_of (MergePayload remote payload') = map_of (MergePayload remote payload)"
proof -
  have s: "set payload' = set payload" using assms(2) by (rule mset_eq_setD)
  have "mset (map fst payload') = mset (map fst payload)" using assms(2) by (simp add: mset_map)
  with assms(1) have d: "distinct (map fst payload')" by (metis mset_eq_imp_distinct_iff)
  then have "map_of payload' = map_of payload"
    using map_of_inject_set [OF d assms(1)] s by simp
  with s d assms(1) show ?thesis by (auto simp: PayloadDiffers_iff MergePayload_find fun_eq_iff)
qed

theorem payload_order_irrelevant_witness:
  "PayloadDiffers [] [(''b'', JNum 1), (''a'', JNum 2)] = PayloadDiffers [] [(''a'', JNum 2), (''b'', JNum 1)]"
  using payload_order_irrelevant [of "[(''a'', JNum 2), (''b'', JNum 1)]" "[(''b'', JNum 1), (''a'', JNum 2)]" "[]"]
  by simp

text \<open>
  C33: For lists of strings (redirect URIs, web origins, event types) the comparison is
  exactly equality of multisets, as long as the server does not mask an element.
\<close>
theorem string_lists_equal_iff:
  assumes "keycloakMaskedValue \<notin> set gs"
  shows "managedValueEqual (JArr (map JStr ws)) (JArr (map JStr gs)) \<longleftrightarrow> mset ws = mset gs"
proof -
  have eq: "managedValueEqual (JStr w) g \<longleftrightarrow> g = JStr w" if "g \<in> JStr ` set gs" for w g
    using that assms by (auto simp: jsonEqual_iff)
  have "mset ws = mset gs" if "managedValueEqual (JArr (map JStr ws)) (JArr (map JStr gs))"
  proof -
    from array_match [OF that] obtain gs'
      where gs': "mset gs' = mset (map JStr gs)" "list_all2 managedValueEqual (map JStr ws) gs'" by blast
    have "set gs' = JStr ` set gs" using mset_eq_setD [OF gs'(1)] by simp
    then have "list_all2 (\<lambda>w g. g = JStr w) ws gs'"
      using gs'(2) eq by (auto simp: list_all2_conv_all_nth) (metis nth_mem)
    then have "gs' = map JStr ws" by (simp add: list_all2_conv_all_nth nth_equalityI)
    with gs'(1) have "image_mset JStr (mset ws) = image_mset JStr (mset gs)" by simp
    then show ?thesis using multiset.inj_map [of JStr] by (auto dest: injD simp: inj_def)
  qed
  moreover have "managedValueEqual (JArr (map JStr ws)) (JArr (map JStr gs))" if "mset ws = mset gs"
  proof -
    have "matchItems (map JStr ws) (map (Pair False) (map JStr gs))"
      by (rule matchItems_complete; unfold unused_simps(3))
        (use that eq in \<open>auto simp del: managedValueEqual.simps\<close>)
    then show ?thesis using mset_eq_length [OF that] by simp
  qed
  ultimately show ?thesis by blast
qed

theorem string_lists_equal_iff_witness:
  "managedValueEqual (JArr (map JStr [''a'', ''b''])) (JArr (map JStr [''b'', ''a'']))"
proof -
  have "keycloakMaskedValue \<notin> set [''b'', ''a'']" by (simp add: keycloakMaskedValue_def)
  from string_lists_equal_iff [OF this, of "[''a'', ''b'']"] show ?thesis
    by (simp del: managedValueEqual.simps add: add_mset_commute)
qed



end
