(* ===== verification/Engine.thy ===== *)
theory Engine
  imports Kube Lastapplied Resources
begin

text \<open>
  The shared reconciliation lifecycle of \<open>internal/controller/engine.go\<close>.

  The Go interfaces \<open>Driver\<close> and \<open>Spec\<close> are the records \<open>driver\<close> and \<open>SpecView\<close>; the
  struct \<open>Engine\<close> is the record \<open>engine\<close>. The state a reconciliation works on is the
  Keycloak side (\<open>net\<close>), the cluster (\<open>cluster\<close>), the events recorded and the metrics
  emitted. The object under reconciliation is mutated through a pointer in Go; every
  function that can change it returns it.

  Durations are in nanoseconds. A panic of a driver is an error value: controller-runtime turns
  it into an error return of the reconciler.
\<close>

section \<open>Interfaces\<close>

record SpecView =
  sv_ConnectionName :: string
  sv_TargetRealm :: string
  sv_Adoption :: string
  sv_Deletion :: string
  sv_JSON :: "json gomap"

record ('w, 'k, 's) driver =
  d_Get :: "'w kc \<Rightarrow> 's object \<Rightarrow> 'w \<Rightarrow> (goerr + json gomap) \<times> 'w"
  d_ID :: "json gomap \<Rightarrow> string"
  d_Create :: "'w kc \<Rightarrow> 's object \<Rightarrow> json gomap \<Rightarrow> 'w \<Rightarrow> goerr option \<times> 'w"
  d_Update :: "'w kc \<Rightarrow> 's object \<Rightarrow> string \<Rightarrow> json gomap \<Rightarrow> 'w \<Rightarrow> goerr option \<times> 'w"
  d_Delete :: "'w kc \<Rightarrow> 's object \<Rightarrow> 'w \<Rightarrow> goerr option \<times> 'w"
  d_ManagedMarker :: "json gomap \<Rightarrow> json gomap"
  d_IsManaged :: "json gomap \<Rightarrow> bool"
  d_PreparePayload :: "('k, 's) kube \<Rightarrow> 's object \<Rightarrow> 'k \<Rightarrow> json gomap \<Rightarrow> goerr + json gomap"
  d_PostApply :: "'w kc \<Rightarrow> ('k, 's) kube \<Rightarrow> 's object \<Rightarrow> json gomap \<Rightarrow> 'k \<Rightarrow> 'w \<Rightarrow>
    (bool \<times> goerr option \<times> 's object \<times> 'k) \<times> 'w"
  d_Protected :: "'s object \<Rightarrow> msg option"
  d_Spec :: "'s object \<Rightarrow> SpecView"
  d_OperatorFields :: "string list"

datatype event = Normal string msg | Warning reason msg

record ('w, 'k) eng =
  net :: 'w
  cluster :: 'k
  events :: "event list"
  emitted :: "metric list"

record ('w, 'k, 's) engine =
  e_client :: "('k, 's) kube"
  e_provider :: "'k \<Rightarrow> string \<Rightarrow> string \<Rightarrow> 'w \<Rightarrow> (goerr + 'w kc) \<times> 'w"
  e_recorder :: bool
  e_resync :: duration

text \<open>\<open>ctrl.Result\<close> and \<open>error\<close>: done, requeue after a delay, or an error return.\<close>

datatype result = Done | RequeueAfter duration | Failed goerr

definition DefaultResync :: duration where "DefaultResync = Hour"

definition connectionRetry :: duration where "connectionRetry = 30 * Second"

definition secretRetry :: duration where "secretRetry = 30 * Second"

definition NewEngine ::
    "('k, 's) kube \<Rightarrow> ('k \<Rightarrow> string \<Rightarrow> string \<Rightarrow> 'w \<Rightarrow> (goerr + 'w kc) \<times> 'w) \<Rightarrow> bool \<Rightarrow> duration \<Rightarrow>
     ('w, 'k, 's) engine" where
  "NewEngine c provider recorder resync =
     \<lparr>e_client = c, e_provider = provider, e_recorder = recorder,
      e_resync = (if resync \<le> 0 then DefaultResync else resync)\<rparr>"

section \<open>Helpers\<close>

text \<open>Marshalling a struct and decoding it into a map; the structs of the API always encode.\<close>

definition toJSONMap :: "json gomap \<Rightarrow> goerr + json gomap" where
  "toJSONMap kvs =
     (case Unmarshal_map (Marshal (JObj (mputs [] kvs))) of
        Some m \<Rightarrow> Inr m
      | None \<Rightarrow> Inl (Errorf [''json'']))"

definition cloneMap :: "json gomap \<Rightarrow> json gomap" where
  "cloneMap m = mputs [] m"

definition record_event :: "('w, 'k, 's) engine \<Rightarrow> event \<Rightarrow> ('w, 'k) eng \<Rightarrow> ('w, 'k) eng" where
  "record_event E ev st = (if e_recorder E then st\<lparr>events := events st @ [ev]\<rparr> else st)"

definition emit :: "metric \<Rightarrow> ('w, 'k) eng \<Rightarrow> ('w, 'k) eng" where
  "emit m st = st\<lparr>emitted := emitted st @ [m]\<rparr>"

definition patchStatus :: "('w, 'k, 's) engine \<Rightarrow> 's object \<Rightarrow> 's object \<Rightarrow> ('w, 'k) eng \<Rightarrow>
    's object \<times> ('w, 'k) eng" where
  "patchStatus E obj base st =
     (case k_statusPatch (e_client E) (cluster st) base obj of
        (Inl e, k) \<Rightarrow> (obj, st\<lparr>cluster := k\<rparr>)
      | (Inr obj', k) \<Rightarrow> (obj', st\<lparr>cluster := k\<rparr>))"

definition setCondition :: "('w, 'k, 's) engine \<Rightarrow> 's object \<Rightarrow> string \<Rightarrow> condStatus \<Rightarrow> reason \<Rightarrow> msg \<Rightarrow>
    's object \<Rightarrow> ('w, 'k) eng \<Rightarrow> 's object \<times> ('w, 'k) eng" where
  "setCondition E base condType condStatus reason message obj st =
     (let cond = \<lparr>cond_type = condType, cond_status = condStatus, cond_generation = obj_generation obj,
                  cond_reason = reason, cond_message = message\<rparr>;
          status = obj_status obj;
          obj' = obj\<lparr>obj_status :=
            status\<lparr>conditions := k_setCondition (e_client E) (conditions status) cond\<rparr>\<rparr>
      in patchStatus E obj' base st)"

definition set_both :: "('w, 'k, 's) engine \<Rightarrow> 's object \<Rightarrow> condStatus \<Rightarrow> reason \<Rightarrow> msg \<Rightarrow> msg \<Rightarrow>
    's object \<Rightarrow> ('w, 'k) eng \<Rightarrow> 's object \<times> ('w, 'k) eng" where
  "set_both E base condStatus reason m1 m2 obj st =
     (case setCondition E base ConditionReady condStatus reason m1 obj st of
        (obj1, st1) \<Rightarrow> setCondition E base ConditionSynced condStatus reason m2 obj1 st1)"

definition fail :: "('w, 'k, 's) engine \<Rightarrow> 's object \<Rightarrow> reason \<Rightarrow> msg \<Rightarrow> 's object \<Rightarrow> ('w, 'k) eng \<Rightarrow>
    's object \<times> ('w, 'k) eng" where
  "fail E base reason message obj st =
     (let previous = k_findCondition (e_client E) (conditions (obj_status obj)) ConditionReady;
          changed = (case previous of
             None \<Rightarrow> True
           | Some c \<Rightarrow> cond_reason c \<noteq> reason \<or> cond_message c \<noteq> message)
      in case set_both E base ConditionFalse reason message message obj st of
           (obj1, st1) \<Rightarrow>
             (obj1, if changed then record_event E (Warning reason message) st1 else st1))"

section \<open>The handlers\<close>

definition handleDeletion :: "('w, 'k, 's) engine \<Rightarrow> ('w, 'k, 's) driver \<Rightarrow> 'w kc \<Rightarrow>
    's object \<Rightarrow> ('w, 'k) eng \<Rightarrow> goerr option \<times> 's object \<times> ('w, 'k) eng" where
  "handleDeletion E drv kc obj st =
     (let finish = (\<lambda>st. let obj' = obj\<lparr>obj_finalizers :=
                            k_removeFinalizer (e_client E) (obj_finalizers obj) FinalizerName\<rparr>
                         in case k_update (e_client E) (cluster st) obj' of
                              (Inl e, k) \<Rightarrow> (Some e, obj', st\<lparr>cluster := k\<rparr>)
                            | (Inr obj'', k) \<Rightarrow> (None, obj'', st\<lparr>cluster := k\<rparr>))
      in if sv_Deletion (d_Spec drv obj) = DeletionDelete then
           (case d_Delete drv kc obj (net st) of
              (err, w) \<Rightarrow>
                let st1 = st\<lparr>net := w\<rparr> in
                case err of
                  Some e \<Rightarrow>
                    if \<not> errors_Is e ErrNotFound then (Some e, obj, st1)
                    else finish (record_event E (Normal ''Deleted'' (Lit ''Deleted resource on Keycloak server'')) st1)
                | None \<Rightarrow>
                    finish (record_event E (Normal ''Deleted'' (Lit ''Deleted resource on Keycloak server'')) st1))
         else finish st)"

definition finalize :: "('w, 'k, 's) engine \<Rightarrow> 's object \<Rightarrow> json gomap \<Rightarrow> bool \<Rightarrow>
    's object \<Rightarrow> ('w, 'k) eng \<Rightarrow> result \<times> 's object \<times> ('w, 'k) eng" where
  "finalize E base specMap synced obj st =
     (let obj1 = obj\<lparr>obj_status := (obj_status obj)\<lparr>observedGeneration := obj_generation obj\<rparr>\<rparr>;
          encoded = Marshal (JObj specMap);
          message = Lit (if synced then ''Reconciliation succeeded'' else ''Server state matches spec'');
          ready = (\<lambda>obj st. case set_both E base ConditionTrue ReasonSucceeded message message obj st of
                              (obj', st') \<Rightarrow> (RequeueAfter (e_resync E), obj', st'))
      in if map_of (obj_annotations obj1) LastAppliedAnnotation \<noteq> Some encoded then
           (let obj2 = obj1\<lparr>obj_annotations := mput LastAppliedAnnotation encoded (obj_annotations obj1)\<rparr>
            in case k_patch (e_client E) (cluster st) base obj2 of
                 (Inl e, k) \<Rightarrow> (Failed e, obj2, st\<lparr>cluster := k\<rparr>)
               | (Inr obj3, k) \<Rightarrow> ready obj3 (st\<lparr>cluster := k\<rparr>))
         else ready obj1 st)"

definition handleCreate :: "('w, 'k, 's) engine \<Rightarrow> ('w, 'k, 's) driver \<Rightarrow> 'w kc \<Rightarrow> 's object \<Rightarrow>
    json gomap \<Rightarrow> json gomap \<Rightarrow> 's object \<Rightarrow> ('w, 'k) eng \<Rightarrow> result \<times> 's object \<times> ('w, 'k) eng" where
  "handleCreate E drv kc base specMap payload obj st =
     (case d_PreparePayload drv (e_client E) obj (cluster st) payload of
        Inl e \<Rightarrow>
          (case fail E base ReasonSecretMissing (ErrMsg e) obj st of
             (obj', st') \<Rightarrow> (RequeueAfter secretRetry, obj', st'))
      | Inr prepared \<Rightarrow>
          let marked = d_ManagedMarker drv prepared in
          case d_Create drv kc obj marked (net st) of
            (Some e, w) \<Rightarrow>
              let st1 = st\<lparr>net := w\<rparr> in
              if errors_Is e ErrConflict then
                (case fail E base ReasonAlreadyExists
                        (Prefixed ''Resource appeared during reconciliation: '' e) obj st1 of
                   (obj', st') \<Rightarrow> (Done, obj', st'))
              else
                (case set_both E base ConditionFalse ReasonRetrying (ErrMsg e) (Lit ''Create failed'') obj st1 of
                   (obj', st') \<Rightarrow> (Failed e, obj', st'))
          | (None, w) \<Rightarrow>
              let st1 = record_event E
                    (Normal ''Created'' (Lit (''Created '' @ obj_kind obj @ '' on Keycloak server'')))
                    (st\<lparr>net := w\<rparr>) in
              case d_Get drv kc obj (net st1) of
                (Inl e, w2) \<Rightarrow>
                  (case setCondition E base ConditionReady ConditionFalse ReasonRetrying (ErrMsg e) obj
                          (st1\<lparr>net := w2\<rparr>) of
                     (obj', st') \<Rightarrow> (Failed e, obj', st'))
              | (Inr remote, w2) \<Rightarrow>
                  case d_PostApply drv kc (e_client E) obj remote (cluster st1) w2 of
                    ((_, err, obj2, k), w3) \<Rightarrow>
                      let st2 = st1\<lparr>net := w3, cluster := k\<rparr> in
                      case err of
                        Some e \<Rightarrow>
                          (case fail E base ReasonFailed (ErrMsg e) obj2 st2 of
                             (obj', st') \<Rightarrow> (RequeueAfter secretRetry, obj', st'))
                      | None \<Rightarrow> finalize E base specMap True obj2 st2)"

definition last_applied :: "'s object \<Rightarrow> text" where
  "last_applied obj =
     (case map_of (obj_annotations obj) LastAppliedAnnotation of None \<Rightarrow> Raw [] | Some t \<Rightarrow> t)"

definition finishExisting :: "('w, 'k, 's) engine \<Rightarrow> ('w, 'k, 's) driver \<Rightarrow> 'w kc \<Rightarrow> 's object \<Rightarrow>
    json gomap \<Rightarrow> json gomap \<Rightarrow> bool \<Rightarrow> 's object \<Rightarrow> ('w, 'k) eng \<Rightarrow>
    result \<times> 's object \<times> ('w, 'k) eng" where
  "finishExisting E drv kc base specMap remote changed obj st =
     (case d_PostApply drv kc (e_client E) obj remote (cluster st) (net st) of
        ((postChanged, err, obj2, k), w) \<Rightarrow>
          let st2 = st\<lparr>net := w, cluster := k\<rparr> in
          case err of
            Some e \<Rightarrow>
              (case fail E base ReasonFailed (ErrMsg e) obj2 st2 of
                 (obj', st') \<Rightarrow> (RequeueAfter secretRetry, obj', st'))
          | None \<Rightarrow>
              let st3 = (if postChanged then emit (DriftCorrectionsTotal (obj_kind obj)) st2 else st2)
              in finalize E base specMap (changed \<or> postChanged) obj2 st3)"

text \<open>The branch of \<open>handleExisting\<close> that issues the update.\<close>

definition updateExisting :: "('w, 'k, 's) engine \<Rightarrow> ('w, 'k, 's) driver \<Rightarrow> 'w kc \<Rightarrow> 's object \<Rightarrow>
    json gomap \<Rightarrow> json gomap \<Rightarrow> json gomap \<Rightarrow> 's object \<Rightarrow> ('w, 'k) eng \<Rightarrow>
    result \<times> 's object \<times> ('w, 'k) eng" where
  "updateExisting E drv kc base specMap remote prepared obj st =
     (let kind = obj_kind obj;
          st1 = emit (DriftCorrectionsTotal kind) st;
          merged = MergePayload (cloneMap remote) prepared in
      case d_Update drv kc obj (d_ID drv remote) merged (net st1) of
        (Some e, w) \<Rightarrow>
          let st2 = st1\<lparr>net := w\<rparr> in
          if errors_Is e ErrConflict then
            (case fail E base ReasonAlreadyExists (ErrMsg e) obj st2 of
               (obj', st') \<Rightarrow> (Done, obj', st'))
          else
            (case set_both E base ConditionFalse ReasonRetrying (ErrMsg e) (Lit ''Update failed'') obj st2 of
               (obj', st') \<Rightarrow> (Failed e, obj', st'))
      | (None, w) \<Rightarrow>
          finishExisting E drv kc base specMap remote True obj
            (record_event E (Normal ''Updated'' (Lit (''Updated '' @ kind @ '' on Keycloak server'')))
              (st1\<lparr>net := w\<rparr>)))"

definition handleExisting :: "('w, 'k, 's) engine \<Rightarrow> ('w, 'k, 's) driver \<Rightarrow> 'w kc \<Rightarrow> 's object \<Rightarrow>
    json gomap \<Rightarrow> json gomap \<Rightarrow> json gomap \<Rightarrow> 's object \<Rightarrow> ('w, 'k) eng \<Rightarrow>
    result \<times> 's object \<times> ('w, 'k) eng" where
  "handleExisting E drv kc base specMap payload remote obj st =
     (let kind = obj_kind obj; adoption = sv_Adoption (d_Spec drv obj) in
      if adoption = AdoptionFailIfExists then
        (case fail E base ReasonAlreadyExists
                (Lit ''adoptionPolicy is FailIfExists and the resource exists on the server'') obj st of
           (obj', st') \<Rightarrow> (Done, obj', st'))
      else
        let managed = d_IsManaged drv remote \<or> last_applied obj \<noteq> Raw [];
            adopting = (\<not> managed \<and> adoption = AdoptionAdopt) in
        if \<not> managed \<and> \<not> adopting then
          (case fail E base ReasonAlreadyExists
                  (Lit ''A foreign resource with the same key exists; set adoptionPolicy: Adopt to take it over'')
                  obj st of
             (obj', st') \<Rightarrow> (Done, obj', st'))
        else
          let st0 = (if adopting then record_event E (Normal ''Adopted'' (Lit (''Adopted existing '' @ kind))) st
                     else st) in
          case d_PreparePayload drv (e_client E) obj (cluster st0) (d_ManagedMarker drv payload) of
            Inl e \<Rightarrow>
              (case fail E base ReasonSecretMissing (ErrMsg e) obj st0 of
                 (obj', st') \<Rightarrow> (RequeueAfter secretRetry, obj', st'))
          | Inr prepared \<Rightarrow>
              if adopting \<or> PayloadDiffers remote prepared
              then updateExisting E drv kc base specMap remote prepared obj st0
              else finishExisting E drv kc base specMap remote False obj st0)"

section \<open>Reconcile\<close>

text \<open>The body of \<open>Reconcile\<close>, without the deferred metrics.\<close>

definition reconcileBody :: "('w, 'k, 's) engine \<Rightarrow> ('w, 'k, 's) driver \<Rightarrow> 's object \<Rightarrow> ('w, 'k) eng \<Rightarrow>
    result \<times> 's object \<times> ('w, 'k) eng" where
  "reconcileBody E drv obj st =
     (let K = e_client E; base = obj; spec = d_Spec drv obj in
      if obj_deletionTimestamp obj \<noteq> None \<and> sv_Deletion spec = DeletionOrphan then
        (let obj' = obj\<lparr>obj_finalizers := k_removeFinalizer K (obj_finalizers obj) FinalizerName\<rparr>
         in case k_update K (cluster st) obj' of
              (Inl e, k) \<Rightarrow> (Failed e, obj', st\<lparr>cluster := k\<rparr>)
            | (Inr obj'', k) \<Rightarrow> (Done, obj'', st\<lparr>cluster := k\<rparr>))
      else
        case e_provider E (cluster st) (obj_namespace obj) (sv_ConnectionName spec) (net st) of
          (Inl e, w) \<Rightarrow>
            (case set_both E base ConditionFalse ReasonConnectionUnavailable (ErrMsg e)
                    (Lit ''Connection unavailable'') obj (st\<lparr>net := w\<rparr>) of
               (obj', st') \<Rightarrow> (RequeueAfter connectionRetry, obj', st'))
        | (Inr kc, w) \<Rightarrow>
            let st = st\<lparr>net := w\<rparr> in
            if obj_deletionTimestamp obj \<noteq> None then
              (case handleDeletion E drv kc obj st of
                 (None, obj', st') \<Rightarrow> (Done, obj', st')
               | (Some e, obj', st') \<Rightarrow> (Failed e, obj', st'))
            else if \<not> k_containsFinalizer K (obj_finalizers obj) FinalizerName then
              (let obj' = obj\<lparr>obj_finalizers := k_addFinalizer K (obj_finalizers obj) FinalizerName\<rparr>
               in case k_update K (cluster st) obj' of
                    (Inl e, k) \<Rightarrow> (Failed e, obj', st\<lparr>cluster := k\<rparr>)
                  | (Inr obj'', k) \<Rightarrow> (RequeueAfter Second, obj'', st\<lparr>cluster := k\<rparr>))
            else
              case d_Protected drv obj of
                Some message \<Rightarrow>
                  (case fail E base ReasonProtectedRealm message obj st of
                     (obj', st') \<Rightarrow> (Done, obj', st'))
              | None \<Rightarrow>
                  case toJSONMap (sv_JSON spec) of
                    Inl e \<Rightarrow>
                      (case fail E base ReasonFailed (Prefixed ''encode spec: '' e) obj st of
                         (obj', st') \<Rightarrow> (Done, obj', st'))
                  | Inr encoded \<Rightarrow>
                      let specMap = mdels (d_OperatorFields drv) encoded in
                      case EffectivePayload specMap (last_applied obj) of
                        None \<Rightarrow>
                          (case fail E base ReasonFailed (Lit ''decode last-applied annotation'') obj st of
                             (obj', st') \<Rightarrow> (Done, obj', st'))
                      | Some payload \<Rightarrow>
                          case d_Get drv kc obj (net st) of
                            (Inl e, w) \<Rightarrow>
                              if errors_Is e ErrNotFound then
                                handleCreate E drv kc base specMap payload obj (st\<lparr>net := w\<rparr>)
                              else
                                (case set_both E base ConditionFalse ReasonRetrying (ErrMsg e)
                                        (Lit ''Server unreachable'') obj (st\<lparr>net := w\<rparr>) of
                                   (obj', st') \<Rightarrow> (Failed e, obj', st'))
                          | (Inr remote, w) \<Rightarrow>
                              handleExisting E drv kc base specMap payload remote obj (st\<lparr>net := w\<rparr>))"

definition OutcomeSuccess :: string where "OutcomeSuccess = ''success''"

definition OutcomeError :: string where "OutcomeError = ''error''"

definition OutcomeTerminal :: string where "OutcomeTerminal = ''terminal''"

definition outcome_of :: "('w, 'k, 's) engine \<Rightarrow> 's object \<Rightarrow> string" where
  "outcome_of E obj =
     (case k_findCondition (e_client E) (conditions (obj_status obj)) ConditionReady of
        Some c \<Rightarrow> if cond_status c = ConditionFalse then OutcomeTerminal else OutcomeSuccess
      | None \<Rightarrow> OutcomeSuccess)"

definition Reconcile :: "('w, 'k, 's) engine \<Rightarrow> ('w, 'k, 's) driver \<Rightarrow> 's object \<Rightarrow> ('w, 'k) eng \<Rightarrow>
    result \<times> 's object \<times> ('w, 'k) eng" where
  "Reconcile E drv obj st =
     (case reconcileBody E drv obj st of
        (res, obj', st') \<Rightarrow>
          (res, obj', emit (ReconciliationsTotal (obj_kind obj) (outcome_of E obj')) st'))"

section \<open>What the bookkeeping leaves alone\<close>

text \<open>Events, metrics and status patches never touch the Keycloak side.\<close>

lemma record_event_frame [simp]:
  "net (record_event E ev st) = net st" "cluster (record_event E ev st) = cluster st"
  "emitted (record_event E ev st) = emitted st"
  by (simp_all add: record_event_def)

lemma emit_frame [simp]:
  "net (emit m st) = net st" "cluster (emit m st) = cluster st" "events (emit m st) = events st"
  by (simp_all add: emit_def)

lemma patchStatus_frame [simp]:
  "net (snd (patchStatus E obj base st)) = net st"
  "events (snd (patchStatus E obj base st)) = events st"
  "emitted (snd (patchStatus E obj base st)) = emitted st"
  by (simp_all add: patchStatus_def split: prod.splits sum.splits)

lemma setCondition_frame [simp]:
  "net (snd (setCondition E base t s r m obj st)) = net st"
  "events (snd (setCondition E base t s r m obj st)) = events st"
  "emitted (snd (setCondition E base t s r m obj st)) = emitted st"
  by (simp_all add: setCondition_def Let_def)

lemma set_both_frame [simp]:
  "net (snd (set_both E base s r m1 m2 obj st)) = net st"
  "events (snd (set_both E base s r m1 m2 obj st)) = events st"
  "emitted (snd (set_both E base s r m1 m2 obj st)) = emitted st"
  by (simp_all add: set_both_def split_beta)

lemma fail_frame [simp]:
  "net (snd (fail E base r m obj st)) = net st"
  "emitted (snd (fail E base r m obj st)) = emitted st"
  by (simp_all add: fail_def Let_def split_beta)

lemma finalize_frame [simp]:
  "net (snd (snd (finalize E base specMap synced obj st))) = net st"
  "events (snd (snd (finalize E base specMap synced obj st))) = events st"
  "emitted (snd (snd (finalize E base specMap synced obj st))) = emitted st"
  by (simp_all add: finalize_def Let_def split_beta split: prod.splits sum.splits)

section \<open>The conditions written\<close>

text \<open>
  A condition that is written is the one found afterwards, whether the status patch reaches
  the API server (which hands the stored object back) or fails (the object keeps it).
\<close>

definition has_cond :: "('w, 'k, 's) engine \<Rightarrow> 's object \<Rightarrow> string \<Rightarrow> condStatus \<Rightarrow> reason \<Rightarrow> msg \<Rightarrow> bool" where
  "has_cond E obj t s r m \<longleftrightarrow>
     (case k_findCondition (e_client E) (conditions (obj_status obj)) t of
        None \<Rightarrow> False
      | Some c \<Rightarrow> cond_status c = s \<and> cond_reason c = r \<and> cond_message c = m)"

definition well_behaved :: "('w, 'k, 's) engine \<Rightarrow> bool" where
  "well_behaved E \<longleftrightarrow> kube_ok (e_client E) \<and> status_stored (e_client E)"

lemma patchStatus_conditions:
  "well_behaved E \<Longrightarrow>
   conditions (obj_status (fst (patchStatus E obj base st))) = conditions (obj_status obj)"
  unfolding patchStatus_def well_behaved_def status_stored_def
  by (split prod.splits sum.splits)+ (simp, metis)

lemma setCondition_find:
  "well_behaved E \<Longrightarrow>
   k_findCondition (e_client E) (conditions (obj_status (fst (setCondition E base t s r m obj st)))) t' =
     (if t' = t then Some \<lparr>cond_type = t, cond_status = s, cond_generation = obj_generation obj,
                          cond_reason = r, cond_message = m\<rparr>
      else k_findCondition (e_client E) (conditions (obj_status obj)) t')"
  using kube_okD(1) [of "e_client E" "conditions (obj_status obj)"
      "\<lparr>cond_type = t, cond_status = s, cond_generation = obj_generation obj,
        cond_reason = r, cond_message = m\<rparr>"]
  by (auto simp: setCondition_def Let_def patchStatus_conditions kube_okD(2) well_behaved_def)

lemma Ready_neq_Synced [simp]: "ConditionReady \<noteq> ConditionSynced" "ConditionSynced \<noteq> ConditionReady"
  by (simp_all add: ConditionReady_def ConditionSynced_def)

lemma set_both_has:
  "well_behaved E \<Longrightarrow>
   has_cond E (fst (set_both E base s r m1 m2 obj st)) ConditionReady s r m1 \<and>
   has_cond E (fst (set_both E base s r m1 m2 obj st)) ConditionSynced s r m2"
  by (simp add: has_cond_def set_both_def split_beta setCondition_find)

lemma fail_has:
  "well_behaved E \<Longrightarrow>
   has_cond E (fst (fail E base r m obj st)) ConditionReady ConditionFalse r m \<and>
   has_cond E (fst (fail E base r m obj st)) ConditionSynced ConditionFalse r m"
  by (simp add: fail_def Let_def split_beta set_both_has)

lemma set_both_eq:
  "well_behaved E \<Longrightarrow> set_both E base s r m1 m2 obj st = (obj', st') \<Longrightarrow>
   has_cond E obj' ConditionReady s r m1 \<and> has_cond E obj' ConditionSynced s r m2"
  by (metis fst_conv set_both_has)

lemma finalize_has:
  "well_behaved E \<Longrightarrow> finalize E base specMap synced obj st = (RequeueAfter d, obj', st') \<Longrightarrow>
   d = e_resync E \<and> (\<exists>m. has_cond E obj' ConditionReady ConditionTrue ReasonSucceeded m \<and>
                         has_cond E obj' ConditionSynced ConditionTrue ReasonSucceeded m)"
  by (auto simp: finalize_def Let_def split: prod.splits sum.splits if_splits dest!: set_both_eq)

end
