(* ===== verification/Lifecycle.thy ===== *)
theory Lifecycle
  imports Engine
begin

text \<open>
  What \<open>Engine.Reconcile\<close> guarantees. The first section brings a pass over a live object
  (not being deleted, finalizer present, not protected, connection available) to the shape
  the proofs use. The locale \<open>engine_driver\<close> is the contract between the engine and a
  driver; the driver theories interpret it. The properties are about the engine with every
  driver, or with every driver that meets the contract.
\<close>

section \<open>A pass over a live object\<close>

definition live :: "('w, 'k, 's) engine \<Rightarrow> ('w, 'k, 's) driver \<Rightarrow> 's object \<Rightarrow> ('w, 'k) eng \<Rightarrow> 'w kc \<Rightarrow> 'w \<Rightarrow> bool" where
  "live E drv obj st kc w \<longleftrightarrow>
     obj_deletionTimestamp obj = None \<and>
     k_containsFinalizer (e_client E) (obj_finalizers obj) FinalizerName \<and>
     d_Protected drv obj = None \<and>
     e_provider E (cluster st) (obj_namespace obj) (sv_ConnectionName (d_Spec drv obj)) (net st) = (Inr kc, w)"

text \<open>The spec as the payload sees it: encoded, decoded, without the operator's own fields.\<close>

definition spec_map :: "('w, 'k, 's) driver \<Rightarrow> 's object \<Rightarrow> json gomap" where
  "spec_map drv obj =
     mdels (d_OperatorFields drv)
       (map (\<lambda>p. (fst p, jround (snd p))) (mputs [] (sv_JSON (d_Spec drv obj))))"

definition managed_by_us :: "('w, 'k, 's) driver \<Rightarrow> 's object \<Rightarrow> json gomap \<Rightarrow> bool" where
  "managed_by_us drv obj remote \<longleftrightarrow> d_IsManaged drv remote \<or> last_applied obj \<noteq> Raw []"

text \<open>The operator must not take the resource over.\<close>

definition refused :: "('w, 'k, 's) driver \<Rightarrow> 's object \<Rightarrow> json gomap \<Rightarrow> bool" where
  "refused drv obj remote \<longleftrightarrow>
     sv_Adoption (d_Spec drv obj) = AdoptionFailIfExists \<or>
     \<not> managed_by_us drv obj remote \<and> sv_Adoption (d_Spec drv obj) \<noteq> AdoptionAdopt"

lemma toJSONMap_total: "toJSONMap kvs = Inr (map (\<lambda>p. (fst p, jround (snd p))) (mputs [] kvs))"
  by (simp add: toJSONMap_def Marshal_def Unmarshal_map_def split_beta)

lemma reconcileBody_live:
  assumes "live E drv obj st kc w"
  shows "reconcileBody E drv obj st =
    (case EffectivePayload (spec_map drv obj) (last_applied obj) of
       None \<Rightarrow>
         (case fail E obj ReasonFailed (Lit ''decode last-applied annotation'') obj (st\<lparr>net := w\<rparr>) of
            (obj', st') \<Rightarrow> (Done, obj', st'))
     | Some payload \<Rightarrow>
         (case d_Get drv kc obj w of
            (Inl e, w') \<Rightarrow>
              if errors_Is e ErrNotFound then
                handleCreate E drv kc obj (spec_map drv obj) payload obj (st\<lparr>net := w'\<rparr>)
              else
                (case set_both E obj ConditionFalse ReasonRetrying (ErrMsg e) (Lit ''Server unreachable'') obj
                        (st\<lparr>net := w'\<rparr>) of
                   (obj', st') \<Rightarrow> (Failed e, obj', st'))
          | (Inr remote, w') \<Rightarrow>
              handleExisting E drv kc obj (spec_map drv obj) payload remote obj (st\<lparr>net := w'\<rparr>)))"
  using assms
  by (simp add: reconcileBody_def live_def spec_map_def toJSONMap_total Let_def
      split: option.split prod.split sum.split)

lemma handleExisting_refused:
  assumes "refused drv obj remote"
  shows "\<exists>m. handleExisting E drv kc base specMap payload remote obj st =
    (Done, fail E base ReasonAlreadyExists m obj st)"
  using assms by (auto simp: handleExisting_def refused_def managed_by_us_def Let_def split_beta)

text \<open>Otherwise the payload is prepared and applied; \<open>st0\<close> differs by the adoption event.\<close>

lemma handleExisting_proceeds:
  assumes "\<not> refused drv obj remote"
  shows "\<exists>st0. net st0 = net st \<and> emitted st0 = emitted st \<and> cluster st0 = cluster st \<and>
    handleExisting E drv kc base specMap payload remote obj st =
      (case d_PreparePayload drv (e_client E) obj (cluster st) (d_ManagedMarker drv payload) of
         Inl e \<Rightarrow> (RequeueAfter secretRetry, fail E base ReasonSecretMissing (ErrMsg e) obj st0)
       | Inr prepared \<Rightarrow>
           if \<not> managed_by_us drv obj remote \<or> PayloadDiffers remote prepared
           then updateExisting E drv kc base specMap remote prepared obj st0
           else finishExisting E drv kc base specMap remote False obj st0)"
proof (cases "managed_by_us drv obj remote")
  case True
  then show ?thesis
    using assms by (intro exI [of _ st]) (simp add: handleExisting_def refused_def managed_by_us_def Let_def split: sum.split)
next
  case False
  with assms show ?thesis
    by (intro exI [of _ "record_event E (Normal ''Adopted'' (Lit (''Adopted existing '' @ obj_kind obj))) st"])
      (simp add: handleExisting_def refused_def managed_by_us_def Let_def split: sum.split)
qed

lemma Reconcile_simps:
  "Reconcile E drv obj st =
     (let r = reconcileBody E drv obj st in
      (fst r, fst (snd r), emit (ReconciliationsTotal (obj_kind obj) (outcome_of E (fst (snd r)))) (snd (snd r))))"
  by (simp add: Reconcile_def split_beta Let_def)

lemma finishExisting_emitted:
  "\<exists>ds. emitted (snd (snd (finishExisting E drv kc base specMap remote changed obj st))) = emitted st @ ds"
  by (auto simp: finishExisting_def Let_def emit_def split_beta split: option.split)

text \<open>An update of the representation is counted as a drift correction.\<close>

lemma updateExisting_emitted:
  "\<exists>ds. emitted (snd (snd (updateExisting E drv kc base specMap remote prepared obj st))) =
     emitted st @ DriftCorrectionsTotal (obj_kind obj) # ds"
proof (cases "d_Update drv kc obj (d_ID drv remote) (MergePayload (cloneMap remote) prepared) (net st)")
  case (Pair err w)
  define st' where "st' = record_event E
    (Normal ''Updated'' (Lit (''Updated '' @ obj_kind obj @ '' on Keycloak server'')))
    ((emit (DriftCorrectionsTotal (obj_kind obj)) st)\<lparr>net := w\<rparr>)"
  obtain ds where
    "emitted (snd (snd (finishExisting E drv kc base specMap remote True obj st'))) = emitted st' @ ds"
    using finishExisting_emitted by blast
  with Pair show ?thesis
    by (simp add: updateExisting_def Let_def split_beta st'_def emit_def split: option.split)
qed

text \<open>The common tail when \<open>PostApply\<close> fails, changes something or does neither.\<close>

lemma finishExisting_split:
  assumes "d_PostApply drv kc (e_client E) obj remote (cluster st) (net st) = ((c, err, obj2, k), w)"
  shows "finishExisting E drv kc base specMap remote changed obj st =
    (case err of
       Some e \<Rightarrow> (RequeueAfter secretRetry, fail E base ReasonFailed (ErrMsg e) obj2 (st\<lparr>net := w, cluster := k\<rparr>))
     | None \<Rightarrow> finalize E base specMap (changed \<or> c) obj2
         (if c then emit (DriftCorrectionsTotal (obj_kind obj)) (st\<lparr>net := w, cluster := k\<rparr>)
          else st\<lparr>net := w, cluster := k\<rparr>))"
  using assms by (simp add: finishExisting_def Let_def split: option.split)

lemma fail_outcome: "well_behaved E \<Longrightarrow> outcome_of E (fst (fail E base r m obj st)) = OutcomeTerminal"
  using fail_has [of E base r m obj st] by (auto simp: has_cond_def outcome_of_def split: option.splits)

lemma outcomes_distinct [simp]: "OutcomeTerminal \<noteq> OutcomeSuccess" "OutcomeSuccess \<noteq> OutcomeTerminal"
  by (simp_all add: OutcomeTerminal_def OutcomeSuccess_def)

lemma has_cond_outcome:
  "has_cond E obj ConditionReady s r m \<Longrightarrow>
   outcome_of E obj = (if s = ConditionFalse then OutcomeTerminal else OutcomeSuccess)"
  by (auto simp: has_cond_def outcome_of_def split: option.splits)

lemma set_both_outcome:
  "well_behaved E \<Longrightarrow> outcome_of E (fst (set_both E base s r m1 m2 obj st)) =
     (if s = ConditionFalse then OutcomeTerminal else OutcomeSuccess)"
  using set_both_has has_cond_outcome by fast

section \<open>The last-applied annotation\<close>

definition recorded_spec :: "'s object \<Rightarrow> text option" where
  "recorded_spec obj = map_of (obj_annotations obj) LastAppliedAnnotation"

definition recording :: "('w, 'k, 's) engine \<Rightarrow> bool" where
  "recording E \<longleftrightarrow> annotation_stored (e_client E)"

lemma recorded_status [simp]: "recorded_spec (obj\<lparr>obj_status := s\<rparr>) = recorded_spec obj"
  by (simp add: recorded_spec_def)

lemma patchStatus_annotation:
  "recording E \<Longrightarrow> recorded_spec (fst (patchStatus E obj base st)) = recorded_spec obj"
  unfolding patchStatus_def recording_def annotation_stored_def recorded_spec_def
  by (split prod.splits sum.splits)+ (simp, metis)

lemma setCondition_annotation [simp]:
  "recording E \<Longrightarrow> recorded_spec (fst (setCondition E base t s r m obj st)) = recorded_spec obj"
  by (simp add: setCondition_def Let_def patchStatus_annotation)

lemma set_both_annotation [simp]:
  "recording E \<Longrightarrow> recorded_spec (fst (set_both E base s r m1 m2 obj st)) = recorded_spec obj"
  by (simp add: set_both_def split_beta)

lemma fail_annotation [simp]:
  "recording E \<Longrightarrow> recorded_spec (fst (fail E base r m obj st)) = recorded_spec obj"
  by (simp add: fail_def Let_def split_beta)

lemma finalize_annotation:
  assumes "recording E"
  shows "recorded_spec (fst (snd (finalize E base specMap synced obj st))) = Some (Marshal (JObj specMap))"
proof (cases "recorded_spec obj = Some (Marshal (JObj specMap))")
  case True
  with assms show ?thesis by (simp add: finalize_def Let_def split_beta recorded_spec_def [symmetric])
next
  case False
  let ?obj = "obj\<lparr>obj_status := (obj_status obj)\<lparr>observedGeneration := obj_generation obj\<rparr>,
    obj_annotations := mput LastAppliedAnnotation (Marshal (JObj specMap)) (obj_annotations obj)\<rparr>"
  have "recorded_spec ?obj = Some (Marshal (JObj specMap))" by (simp add: recorded_spec_def)
  moreover have "recorded_spec o3 = recorded_spec ?obj"
    if "fst (k_patch (e_client E) (cluster st) base ?obj) = Inr o3" for o3
    using assms that unfolding recording_def annotation_stored_def recorded_spec_def
    by (metis prod.collapse)
  ultimately show ?thesis
    using assms False
    by (auto simp: finalize_def Let_def split_beta recorded_spec_def [symmetric] split: prod.split sum.split)
qed

section \<open>The engine and its drivers\<close>

text \<open>
  What the engine relies on: \<open>Get\<close> only reads; \<open>PostApply\<close> keeps the metadata and the
  conditions of the object, and when it reports no change and no error it only read.
\<close>

definition quiet :: "bool \<times> goerr option \<times> 's object \<times> 'k \<Rightarrow> bool" where
  "quiet r \<longleftrightarrow> \<not> fst r \<and> fst (snd r) = None"

text \<open>The same for a part of \<open>PostApply\<close> that returns the flag and the error only.\<close>

definition silent :: "bool \<times> goerr option \<Rightarrow> bool" where
  "silent r \<longleftrightarrow> \<not> fst r \<and> snd r = None"

lemma silent_pair [simp]: "silent (c, e) \<longleftrightarrow> \<not> c \<and> e = None"
  by (simp add: silent_def)

definition sends_when :: "('a \<Rightarrow> bool) \<Rightarrow> (call \<Rightarrow> bool) \<Rightarrow> ('w \<times> call list \<Rightarrow> 'a \<times> 'w \<times> call list) \<Rightarrow> bool" where
  "sends_when Q P f \<longleftrightarrow>
     (\<forall>w. Q (fst (f w)) \<longrightarrow> (\<exists>cs. snd (snd (f w)) = snd w @ cs \<and> list_all P cs))"

lemma sends_whenD:
  "sends_when Q P f \<Longrightarrow> f w = (r, w') \<Longrightarrow> Q r \<Longrightarrow> \<exists>cs. snd w' = snd w @ cs \<and> list_all P cs"
  unfolding sends_when_def by (metis fst_conv snd_conv)

lemma sends_onlyD:
  "sends_only P f \<Longrightarrow> f w = (r, w') \<Longrightarrow> \<exists>cs. snd w' = snd w @ cs \<and> list_all P cs"
  unfolding sends_only_def by (metis snd_conv)

lemma sends_when_only: "sends_only P f \<Longrightarrow> sends_when Q P f"
  by (simp add: sends_only_def sends_when_def)

lemma sends_when_never: "(\<And>w. \<not> Q (fst (f w))) \<Longrightarrow> sends_when Q P f"
  by (simp add: sends_when_def)

text \<open>Sequencing: where the first part did not only read, the whole must not end in \<open>Q\<close>.\<close>

lemma sends_when_bind:
  assumes f: "sends_when R P f" and g: "\<And>r. R r \<Longrightarrow> sends_when Q P (g r)"
    and stop: "\<And>r w. \<not> R r \<Longrightarrow> \<not> Q (fst (g r w))"
  shows "sends_when Q P (\<lambda>w. case f w of (r, w') \<Rightarrow> g r w')"
  unfolding sends_when_def
proof (intro allI impI)
  fix w
  obtain r w' where fw: "f w = (r, w')" by (cases "f w")
  assume "Q (fst (case f w of (r, w') \<Rightarrow> g r w'))"
  then have q: "Q (fst (g r w'))" by (simp add: fw)
  with stop have "R r" by blast
  then obtain cs where "snd w' = snd w @ cs" "list_all P cs"
    using sends_whenD [OF f fw] by blast
  moreover obtain cs' where "snd (snd (g r w')) = snd w' @ cs'" "list_all P cs'"
    using g [OF \<open>R r\<close>] q unfolding sends_when_def by blast
  ultimately show "\<exists>cs. snd (snd (case f w of (r, w') \<Rightarrow> g r w')) = snd w @ cs \<and> list_all P cs"
    by (intro exI [of _ "cs @ cs'"]) (simp add: fw)
qed

lemma sends_when_after:
  assumes "sends_only P f" and "\<And>r. sends_when Q P (g r)"
  shows "sends_when Q P (\<lambda>w. case f w of (r, w') \<Rightarrow> g r w')"
  by (rule sends_when_bind [where R = "\<lambda>_. True", OF sends_when_only]) (use assms in auto)

lemma sends_when_split:
  "(\<And>e. sends_when Q P (f e)) \<Longrightarrow> (\<And>x. sends_when Q P (g x)) \<Longrightarrow>
   sends_when Q P (\<lambda>w. case r of Inl e \<Rightarrow> f e w | Inr x \<Rightarrow> g x w)"
  "sends_when Q P f' \<Longrightarrow> (\<And>x. sends_when Q P (g x)) \<Longrightarrow>
   sends_when Q P (\<lambda>w. case q of None \<Rightarrow> f' w | Some x \<Rightarrow> g x w)"
  "(b \<Longrightarrow> sends_when Q P h) \<Longrightarrow> (\<not> b \<Longrightarrow> sends_when Q P h') \<Longrightarrow> sends_when Q P (\<lambda>w. if b then h w else h' w)"
  subgoal by (cases r) simp_all
  subgoal by (cases q) simp_all
  subgoal by (cases b) simp_all
  done

lemma sends_when_pair:
  "(\<And>a b. r = (a, b) \<Longrightarrow> sends_when Q P (f a b)) \<Longrightarrow> sends_when Q P (\<lambda>w. case r of (a, b) \<Rightarrow> f a b w)"
  by (cases r) simp

lemma sends_when_return: "sends_when Q P (\<lambda>w. (x, w))"
  by (rule sends_when_only [OF sends_return])

definition same_metadata :: "'s object \<Rightarrow> 's object \<Rightarrow> bool" where
  "same_metadata obj obj' \<longleftrightarrow>
     obj_annotations obj' = obj_annotations obj \<and> obj_generation obj' = obj_generation obj \<and>
     obj_finalizers obj' = obj_finalizers obj \<and>
     conditions (obj_status obj') = conditions (obj_status obj)"

locale engine_driver =
  fixes drv :: "('w \<times> call list, 'k, 's) driver"
  assumes get_reads: "sends_only is_read (d_Get drv (recorded kc) obj)"
    and post_keeps: "same_metadata obj (fst (snd (snd (fst (d_PostApply drv kc' K obj remote k w)))))"
    and post_quiet: "sends_when quiet is_read (d_PostApply drv (recorded kc) K obj remote k)"
begin

text \<open>A refused resource is only read, and the object is reported as already existing.\<close>

lemma refusal_reads:
  assumes "live E drv obj st (recorded kc) w"
    and "d_Get drv (recorded kc) obj w = (Inr remote, w')"
    and "refused drv obj remote"
  shows "\<exists>cs r m st0. snd (net (snd (snd (Reconcile E drv obj st)))) = snd w @ cs \<and> list_all is_read cs \<and>
    fst (Reconcile E drv obj st) = Done \<and> fst (snd (Reconcile E drv obj st)) = fst (fail E obj r m obj st0)"
proof -
  obtain cs where cs: "snd w' = snd w @ cs" "list_all is_read cs"
    using sends_onlyD [OF get_reads assms(2)] by blast
  show ?thesis
  proof (cases "EffectivePayload (spec_map drv obj) (last_applied obj)")
    case None
    then show ?thesis
      by (intro exI [of _ "[]"] exI [of _ ReasonFailed]
          exI [of _ "Lit ''decode last-applied annotation''"] exI [of _ "st\<lparr>net := w\<rparr>"])
        (simp add: Reconcile_simps reconcileBody_live [OF assms(1)] Let_def split_beta)
  next
    case (Some payload)
    from handleExisting_refused [OF assms(3), of E "recorded kc" obj "spec_map drv obj" payload "st\<lparr>net := w'\<rparr>"]
    obtain m where "handleExisting E drv (recorded kc) obj (spec_map drv obj) payload remote obj (st\<lparr>net := w'\<rparr>) =
        (Done, fail E obj ReasonAlreadyExists m obj (st\<lparr>net := w'\<rparr>))" by blast
    with Some cs show ?thesis
      by (intro exI [of _ cs] exI [of _ ReasonAlreadyExists] exI [of _ m] exI [of _ "st\<lparr>net := w'\<rparr>"])
        (simp add: Reconcile_simps reconcileBody_live [OF assms(1)] assms(2) Let_def)
  qed
qed

text \<open>The common tail alone: without a failure or a drift correction it has only read.\<close>

lemma tail_reads:
  assumes "well_behaved E"
    and run: "finishExisting E drv (recorded kc) base specMap remote False obj st = (res, obj', st')"
    and "emitted st' = emitted st" and "outcome_of E obj' = OutcomeSuccess"
  shows "\<exists>cs. snd (net st') = snd (net st) @ cs \<and> list_all is_read cs"
proof -
  obtain c err obj2 k w where post:
    "d_PostApply drv (recorded kc) (e_client E) obj remote (cluster st) (net st) = ((c, err, obj2, k), w)"
    by (metis prod.exhaust)
  let ?st = "st\<lparr>net := w, cluster := k\<rparr>"
  have "err = None"
  proof (rule ccontr)
    assume "err \<noteq> None"
    then obtain e where "err = Some e" by blast
    with run have "obj' = fst (fail E base ReasonFailed (ErrMsg e) obj2 ?st)"
      by (simp add: finishExisting_split [OF post])
    with assms(4) fail_outcome [OF assms(1)] show False by simp
  qed
  define st2 where "st2 = (if c then emit (DriftCorrectionsTotal (obj_kind obj)) ?st else ?st)"
  have "finalize E base specMap c obj2 st2 = (res, obj', st')"
    using run \<open>err = None\<close> by (simp add: finishExisting_split [OF post] st2_def)
  then have "emitted st' = emitted st2" "net st' = net st2"
    using finalize_frame [of E base specMap c obj2 st2] by simp_all
  moreover have "emitted st2 = emitted st @ (if c then [DriftCorrectionsTotal (obj_kind obj)] else [])"
    and "net st2 = w"
    by (simp_all add: st2_def emit_def)
  ultimately have "\<not> c" "net st' = w"
    using assms(3) by (simp_all split: if_splits)
  with \<open>err = None\<close> show ?thesis
    using sends_whenD [OF post_quiet [of kc "e_client E" obj remote "cluster st"] post]
    by (simp add: quiet_def)
qed

text \<open>
  A pass over an existing resource that counts no drift correction and ends without a
  failure has only read.
\<close>

lemma uncounted_reads:
  assumes "well_behaved E" and "live E drv obj st (recorded kc) w"
    and get: "d_Get drv (recorded kc) obj w = (Inr remote, w')"
    and counted: "emitted (snd (snd (Reconcile E drv obj st))) =
      emitted st @ [ReconciliationsTotal (obj_kind obj) OutcomeSuccess]"
  shows "\<exists>cs. snd (net (snd (snd (Reconcile E drv obj st)))) = snd w @ cs \<and> list_all is_read cs"
proof -
  obtain cs where cs: "snd w' = snd w @ cs" "list_all is_read cs"
    using sends_onlyD [OF get_reads get] by blast
  have stop: ?thesis if "net (snd (snd (reconcileBody E drv obj st))) \<in> {w, w'}"
    using that cs by (auto simp: Reconcile_simps Let_def intro: exI [of _ "[]"])
  show ?thesis
  proof (cases "EffectivePayload (spec_map drv obj) (last_applied obj)")
    case None
    then show ?thesis by (intro stop) (simp add: reconcileBody_live [OF assms(2)] split_beta)
  next
    case (Some payload)
    then have body: "reconcileBody E drv obj st =
        handleExisting E drv (recorded kc) obj (spec_map drv obj) payload remote obj (st\<lparr>net := w'\<rparr>)"
      by (simp add: reconcileBody_live [OF assms(2)] get)
    show ?thesis
    proof (cases "refused drv obj remote")
      case True
      then show ?thesis
        using handleExisting_refused [OF True, of E "recorded kc" obj "spec_map drv obj" payload "st\<lparr>net := w'\<rparr>"] body
        by (intro stop) auto
    next
      case False
      from handleExisting_proceeds [OF this, of "st\<lparr>net := w'\<rparr>" E "recorded kc" obj "spec_map drv obj" payload]
      obtain st0
        where st0: "net st0 = w'" "emitted st0 = emitted st"
        and run: "reconcileBody E drv obj st =
          (case d_PreparePayload drv (e_client E) obj (cluster st) (d_ManagedMarker drv payload) of
             Inl e \<Rightarrow> (RequeueAfter secretRetry, fail E obj ReasonSecretMissing (ErrMsg e) obj st0)
           | Inr prepared \<Rightarrow>
               if \<not> managed_by_us drv obj remote \<or> PayloadDiffers remote prepared
               then updateExisting E drv (recorded kc) obj (spec_map drv obj) remote prepared obj st0
               else finishExisting E drv (recorded kc) obj (spec_map drv obj) remote False obj st0)"
        using body by auto
      show ?thesis
      proof (cases "d_PreparePayload drv (e_client E) obj (cluster st) (d_ManagedMarker drv payload)")
        case (Inl e)
        with run st0 show ?thesis by (intro stop) simp
      next
        case (Inr prepared)
        have "reconcileBody E drv obj st =
            finishExisting E drv (recorded kc) obj (spec_map drv obj) remote False obj st0"
          using run Inr counted st0(2)
            updateExisting_emitted [of E drv "recorded kc" obj "spec_map drv obj" remote prepared obj st0]
          by (auto simp: Reconcile_simps Let_def emit_def split: if_splits)
        then obtain res obj' st' where
          tail: "finishExisting E drv (recorded kc) obj (spec_map drv obj) remote False obj st0 = (res, obj', st')"
          and body': "reconcileBody E drv obj st = (res, obj', st')"
          by (metis prod.exhaust)
        have "emitted st' = emitted st0" "outcome_of E obj' = OutcomeSuccess"
          using counted st0(2) by (simp_all add: Reconcile_simps body' Let_def emit_def)
        with tail_reads [OF assms(1) tail] obtain cs' where
          "snd (net st') = snd w' @ cs'" "list_all is_read cs'"
          using st0(1) by blast
        then show ?thesis
          using cs by (intro exI [of _ "cs @ cs'"]) (simp add: Reconcile_simps body' Let_def)
      qed
    qed
  qed
qed

text \<open>
  A pass leaves the annotation alone or sets it to the encoded spec, whatever the Secrets
  and the server contain.
\<close>

lemma post_annotation:
  "d_PostApply drv kc K obj remote k w = ((c, err, obj', k'), w') \<Longrightarrow> recorded_spec obj' = recorded_spec obj"
  using post_keeps [of obj kc K remote k w] by (simp add: same_metadata_def recorded_spec_def)

lemma finishExisting_annotation:
  assumes "recording E"
  shows "recorded_spec (fst (snd (finishExisting E drv kc base specMap remote changed obj st))) \<in>
    {recorded_spec obj, Some (Marshal (JObj specMap))}"
proof -
  obtain c err obj2 k w where post:
    "d_PostApply drv kc (e_client E) obj remote (cluster st) (net st) = ((c, err, obj2, k), w)"
    by (metis prod.exhaust)
  then show ?thesis
    using assms post_annotation [OF post]
    by (simp add: finishExisting_split [OF post] finalize_annotation split: option.split)
qed

lemma handleExisting_annotation:
  assumes "recording E"
  shows "recorded_spec (fst (snd (handleExisting E drv kc base specMap payload remote obj st))) \<in>
    {recorded_spec obj, Some (Marshal (JObj specMap))}"
proof -
  have upd: "recorded_spec (fst (snd (updateExisting E drv kc base specMap remote prepared obj st))) \<in>
      {recorded_spec obj, Some (Marshal (JObj specMap))}" for prepared st
    using assms finishExisting_annotation [OF assms]
    by (simp add: updateExisting_def Let_def split_beta split: option.split)
  show ?thesis
    using assms upd finishExisting_annotation [OF assms]
    by (simp add: handleExisting_def Let_def split_beta split: sum.split)
qed

lemma handleCreate_annotation:
  assumes "recording E"
  shows "recorded_spec (fst (snd (handleCreate E drv kc base specMap payload obj st))) \<in>
    {recorded_spec obj, Some (Marshal (JObj specMap))}"
  using assms
  by (auto simp: handleCreate_def Let_def finalize_annotation split: sum.split prod.split option.split
      dest: post_annotation)

lemma pass_annotation:
  assumes "recording E" and "live E drv obj st kc w"
  shows "recorded_spec (fst (snd (Reconcile E drv obj st))) \<in>
    {recorded_spec obj, Some (Marshal (JObj (spec_map drv obj)))}"
  using assms(1) handleCreate_annotation [OF assms(1)] handleExisting_annotation [OF assms(1)]
  by (simp add: Reconcile_simps reconcileBody_live [OF assms(2)] Let_def split_beta
      split: option.split sum.split)

end

section \<open>The managed marker\<close>

text \<open>
  The contract of the drivers whose representation has attributes: a stamped payload is
  recognised, and neither the injection of secrets nor the overlay on the remote
  representation loses the stamp. Payloads are Go maps (\<open>mwf\<close>).
\<close>

locale marking_driver =
  fixes drv :: "('w, 'k, 's) driver"
  assumes marks: "d_IsManaged drv (d_ManagedMarker drv p)"
    and marker_wf: "mwf p \<Longrightarrow> mwf (d_ManagedMarker drv p)"
    and prepare_keeps: "d_PreparePayload drv K obj k p = Inr q \<Longrightarrow> d_IsManaged drv p \<Longrightarrow> d_IsManaged drv q"
    and prepare_wf: "d_PreparePayload drv K obj k p = Inr q \<Longrightarrow> mwf p \<Longrightarrow> mwf q"
    and merge_keeps: "mwf p \<Longrightarrow> d_IsManaged drv p \<Longrightarrow> d_IsManaged drv (MergePayload r p)"

text \<open>
  The driver with other behaviour on payloads that do not carry the marker. That a pass is
  the same with it says that the engine never writes such a payload.
\<close>

definition guarded :: "('w kc \<Rightarrow> 's object \<Rightarrow> json gomap \<Rightarrow> 'w \<Rightarrow> goerr option \<times> 'w) \<Rightarrow>
    ('w kc \<Rightarrow> 's object \<Rightarrow> string \<Rightarrow> json gomap \<Rightarrow> 'w \<Rightarrow> goerr option \<times> 'w) \<Rightarrow>
    ('w, 'k, 's) driver \<Rightarrow> ('w, 'k, 's) driver" where
  "guarded create update drv =
     drv\<lparr>d_Create := (\<lambda>kc obj p. if d_IsManaged drv p then d_Create drv kc obj p else create kc obj p),
         d_Update := (\<lambda>kc obj i p. if d_IsManaged drv p then d_Update drv kc obj i p else update kc obj i p)\<rparr>"

lemma guarded_simps [simp]:
  "d_Get (guarded c u drv) = d_Get drv" "d_ID (guarded c u drv) = d_ID drv"
  "d_Delete (guarded c u drv) = d_Delete drv" "d_ManagedMarker (guarded c u drv) = d_ManagedMarker drv"
  "d_IsManaged (guarded c u drv) = d_IsManaged drv" "d_PreparePayload (guarded c u drv) = d_PreparePayload drv"
  "d_PostApply (guarded c u drv) = d_PostApply drv" "d_Protected (guarded c u drv) = d_Protected drv"
  "d_Spec (guarded c u drv) = d_Spec drv" "d_OperatorFields (guarded c u drv) = d_OperatorFields drv"
  by (simp_all add: guarded_def)

lemma guarded_other:
  "finishExisting E (guarded c u drv) kc base specMap remote changed obj st =
   finishExisting E drv kc base specMap remote changed obj st"
  "handleDeletion E (guarded c u drv) kc obj st = handleDeletion E drv kc obj st"
  by (simp_all add: finishExisting_def handleDeletion_def)

lemma EffectivePayload_mwf: "EffectivePayload specMap la = Some payload \<Longrightarrow> mwf payload"
proof -
  have copy: "mwf (deepCopyMap m)" for m by (induction m) auto
  have reset: "mwf p \<Longrightarrow> mwf (resetRemoved p prev)" for p prev
    by (induction p prev rule: resetRemoved.induct) (auto split: option.split)
  show "EffectivePayload specMap la = Some payload \<Longrightarrow> mwf payload"
    by (auto simp: EffectivePayload_def Let_def copy reset split: if_splits option.splits)
qed

context marking_driver
begin

lemma guarded_create:
  "handleCreate E (guarded c u drv) kc base specMap payload obj st =
   handleCreate E drv kc base specMap payload obj st"
proof -
  have eq: "d_Create (guarded c u drv) kc obj (d_ManagedMarker drv p) = d_Create drv kc obj (d_ManagedMarker drv p)" for p
    by (simp add: guarded_def marks)
  show ?thesis unfolding handleCreate_def Let_def guarded_simps eq by (rule refl)
qed

lemma guarded_existing:
  assumes "mwf payload"
  shows "handleExisting E (guarded c u drv) kc base specMap payload remote obj st =
   handleExisting E drv kc base specMap payload remote obj st"
proof -
  have "updateExisting E (guarded c u drv) kc base specMap remote prepared obj st =
      updateExisting E drv kc base specMap remote prepared obj st"
    if "d_PreparePayload drv K obj k (d_ManagedMarker drv payload) = Inr prepared" for prepared st K k
  proof -
    have "d_IsManaged drv (MergePayload (cloneMap remote) prepared)"
      using that assms by (blast intro: merge_keeps prepare_wf marker_wf prepare_keeps marks)
    then have eq: "d_Update (guarded c u drv) kc obj i (MergePayload (cloneMap remote) prepared) =
        d_Update drv kc obj i (MergePayload (cloneMap remote) prepared)" for i
      by (simp add: guarded_def)
    show ?thesis unfolding updateExisting_def Let_def guarded_simps guarded_other eq by (rule refl)
  qed
  then show ?thesis
    by (simp add: handleExisting_def Let_def guarded_other split: sum.split)
qed

lemma only_marked_writes: "Reconcile E (guarded c u drv) obj st = Reconcile E drv obj st"
proof -
  have "reconcileBody E (guarded c u drv) obj st = reconcileBody E drv obj st"
    by (simp add: reconcileBody_def Let_def guarded_other guarded_create guarded_existing EffectivePayload_mwf
        split: prod.split sum.split option.split)
  then show ?thesis by (simp add: Reconcile_def)
qed

end

end
