(* ===== verification/Helpers.thy ===== *)
theory Helpers
  imports Kube Resources Lastapplied
begin

text \<open>
  The helpers the drivers share, \<open>internal/controller/driver_helpers.go\<close>: the managed marker,
  reading and exporting Secrets, client scope assignments and role resolution.

  Go visits the keys of a map in an unspecified order. Where the order can be seen (in the
  order of requests, or in which of several errors is returned) it is the argument
  \<open>rng\<close>: for the site of a loop and the keys of the map, the order in which the loop
  visits them. \<open>order_ok\<close> is what the language guarantees, that every key is visited once.
\<close>

section \<open>Iteration order of Go maps\<close>

type_synonym order = "string \<Rightarrow> string list \<Rightarrow> string list"

definition order_ok :: "order \<Rightarrow> bool" where
  "order_ok rng \<longleftrightarrow> (\<forall>site ks. mset (rng site ks) = mset ks)"

definition range_map :: "order \<Rightarrow> string \<Rightarrow> 'v gomap \<Rightarrow> 'v gomap" where
  "range_map rng site m =
     List.map_filter (\<lambda>k. map_option (Pair k) (map_of m k)) (rng site (map fst m))"

text \<open>A Go \<open>map[string]struct{}\<close> filled from a list.\<close>

definition keyset :: "string list \<Rightarrow> string list" where
  "keyset l = map fst (mputs [] (map (\<lambda>n. (n, ())) l))"

section \<open>The managed marker\<close>

definition stampStringAttribute :: "json gomap \<Rightarrow> string \<Rightarrow> string \<Rightarrow> json gomap" where
  "stampStringAttribute payload key val =
     (let attrs = (case any_map (map_of payload ''attributes'') of None \<Rightarrow> [] | Some m \<Rightarrow> m)
      in mput ''attributes'' (JObj (mput key (JStr val) attrs)) payload)"

definition stampSliceAttribute :: "json gomap \<Rightarrow> string \<Rightarrow> string \<Rightarrow> json gomap" where
  "stampSliceAttribute payload key val =
     (let attrs = (case any_map (map_of payload ''attributes'') of None \<Rightarrow> [] | Some m \<Rightarrow> m);
          vals = (case any_list (map_of attrs key) of None \<Rightarrow> [] | Some l \<Rightarrow> l)
      in mput ''attributes'' (JObj (mput key (JArr (vals @ [JStr val])) attrs)) payload)"

definition managedByStringAttribute :: "json gomap \<Rightarrow> bool" where
  "managedByStringAttribute remote =
     (case any_map (map_of remote ''attributes'') of
        None \<Rightarrow> False
      | Some attrs \<Rightarrow> str_or_empty (map_of attrs ManagedAnnotation) = ManagedValue)"

definition managedBySliceAttribute :: "json gomap \<Rightarrow> bool" where
  "managedBySliceAttribute remote =
     (case any_map (map_of remote ''attributes'') of
        None \<Rightarrow> False
      | Some attrs \<Rightarrow>
          (case any_list (map_of attrs ManagedAnnotation) of
             None \<Rightarrow> False
           | Some vals \<Rightarrow> list_ex (\<lambda>v. v = JStr ManagedValue) vals))"

section \<open>Secrets\<close>

definition readSecretValue ::
    "('k, 's) kube \<Rightarrow> 'k \<Rightarrow> string \<Rightarrow> SecretKeySelector \<Rightarrow> string \<Rightarrow> goerr + string" where
  "readSecretValue K k namespace selector defaultKey =
     (let key = (if sel_key selector = [] then defaultKey else sel_key selector)
      in case k_getSecret K k namespace (sel_name selector) of
           Inl e \<Rightarrow> Inl (Wrapf [''secret %s/%s: %w'', namespace, sel_name selector] e)
         | Inr sec \<Rightarrow>
             (case map_of (sec_data sec) key of
                None \<Rightarrow> Inl (Errorf [''secret %s/%s has no key %q'', namespace, sel_name selector, key])
              | Some v \<Rightarrow> Inr v))"

fun readKeys :: "string \<Rightarrow> string \<Rightarrow> string gomap \<Rightarrow> string gomap \<Rightarrow> string gomap \<Rightarrow> goerr + string gomap" where
  "readKeys namespace name dat acc [] = Inr acc"
| "readKeys namespace name dat acc ((target, key) # rest) =
     (case map_of dat key of
        None \<Rightarrow> Inl (Errorf [''secret %s/%s has no key %q'', namespace, name, key])
      | Some v \<Rightarrow> readKeys namespace name dat (mput target v acc) rest)"

definition readSecretValues ::
    "order \<Rightarrow> ('k, 's) kube \<Rightarrow> 'k \<Rightarrow> string \<Rightarrow> SecretKeysSelector \<Rightarrow> goerr + string gomap" where
  "readSecretValues rng K k namespace selector =
     (case k_getSecret K k namespace (sels_name selector) of
        Inl e \<Rightarrow> Inl (Wrapf [''secret %s/%s: %w'', namespace, sels_name selector] e)
      | Inr sec \<Rightarrow>
          readKeys namespace (sels_name selector) (sec_data sec) []
            (range_map rng ''readSecretValues'' (sels_keys selector)))"

definition owned_by :: "'s object \<Rightarrow> secret \<Rightarrow> bool" where
  "owned_by obj sec \<longleftrightarrow>
     list_ex (\<lambda>ref. ref_uid ref = obj_uid obj \<and> ref_controller ref = Some True) (sec_owners sec)"

text \<open>\<open>Data[key]\<close> of an absent key is nil, which reads as the empty string.\<close>

definition ensureOutputSecret ::
    "('k, 's) kube \<Rightarrow> 's object \<Rightarrow> string \<Rightarrow> string \<Rightarrow> string \<Rightarrow> 'k \<Rightarrow> (bool \<times> goerr option) \<times> 'k" where
  "ensureOutputSecret K obj name key val k =
     (case k_getSecret K k (obj_namespace obj) name of
        Inr sec \<Rightarrow>
          if \<not> owned_by obj sec then
            ((False, Some (Errorf
               [''secret %s/%s already exists and is not owned by this resource; choose another secretOutput name'',
                sec_namespace sec, sec_name sec])), k)
          else if (case map_of (sec_data sec) key of None \<Rightarrow> [] | Some v \<Rightarrow> v) = val then ((False, None), k)
          else
            (case k_updateSecret K k (sec\<lparr>sec_data := mput key val (sec_data sec)\<rparr>) of
               (err, k') \<Rightarrow> ((True, err), k'))
      | Inl e \<Rightarrow>
          if k_isNotFound K e then
            (case k_setControllerReference K obj
                    \<lparr>sec_namespace = obj_namespace obj, sec_name = name, sec_data = [(key, val)],
                     sec_owners = [], sec_resourceVersion = []\<rparr> of
               Inl e' \<Rightarrow> ((False, Some e'), k)
             | Inr sec \<Rightarrow> (case k_createSecret K k sec of (err, k') \<Rightarrow> ((True, err), k')))
          else ((False, Some e), k))"

text \<open>
  Values read from a Secret are written into the map under \<open>key\<close> of the payload, which is
  created when it is missing or not a map.
\<close>

definition inject_values :: "string \<Rightarrow> string gomap \<Rightarrow> json gomap \<Rightarrow> json gomap" where
  "inject_values key vals payload =
     (let m = (case any_map (map_of payload key) of None \<Rightarrow> [] | Some m \<Rightarrow> m)
      in mput key (JObj (mputs m (map (\<lambda>p. (fst p, JStr (snd p))) vals))) payload)"

section \<open>Indexing representations\<close>

text \<open>The map from the string under \<open>key\<close> to the representation; later ones win.\<close>

definition index_by :: "string \<Rightarrow> json gomap list \<Rightarrow> json gomap gomap" where
  "index_by key rs =
     mputs [] (List.map_filter (\<lambda>rep. map_option (\<lambda>i. (i, rep)) (any_str (map_of rep key))) rs)"

text \<open>The entries of \<open>m\<close> whose key is not one of \<open>m'\<close>, in iteration order.\<close>

definition missing_from :: "order \<Rightarrow> string \<Rightarrow> 'v gomap \<Rightarrow> 'u gomap \<Rightarrow> 'v list" where
  "missing_from rng site m m' =
     map snd (filter (\<lambda>p. map_of m' (fst p) = None) (range_map rng site m))"

section \<open>Client scope assignments\<close>

definition scope_names :: "json gomap list \<Rightarrow> string list" where
  "scope_names rs = keyset (List.map_filter (\<lambda>rep. any_str (map_of rep ''name'')) rs)"

definition ids_by_name :: "json gomap list \<Rightarrow> string gomap" where
  "ids_by_name rs =
     mputs [] (List.map_filter (\<lambda>rep.
       case (any_str (map_of rep ''name''), any_str (map_of rep ''id'')) of
         (Some n, Some i) \<Rightarrow> Some (n, i)
       | _ \<Rightarrow> None) rs)"

fun addScopes :: "(string \<Rightarrow> bool \<Rightarrow> 'w \<Rightarrow> goerr option \<times> 'w) \<Rightarrow> string \<Rightarrow> string gomap \<Rightarrow> string list \<Rightarrow> 'w \<Rightarrow>
    goerr option \<times> 'w" where
  "addScopes assign realm ids [] w = (None, w)"
| "addScopes assign realm ids (name # names) w =
     (case map_of ids name of
        None \<Rightarrow> (Some (Errorf [''client scope %q does not exist in realm %q'', name, realm]), w)
      | Some i \<Rightarrow>
          (case assign i True w of
             (Some e, w1) \<Rightarrow> (Some e, w1)
           | (None, w1) \<Rightarrow> addScopes assign realm ids names w1))"

fun removeScopes :: "(string \<Rightarrow> bool \<Rightarrow> 'w \<Rightarrow> goerr option \<times> 'w) \<Rightarrow> string gomap \<Rightarrow> string list \<Rightarrow> 'w \<Rightarrow>
    goerr option \<times> 'w" where
  "removeScopes assign ids [] w = (None, w)"
| "removeScopes assign ids (name # names) w =
     (case map_of ids name of
        None \<Rightarrow> removeScopes assign ids names w
      | Some i \<Rightarrow>
          (case assign i False w of
             (Some e, w1) \<Rightarrow> (Some e, w1)
           | (None, w1) \<Rightarrow> removeScopes assign ids names w1))"

definition enforceScopeAssignments ::
    "order \<Rightarrow> 'w kc \<Rightarrow> string \<Rightarrow> string \<Rightarrow> string list \<Rightarrow> bool \<Rightarrow> 'w \<Rightarrow> (bool \<times> goerr option) \<times> 'w" where
  "enforceScopeAssignments rng kc realm clientID desired optional w =
     (let assign = (if optional then AssignClientOptionalScope kc realm clientID
                    else AssignClientDefaultScope kc realm clientID);
          site = (if optional then ''optional'' else ''default'')
      in case (if optional then ClientOptionalScopeAssignments kc realm clientID w
               else ClientDefaultScopeAssignments kc realm clientID w) of
           (Inl e, w1) \<Rightarrow> ((False, Some e), w1)
         | (Inr current, w1) \<Rightarrow>
             let desiredSet = keyset desired;
                 currentNames = scope_names current;
                 toAdd = filter (\<lambda>n. n \<notin> set currentNames) (rng (site @ ''/add'') desiredSet);
                 toRemove = filter (\<lambda>n. n \<notin> set desiredSet) (rng (site @ ''/remove'') currentNames)
             in if toAdd = [] \<and> toRemove = [] then ((False, None), w1)
                else
                  case ListClientScopes kc realm w1 of
                    (Inl e, w2) \<Rightarrow> ((False, Some e), w2)
                  | (Inr scopes, w2) \<Rightarrow>
                      let ids = ids_by_name scopes in
                      case addScopes assign realm ids toAdd w2 of
                        (Some e, w3) \<Rightarrow> ((False, Some e), w3)
                      | (None, w3) \<Rightarrow>
                          (case removeScopes assign ids toRemove w3 of
                             (Some e, w4) \<Rightarrow> ((False, Some e), w4)
                           | (None, w4) \<Rightarrow> ((True, None), w4)))"

section \<open>Role resolution\<close>

fun resolveRealmRoles :: "'w kc \<Rightarrow> string \<Rightarrow> string list \<Rightarrow> 'w \<Rightarrow> (goerr + json gomap list) \<times> 'w" where
  "resolveRealmRoles kc realm [] w = (Inr [], w)"
| "resolveRealmRoles kc realm (name # names) w =
     (case GetRole kc realm name w of
        (Inl e, w1) \<Rightarrow> (Inl (Wrapf [''realm role %q: %w'', name] e), w1)
      | (Inr rep, w1) \<Rightarrow> map_result (Cons rep) (resolveRealmRoles kc realm names w1))"

fun clientRoleReps :: "'w kc \<Rightarrow> string \<Rightarrow> string \<Rightarrow> string \<Rightarrow> string list \<Rightarrow> 'w \<Rightarrow>
    (goerr + json gomap list) \<times> 'w" where
  "clientRoleReps kc realm clientID uuid [] w = (Inr [], w)"
| "clientRoleReps kc realm clientID uuid (name # names) w =
     (case GetClientRole kc realm uuid name w of
        (Inl e, w1) \<Rightarrow> (Inl (Wrapf [''role %q of client %q: %w'', name, clientID] e), w1)
      | (Inr rep, w1) \<Rightarrow> map_result (Cons rep) (clientRoleReps kc realm clientID uuid names w1))"

definition resolveClientRoles ::
    "'w kc \<Rightarrow> string \<Rightarrow> string \<Rightarrow> string list \<Rightarrow> 'w \<Rightarrow> (goerr + json gomap list) \<times> 'w" where
  "resolveClientRoles kc realm clientID names w =
     (case FindClient kc realm clientID w of
        (Inl e, w1) \<Rightarrow> (Inl (Wrapf [''client %q: %w'', clientID] e), w1)
      | (Inr c, w1) \<Rightarrow> clientRoleReps kc realm clientID (str_or_empty (map_of c ''id'')) names w1)"

section \<open>Iterating and indexing\<close>

lemma order_ok_set: "order_ok rng \<Longrightarrow> set (rng site ks) = set ks"
  by (metis mset_eq_setD order_ok_def)

lemma order_ok_distinct: "order_ok rng \<Longrightarrow> distinct ks \<Longrightarrow> distinct (rng site ks)"
  by (metis mset_eq_imp_distinct_iff order_ok_def)

lemma mputs_lookup: "map_of (mputs m kvs) = map_of m ++ map_of (rev kvs)"
proof (induction m kvs rule: mputs.induct)
  case (2 m k v kvs)
  then show ?case by (auto simp: map_add_def fun_eq_iff split: option.splits)
qed simp

lemma set_keyset [simp]: "set (keyset l) = set l"
proof -
  have "fst ` set (mputs [] (map (\<lambda>n. (n, ())) l)) = dom (map_of (mputs [] (map (\<lambda>n. (n, ())) l)))"
    by (simp add: dom_map_of_conv_image_fst)
  also have "\<dots> = set l"
    by (simp add: mputs_lookup rev_map dom_map_of_conv_image_fst image_image)
  finally show ?thesis by (simp add: keyset_def)
qed

lemma distinct_keyset [simp]: "distinct (keyset l)"
  by (simp add: keyset_def mwf_distinct)

lemma set_map_filter: "set (List.map_filter f xs) = {y. \<exists>x \<in> set xs. f x = Some y}"
  by (force simp: List.map_filter_def)

lemma set_range_map: "order_ok rng \<Longrightarrow> mwf m \<Longrightarrow> set (range_map rng site m) = set m"
proof -
  assume a: "order_ok rng" "mwf m"
  have "(k, v) \<in> set (range_map rng site m) \<longleftrightarrow> (k, v) \<in> set m" for k v
    using a by (auto simp: range_map_def set_map_filter order_ok_set map_of_eq_Some_iff [OF mwf_distinct]
        dest: map_of_SomeD intro: bexI [of _ "(k, v)"])
  then show ?thesis by auto
qed

lemma range_map_lookup: "order_ok rng \<Longrightarrow> mwf m \<Longrightarrow> (k, v) \<in> set (range_map rng site m) \<longleftrightarrow> map_of m k = Some v"
  by (simp add: set_range_map map_of_eq_Some_iff mwf_distinct)

lemma mwf_index_by [simp]: "mwf (index_by key rs)"
  by (simp add: index_by_def)

definition ids_of :: "string \<Rightarrow> json gomap list \<Rightarrow> string set" where
  "ids_of key rs = {i. \<exists>rep \<in> set rs. any_str (map_of rep key) = Some i}"

lemma index_by_Some:
  assumes "map_of (index_by key rs) i = Some rep"
  shows "rep \<in> set rs \<and> any_str (map_of rep key) = Some i"
proof -
  have "(i, rep) \<in> set (List.map_filter (\<lambda>rep. map_option (\<lambda>i. (i, rep)) (any_str (map_of rep key))) rs)"
    using assms by (auto simp: index_by_def mputs_lookup dest!: map_of_SomeD)
  then show ?thesis by (auto simp: set_map_filter)
qed

lemma dom_index_by: "dom (map_of (index_by key rs)) = ids_of key rs"
  by (force simp: index_by_def mputs_lookup dom_map_of_conv_image_fst set_map_filter ids_of_def image_iff)

lemma missing_from_iff:
  assumes "order_ok rng" and "mwf m"
  shows "x \<in> set (missing_from rng site m m') \<longleftrightarrow> (\<exists>k. map_of m k = Some x \<and> map_of m' k = None)"
  using range_map_lookup [OF assms] by (force simp: missing_from_def)

lemma ids_missing:
  assumes "order_ok rng"
  shows "ids_of key (missing_from rng site (index_by key rs) (index_by key rs')) = ids_of key rs - ids_of key rs'"
proof -
  have "i \<in> ids_of key (missing_from rng site (index_by key rs) (index_by key rs')) \<longleftrightarrow>
      (\<exists>x. map_of (index_by key rs) i = Some x) \<and> map_of (index_by key rs') i = None" for i
    by (simp add: ids_of_def missing_from_iff [OF assms] Bex_def) (metis index_by_Some option.inject)
  then have "i \<in> ids_of key (missing_from rng site (index_by key rs) (index_by key rs')) \<longleftrightarrow>
      i \<in> ids_of key rs \<and> i \<notin> ids_of key rs'" for i
    unfolding dom_index_by [of key rs, symmetric] dom_index_by [of key rs', symmetric] by auto
  then show ?thesis by blast
qed

section \<open>What the helpers ask of the server\<close>

lemma resolve_reads [sends]:
  "sends_only is_read (resolveRealmRoles (recorded kc) realm names)"
  "sends_only is_read (clientRoleReps (recorded kc) realm clientID uuid names)"
  "sends_only is_read (resolveClientRoles (recorded kc) realm clientID names)"
proof -
  show "sends_only is_read (resolveRealmRoles (recorded kc) realm names)"
  proof (induction names)
    case (Cons n ns)
    have "sends_only is_read (\<lambda>w. resolveRealmRoles (recorded kc) realm (n # ns) w)"
      unfolding resolveRealmRoles.simps by (intro sends Cons)
    then show ?case .
  qed (simp add: sends_only_def)
  show reps: "sends_only is_read (clientRoleReps (recorded kc) realm clientID uuid names)" for uuid
  proof (induction names)
    case (Cons n ns)
    have "sends_only is_read (\<lambda>w. clientRoleReps (recorded kc) realm clientID uuid (n # ns) w)"
      unfolding clientRoleReps.simps GetClientRole_def by (intro sends Cons) simp
    then show ?case .
  qed (simp add: sends_only_def)
  show "sends_only is_read (resolveClientRoles (recorded kc) realm clientID names)"
    unfolding resolveClientRoles_def by (intro sends reps)
qed

lemma assignments_read [sends]:
  "sends_only is_read (ClientOptionalScopeAssignments (recorded kc) realm clientID)"
  "sends_only is_read (ClientDefaultScopeAssignments (recorded kc) realm clientID)"
  unfolding ClientOptionalScopeAssignments_def ClientDefaultScopeAssignments_def
    listClientScopeAssignments_def
  by (intro sends; simp)+

text \<open>Stamping then reading the marker, and what stamping keeps.\<close>

lemma string_marker:
  "managedByStringAttribute (stampStringAttribute p ManagedAnnotation ManagedValue)"
  "mwf p \<Longrightarrow> mwf (stampStringAttribute p key v)"
  "mwf q \<Longrightarrow> managedByStringAttribute q \<Longrightarrow> managedByStringAttribute (MergePayload r q)"
  by (auto simp: managedByStringAttribute_def stampStringAttribute_def Let_def str_or_empty_def
      MergePayload_find mwf_distinct split: option.splits)

lemma slice_marker:
  "managedBySliceAttribute (stampSliceAttribute p ManagedAnnotation ManagedValue)"
  "mwf p \<Longrightarrow> mwf (stampSliceAttribute p key v)"
  "mwf q \<Longrightarrow> managedBySliceAttribute q \<Longrightarrow> managedBySliceAttribute (MergePayload r q)"
  by (auto simp: managedBySliceAttribute_def stampSliceAttribute_def Let_def
      MergePayload_find mwf_distinct split: option.splits)

text \<open>Writing another key of the payload keeps the marker.\<close>

lemma marker_mput [simp]:
  "k \<noteq> ''attributes'' \<Longrightarrow> managedByStringAttribute (mput k v p) = managedByStringAttribute p"
  "k \<noteq> ''attributes'' \<Longrightarrow> managedBySliceAttribute (mput k v p) = managedBySliceAttribute p"
  by (simp_all add: managedByStringAttribute_def managedBySliceAttribute_def)

lemma inject_marker:
  "mwf p \<Longrightarrow> mwf (inject_values key vals p)"
  "managedByStringAttribute (inject_values ''smtpServer'' vals p) = managedByStringAttribute p"
  by (simp_all add: inject_values_def Let_def)

lemma stamp_other [simp]:
  "k \<noteq> ''attributes'' \<Longrightarrow> map_of (stampStringAttribute p key v) k = map_of p k"
  "k \<noteq> ''attributes'' \<Longrightarrow> map_of (stampSliceAttribute p key v) k = map_of p k"
  by (simp_all add: stampStringAttribute_def stampSliceAttribute_def Let_def)

section \<open>Properties\<close>

lemma fst_range_map:
  assumes "order_ok rng"
  shows "map fst (range_map rng site m) = rng site (map fst m)"
proof -
  have "map fst (List.map_filter (\<lambda>k. map_option (Pair k) (map_of m k)) ks) = ks"
    if "set ks \<subseteq> dom (map_of m)" for ks
    using that by (induction ks) auto
  then show ?thesis
    by (simp add: range_map_def order_ok_set [OF assms] dom_map_of_conv_image_fst)
qed

lemma map_of_range_map:
  assumes "order_ok rng" and "mwf m"
  shows "map_of (range_map rng site m) = map_of m"
proof -
  have d: "distinct (map fst (range_map rng site m))"
    using assms by (simp add: fst_range_map order_ok_distinct mwf_distinct)
  show ?thesis
    using map_of_inject_set [OF d mwf_distinct [OF assms(2)]] set_range_map [OF assms] by simp
qed

lemma readKeys_present:
  assumes "distinct (map fst kvs)" and "\<forall>p \<in> set kvs. map_of dat (snd p) \<noteq> None"
  shows "\<exists>out. readKeys ns n dat acc kvs = Inr out \<and>
    (\<forall>t. map_of out t = (case map_of kvs t of None \<Rightarrow> map_of acc t | Some key \<Rightarrow> map_of dat key))"
  using assms
proof (induction ns n dat acc kvs rule: readKeys.induct)
  case (2 ns n dat acc target key rest)
  then obtain v where v: "map_of dat key = Some v" by auto
  have "map_of rest target = None" using 2(2) by (simp add: map_of_eq_None_iff)
  with 2 v show ?case by (fastforce split: option.splits)
qed simp

lemma readKeys_missing:
  assumes "p \<in> set kvs" and "map_of dat (snd p) = None"
  shows "\<exists>key. key \<in> snd ` set kvs \<and> map_of dat key = None \<and>
    readKeys ns n dat acc kvs = Inl (Errorf [''secret %s/%s has no key %q'', ns, n, key])"
  using assms by (induction ns n dat acc kvs rule: readKeys.induct) (auto split: option.splits)

text \<open>
  Reading a Secret through a key mapping returns every target with the value of its key,
  and nothing else, when all keys are present; otherwise it fails and names a key of the
  mapping that the Secret lacks. The iteration order of the mapping does not matter.
\<close>
lemma secret_values_exact:
  assumes "order_ok rng" and "mwf (sels_keys sel)" and "k_getSecret K k ns (sels_name sel) = Inr sec"
  shows "if \<forall>key \<in> snd ` set (sels_keys sel). map_of (sec_data sec) key \<noteq> None
    then \<exists>out. readSecretValues rng K k ns sel = Inr out \<and>
      (\<forall>t. map_of out t = Option.bind (map_of (sels_keys sel) t) (map_of (sec_data sec)))
    else \<exists>key \<in> snd ` set (sels_keys sel). map_of (sec_data sec) key = None \<and>
      readSecretValues rng K k ns sel =
        Inl (Errorf [''secret %s/%s has no key %q'', ns, sels_name sel, key])"
proof -
  let ?kvs = "range_map rng ''readSecretValues'' (sels_keys sel)"
  have kvs: "set ?kvs = set (sels_keys sel)" "distinct (map fst ?kvs)" "map_of ?kvs = map_of (sels_keys sel)"
    using assms(1,2) by (simp_all add: set_range_map fst_range_map order_ok_distinct mwf_distinct map_of_range_map)
  have run: "readSecretValues rng K k ns sel = readKeys ns (sels_name sel) (sec_data sec) [] ?kvs"
    by (simp add: readSecretValues_def assms(3))
  show ?thesis
  proof (cases "\<forall>key \<in> snd ` set (sels_keys sel). map_of (sec_data sec) key \<noteq> None")
    case True
    with readKeys_present [OF kvs(2), of "sec_data sec" ns "sels_name sel" "[]"] kvs
    show ?thesis by (auto simp: run Option.bind_eq_Some_conv split: option.splits) (metis bind.bind_lunit bind.bind_lzero option.exhaust)
  next
    case False
    then obtain p where "p \<in> set ?kvs" "map_of (sec_data sec) (snd p) = None" by (auto simp: kvs)
    with readKeys_missing [of p ?kvs "sec_data sec" ns "sels_name sel" "[]"] False show ?thesis
      by (auto simp: run kvs)
  qed
qed

text \<open>
  The Secrets of a cluster, as the Kubernetes API documents them: a read returns the Secret that
  was asked for; a create or an update that succeeds stores the Secret it was given, under a
  new resource version, and leaves every other Secret alone; one that fails changes none. A
  controller reference names the owner and is marked as controlling.
\<close>

definition controlled_by :: "'s object \<Rightarrow> secret \<Rightarrow> bool" where
  "controlled_by obj sec \<longleftrightarrow> (\<exists>ref \<in> set (sec_owners sec). ref_uid ref = obj_uid obj \<and> ref_controller ref = Some True)"

definition stores :: "('k, 's) kube \<Rightarrow> 'k \<Rightarrow> secret \<Rightarrow> goerr option \<times> 'k \<Rightarrow> bool" where
  "stores K k sec r \<longleftrightarrow>
     (case r of
        (Some e, k') \<Rightarrow> k_getSecret K k' = k_getSecret K k
      | (None, k') \<Rightarrow>
          (\<exists>v. k_getSecret K k' (sec_namespace sec) (sec_name sec) = Inr (sec\<lparr>sec_resourceVersion := v\<rparr>)) \<and>
          (\<forall>ns n. (ns, n) \<noteq> (sec_namespace sec, sec_name sec) \<longrightarrow> k_getSecret K k' ns n = k_getSecret K k ns n))"

definition secrets_ok :: "('k, 's) kube \<Rightarrow> bool" where
  "secrets_ok K \<longleftrightarrow>
     (\<forall>k ns n sec. k_getSecret K k ns n = Inr sec \<longrightarrow> sec_namespace sec = ns \<and> sec_name sec = n) \<and>
     (\<forall>k sec. stores K k sec (k_createSecret K k sec) \<and> stores K k sec (k_updateSecret K k sec)) \<and>
     (\<forall>obj sec sec'. k_setControllerReference K obj sec = Inr sec' \<longrightarrow>
        sec' = sec\<lparr>sec_owners := sec_owners sec'\<rparr> \<and> controlled_by obj sec')"

lemma owned_by_iff: "owned_by obj sec \<longleftrightarrow> controlled_by obj sec"
  by (auto simp: owned_by_def controlled_by_def list_ex_iff)

text \<open>The three ways a call can go: nothing to do or an error, an update, a creation.\<close>

lemma ensureOutputSecret_cases:
  assumes "secrets_ok K" and "ensureOutputSecret K obj name key val k = ((wrote, err), k')"
  obtains (error) e where "err = Some e" "k' = k" "\<not> wrote"
  | (same) sec where "err = None" "k' = k" "\<not> wrote" "k_getSecret K k (obj_namespace obj) name = Inr sec"
      "controlled_by obj sec" "(case map_of (sec_data sec) key of None \<Rightarrow> [] | Some v \<Rightarrow> v) = val"
  | (update) sec where "wrote" "k_getSecret K k (obj_namespace obj) name = Inr sec" "controlled_by obj sec"
      "stores K k (sec\<lparr>sec_data := mput key val (sec_data sec)\<rparr>) (err, k')" "sec_namespace sec = obj_namespace obj" "sec_name sec = name"
  | (create) sec e where "wrote" "k_getSecret K k (obj_namespace obj) name = Inl e" "controlled_by obj sec"
      "stores K k sec (err, k')" "sec_data sec = [(key, val)]" "sec_namespace sec = obj_namespace obj" "sec_name sec = name"
proof (cases "k_getSecret K k (obj_namespace obj) name")
  case (Inr sec)
  note found = Inr
  then have here: "sec_namespace sec = obj_namespace obj" "sec_name sec = name" using assms(1) by (auto simp: secrets_ok_def)
  let ?new = "sec\<lparr>sec_data := mput key val (sec_data sec)\<rparr>"
  have stored: "stores K k ?new (k_updateSecret K k ?new)" using assms(1) by (simp add: secrets_ok_def)
  show thesis
  proof (cases "owned_by obj sec")
    case True
    then have c: "controlled_by obj sec" by (simp add: owned_by_iff)
    show thesis
    proof (cases "(case map_of (sec_data sec) key of None \<Rightarrow> [] | Some v \<Rightarrow> v) = val")
      case True
      with assms(2) found \<open>owned_by obj sec\<close> have "err = None" "k' = k" "\<not> wrote" by (simp_all add: ensureOutputSecret_def)
      then show thesis using same found c True by blast
    next
      case False
      with assms(2) found \<open>owned_by obj sec\<close> have "wrote" "k_updateSecret K k ?new = (err, k')"
        by (auto simp: ensureOutputSecret_def split: prod.splits)
      then show thesis using update found c here stored by simp
    qed
  qed (use assms(2) found error in \<open>auto simp: ensureOutputSecret_def\<close>)
next
  case (Inl e)
  let ?bare = "\<lparr>sec_namespace = obj_namespace obj, sec_name = name, sec_data = [(key, val)], sec_owners = [], sec_resourceVersion = []\<rparr>"
  show thesis
  proof (cases "k_isNotFound K e \<and> (\<exists>sec. k_setControllerReference K obj ?bare = Inr sec)")
    case True
    then obtain sec where sec: "k_setControllerReference K obj ?bare = Inr sec" by blast
    with assms(1) have own: "sec = ?bare\<lparr>sec_owners := sec_owners sec\<rparr>" "controlled_by obj sec" "stores K k sec (k_createSecret K k sec)"
      unfolding secrets_ok_def by blast+
    from assms(2) Inl True sec have run: "wrote" "k_createSecret K k sec = (err, k')"
      by (auto simp: ensureOutputSecret_def split: prod.splits)
    have "sec_data sec = [(key, val)]" "sec_namespace sec = obj_namespace obj" "sec_name sec = name"
      by (subst own(1), simp)+
    then show thesis using create run own Inl by simp
  next
    case False
    with assms(2) Inl have "\<exists>e'. err = Some e' \<and> k' = k \<and> \<not> wrote"
      by (auto simp: ensureOutputSecret_def split: if_splits sum.splits)
    then show thesis using error by blast
  qed
qed

lemma ensureOutputSecret_idle:
  assumes "k_getSecret K k (obj_namespace obj) name = Inr sec" and "controlled_by obj sec"
    and "(case map_of (sec_data sec) key of None \<Rightarrow> [] | Some v \<Rightarrow> v) = val"
  shows "ensureOutputSecret K obj name key val k = ((False, None), k)"
  using assms by (simp add: ensureOutputSecret_def owned_by_iff)

text \<open>
  C27: Exporting a value never damages a Secret. Every other Secret of the cluster is as before. A
  Secret of that name that the resource does not control (no owner reference with its UID that
  is marked as controlling) is as before as well, and the call fails. When the call succeeds,
  the Secret is controlled by the resource and holds the value, with every other key as it
  was, and repeating the call changes nothing; a call that reports no change made none.
\<close>
theorem output_secret_safe:
  assumes "secrets_ok K" and "ensureOutputSecret K obj name key val k = ((wrote, err), k')"
  shows "(\<forall>ns n. (ns, n) \<noteq> (obj_namespace obj, name) \<longrightarrow> k_getSecret K k' ns n = k_getSecret K k ns n) \<and>
    (\<forall>sec. k_getSecret K k (obj_namespace obj) name = Inr sec \<longrightarrow>
       (\<nexists>ref. ref \<in> set (sec_owners sec) \<and> ref_uid ref = obj_uid obj \<and> ref_controller ref = Some True) \<longrightarrow>
       err \<noteq> None \<and> k_getSecret K k' (obj_namespace obj) name = Inr sec) \<and>
    (err = None \<longrightarrow>
       (\<exists>sec. k_getSecret K k' (obj_namespace obj) name = Inr sec \<and>
          (\<exists>ref \<in> set (sec_owners sec). ref_uid ref = obj_uid obj \<and> ref_controller ref = Some True) \<and>
          (case map_of (sec_data sec) key of None \<Rightarrow> [] | Some v \<Rightarrow> v) = val \<and>
          (\<forall>key'. key' \<noteq> key \<longrightarrow> map_of (sec_data sec) key' =
             (case k_getSecret K k (obj_namespace obj) name of Inr old \<Rightarrow> map_of (sec_data old) key' | Inl _ \<Rightarrow> None))) \<and>
       ensureOutputSecret K obj name key val k' = ((False, None), k')) \<and>
    (\<not> wrote \<longrightarrow> k' = k)"
  using assms
proof (cases rule: ensureOutputSecret_cases)
  case (same sec)
  then show ?thesis using ensureOutputSecret_idle [OF same(4-6)] by (auto simp: controlled_by_def)
next
  case (update sec)
  let ?new = "sec\<lparr>sec_data := mput key val (sec_data sec)\<rparr>"
  have "ensureOutputSecret K obj name key val k' = ((False, None), k')"
    if "k_getSecret K k' (obj_namespace obj) name = Inr (?new\<lparr>sec_resourceVersion := v\<rparr>)" for v
    by (rule ensureOutputSecret_idle [OF that]) (use update(3) in \<open>simp_all add: controlled_by_def\<close>)
  with update show ?thesis
    by (cases err) (auto simp: stores_def controlled_by_def intro!: exI)
next
  case (create sec e)
  have "ensureOutputSecret K obj name key val k' = ((False, None), k')"
    if "k_getSecret K k' (obj_namespace obj) name = Inr (sec\<lparr>sec_resourceVersion := v\<rparr>)" for v
    by (rule ensureOutputSecret_idle [OF that]) (use create(3,5) in \<open>simp_all add: controlled_by_def\<close>)
  with create show ?thesis
    by (cases err) (auto simp: stores_def controlled_by_def intro!: exI)
qed auto

text \<open>A cluster that holds Secrets, its state the list of them, the newest first.\<close>

definition secret_kube :: "(secret list, unit) kube" where
  "secret_kube =
     \<lparr>k_getSecret = (\<lambda>k ns n.
        (case filter (\<lambda>s. sec_namespace s = ns \<and> sec_name s = n) k of
           [] \<Rightarrow> Inl (KubeErr ''NotFound'') | s # _ \<Rightarrow> Inr s)),
      k_createSecret = (\<lambda>k s. (None, s # k)), k_updateSecret = (\<lambda>k s. (None, s # k)),
      k_update = (\<lambda>k obj. (Inr obj, k)), k_patch = (\<lambda>k base obj. (Inr obj, k)), k_statusPatch = (\<lambda>k base obj. (Inr obj, k)),
      k_isNotFound = (\<lambda>e. e = KubeErr ''NotFound''),
      k_setControllerReference = (\<lambda>obj s. Inr (s\<lparr>sec_owners := [\<lparr>ref_uid = obj_uid obj, ref_controller = Some True\<rparr>]\<rparr>)),
      k_findCondition = find_type, k_setCondition = set_type,
      k_containsFinalizer = (\<lambda>fs f. f \<in> set fs),
      k_addFinalizer = (\<lambda>fs f. if f \<in> set fs then fs else fs @ [f]),
      k_removeFinalizer = (\<lambda>fs f. filter (\<lambda>g. g \<noteq> f) fs)\<rparr>"

lemma secret_kube_ok: "secrets_ok secret_kube"
proof -
  have read: "sec_namespace s = ns \<and> sec_name s = n" if "k_getSecret secret_kube k ns n = Inr s" for k ns n s
  proof -
    from that obtain ss where "filter (\<lambda>s. sec_namespace s = ns \<and> sec_name s = n) k = s # ss"
      by (auto simp: secret_kube_def split: list.splits)
    then have "s \<in> set (filter (\<lambda>s. sec_namespace s = ns \<and> sec_name s = n) k)" by simp
    then show ?thesis by simp
  qed
  have new: "stores secret_kube k s (None, s # k)" for k s
  proof -
    have "k_getSecret secret_kube (s # k) (sec_namespace s) (sec_name s) = Inr (s\<lparr>sec_resourceVersion := sec_resourceVersion s\<rparr>)"
      by (simp add: secret_kube_def)
    moreover have "k_getSecret secret_kube (s # k) ns n = k_getSecret secret_kube k ns n"
      if "(ns, n) \<noteq> (sec_namespace s, sec_name s)" for ns n
      using that by (auto simp: secret_kube_def)
    ultimately show ?thesis unfolding stores_def prod.case option.case by blast
  qed
  have "k_createSecret secret_kube k s = (None, s # k)" "k_updateSecret secret_kube k s = (None, s # k)" for k s
    by (simp_all add: secret_kube_def)
  moreover have "sec' = sec\<lparr>sec_owners := sec_owners sec'\<rparr> \<and> controlled_by obj sec'"
    if "k_setControllerReference secret_kube obj sec = Inr sec'" for obj sec sec'
    using that by (auto simp: secret_kube_def controlled_by_def)
  ultimately show ?thesis unfolding secrets_ok_def using read new by simp
qed

theorem output_secret_safe_witness:
  "case ensureOutputSecret secret_kube (demo_object ''Client'' ()) ''out'' ''clientSecret'' ''v'' [demo_secret ''out'' []] of
     ((wrote, err), k') \<Rightarrow> err \<noteq> None \<and> k_getSecret secret_kube k' ''ns'' ''out'' = Inr (demo_secret ''out'' [])"
proof -
  obtain wrote err k' where run: "ensureOutputSecret secret_kube (demo_object ''Client'' ()) ''out'' ''clientSecret'' ''v''
      [demo_secret ''out'' []] = ((wrote, err), k')" by (metis prod.collapse)
  have "k_getSecret secret_kube [demo_secret ''out'' []] (obj_namespace (demo_object ''Client'' ())) ''out'' =
      Inr (demo_secret ''out'' [])" by code_simp
  moreover have "sec_owners (demo_secret ''out'' []) = []" by (simp add: demo_secret_def)
  moreover have "obj_namespace (demo_object ''Client'' ()) = ''ns''" by (simp add: demo_object_def)
  ultimately show ?thesis
    using output_secret_safe [OF secret_kube_ok run] unfolding run by simp
qed

end
