(* ===== verification/Realm_Driver.thy ===== *)
theory Realm_Driver
  imports Lifecycle Helpers
begin

text \<open>
  \<open>internal/controller/driver_realm.go\<close>: realms, addressed by name. \<open>RealmDriver rng\<close> is the
  driver as the engine sees it; \<open>rng\<close> is the iteration order of Go maps.
\<close>

definition RealmDriver_Spec :: "RealmSpec object \<Rightarrow> SpecView" where
  "RealmDriver_Spec obj =
     (let s = obj_spec obj in
      \<lparr>sv_ConnectionName = RealmSpec_ConnectionName s, sv_TargetRealm = RealmSpec_TargetRealm s,
       sv_Adoption = RealmSpec_Adoption s, sv_Deletion = RealmSpec_Deletion s, sv_JSON = RealmSpec_JSON s\<rparr>)"

definition RealmDriver_OperatorFields :: "string list" where
  "RealmDriver_OperatorFields = [''keycloakRef'', ''adoptionPolicy'', ''deletionPolicy'', ''smtpServerSecretRef'']"

definition RealmDriver_Get :: "'w kc \<Rightarrow> RealmSpec object \<Rightarrow> 'w \<Rightarrow> (goerr + json gomap) \<times> 'w" where
  "RealmDriver_Get kc obj = GetRealm kc (RealmSpec_TargetRealm (obj_spec obj))"

definition RealmDriver_ID :: "json gomap \<Rightarrow> string" where
  "RealmDriver_ID remote = []"

definition RealmDriver_Create :: "'w kc \<Rightarrow> RealmSpec object \<Rightarrow> json gomap \<Rightarrow> 'w \<Rightarrow> goerr option \<times> 'w" where
  "RealmDriver_Create kc obj payload = CreateRealm kc payload"

definition RealmDriver_Update ::
    "'w kc \<Rightarrow> RealmSpec object \<Rightarrow> string \<Rightarrow> json gomap \<Rightarrow> 'w \<Rightarrow> goerr option \<times> 'w" where
  "RealmDriver_Update kc obj ident payload = UpdateRealm kc (RealmSpec_TargetRealm (obj_spec obj)) payload"

definition RealmDriver_Delete :: "'w kc \<Rightarrow> RealmSpec object \<Rightarrow> 'w \<Rightarrow> goerr option \<times> 'w" where
  "RealmDriver_Delete kc obj = DeleteRealm kc (RealmSpec_TargetRealm (obj_spec obj))"

definition RealmDriver_ManagedMarker :: "json gomap \<Rightarrow> json gomap" where
  "RealmDriver_ManagedMarker payload = stampStringAttribute payload ManagedAnnotation ManagedValue"

definition RealmDriver_IsManaged :: "json gomap \<Rightarrow> bool" where
  "RealmDriver_IsManaged remote = managedByStringAttribute remote"

definition RealmDriver_PreparePayload ::
    "order \<Rightarrow> ('k, RealmSpec) kube \<Rightarrow> RealmSpec object \<Rightarrow> 'k \<Rightarrow> json gomap \<Rightarrow> goerr + json gomap" where
  "RealmDriver_PreparePayload rng K obj k payload =
     (case smtpServerSecretRef (obj_spec obj) of
        None \<Rightarrow> Inr payload
      | Some ref \<Rightarrow>
          (case readSecretValues rng K k (obj_namespace obj) ref of
             Inl e \<Rightarrow> Inl e
           | Inr vals \<Rightarrow> Inr (inject_values ''smtpServer'' vals payload)))"

definition RealmDriver_PostApply ::
    "'w kc \<Rightarrow> ('k, RealmSpec) kube \<Rightarrow> RealmSpec object \<Rightarrow> json gomap \<Rightarrow> 'k \<Rightarrow> 'w \<Rightarrow>
     (bool \<times> goerr option \<times> RealmSpec object \<times> 'k) \<times> 'w" where
  "RealmDriver_PostApply kc K obj remote k w = ((False, None, obj, k), w)"

text \<open>\<open>fmt.Sprintf\<close> with a format and its arguments is rendered like the error made from them.\<close>

definition protected_message :: "string \<Rightarrow> msg" where
  "protected_message name =
     ErrMsg (Errorf
       [''realm %q is protected; annotate the resource with %s: \"true\" to manage it deliberately'',
        name, AllowProtectedAnnotation])"

definition RealmDriver_Protected :: "RealmSpec object \<Rightarrow> msg option" where
  "RealmDriver_Protected obj =
     (let name = RealmSpec_TargetRealm (obj_spec obj) in
      if name \<notin> set ProtectedRealmNames then None
      else if map_of (obj_annotations obj) AllowProtectedAnnotation = Some (Raw ''true'') then None
      else Some (protected_message name))"

definition RealmDriver :: "order \<Rightarrow> ('w, 'k, RealmSpec) driver" where
  "RealmDriver rng =
     \<lparr>d_Get = RealmDriver_Get, d_ID = RealmDriver_ID, d_Create = RealmDriver_Create,
      d_Update = RealmDriver_Update, d_Delete = RealmDriver_Delete,
      d_ManagedMarker = RealmDriver_ManagedMarker, d_IsManaged = RealmDriver_IsManaged,
      d_PreparePayload = RealmDriver_PreparePayload rng, d_PostApply = RealmDriver_PostApply,
      d_Protected = RealmDriver_Protected, d_Spec = RealmDriver_Spec,
      d_OperatorFields = RealmDriver_OperatorFields\<rparr>"

section \<open>The contract with the engine\<close>

interpretation realm: engine_driver "RealmDriver rng"
proof unfold_locales
  show "sends_only is_read (d_Get (RealmDriver rng) (recorded kc) obj)"
    for kc :: "'x kc" and obj
    by (simp add: RealmDriver_def RealmDriver_Get_def reads)
qed (simp_all add: RealmDriver_def RealmDriver_PostApply_def [abs_def] same_metadata_def sends_when_return)

interpretation realm_marks: marking_driver "RealmDriver rng"
  by unfold_locales
    (auto simp: RealmDriver_def RealmDriver_ManagedMarker_def RealmDriver_IsManaged_def RealmDriver_PreparePayload_def
      string_marker inject_marker split: option.splits sum.splits)

end
