(* ===== verification/Client_Driver.thy ===== *)
theory Client_Driver
  imports Lifecycle Helpers
begin

text \<open>
  \<open>internal/controller/driver_client.go\<close>: clients (resolved by \<open>clientId\<close>, with an inbound
  and an outbound secret and scope assignments) and client scopes (resolved by name).

  \<open>remote["id"].(string)\<close> without the second result panics when the value is not a string;
  \<open>delete_found\<close> makes the panic an error value.
\<close>

definition delete_found ::
    "(string \<Rightarrow> 'w \<Rightarrow> goerr option \<times> 'w) \<Rightarrow> (goerr + json gomap) \<times> 'w \<Rightarrow> goerr option \<times> 'w" where
  "delete_found del found =
     (case found of
        (Inl e, w) \<Rightarrow> (Some e, w)
      | (Inr remote, w) \<Rightarrow>
          (case any_str (map_of remote ''id'') of
             None \<Rightarrow> (Some (Panic ''interface conversion: id is not string''), w)
           | Some i \<Rightarrow> del i w))"

section \<open>Clients\<close>

definition ClientDriver_Spec :: "ClientSpec object \<Rightarrow> SpecView" where
  "ClientDriver_Spec obj =
     (let s = obj_spec obj in
      \<lparr>sv_ConnectionName = ClientSpec_ConnectionName s, sv_TargetRealm = ClientSpec_TargetRealm s,
       sv_Adoption = ClientSpec_Adoption s, sv_Deletion = ClientSpec_Deletion s, sv_JSON = ClientSpec_JSON s\<rparr>)"

definition ClientDriver_OperatorFields :: "string list" where
  "ClientDriver_OperatorFields =
     [''keycloakRef'', ''adoptionPolicy'', ''deletionPolicy'', ''realm'', ''secretRef'', ''secretOutput'']"

definition ClientDriver_Get :: "'w kc \<Rightarrow> ClientSpec object \<Rightarrow> 'w \<Rightarrow> (goerr + json gomap) \<times> 'w" where
  "ClientDriver_Get kc obj =
     (let s = obj_spec obj in FindClient kc (ClientSpec_TargetRealm s) (clientId s))"

definition ClientDriver_ID :: "json gomap \<Rightarrow> string" where
  "ClientDriver_ID remote = str_or_empty (map_of remote ''id'')"

definition ClientDriver_Create :: "'w kc \<Rightarrow> ClientSpec object \<Rightarrow> json gomap \<Rightarrow> 'w \<Rightarrow> goerr option \<times> 'w" where
  "ClientDriver_Create kc obj payload = CreateClient kc (ClientSpec_TargetRealm (obj_spec obj)) payload"

definition ClientDriver_Update ::
    "'w kc \<Rightarrow> ClientSpec object \<Rightarrow> string \<Rightarrow> json gomap \<Rightarrow> 'w \<Rightarrow> goerr option \<times> 'w" where
  "ClientDriver_Update kc obj ident payload =
     UpdateClient kc (ClientSpec_TargetRealm (obj_spec obj)) ident payload"

definition ClientDriver_Delete :: "'w kc \<Rightarrow> ClientSpec object \<Rightarrow> 'w \<Rightarrow> goerr option \<times> 'w" where
  "ClientDriver_Delete kc obj w =
     (let s = obj_spec obj
      in delete_found (DeleteClient kc (ClientSpec_TargetRealm s))
           (FindClient kc (ClientSpec_TargetRealm s) (clientId s) w))"

definition ClientDriver_ManagedMarker :: "json gomap \<Rightarrow> json gomap" where
  "ClientDriver_ManagedMarker payload = stampStringAttribute payload ManagedAnnotation ManagedValue"

definition ClientDriver_IsManaged :: "json gomap \<Rightarrow> bool" where
  "ClientDriver_IsManaged remote = managedByStringAttribute remote"

definition ClientDriver_PreparePayload ::
    "('k, ClientSpec) kube \<Rightarrow> ClientSpec object \<Rightarrow> 'k \<Rightarrow> json gomap \<Rightarrow> goerr + json gomap" where
  "ClientDriver_PreparePayload K obj k payload =
     (case secretRef (obj_spec obj) of
        None \<Rightarrow> Inr payload
      | Some ref \<Rightarrow>
          (case readSecretValue K k (obj_namespace obj) ref ClientSecretKey of
             Inl e \<Rightarrow> Inl e
           | Inr v \<Rightarrow> Inr (mput ''secret'' (JStr v) payload)))"

text \<open>The outbound half of \<open>PostApply\<close>: export the client secret and record its Secret's name.\<close>

definition exportSecret ::
    "'w kc \<Rightarrow> ('k, ClientSpec) kube \<Rightarrow> ClientSpec object \<Rightarrow> string \<Rightarrow> 'k \<Rightarrow> 'w \<Rightarrow>
     (bool \<times> goerr option \<times> ClientSpec object \<times> 'k) \<times> 'w" where
  "exportSecret kc K obj ident k w =
     (let s = obj_spec obj in
      case secretOutput s of
        None \<Rightarrow> ((False, None, obj, k), w)
      | Some output \<Rightarrow>
          let key = (if sel_key output = [] then ClientSecretKey else sel_key output) in
          case GetClientSecret kc (ClientSpec_TargetRealm s) ident w of
            (Inl e, w1) \<Rightarrow> ((False, Some e, obj, k), w1)
          | (Inr val, w1) \<Rightarrow>
              (case ensureOutputSecret K obj (sel_name output) key val k of
                 ((wrote, Some e), k1) \<Rightarrow> ((False, Some e, obj, k1), w1)
               | ((wrote, None), k1) \<Rightarrow>
                   ((wrote, None,
                     obj\<lparr>obj_status := (obj_status obj)\<lparr>secretName := sel_name output\<rparr>\<rparr>, k1), w1)))"

definition enforceScopes ::
    "order \<Rightarrow> 'w kc \<Rightarrow> ClientSpec object \<Rightarrow> string \<Rightarrow> bool \<Rightarrow> 'w \<Rightarrow> (bool \<times> goerr option) \<times> 'w" where
  "enforceScopes rng kc obj ident optional w =
     (let s = obj_spec obj in
      case (if optional then optionalClientScopes s else defaultClientScopes s) of
        None \<Rightarrow> ((False, None), w)
      | Some names \<Rightarrow> enforceScopeAssignments rng kc (ClientSpec_TargetRealm s) ident names optional w)"

definition ClientDriver_PostApply ::
    "order \<Rightarrow> 'w kc \<Rightarrow> ('k, ClientSpec) kube \<Rightarrow> ClientSpec object \<Rightarrow> json gomap \<Rightarrow> 'k \<Rightarrow> 'w \<Rightarrow>
     (bool \<times> goerr option \<times> ClientSpec object \<times> 'k) \<times> 'w" where
  "ClientDriver_PostApply rng kc K obj remote k w =
     (let ident = str_or_empty (map_of remote ''id'') in
      if ident = [] then ((False, Some (Errorf [''server representation has no id'']), obj, k), w)
      else
        case exportSecret kc K obj ident k w of
          ((changed, err, obj1, k1), w1) \<Rightarrow>
            (case err of
               Some e \<Rightarrow> ((changed, Some e, obj1, k1), w1)
             | None \<Rightarrow>
                 (case enforceScopes rng kc obj1 ident False w1 of
                    (r2, w2) \<Rightarrow>
                      (case snd r2 of
                         Some e \<Rightarrow> ((changed, Some e, obj1, k1), w2)
                       | None \<Rightarrow>
                           (case enforceScopes rng kc obj1 ident True w2 of
                              (r3, w3) \<Rightarrow>
                                (case snd r3 of
                                   Some e \<Rightarrow> ((changed \<or> fst r2, Some e, obj1, k1), w3)
                                 | None \<Rightarrow> ((changed \<or> fst r2 \<or> fst r3, None, obj1, k1), w3)))))))"

definition ClientDriver_Protected :: "ClientSpec object \<Rightarrow> msg option" where
  "ClientDriver_Protected obj = None"

definition ClientDriver :: "order \<Rightarrow> ('w, 'k, ClientSpec) driver" where
  "ClientDriver rng =
     \<lparr>d_Get = ClientDriver_Get, d_ID = ClientDriver_ID, d_Create = ClientDriver_Create,
      d_Update = ClientDriver_Update, d_Delete = ClientDriver_Delete,
      d_ManagedMarker = ClientDriver_ManagedMarker, d_IsManaged = ClientDriver_IsManaged,
      d_PreparePayload = ClientDriver_PreparePayload, d_PostApply = ClientDriver_PostApply rng,
      d_Protected = ClientDriver_Protected, d_Spec = ClientDriver_Spec,
      d_OperatorFields = ClientDriver_OperatorFields\<rparr>"

section \<open>Client scopes\<close>

definition ClientScopeDriver_Spec :: "ClientScopeSpec object \<Rightarrow> SpecView" where
  "ClientScopeDriver_Spec obj =
     (let s = obj_spec obj in
      \<lparr>sv_ConnectionName = ClientScopeSpec_ConnectionName s, sv_TargetRealm = ClientScopeSpec_TargetRealm s,
       sv_Adoption = ClientScopeSpec_Adoption s, sv_Deletion = ClientScopeSpec_Deletion s,
       sv_JSON = ClientScopeSpec_JSON s\<rparr>)"

definition ClientScopeDriver_OperatorFields :: "string list" where
  "ClientScopeDriver_OperatorFields = [''keycloakRef'', ''adoptionPolicy'', ''deletionPolicy'', ''realm'']"

definition ClientScopeDriver_Get :: "'w kc \<Rightarrow> ClientScopeSpec object \<Rightarrow> 'w \<Rightarrow> (goerr + json gomap) \<times> 'w" where
  "ClientScopeDriver_Get kc obj =
     (let s = obj_spec obj in FindClientScope kc (ClientScopeSpec_TargetRealm s) (scope_name s))"

definition ClientScopeDriver_ID :: "json gomap \<Rightarrow> string" where
  "ClientScopeDriver_ID remote = str_or_empty (map_of remote ''id'')"

definition ClientScopeDriver_Create ::
    "'w kc \<Rightarrow> ClientScopeSpec object \<Rightarrow> json gomap \<Rightarrow> 'w \<Rightarrow> goerr option \<times> 'w" where
  "ClientScopeDriver_Create kc obj payload =
     CreateClientScope kc (ClientScopeSpec_TargetRealm (obj_spec obj)) payload"

definition ClientScopeDriver_Update ::
    "'w kc \<Rightarrow> ClientScopeSpec object \<Rightarrow> string \<Rightarrow> json gomap \<Rightarrow> 'w \<Rightarrow> goerr option \<times> 'w" where
  "ClientScopeDriver_Update kc obj ident payload =
     UpdateClientScope kc (ClientScopeSpec_TargetRealm (obj_spec obj)) ident payload"

definition ClientScopeDriver_Delete :: "'w kc \<Rightarrow> ClientScopeSpec object \<Rightarrow> 'w \<Rightarrow> goerr option \<times> 'w" where
  "ClientScopeDriver_Delete kc obj w =
     (let s = obj_spec obj
      in delete_found (DeleteClientScope kc (ClientScopeSpec_TargetRealm s))
           (FindClientScope kc (ClientScopeSpec_TargetRealm s) (scope_name s) w))"

definition ClientScopeDriver_ManagedMarker :: "json gomap \<Rightarrow> json gomap" where
  "ClientScopeDriver_ManagedMarker payload = stampStringAttribute payload ManagedAnnotation ManagedValue"

definition ClientScopeDriver_IsManaged :: "json gomap \<Rightarrow> bool" where
  "ClientScopeDriver_IsManaged remote = managedByStringAttribute remote"

definition ClientScopeDriver_PreparePayload ::
    "('k, ClientScopeSpec) kube \<Rightarrow> ClientScopeSpec object \<Rightarrow> 'k \<Rightarrow> json gomap \<Rightarrow> goerr + json gomap" where
  "ClientScopeDriver_PreparePayload K obj k payload = Inr payload"

definition ClientScopeDriver_PostApply ::
    "'w kc \<Rightarrow> ('k, ClientScopeSpec) kube \<Rightarrow> ClientScopeSpec object \<Rightarrow> json gomap \<Rightarrow> 'k \<Rightarrow> 'w \<Rightarrow>
     (bool \<times> goerr option \<times> ClientScopeSpec object \<times> 'k) \<times> 'w" where
  "ClientScopeDriver_PostApply kc K obj remote k w = ((False, None, obj, k), w)"

definition ClientScopeDriver_Protected :: "ClientScopeSpec object \<Rightarrow> msg option" where
  "ClientScopeDriver_Protected obj = None"

definition ClientScopeDriver :: "('w, 'k, ClientScopeSpec) driver" where
  "ClientScopeDriver =
     \<lparr>d_Get = ClientScopeDriver_Get, d_ID = ClientScopeDriver_ID, d_Create = ClientScopeDriver_Create,
      d_Update = ClientScopeDriver_Update, d_Delete = ClientScopeDriver_Delete,
      d_ManagedMarker = ClientScopeDriver_ManagedMarker, d_IsManaged = ClientScopeDriver_IsManaged,
      d_PreparePayload = ClientScopeDriver_PreparePayload, d_PostApply = ClientScopeDriver_PostApply,
      d_Protected = ClientScopeDriver_Protected, d_Spec = ClientScopeDriver_Spec,
      d_OperatorFields = ClientScopeDriver_OperatorFields\<rparr>"

section \<open>The contract with the engine\<close>

lemma scopes_silent: "sends_when silent is_read (enforceScopeAssignments rng (recorded kc) realm ident names optional)"
proof -
  have read: "sends_only is_read (\<lambda>w. if optional then ClientOptionalScopeAssignments (recorded kc) realm ident w
      else ClientDefaultScopeAssignments (recorded kc) realm ident w)"
    by (intro sends)
  show ?thesis
    unfolding enforceScopeAssignments_def [abs_def] Let_def
    by (intro sends_when_after [OF read] sends_when_split sends_when_return sends_when_never)
      (auto simp: silent_def split: prod.split sum.split option.split)
qed

lemma client_scopes_silent: "sends_when silent is_read (enforceScopes rng (recorded kc) obj ident optional)"
  unfolding enforceScopes_def [abs_def] Let_def
  by (intro sends_when_split sends_when_return scopes_silent)

lemma export_reads: "sends_only is_read (exportSecret (recorded kc) K obj ident k)"
proof -
  have "sends_only is_read (GetClientSecret (recorded kc) realm ident)" for realm
    unfolding GetClientSecret_def by (intro sends) simp
  then show ?thesis
    unfolding exportSecret_def [abs_def] Let_def
    by (auto intro!: sends simp: split_beta split: option.split)
qed

lemma export_keeps: "same_metadata obj (fst (snd (snd (fst (exportSecret kc K obj ident k w)))))"
  by (simp add: exportSecret_def Let_def same_metadata_def split: option.split prod.split sum.split)

lemma client_post_keeps: "same_metadata obj (fst (snd (snd (fst (ClientDriver_PostApply rng kc K obj remote k w)))))"
  using export_keeps [of obj kc K _ k w]
  by (simp add: ClientDriver_PostApply_def Let_def same_metadata_def split_beta split: option.split)

lemma client_post_quiet: "sends_when quiet is_read (ClientDriver_PostApply rng (recorded kc) K obj remote k)"
proof -
  have rest: "sends_when quiet is_read
    (\<lambda>w1. case enforceScopes rng (recorded kc) obj1 ident False w1 of
       (r2, w2) \<Rightarrow>
         (case snd r2 of
            Some e \<Rightarrow> ((changed, Some e, obj1, k1), w2)
          | None \<Rightarrow>
              (case enforceScopes rng (recorded kc) obj1 ident True w2 of
                 (r3, w3) \<Rightarrow>
                   (case snd r3 of
                      Some e \<Rightarrow> ((changed \<or> fst r2, Some e, obj1, k1), w3)
                    | None \<Rightarrow> ((changed \<or> fst r2 \<or> fst r3, None, obj1, k1), w3)))))"
    for obj1 ident changed k1
    by (intro sends_when_bind [OF client_scopes_silent] sends_when_split sends_when_return)
      (auto simp: quiet_def silent_def split_beta split: option.split)
  show ?thesis
    unfolding ClientDriver_PostApply_def [abs_def] Let_def
    by (intro sends_when_split(3) sends_when_after [OF export_reads] sends_when_pair
        sends_when_split(2) sends_when_return rest)
qed

interpretation client: engine_driver "ClientDriver rng"
  by unfold_locales
    (simp_all add: ClientDriver_def ClientDriver_Get_def Let_def reads client_post_keeps client_post_quiet)

interpretation scope: engine_driver ClientScopeDriver
  by unfold_locales
    (simp_all add: ClientScopeDriver_def ClientScopeDriver_Get_def Let_def reads
      ClientScopeDriver_PostApply_def [abs_def] same_metadata_def sends_when_return)

interpretation client_marks: marking_driver "ClientDriver rng"
  by unfold_locales
    (auto simp: ClientDriver_def ClientDriver_ManagedMarker_def ClientDriver_IsManaged_def ClientDriver_PreparePayload_def
      string_marker inject_marker split: option.splits sum.splits)

interpretation scope_marks: marking_driver ClientScopeDriver
  by unfold_locales
    (auto simp: ClientScopeDriver_def ClientScopeDriver_ManagedMarker_def ClientScopeDriver_IsManaged_def ClientScopeDriver_PreparePayload_def
      string_marker inject_marker split: option.splits sum.splits)

end
