(* ===== verification/Role_Driver.thy ===== *)
theory Role_Driver
  imports Lifecycle Helpers
begin

text \<open>
  Realm roles and their composites, the \<open>RealmRoleDriver\<close> of
  \<open>internal/controller/driver_role_idp_group.go\<close>. The comparison of desired and current
  representations by id, written twice in the file, is \<open>diff_by_id\<close>.
\<close>

definition diff_by_id ::
    "order \<Rightarrow> string \<Rightarrow> json gomap list \<Rightarrow> json gomap list \<Rightarrow> json gomap list \<times> json gomap list" where
  "diff_by_id rng site desired current =
     (let desiredIDs = index_by ''id'' desired; currentIDs = index_by ''id'' current
      in (missing_from rng (site @ ''/add'') desiredIDs currentIDs,
          missing_from rng (site @ ''/remove'') currentIDs desiredIDs))"

definition RealmRoleDriver_Spec :: "RealmRoleSpec object \<Rightarrow> SpecView" where
  "RealmRoleDriver_Spec obj =
     (let s = obj_spec obj in
      \<lparr>sv_ConnectionName = RealmRoleSpec_ConnectionName s, sv_TargetRealm = RealmRoleSpec_TargetRealm s,
       sv_Adoption = RealmRoleSpec_Adoption s, sv_Deletion = RealmRoleSpec_Deletion s,
       sv_JSON = RealmRoleSpec_JSON s\<rparr>)"

definition RealmRoleDriver_OperatorFields :: "string list" where
  "RealmRoleDriver_OperatorFields =
     [''keycloakRef'', ''adoptionPolicy'', ''deletionPolicy'', ''realm'', ''composites'']"

definition RealmRoleDriver_Get :: "'w kc \<Rightarrow> RealmRoleSpec object \<Rightarrow> 'w \<Rightarrow> (goerr + json gomap) \<times> 'w" where
  "RealmRoleDriver_Get kc obj =
     (let s = obj_spec obj in GetRole kc (RealmRoleSpec_TargetRealm s) (role_name s))"

definition RealmRoleDriver_ID :: "json gomap \<Rightarrow> string" where
  "RealmRoleDriver_ID remote = str_or_empty (map_of remote ''id'')"

definition RealmRoleDriver_Create ::
    "'w kc \<Rightarrow> RealmRoleSpec object \<Rightarrow> json gomap \<Rightarrow> 'w \<Rightarrow> goerr option \<times> 'w" where
  "RealmRoleDriver_Create kc obj payload = CreateRole kc (RealmRoleSpec_TargetRealm (obj_spec obj)) payload"

definition RealmRoleDriver_Update ::
    "'w kc \<Rightarrow> RealmRoleSpec object \<Rightarrow> string \<Rightarrow> json gomap \<Rightarrow> 'w \<Rightarrow> goerr option \<times> 'w" where
  "RealmRoleDriver_Update kc obj ident payload =
     (let s = obj_spec obj in UpdateRole kc (RealmRoleSpec_TargetRealm s) (role_name s) payload)"

definition RealmRoleDriver_Delete :: "'w kc \<Rightarrow> RealmRoleSpec object \<Rightarrow> 'w \<Rightarrow> goerr option \<times> 'w" where
  "RealmRoleDriver_Delete kc obj =
     (let s = obj_spec obj in DeleteRole kc (RealmRoleSpec_TargetRealm s) (role_name s))"

definition RealmRoleDriver_ManagedMarker :: "json gomap \<Rightarrow> json gomap" where
  "RealmRoleDriver_ManagedMarker payload = stampSliceAttribute payload ManagedAnnotation ManagedValue"

definition RealmRoleDriver_IsManaged :: "json gomap \<Rightarrow> bool" where
  "RealmRoleDriver_IsManaged remote = managedBySliceAttribute remote"

definition RealmRoleDriver_PreparePayload ::
    "('k, RealmRoleSpec) kube \<Rightarrow> RealmRoleSpec object \<Rightarrow> 'k \<Rightarrow> json gomap \<Rightarrow> goerr + json gomap" where
  "RealmRoleDriver_PreparePayload K obj k payload = Inr payload"

section \<open>Composites\<close>

fun compositeClientRoles ::
    "'w kc \<Rightarrow> string \<Rightarrow> string list gomap \<Rightarrow> 'w \<Rightarrow> (goerr + json gomap list) \<times> 'w" where
  "compositeClientRoles kc realm [] w = (Inr [], w)"
| "compositeClientRoles kc realm ((clientID, roles) # rest) w =
     (case resolveClientRoles kc realm clientID roles w of
        (Inl e, w1) \<Rightarrow> (Inl e, w1)
      | (Inr found, w1) \<Rightarrow> map_result ((@) found) (compositeClientRoles kc realm rest w1))"

text \<open>The representations of the composites the spec asks for; none unless \<open>composite\<close> is true.\<close>

definition desiredComposites ::
    "order \<Rightarrow> 'w kc \<Rightarrow> RealmRoleSpec \<Rightarrow> 'w \<Rightarrow> (goerr + json gomap list) \<times> 'w" where
  "desiredComposites rng kc s w =
     (case (role_composite s, role_composites s) of
        (Some True, Some comps) \<Rightarrow>
          (case resolveRealmRoles kc (RealmRoleSpec_TargetRealm s) (comp_realmRoles comps) w of
             (Inl e, w1) \<Rightarrow> (Inl e, w1)
           | (Inr realmRoles, w1) \<Rightarrow>
               map_result ((@) realmRoles)
                 (compositeClientRoles kc (RealmRoleSpec_TargetRealm s)
                    (range_map rng ''composites'' (comp_clientRoles comps)) w1))
      | _ \<Rightarrow> (Inr [], w))"

definition applyComposites ::
    "'w kc \<Rightarrow> string \<Rightarrow> string \<Rightarrow> json gomap list \<Rightarrow> json gomap list \<Rightarrow> 'w \<Rightarrow> (bool \<times> goerr option) \<times> 'w" where
  "applyComposites kc realm name toAdd toRemove w =
     (if toAdd = [] \<and> toRemove = [] then ((False, None), w)
      else
        case (if toAdd \<noteq> [] then AddRoleComposites kc realm name toAdd w else (None, w)) of
          (Some e, w1) \<Rightarrow> ((False, Some e), w1)
        | (None, w1) \<Rightarrow>
            (case (if toRemove \<noteq> [] then RemoveRoleComposites kc realm name toRemove w1 else (None, w1)) of
               (Some e, w2) \<Rightarrow> ((False, Some e), w2)
             | (None, w2) \<Rightarrow> ((True, None), w2)))"

definition enforceComposites ::
    "order \<Rightarrow> 'w kc \<Rightarrow> RealmRoleSpec \<Rightarrow> 'w \<Rightarrow> (bool \<times> goerr option) \<times> 'w" where
  "enforceComposites rng kc s w =
     (case GetRoleComposites kc (RealmRoleSpec_TargetRealm s) (role_name s) w of
        (Inl e, w1) \<Rightarrow> ((False, Some e), w1)
      | (Inr current, w1) \<Rightarrow>
          (case desiredComposites rng kc s w1 of
             (Inl e, w2) \<Rightarrow> ((False, Some e), w2)
           | (Inr desired, w2) \<Rightarrow>
               (case diff_by_id rng ''composites'' desired current of
                  (toAdd, toRemove) \<Rightarrow>
                    applyComposites kc (RealmRoleSpec_TargetRealm s) (role_name s) toAdd toRemove w2)))"

definition RealmRoleDriver_PostApply ::
    "order \<Rightarrow> 'w kc \<Rightarrow> ('k, RealmRoleSpec) kube \<Rightarrow> RealmRoleSpec object \<Rightarrow> json gomap \<Rightarrow> 'k \<Rightarrow> 'w \<Rightarrow>
     (bool \<times> goerr option \<times> RealmRoleSpec object \<times> 'k) \<times> 'w" where
  "RealmRoleDriver_PostApply rng kc K obj remote k w =
     (case enforceComposites rng kc (obj_spec obj) w of
        (r, w1) \<Rightarrow> ((fst r, snd r, obj, k), w1))"

definition RealmRoleDriver_Protected :: "RealmRoleSpec object \<Rightarrow> msg option" where
  "RealmRoleDriver_Protected obj = None"

definition RealmRoleDriver :: "order \<Rightarrow> ('w, 'k, RealmRoleSpec) driver" where
  "RealmRoleDriver rng =
     \<lparr>d_Get = RealmRoleDriver_Get, d_ID = RealmRoleDriver_ID, d_Create = RealmRoleDriver_Create,
      d_Update = RealmRoleDriver_Update, d_Delete = RealmRoleDriver_Delete,
      d_ManagedMarker = RealmRoleDriver_ManagedMarker, d_IsManaged = RealmRoleDriver_IsManaged,
      d_PreparePayload = RealmRoleDriver_PreparePayload, d_PostApply = RealmRoleDriver_PostApply rng,
      d_Protected = RealmRoleDriver_Protected, d_Spec = RealmRoleDriver_Spec,
      d_OperatorFields = RealmRoleDriver_OperatorFields\<rparr>"

section \<open>The contract with the engine\<close>

lemma compositeClientRoles_reads [sends]:
  "sends_only is_read (compositeClientRoles (recorded kc) realm comps)"
proof (induction comps)
  case (Cons p comps)
  obtain c roles where p: "p = (c, roles)" by (cases p)
  have "sends_only is_read (\<lambda>w. compositeClientRoles (recorded kc) realm ((c, roles) # comps) w)"
    unfolding compositeClientRoles.simps by (intro sends Cons)
  then show ?case by (simp add: p)
qed (simp add: sends_only_def)

lemma desiredComposites_reads [sends]: "sends_only is_read (desiredComposites rng (recorded kc) s)"
proof (cases "role_composite s = Some True \<and> role_composites s \<noteq> None")
  case True
  then obtain comps where "role_composites s = Some comps" by blast
  with True show ?thesis
    unfolding desiredComposites_def [abs_def] by (simp, intro sends)
next
  case False
  then have "desiredComposites rng (recorded kc) s = (\<lambda>w. (Inr [], w))"
    by (auto simp: desiredComposites_def fun_eq_iff split: option.split bool.split)
  then show ?thesis by (simp add: sends_return)
qed

lemma composites_silent: "sends_when silent is_read (enforceComposites rng (recorded kc) s)"
proof -
  have read: "sends_only is_read (GetRoleComposites (recorded kc) realm name)" for realm name
    unfolding GetRoleComposites_def by (intro sends) simp
  have run: "sends_when silent is_read (applyComposites (recorded kc) realm name toAdd toRemove)"
    for realm name toAdd toRemove
    unfolding applyComposites_def [abs_def]
    by (intro sends_when_split(3) sends_when_return sends_when_never)
      (auto simp: silent_def split: prod.split option.split)
  show ?thesis
    unfolding enforceComposites_def [abs_def]
    by (intro sends_when_after [OF read] sends_when_after [OF desiredComposites_reads] sends_when_split
        sends_when_return sends_when_pair run)
qed

lemma role_post_quiet: "sends_when quiet is_read (RealmRoleDriver_PostApply rng (recorded kc) K obj remote k)"
  unfolding RealmRoleDriver_PostApply_def [abs_def]
  by (intro sends_when_bind [OF composites_silent] sends_when_return) (auto simp: quiet_def silent_def)

lemma role_post_keeps: "same_metadata obj (fst (snd (snd (fst (RealmRoleDriver_PostApply rng kc K obj remote k w)))))"
  by (simp add: RealmRoleDriver_PostApply_def same_metadata_def split_beta)

interpretation role: engine_driver "RealmRoleDriver rng"
  by unfold_locales
    (simp_all add: RealmRoleDriver_def RealmRoleDriver_Get_def Let_def reads role_post_quiet role_post_keeps)

interpretation role_marks: marking_driver "RealmRoleDriver rng"
  by unfold_locales
    (auto simp: RealmRoleDriver_def RealmRoleDriver_ManagedMarker_def RealmRoleDriver_IsManaged_def RealmRoleDriver_PreparePayload_def
      slice_marker inject_marker split: option.splits sum.splits)

section \<open>Properties\<close>

lemma diff_exact:
  assumes "order_ok rng" and "diff_by_id rng site desired current = (toAdd, toRemove)"
  shows "ids_of ''id'' toAdd = ids_of ''id'' desired - ids_of ''id'' current"
    and "ids_of ''id'' toRemove = ids_of ''id'' current - ids_of ''id'' desired"
    and "set toAdd \<subseteq> set desired" and "set toRemove \<subseteq> set current"
  using assms
  by (auto simp: diff_by_id_def Let_def ids_missing missing_from_iff dest: index_by_Some)

text \<open>
  C25: The role diff is exact. Whatever the iteration order, applying the additions and
  removals it computes to the current role ids gives the desired ids; it adds only desired
  representations that are missing and removes only current ones that are not desired.
\<close>
theorem role_diff_exact:
  assumes "order_ok rng" and "diff_by_id rng site desired current = (toAdd, toRemove)"
  shows "(ids_of ''id'' current - ids_of ''id'' toRemove) \<union> ids_of ''id'' toAdd = ids_of ''id'' desired \<and>
    ids_of ''id'' toAdd \<inter> ids_of ''id'' current = {} \<and> ids_of ''id'' toRemove \<inter> ids_of ''id'' desired = {} \<and>
    set toAdd \<subseteq> set desired \<and> set toRemove \<subseteq> set current"
  using diff_exact [OF assms] by auto

theorem role_diff_exact_witness:
  "diff_by_id (\<lambda>site ks. rev ks) ''x'' [[(''id'', JStr ''a'')], [(''id'', JStr ''b'')]] [[(''id'', JStr ''b'')], [(''id'', JStr ''c'')]]
     = ([[(''id'', JStr ''a'')]], [[(''id'', JStr ''c'')]]) \<and>
   (ids_of ''id'' [[(''id'', JStr ''b'')], [(''id'', JStr ''c'')]] - ids_of ''id'' [[(''id'', JStr ''c'')]]) \<union>
     ids_of ''id'' [[(''id'', JStr ''a'')]] = ids_of ''id'' [[(''id'', JStr ''a'')], [(''id'', JStr ''b'')]]"
proof -
  have run: "diff_by_id (\<lambda>site ks. rev ks) ''x'' [[(''id'', JStr ''a'')], [(''id'', JStr ''b'')]]
      [[(''id'', JStr ''b'')], [(''id'', JStr ''c'')]] = ([[(''id'', JStr ''a'')]], [[(''id'', JStr ''c'')]])"
    by code_simp
  moreover have "order_ok (\<lambda>site ks. rev ks)" by (simp add: order_ok_def)
  ultimately show ?thesis using role_diff_exact by blast
qed

text \<open>
  C38: A role whose spec does not ask for composites loses all of them: when \<open>composite\<close> is
  unset or false, or \<open>composites\<close> is unset, every current composite with an id is removed,
  also those the spec never managed.
\<close>
theorem unset_composites_removed:
  assumes "order_ok rng" and "role_composite s \<noteq> Some True \<or> role_composites s = None"
    and "GetRoleComposites kc (RealmRoleSpec_TargetRealm s) (role_name s) w = (Inr current, w1)"
    and "ids_of ''id'' current \<noteq> {}"
  shows "\<exists>toRemove. ids_of ''id'' toRemove = ids_of ''id'' current \<and>
    enforceComposites rng kc s w =
      (case RemoveRoleComposites kc (RealmRoleSpec_TargetRealm s) (role_name s) toRemove w1 of
         (None, w2) \<Rightarrow> ((True, None), w2)
       | (Some e, w2) \<Rightarrow> ((False, Some e), w2))"
proof -
  obtain toAdd toRemove where diff: "diff_by_id rng ''composites'' [] current = (toAdd, toRemove)"
    by (cases "diff_by_id rng ''composites'' [] current")
  have d: "desiredComposites rng kc s w1 = (Inr [], w1)"
    using assms(2) by (auto simp: desiredComposites_def split: option.split bool.split)
  have "toAdd = []" "ids_of ''id'' toRemove = ids_of ''id'' current"
    using diff_exact [OF assms(1) diff] by (auto simp: ids_of_def)
  moreover from this assms(4) have "toRemove \<noteq> []" by (auto simp: ids_of_def)
  ultimately show ?thesis
    by (intro exI [of _ toRemove])
      (auto simp: enforceComposites_def assms(3) d diff applyComposites_def split: option.split prod.split)
qed

theorem unset_composites_removed_witness:
  "\<exists>toRemove. ids_of ''id'' toRemove = {''r1''} \<and>
    enforceComposites (\<lambda>site ks. ks) (\<lambda>meth path body target w. (Inr (JArr [JObj [(''id'', JStr ''r1'')]]), Suc w))
      \<lparr>keycloakRef = ''kc'', spec_realm = ''demo'', adoptionPolicy = None, deletionPolicy = None,
       role_name = ''ops'', role_description = None, role_composite = None, role_composites = None,
       role_attributes = []\<rparr> 0 = ((True, None), 2)"
proof -
  let ?kc = "\<lambda>meth path body target w. (Inr (JArr [JObj [(''id'', JStr ''r1'')]]), Suc w)"
  let ?s = "\<lparr>keycloakRef = ''kc'', spec_realm = ''demo'', adoptionPolicy = None, deletionPolicy = None,
       role_name = ''ops'', role_description = None, role_composite = None, role_composites = None,
       role_attributes = []\<rparr>"
  have "order_ok (\<lambda>site ks. ks)" by (simp add: order_ok_def)
  moreover have "GetRoleComposites ?kc (RealmRoleSpec_TargetRealm ?s) (role_name ?s) 0 =
      (Inr [[(''id'', JStr ''r1'')]], Suc 0)"
    by (simp add: GetRoleComposites_def map_result_def)
  moreover have "ids_of ''id'' [[(''id'', JStr ''r1'')]] = {''r1''}" by (auto simp: ids_of_def)
  ultimately show ?thesis
    using unset_composites_removed [of "\<lambda>site ks. ks" ?s ?kc 0 "[[(''id'', JStr ''r1'')]]" "Suc 0"]
    by (force simp: RemoveRoleComposites_def no_result_def)
qed

end
