(* ===== verification/Idp_Driver.thy ===== *)
theory Idp_Driver
  imports Lifecycle Helpers
begin

text \<open>
  Identity providers and their mappers, the \<open>IdentityProviderDriver\<close> of
  \<open>internal/controller/driver_role_idp_group.go\<close>. The representation has no attributes, so
  the managed marker is not stamped and \<open>IsManaged\<close> is always false.
\<close>

definition IdentityProviderDriver_Spec :: "IdentityProviderSpec object \<Rightarrow> SpecView" where
  "IdentityProviderDriver_Spec obj =
     (let s = obj_spec obj in
      \<lparr>sv_ConnectionName = IdentityProviderSpec_ConnectionName s,
       sv_TargetRealm = IdentityProviderSpec_TargetRealm s,
       sv_Adoption = IdentityProviderSpec_Adoption s, sv_Deletion = IdentityProviderSpec_Deletion s,
       sv_JSON = IdentityProviderSpec_JSON s\<rparr>)"

definition IdentityProviderDriver_OperatorFields :: "string list" where
  "IdentityProviderDriver_OperatorFields =
     [''keycloakRef'', ''adoptionPolicy'', ''deletionPolicy'', ''realm'', ''configSecretRef'', ''mappers'']"

definition IdentityProviderDriver_Get ::
    "'w kc \<Rightarrow> IdentityProviderSpec object \<Rightarrow> 'w \<Rightarrow> (goerr + json gomap) \<times> 'w" where
  "IdentityProviderDriver_Get kc obj =
     (let s = obj_spec obj in GetIdentityProvider kc (IdentityProviderSpec_TargetRealm s) (idp_alias s))"

definition IdentityProviderDriver_ID :: "json gomap \<Rightarrow> string" where
  "IdentityProviderDriver_ID remote = str_or_empty (map_of remote ''alias'')"

definition IdentityProviderDriver_Create ::
    "'w kc \<Rightarrow> IdentityProviderSpec object \<Rightarrow> json gomap \<Rightarrow> 'w \<Rightarrow> goerr option \<times> 'w" where
  "IdentityProviderDriver_Create kc obj payload =
     CreateIdentityProvider kc (IdentityProviderSpec_TargetRealm (obj_spec obj)) payload"

definition IdentityProviderDriver_Update ::
    "'w kc \<Rightarrow> IdentityProviderSpec object \<Rightarrow> string \<Rightarrow> json gomap \<Rightarrow> 'w \<Rightarrow> goerr option \<times> 'w" where
  "IdentityProviderDriver_Update kc obj ident payload =
     (let s = obj_spec obj
      in UpdateIdentityProvider kc (IdentityProviderSpec_TargetRealm s) (idp_alias s) payload)"

definition IdentityProviderDriver_Delete ::
    "'w kc \<Rightarrow> IdentityProviderSpec object \<Rightarrow> 'w \<Rightarrow> goerr option \<times> 'w" where
  "IdentityProviderDriver_Delete kc obj =
     (let s = obj_spec obj in DeleteIdentityProvider kc (IdentityProviderSpec_TargetRealm s) (idp_alias s))"

definition IdentityProviderDriver_ManagedMarker :: "json gomap \<Rightarrow> json gomap" where
  "IdentityProviderDriver_ManagedMarker payload = payload"

definition IdentityProviderDriver_IsManaged :: "json gomap \<Rightarrow> bool" where
  "IdentityProviderDriver_IsManaged remote = False"

definition IdentityProviderDriver_PreparePayload ::
    "order \<Rightarrow> ('k, IdentityProviderSpec) kube \<Rightarrow> IdentityProviderSpec object \<Rightarrow> 'k \<Rightarrow> json gomap \<Rightarrow>
     goerr + json gomap" where
  "IdentityProviderDriver_PreparePayload rng K obj k payload =
     (case configSecretRef (obj_spec obj) of
        None \<Rightarrow> Inr payload
      | Some ref \<Rightarrow>
          (case readSecretValues rng K k (obj_namespace obj) ref of
             Inl e \<Rightarrow> Inl e
           | Inr vals \<Rightarrow> Inr (inject_values ''config'' vals payload)))"

section \<open>Mappers\<close>

definition mappersDiffer :: "json gomap \<Rightarrow> json gomap \<Rightarrow> bool" where
  "mappersDiffer current payload \<longleftrightarrow>
     list_ex (\<lambda>(k, want).
       k \<noteq> ''identityProviderAlias'' \<and>
       (case map_of current k of None \<Rightarrow> True | Some got \<Rightarrow> \<not> jsonEqual want got)) payload"

text \<open>One round of the loop over the desired mappers: whether the server was changed, or the error.\<close>

definition applyMapper ::
    "'w kc \<Rightarrow> string \<Rightarrow> string \<Rightarrow> json gomap gomap \<Rightarrow> string \<Rightarrow> IdentityProviderMapper \<Rightarrow> 'w \<Rightarrow>
     (bool \<times> goerr option) \<times> 'w" where
  "applyMapper kc realm idpAlias currentByName name mapper w =
     (case toJSONMap (idpMapperJSON mapper) of
        Inl e \<Rightarrow> ((False, Some e), w)
      | Inr encoded \<Rightarrow>
          let payload = mput ''identityProviderAlias'' (JStr idpAlias) encoded;
              create = (case CreateIdentityProviderMapper kc realm idpAlias payload w of
                          (err, w1) \<Rightarrow> ((err = None, err), w1))
          in case map_of currentByName name of
               None \<Rightarrow> create
             | Some existing \<Rightarrow>
                 (case any_str (map_of existing ''id'') of
                    None \<Rightarrow> create
                  | Some ident \<Rightarrow>
                      if mappersDiffer existing payload then
                        (case UpdateIdentityProviderMapper kc realm idpAlias ident payload w of
                           (err, w1) \<Rightarrow> ((err = None, err), w1))
                      else ((False, None), w)))"

fun applyMappers ::
    "'w kc \<Rightarrow> string \<Rightarrow> string \<Rightarrow> json gomap gomap \<Rightarrow> IdentityProviderMapper gomap \<Rightarrow> bool \<Rightarrow> 'w \<Rightarrow>
     (bool \<times> goerr option) \<times> 'w" where
  "applyMappers kc realm idpAlias currentByName [] changed w = ((changed, None), w)"
| "applyMappers kc realm idpAlias currentByName ((name, mapper) # rest) changed w =
     (case applyMapper kc realm idpAlias currentByName name mapper w of
        ((wrote, Some e), w1) \<Rightarrow> ((changed, Some e), w1)
      | ((wrote, None), w1) \<Rightarrow> applyMappers kc realm idpAlias currentByName rest (changed \<or> wrote) w1)"

fun deleteMappers ::
    "'w kc \<Rightarrow> string \<Rightarrow> string \<Rightarrow> IdentityProviderMapper gomap \<Rightarrow> json gomap gomap \<Rightarrow> bool \<Rightarrow> 'w \<Rightarrow>
     (bool \<times> goerr option) \<times> 'w" where
  "deleteMappers kc realm idpAlias desiredByName [] changed w = ((changed, None), w)"
| "deleteMappers kc realm idpAlias desiredByName ((name, rep) # rest) changed w =
     (case map_of desiredByName name of
        Some _ \<Rightarrow> deleteMappers kc realm idpAlias desiredByName rest changed w
      | None \<Rightarrow>
          (case any_str (map_of rep ''id'') of
             None \<Rightarrow> deleteMappers kc realm idpAlias desiredByName rest changed w
           | Some ident \<Rightarrow>
               (case DeleteIdentityProviderMapper kc realm idpAlias ident w of
                  (Some e, w1) \<Rightarrow> ((changed, Some e), w1)
                | (None, w1) \<Rightarrow> deleteMappers kc realm idpAlias desiredByName rest True w1)))"

definition mappers_by_name :: "IdentityProviderMapper list \<Rightarrow> IdentityProviderMapper gomap" where
  "mappers_by_name ms = mputs [] (map (\<lambda>m. (im_name m, m)) ms)"

definition enforceMappers ::
    "order \<Rightarrow> 'w kc \<Rightarrow> IdentityProviderSpec \<Rightarrow> 'w \<Rightarrow> (bool \<times> goerr option) \<times> 'w" where
  "enforceMappers rng kc s w =
     (let realm = IdentityProviderSpec_TargetRealm s; idpAlias = idp_alias s in
      case ListIdentityProviderMappers kc realm idpAlias w of
        (Inl e, w1) \<Rightarrow> ((False, Some e), w1)
      | (Inr current, w1) \<Rightarrow>
          let currentByName = index_by ''name'' current;
              desiredByName = mappers_by_name (mappers s)
          in case applyMappers kc realm idpAlias currentByName
                    (range_map rng ''mappers/apply'' desiredByName) False w1 of
               (r, w2) \<Rightarrow>
                 (case snd r of
                    Some e \<Rightarrow> (r, w2)
                  | None \<Rightarrow>
                      deleteMappers kc realm idpAlias desiredByName
                        (range_map rng ''mappers/delete'' currentByName) (fst r) w2))"

definition IdentityProviderDriver_PostApply ::
    "order \<Rightarrow> 'w kc \<Rightarrow> ('k, IdentityProviderSpec) kube \<Rightarrow> IdentityProviderSpec object \<Rightarrow> json gomap \<Rightarrow> 'k \<Rightarrow>
     'w \<Rightarrow> (bool \<times> goerr option \<times> IdentityProviderSpec object \<times> 'k) \<times> 'w" where
  "IdentityProviderDriver_PostApply rng kc K obj remote k w =
     (case enforceMappers rng kc (obj_spec obj) w of
        (r, w1) \<Rightarrow> ((fst r, snd r, obj, k), w1))"

definition IdentityProviderDriver_Protected :: "IdentityProviderSpec object \<Rightarrow> msg option" where
  "IdentityProviderDriver_Protected obj = None"

definition IdentityProviderDriver :: "order \<Rightarrow> ('w, 'k, IdentityProviderSpec) driver" where
  "IdentityProviderDriver rng =
     \<lparr>d_Get = IdentityProviderDriver_Get, d_ID = IdentityProviderDriver_ID,
      d_Create = IdentityProviderDriver_Create, d_Update = IdentityProviderDriver_Update,
      d_Delete = IdentityProviderDriver_Delete, d_ManagedMarker = IdentityProviderDriver_ManagedMarker,
      d_IsManaged = IdentityProviderDriver_IsManaged,
      d_PreparePayload = IdentityProviderDriver_PreparePayload rng,
      d_PostApply = IdentityProviderDriver_PostApply rng,
      d_Protected = IdentityProviderDriver_Protected, d_Spec = IdentityProviderDriver_Spec,
      d_OperatorFields = IdentityProviderDriver_OperatorFields\<rparr>"

section \<open>The contract with the engine\<close>

lemma applyMapper_silent:
  "sends_when silent is_read (applyMapper (recorded kc) realm idpAlias cur name mapper)"
  unfolding applyMapper_def [abs_def] Let_def
  by (intro sends_when_split sends_when_return sends_when_never)
    (auto simp: silent_def split: prod.split)

text \<open>Once something was changed, the loops report a change or an error.\<close>

lemma applyMappers_loud [simp]: "\<not> silent (fst (applyMappers kc realm idpAlias cur ms True w))"
  by (induction kc realm idpAlias cur ms True w rule: applyMappers.induct)
    (auto split: prod.split option.split)

lemma deleteMappers_loud [simp]: "\<not> silent (fst (deleteMappers kc realm idpAlias des ms True w))"
  by (induction kc realm idpAlias des ms True w rule: deleteMappers.induct)
    (auto split: prod.split option.split)

lemma applyMappers_silent:
  "sends_when silent is_read (applyMappers (recorded kc) realm idpAlias cur ms False)"
proof (induction ms)
  case (Cons p ms)
  obtain n m where p: "p = (n, m)" by (cases p)
  have "sends_when silent is_read (\<lambda>w. applyMappers (recorded kc) realm idpAlias cur ((n, m) # ms) False w)"
    unfolding applyMappers.simps
    by (rule sends_when_bind [OF applyMapper_silent]) (auto simp: Cons split: option.splits)
  then show ?case by (simp add: p)
qed (simp add: sends_when_return)

lemma deleteMappers_silent:
  "sends_when silent is_read (deleteMappers (recorded kc) realm idpAlias des ms False)"
proof (induction ms)
  case (Cons p ms)
  obtain n m where p: "p = (n, m)" by (cases p)
  have "sends_when silent is_read (\<lambda>w. deleteMappers (recorded kc) realm idpAlias des ((n, m) # ms) False w)"
    unfolding deleteMappers.simps
    by (intro sends_when_split Cons sends_when_never) (auto split: prod.split option.split)
  then show ?case by (simp add: p)
qed (simp add: sends_when_return)

lemma mappers_silent: "sends_when silent is_read (enforceMappers rng (recorded kc) s)"
proof -
  have read: "sends_only is_read (ListIdentityProviderMappers (recorded kc) realm idpAlias)" for realm idpAlias
    unfolding ListIdentityProviderMappers_def by (intro sends) simp
  have loops: "sends_when silent is_read (\<lambda>w1.
      case applyMappers (recorded kc) realm idpAlias cur ms False w1 of
        (r, w2) \<Rightarrow>
          (case snd r of
             Some e \<Rightarrow> (r, w2)
           | None \<Rightarrow> deleteMappers (recorded kc) realm idpAlias des ms' (fst r) w2))"
    for realm idpAlias cur ms des ms'
    by (rule sends_when_bind [OF applyMappers_silent])
      (auto simp: deleteMappers_silent split: option.splits)
  show ?thesis
    unfolding enforceMappers_def [abs_def] Let_def
    by (intro sends_when_after [OF read] sends_when_split(1) sends_when_return loops)
qed

lemma idp_post_quiet: "sends_when quiet is_read (IdentityProviderDriver_PostApply rng (recorded kc) K obj remote k)"
  unfolding IdentityProviderDriver_PostApply_def [abs_def]
  by (intro sends_when_bind [OF mappers_silent] sends_when_return) (auto simp: quiet_def silent_def)

lemma idp_post_keeps:
  "same_metadata obj (fst (snd (snd (fst (IdentityProviderDriver_PostApply rng kc K obj remote k w)))))"
  by (simp add: IdentityProviderDriver_PostApply_def same_metadata_def split_beta)

interpretation idp: engine_driver "IdentityProviderDriver rng"
  by unfold_locales
    (simp_all add: IdentityProviderDriver_def IdentityProviderDriver_Get_def Let_def reads idp_post_quiet
      idp_post_keeps)

end
