(* ===== verification/Group_Driver.thy ===== *)
theory Group_Driver
  imports Role_Driver Client_Driver
begin

text \<open>
  Groups and their role mappings, the \<open>GroupDriver\<close> of
  \<open>internal/controller/driver_role_idp_group.go\<close>.
\<close>

definition GroupDriver_Spec :: "GroupSpec object \<Rightarrow> SpecView" where
  "GroupDriver_Spec obj =
     (let s = obj_spec obj in
      \<lparr>sv_ConnectionName = GroupSpec_ConnectionName s, sv_TargetRealm = GroupSpec_TargetRealm s,
       sv_Adoption = GroupSpec_Adoption s, sv_Deletion = GroupSpec_Deletion s, sv_JSON = GroupSpec_JSON s\<rparr>)"

definition GroupDriver_OperatorFields :: "string list" where
  "GroupDriver_OperatorFields = [''keycloakRef'', ''adoptionPolicy'', ''deletionPolicy'', ''realm'']"

definition GroupDriver_Get :: "'w kc \<Rightarrow> GroupSpec object \<Rightarrow> 'w \<Rightarrow> (goerr + json gomap) \<times> 'w" where
  "GroupDriver_Get kc obj =
     (let s = obj_spec obj in FindGroup kc (GroupSpec_TargetRealm s) (group_name s))"

definition GroupDriver_ID :: "json gomap \<Rightarrow> string" where
  "GroupDriver_ID remote = str_or_empty (map_of remote ''id'')"

definition GroupDriver_Create :: "'w kc \<Rightarrow> GroupSpec object \<Rightarrow> json gomap \<Rightarrow> 'w \<Rightarrow> goerr option \<times> 'w" where
  "GroupDriver_Create kc obj payload = CreateGroup kc (GroupSpec_TargetRealm (obj_spec obj)) payload"

definition GroupDriver_Update ::
    "'w kc \<Rightarrow> GroupSpec object \<Rightarrow> string \<Rightarrow> json gomap \<Rightarrow> 'w \<Rightarrow> goerr option \<times> 'w" where
  "GroupDriver_Update kc obj ident payload =
     UpdateGroup kc (GroupSpec_TargetRealm (obj_spec obj)) ident payload"

definition GroupDriver_Delete :: "'w kc \<Rightarrow> GroupSpec object \<Rightarrow> 'w \<Rightarrow> goerr option \<times> 'w" where
  "GroupDriver_Delete kc obj w =
     (let s = obj_spec obj
      in delete_found (DeleteGroup kc (GroupSpec_TargetRealm s))
           (FindGroup kc (GroupSpec_TargetRealm s) (group_name s) w))"

definition GroupDriver_ManagedMarker :: "json gomap \<Rightarrow> json gomap" where
  "GroupDriver_ManagedMarker payload = stampSliceAttribute payload ManagedAnnotation ManagedValue"

definition GroupDriver_IsManaged :: "json gomap \<Rightarrow> bool" where
  "GroupDriver_IsManaged remote = managedBySliceAttribute remote"

definition GroupDriver_PreparePayload ::
    "('k, GroupSpec) kube \<Rightarrow> GroupSpec object \<Rightarrow> 'k \<Rightarrow> json gomap \<Rightarrow> goerr + json gomap" where
  "GroupDriver_PreparePayload K obj k payload = Inr payload"

section \<open>Role mappings\<close>

definition clientUUID :: "'w kc \<Rightarrow> string \<Rightarrow> string \<Rightarrow> 'w \<Rightarrow> (goerr + string) \<times> 'w" where
  "clientUUID kc realm clientID w =
     (case FindClient kc realm clientID w of
        (Inl e, w1) \<Rightarrow> (Inl (Wrapf [''client %q: %w'', clientID] e), w1)
      | (Inr remote, w1) \<Rightarrow> (Inr (str_or_empty (map_of remote ''id'')), w1))"

definition applyRoleDiff ::
    "order \<Rightarrow> string \<Rightarrow> json gomap list \<Rightarrow> json gomap list \<Rightarrow>
     (json gomap list \<Rightarrow> 'w \<Rightarrow> goerr option \<times> 'w) \<Rightarrow> (json gomap list \<Rightarrow> 'w \<Rightarrow> goerr option \<times> 'w) \<Rightarrow>
     'w \<Rightarrow> (bool \<times> bool \<times> goerr option) \<times> 'w" where
  "applyRoleDiff rng site desired current add remove w =
     (case diff_by_id rng site desired current of
        (toAdd, toRemove) \<Rightarrow>
          if toAdd = [] \<and> toRemove = [] then ((False, False, None), w)
          else
            case (if toAdd \<noteq> [] then add toAdd w else (None, w)) of
              (Some e, w1) \<Rightarrow> ((False, False, Some e), w1)
            | (None, w1) \<Rightarrow>
                (case (if toRemove \<noteq> [] then remove toRemove w1 else (None, w1)) of
                   (Some e, w2) \<Rightarrow> ((True, False, Some e), w2)
                 | (None, w2) \<Rightarrow> ((True, True, None), w2)))"

text \<open>The elements of a decoded list that are objects.\<close>

definition objects_of :: "json option \<Rightarrow> json gomap list" where
  "objects_of v =
     (case any_list v of
        None \<Rightarrow> []
      | Some l \<Rightarrow> List.map_filter (\<lambda>rep. any_map (Some rep)) l)"

record clientMapping =
  cm_uuid :: string
  cm_mappings :: "json gomap list"

text \<open>The current client mappings by client ID; of two entries for a client the later one stays.\<close>

definition current_by_client :: "order \<Rightarrow> json gomap \<Rightarrow> clientMapping gomap" where
  "current_by_client rng mappings =
     (case any_map (map_of mappings ''clientMappings'') of
        None \<Rightarrow> []
      | Some entries \<Rightarrow>
          mputs [] (List.map_filter
            (\<lambda>(uuid, entry).
               case any_map (Some entry) of
                 None \<Rightarrow> None
               | Some m \<Rightarrow>
                   Some (str_or_empty (map_of m ''client''),
                         \<lparr>cm_uuid = uuid, cm_mappings = objects_of (map_of m ''mappings'')\<rparr>))
            (range_map rng ''clientMappings'' entries)))"

fun dropClients ::
    "'w kc \<Rightarrow> string \<Rightarrow> string \<Rightarrow> string list gomap \<Rightarrow> clientMapping gomap \<Rightarrow> bool \<Rightarrow> 'w \<Rightarrow>
     (bool \<times> goerr option) \<times> 'w" where
  "dropClients kc realm groupID desired [] changed w = ((changed, None), w)"
| "dropClients kc realm groupID desired ((clientID, mapping) # rest) changed w =
     (if map_of desired clientID = None \<and> cm_mappings mapping \<noteq> [] then
        (case RemoveGroupClientRoles kc realm groupID (cm_uuid mapping) (cm_mappings mapping) w of
           (Some e, w1) \<Rightarrow> ((changed, Some e), w1)
         | (None, w1) \<Rightarrow> dropClients kc realm groupID desired rest True w1)
      else dropClients kc realm groupID desired rest changed w)"

fun applyClients ::
    "order \<Rightarrow> 'w kc \<Rightarrow> string \<Rightarrow> string \<Rightarrow> clientMapping gomap \<Rightarrow> string list gomap \<Rightarrow> bool \<Rightarrow> 'w \<Rightarrow>
     (bool \<times> goerr option) \<times> 'w" where
  "applyClients rng kc realm groupID current [] changed w = ((changed, None), w)"
| "applyClients rng kc realm groupID current ((clientID, roles) # rest) changed w =
     (case resolveClientRoles kc realm clientID roles w of
        (Inl e, w1) \<Rightarrow> ((changed, Some e), w1)
      | (Inr desiredRoles, w1) \<Rightarrow>
          (case clientUUID kc realm clientID w1 of
             (Inl e, w2) \<Rightarrow> ((changed, Some e), w2)
           | (Inr uuid, w2) \<Rightarrow>
               (case applyRoleDiff rng (''client/'' @ clientID) desiredRoles
                       (case map_of current clientID of None \<Rightarrow> [] | Some mapping \<Rightarrow> cm_mappings mapping)
                       (AddGroupClientRoles kc realm groupID uuid)
                       (RemoveGroupClientRoles kc realm groupID uuid) w2 of
                  ((added, removed, Some e), w3) \<Rightarrow> ((changed, Some e), w3)
                | ((added, removed, None), w3) \<Rightarrow>
                    applyClients rng kc realm groupID current rest (changed \<or> added \<or> removed) w3)))"

definition enforceRealmMappings ::
    "order \<Rightarrow> 'w kc \<Rightarrow> GroupSpec \<Rightarrow> string \<Rightarrow> json gomap \<Rightarrow> 'w \<Rightarrow> (bool \<times> goerr option) \<times> 'w" where
  "enforceRealmMappings rng kc s groupID mappings w =
     (case group_realmRoles s of
        None \<Rightarrow> ((False, None), w)
      | Some names \<Rightarrow>
          (case resolveRealmRoles kc (GroupSpec_TargetRealm s) names w of
             (Inl e, w1) \<Rightarrow> ((False, Some e), w1)
           | (Inr desired, w1) \<Rightarrow>
               (case applyRoleDiff rng ''realm'' desired (objects_of (map_of mappings ''realmMappings''))
                       (AddGroupRealmRoles kc (GroupSpec_TargetRealm s) groupID)
                       (RemoveGroupRealmRoles kc (GroupSpec_TargetRealm s) groupID) w1 of
                  ((added, removed, Some e), w2) \<Rightarrow> ((False, Some e), w2)
                | ((added, removed, None), w2) \<Rightarrow> ((added \<or> removed, None), w2))))"

definition enforceClientMappings ::
    "order \<Rightarrow> 'w kc \<Rightarrow> GroupSpec \<Rightarrow> string \<Rightarrow> json gomap \<Rightarrow> bool \<Rightarrow> 'w \<Rightarrow> (bool \<times> goerr option) \<times> 'w" where
  "enforceClientMappings rng kc s groupID mappings changed w =
     (case group_clientRoles s of
        None \<Rightarrow> ((changed, None), w)
      | Some desired \<Rightarrow>
          let current = current_by_client rng mappings in
          case dropClients kc (GroupSpec_TargetRealm s) groupID desired
                 (range_map rng ''currentByClient'' current) changed w of
            (r, w1) \<Rightarrow>
              (case snd r of
                 Some e \<Rightarrow> (r, w1)
               | None \<Rightarrow>
                   applyClients rng kc (GroupSpec_TargetRealm s) groupID current
                     (range_map rng ''clientRoles'' desired) (fst r) w1))"

definition enforceMappings ::
    "order \<Rightarrow> 'w kc \<Rightarrow> GroupSpec \<Rightarrow> json gomap \<Rightarrow> 'w \<Rightarrow> (bool \<times> goerr option) \<times> 'w" where
  "enforceMappings rng kc s remote w =
     (let groupID = str_or_empty (map_of remote ''id'') in
      if groupID = [] then ((False, Some (Errorf [''server representation has no id''])), w)
      else
        case GetGroupRoleMappings kc (GroupSpec_TargetRealm s) groupID w of
          (Inl e, w1) \<Rightarrow> ((False, Some e), w1)
        | (Inr mappings, w1) \<Rightarrow>
            (case enforceRealmMappings rng kc s groupID mappings w1 of
               (r, w2) \<Rightarrow>
                 (case snd r of
                    Some e \<Rightarrow> (r, w2)
                  | None \<Rightarrow> enforceClientMappings rng kc s groupID mappings (fst r) w2)))"

definition GroupDriver_PostApply ::
    "order \<Rightarrow> 'w kc \<Rightarrow> ('k, GroupSpec) kube \<Rightarrow> GroupSpec object \<Rightarrow> json gomap \<Rightarrow> 'k \<Rightarrow> 'w \<Rightarrow>
     (bool \<times> goerr option \<times> GroupSpec object \<times> 'k) \<times> 'w" where
  "GroupDriver_PostApply rng kc K obj remote k w =
     (case enforceMappings rng kc (obj_spec obj) remote w of
        (r, w1) \<Rightarrow> ((fst r, snd r, obj, k), w1))"

definition GroupDriver_Protected :: "GroupSpec object \<Rightarrow> msg option" where
  "GroupDriver_Protected obj = None"

definition GroupDriver :: "order \<Rightarrow> ('w, 'k, GroupSpec) driver" where
  "GroupDriver rng =
     \<lparr>d_Get = GroupDriver_Get, d_ID = GroupDriver_ID, d_Create = GroupDriver_Create,
      d_Update = GroupDriver_Update, d_Delete = GroupDriver_Delete,
      d_ManagedMarker = GroupDriver_ManagedMarker, d_IsManaged = GroupDriver_IsManaged,
      d_PreparePayload = GroupDriver_PreparePayload, d_PostApply = GroupDriver_PostApply rng,
      d_Protected = GroupDriver_Protected, d_Spec = GroupDriver_Spec,
      d_OperatorFields = GroupDriver_OperatorFields\<rparr>"

section \<open>The contract with the engine\<close>

definition idle :: "bool \<times> bool \<times> goerr option \<Rightarrow> bool" where
  "idle r \<longleftrightarrow> \<not> fst r \<and> \<not> fst (snd r) \<and> snd (snd r) = None"

lemma applyRoleDiff_idle: "sends_when idle is_read (applyRoleDiff rng site desired current add remove)"
  unfolding applyRoleDiff_def [abs_def]
  by (intro sends_when_pair sends_when_split(3) sends_when_return sends_when_never)
    (auto simp: idle_def split: prod.split option.split)

lemma clientUUID_reads [sends]: "sends_only is_read (clientUUID (recorded kc) realm clientID)"
  unfolding clientUUID_def [abs_def] by (intro sends)

lemma dropClients_loud [simp]: "\<not> silent (fst (dropClients kc realm gid desired ms True w))"
  by (induction kc realm gid desired ms True w rule: dropClients.induct)
    (auto split: prod.split option.split)

lemma applyClients_loud [simp]: "\<not> silent (fst (applyClients rng kc realm gid cur ms True w))"
  by (induction rng kc realm gid cur ms True w rule: applyClients.induct)
    (auto split: prod.split option.split sum.split)

lemma dropClients_silent:
  "sends_when silent is_read (dropClients (recorded kc) realm gid desired ms False)"
proof (induction ms)
  case (Cons p ms)
  obtain c m where p: "p = (c, m)" by (cases p)
  have "sends_when silent is_read (\<lambda>w. dropClients (recorded kc) realm gid desired ((c, m) # ms) False w)"
    unfolding dropClients.simps
    by (intro sends_when_split(3) Cons sends_when_never) (auto split: prod.split option.split)
  then show ?case by (simp add: p)
qed (simp add: sends_when_return)

lemma applyClients_silent:
  "sends_when silent is_read (applyClients rng (recorded kc) realm gid cur ms False)"
proof (induction ms)
  case (Cons p ms)
  obtain c roles where p: "p = (c, roles)" by (cases p)
  have "sends_when silent is_read (\<lambda>w. applyClients rng (recorded kc) realm gid cur ((c, roles) # ms) False w)"
    unfolding applyClients.simps
    apply (intro sends_when_after [OF resolve_reads(3)] sends_when_after [OF clientUUID_reads]
        sends_when_split(1) sends_when_return)
    by (rule sends_when_bind [OF applyRoleDiff_idle]) (auto simp: idle_def Cons split: option.splits)
  then show ?case by (simp add: p)
qed (simp add: sends_when_return)

lemma realm_mappings_silent:
  "sends_when silent is_read (enforceRealmMappings rng (recorded kc) s gid mappings)"
  unfolding enforceRealmMappings_def [abs_def]
  apply (intro sends_when_split(2) sends_when_return sends_when_after [OF resolve_reads(1)] sends_when_split(1))
  by (rule sends_when_bind [OF applyRoleDiff_idle])
    (auto simp: idle_def sends_when_return split: option.splits)

lemma client_mappings_silent:
  "sends_when silent is_read (enforceClientMappings rng (recorded kc) s gid mappings False)"
  unfolding enforceClientMappings_def [abs_def] Let_def
  apply (intro sends_when_split(2) sends_when_return)
  by (rule sends_when_bind [OF dropClients_silent]) (auto simp: applyClients_silent split: option.splits)

lemma client_mappings_loud [simp]: "\<not> silent (fst (enforceClientMappings rng kc s gid mappings True w))"
proof (cases "group_clientRoles s")
  case (Some desired)
  let ?drop = "dropClients kc (GroupSpec_TargetRealm s) gid desired
    (range_map rng ''currentByClient'' (current_by_client rng mappings)) True w"
  obtain c e w1 where drop: "?drop = ((c, e), w1)" by (metis prod.exhaust)
  moreover have "\<not> silent (fst ?drop)" by simp
  ultimately have "c \<or> e \<noteq> None" by simp
  with Some drop show ?thesis
    by (cases e; cases c) (simp_all add: enforceClientMappings_def Let_def)
qed (simp add: enforceClientMappings_def)

lemma mappings_silent: "sends_when silent is_read (enforceMappings rng (recorded kc) s remote)"
proof -
  have read: "sends_only is_read (GetGroupRoleMappings (recorded kc) realm gid)" for realm gid
    unfolding GetGroupRoleMappings_def by (intro sends) simp
  have parts: "sends_when silent is_read (\<lambda>w1.
      case enforceRealmMappings rng (recorded kc) s gid mappings w1 of
        (r, w2) \<Rightarrow>
          (case snd r of
             Some e \<Rightarrow> (r, w2)
           | None \<Rightarrow> enforceClientMappings rng (recorded kc) s gid mappings (fst r) w2))"
    for gid mappings
    by (rule sends_when_bind [OF realm_mappings_silent])
      (auto simp: client_mappings_silent split: option.splits)
  show ?thesis
    unfolding enforceMappings_def [abs_def] Let_def
    by (intro sends_when_split(3) sends_when_return sends_when_after [OF read] sends_when_split(1) parts)
qed

lemma group_post_quiet: "sends_when quiet is_read (GroupDriver_PostApply rng (recorded kc) K obj remote k)"
  unfolding GroupDriver_PostApply_def [abs_def]
  by (intro sends_when_bind [OF mappings_silent] sends_when_return) (auto simp: quiet_def silent_def)

lemma group_post_keeps: "same_metadata obj (fst (snd (snd (fst (GroupDriver_PostApply rng kc K obj remote k w)))))"
  by (simp add: GroupDriver_PostApply_def same_metadata_def split_beta)

interpretation group: engine_driver "GroupDriver rng"
  by unfold_locales
    (simp_all add: GroupDriver_def GroupDriver_Get_def Let_def reads group_post_quiet group_post_keeps)

interpretation group_marks: marking_driver "GroupDriver rng"
  by unfold_locales
    (auto simp: GroupDriver_def GroupDriver_ManagedMarker_def GroupDriver_IsManaged_def GroupDriver_PreparePayload_def
      slice_marker inject_marker split: option.splits sum.splits)

end
