(* ===== verification/Controllers.thy ===== *)
theory Controllers
  imports Provider Realm_Driver Client_Driver Role_Driver Idp_Driver Group_Driver
begin

text \<open>
  The controllers and how \<open>cmd/main.go\<close> wires them: the provider as the engine uses it, the
  six reconcilers of \<open>internal/controller/*_controller.go\<close>, the connection reconciler
  (\<open>keycloakconnection_controller.go\<close>) and the watch list of namespaces.

  The world of the operator's HTTP side is \<open>netw\<close>: the provider with its store of clients,
  the wire and the metrics emitted by requests. A client in use is a pointer into the store;
  each call runs \<open>Do\<close> on that client and writes it back, so a token obtained through one
  reconciliation is there for the next.
\<close>

section \<open>The provider behind the engine\<close>

record 'n netw =
  nw_provider :: Provider
  nw_wire :: 'n
  nw_mlog :: "metric list"

definition client_run :: "('n kcstate \<Rightarrow> 'a \<times> 'n kcstate) \<Rightarrow> nat \<Rightarrow> 'n netw \<Rightarrow> 'a \<times> 'n netw" where
  "client_run f kc w =
     (let p = nw_provider w in
      case f \<lparr>cli = clients p ! kc, wire = nw_wire w, mlog = nw_mlog w\<rparr> of
        (r, s) \<Rightarrow> (r, w\<lparr>nw_provider := p\<lparr>clients := (clients p)[kc := cli s]\<rparr>, nw_wire := wire s, nw_mlog := mlog s\<rparr>))"

definition client_at :: "'n http \<Rightarrow> nat \<Rightarrow> 'n netw kc" where
  "client_at H kc meth path body target = client_run (Do H meth path body target) kc"

definition provider_For :: "'n http \<Rightarrow> 'k reader \<Rightarrow> 'k \<Rightarrow> string \<Rightarrow> string \<Rightarrow> 'n netw \<Rightarrow>
    (goerr + 'n netw kc) \<times> 'n netw" where
  "provider_For H rdr k ns name w =
     (case For rdr k ns name (nw_provider w) of
        (Inl e, p) \<Rightarrow> (Inl e, w\<lparr>nw_provider := p\<rparr>)
      | (Inr kc, p) \<Rightarrow> (Inr (client_at H kc), w\<lparr>nw_provider := p\<rparr>))"

section \<open>The resource controllers\<close>

text \<open>The common shape: fetch the object, ignore its absence, run the engine with the driver.\<close>

definition reconcile_request :: "('w, 'k, 's) engine \<Rightarrow> ('w, 'k, 's) driver \<Rightarrow>
    ('k \<Rightarrow> string \<Rightarrow> string \<Rightarrow> goerr + 's object) \<Rightarrow> string \<Rightarrow> string \<Rightarrow> ('w, 'k) eng \<Rightarrow> result \<times> ('w, 'k) eng" where
  "reconcile_request E drv get ns name st =
     (case get (cluster st) ns name of
        Inl e \<Rightarrow> (if k_isNotFound (e_client E) e then Done else Failed e, st)
      | Inr obj \<Rightarrow> (case Reconcile E drv obj st of (res, obj', st') \<Rightarrow> (res, st')))"

definition RealmReconciler_Reconcile :: "order \<Rightarrow> ('w, 'k, RealmSpec) engine \<Rightarrow>
    ('k \<Rightarrow> string \<Rightarrow> string \<Rightarrow> goerr + RealmSpec object) \<Rightarrow> string \<Rightarrow> string \<Rightarrow> ('w, 'k) eng \<Rightarrow> result \<times> ('w, 'k) eng" where
  "RealmReconciler_Reconcile rng E = reconcile_request E (RealmDriver rng)"

definition ClientReconciler_Reconcile :: "order \<Rightarrow> ('w, 'k, ClientSpec) engine \<Rightarrow>
    ('k \<Rightarrow> string \<Rightarrow> string \<Rightarrow> goerr + ClientSpec object) \<Rightarrow> string \<Rightarrow> string \<Rightarrow> ('w, 'k) eng \<Rightarrow> result \<times> ('w, 'k) eng" where
  "ClientReconciler_Reconcile rng E = reconcile_request E (ClientDriver rng)"

definition ClientScopeReconciler_Reconcile :: "('w, 'k, ClientScopeSpec) engine \<Rightarrow>
    ('k \<Rightarrow> string \<Rightarrow> string \<Rightarrow> goerr + ClientScopeSpec object) \<Rightarrow> string \<Rightarrow> string \<Rightarrow> ('w, 'k) eng \<Rightarrow>
    result \<times> ('w, 'k) eng" where
  "ClientScopeReconciler_Reconcile E = reconcile_request E ClientScopeDriver"

definition RealmRoleReconciler_Reconcile :: "order \<Rightarrow> ('w, 'k, RealmRoleSpec) engine \<Rightarrow>
    ('k \<Rightarrow> string \<Rightarrow> string \<Rightarrow> goerr + RealmRoleSpec object) \<Rightarrow> string \<Rightarrow> string \<Rightarrow> ('w, 'k) eng \<Rightarrow> result \<times> ('w, 'k) eng" where
  "RealmRoleReconciler_Reconcile rng E = reconcile_request E (RealmRoleDriver rng)"

definition IdentityProviderReconciler_Reconcile :: "order \<Rightarrow> ('w, 'k, IdentityProviderSpec) engine \<Rightarrow>
    ('k \<Rightarrow> string \<Rightarrow> string \<Rightarrow> goerr + IdentityProviderSpec object) \<Rightarrow> string \<Rightarrow> string \<Rightarrow> ('w, 'k) eng \<Rightarrow>
    result \<times> ('w, 'k) eng" where
  "IdentityProviderReconciler_Reconcile rng E = reconcile_request E (IdentityProviderDriver rng)"

definition GroupReconciler_Reconcile :: "order \<Rightarrow> ('w, 'k, GroupSpec) engine \<Rightarrow>
    ('k \<Rightarrow> string \<Rightarrow> string \<Rightarrow> goerr + GroupSpec object) \<Rightarrow> string \<Rightarrow> string \<Rightarrow> ('w, 'k) eng \<Rightarrow> result \<times> ('w, 'k) eng" where
  "GroupReconciler_Reconcile rng E = reconcile_request E (GroupDriver rng)"

section \<open>The connection controller\<close>

definition connectionRetryInterval :: duration where "connectionRetryInterval = 5 * Minute"

definition serverVersion :: "json gomap \<Rightarrow> string" where
  "serverVersion info =
     (case any_map (map_of info ''systemInfo'') of
        None \<Rightarrow> []
      | Some systemInfo \<Rightarrow> str_or_empty (map_of systemInfo ''version''))"

text \<open>What the controller uses of the cluster beside the reader.\<close>

record 'k conn_api =
  ca_reader :: "'k reader"
  ca_statusPatch :: "'k \<Rightarrow> connection \<Rightarrow> connection \<Rightarrow> goerr option \<times> 'k"
  ca_setCondition :: "condition list \<Rightarrow> condition \<Rightarrow> condition list"

definition setConnectionCondition :: "'k conn_api \<Rightarrow> string \<Rightarrow> condStatus \<Rightarrow> reason \<Rightarrow> msg \<Rightarrow> int \<Rightarrow> connection \<Rightarrow> connection" where
  "setConnectionCondition A condType status reason message generation conn =
     conn\<lparr>conn_conditions := ca_setCondition A (conn_conditions conn)
       \<lparr>cond_type = condType, cond_status = status, cond_generation = generation, cond_reason = reason,
        cond_message = message\<rparr>\<rparr>"

record ('n, 'k) cstate =
  cs_net :: "'n netw"
  cs_cluster :: 'k
  cs_metrics :: "metric list"

definition unavailable :: "'k conn_api \<Rightarrow> string \<Rightarrow> string \<Rightarrow> reason \<Rightarrow> goerr \<Rightarrow> connection \<Rightarrow> connection \<Rightarrow>
    ('n, 'k) cstate \<Rightarrow> result \<times> connection \<times> ('n, 'k) cstate" where
  "unavailable A ns name reason e base conn st =
     (let conn' = setConnectionCondition A ConditionReady ConditionFalse reason (ErrMsg e) (conn_generation conn) conn
      in case ca_statusPatch A (cs_cluster st) base conn' of
           (_, k) \<Rightarrow> (RequeueAfter connectionRetry, conn',
                     st\<lparr>cs_cluster := k, cs_metrics := cs_metrics st @ [ConnectionUp ns name 0]\<rparr>))"

definition available :: "'k conn_api \<Rightarrow> string \<Rightarrow> string \<Rightarrow> string \<Rightarrow> connection \<Rightarrow> connection \<Rightarrow>
    ('n, 'k) cstate \<Rightarrow> result \<times> connection \<times> ('n, 'k) cstate" where
  "available A ns name version base conn st =
     (let conn1 = conn\<lparr>conn_serverVersion := version\<rparr>;
          st1 = st\<lparr>cs_metrics := cs_metrics st @ [ConnectionUp ns name 1, ServerInfoDelete ns name] @
                    (if version \<noteq> [] then [ServerInfoSet ns name version] else [])\<rparr>;
          conn2 = setConnectionCondition A ConditionReady ConditionTrue ReasonSucceeded
                    (Lit (''Connected to Keycloak '' @ version)) (conn_generation conn1) conn1
      in case ca_statusPatch A (cs_cluster st1) base conn2 of
           (Some e, k) \<Rightarrow>
             (if r_isNotFound (ca_reader A) e then RequeueAfter connectionRetryInterval else Failed e,
              conn2, st1\<lparr>cs_cluster := k\<rparr>)
         | (None, k) \<Rightarrow> (RequeueAfter connectionRetryInterval, conn2, st1\<lparr>cs_cluster := k\<rparr>))"

definition KeycloakConnectionReconciler_Reconcile :: "'n http \<Rightarrow> 'k conn_api \<Rightarrow> string \<Rightarrow> string \<Rightarrow>
    ('n, 'k) cstate \<Rightarrow> result \<times> connection option \<times> ('n, 'k) cstate" where
  "KeycloakConnectionReconciler_Reconcile H A ns name st =
     (case r_conn (ca_reader A) (cs_cluster st) ns name of
        Inl e \<Rightarrow> (if r_isNotFound (ca_reader A) e then Done else Failed e, None, st)
      | Inr conn \<Rightarrow>
          (case For (ca_reader A) (cs_cluster st) ns name (nw_provider (cs_net st)) of
             (Inl e, p) \<Rightarrow>
               (case unavailable A ns name ReasonConnectionUnavailable e conn conn
                       (st\<lparr>cs_net := (cs_net st)\<lparr>nw_provider := p\<rparr>\<rparr>) of
                  (res, conn', st') \<Rightarrow> (res, Some conn', st'))
           | (Inr kc, p) \<Rightarrow>
               (case client_run (Token H) kc ((cs_net st)\<lparr>nw_provider := p\<rparr>) of
                  (Inl e, w) \<Rightarrow>
                    (case unavailable A ns name
                            (if errors_Is e ErrAuth then ReasonConnectionUnavailable else ReasonRetrying)
                            e conn conn (st\<lparr>cs_net := w\<rparr>) of
                       (res, conn', st') \<Rightarrow> (res, Some conn', st'))
                | (Inr token, w) \<Rightarrow>
                    (case ServerInfo (client_at H kc) w of
                       (info, w') \<Rightarrow>
                         (case available A ns name (case info of Inl _ \<Rightarrow> [] | Inr m \<Rightarrow> serverVersion m)
                                 conn conn (st\<lparr>cs_net := w'\<rparr>) of
                            (res, conn', st') \<Rightarrow> (res, Some conn', st'))))))"

section \<open>The watch list\<close>

text \<open>\<open>strings.TrimSpace\<close> on ASCII text.\<close>

definition is_space :: "char \<Rightarrow> bool" where
  "is_space c \<longleftrightarrow> (let n = (of_char c :: nat) in n = 32 \<or> 9 \<le> n \<and> n \<le> 13)"

definition TrimSpace :: "string \<Rightarrow> string" where
  "TrimSpace s = rev (dropWhile is_space (rev (dropWhile is_space s)))"

text \<open>The namespaces the cache is restricted to; \<open>None\<close> is every namespace.\<close>

definition watchNamespaces :: "string \<Rightarrow> string list option" where
  "watchNamespaces list =
     (if list = [] then None
      else
        let namespaces = keyset (filter (\<lambda>ns. ns \<noteq> []) (map TrimSpace (Split (CHR '','') list)))
        in if namespaces \<noteq> [] then Some namespaces else None)"

section \<open>Properties\<close>

lemma TrimSpace_ends:
  assumes "TrimSpace s \<noteq> []"
  shows "\<not> is_space (hd (TrimSpace s)) \<and> \<not> is_space (last (TrimSpace s)) \<and> set (TrimSpace s) \<subseteq> set s"
proof -
  let ?t = "dropWhile is_space s"
  obtain c r where r: "dropWhile is_space (rev ?t) = c # r"
    using assms by (cases "dropWhile is_space (rev ?t)") (auto simp: TrimSpace_def)
  then have ends: "\<not> is_space c" by (metis hd_dropWhile list.distinct(1) list.sel(1))
  have "rev ?t = takeWhile is_space (rev ?t) @ c # r" using r takeWhile_dropWhile_id by metis
  then have t: "?t = rev (c # r) @ rev (takeWhile is_space (rev ?t))"
    by (metis rev_append rev_rev_ident)
  then have "hd ?t = hd (rev (c # r))" by (metis Nil_is_rev_conv hd_append2 list.distinct(1))
  moreover have "?t \<noteq> []" using t by (metis Nil_is_append_conv Nil_is_rev_conv list.distinct(1))
  moreover from this have "\<not> is_space (hd ?t)" by (rule hd_dropWhile)
  moreover have trim: "TrimSpace s = rev (c # r)" unfolding TrimSpace_def r ..
  ultimately have "\<not> is_space (hd (TrimSpace s))" by metis
  moreover have "set (TrimSpace s) \<subseteq> set s"
    unfolding TrimSpace_def by (auto dest!: set_dropWhileD)
  moreover have "last (TrimSpace s) = c" by (simp add: trim)
  ultimately show ?thesis using ends by metis
qed

text \<open>
  The watch list is parsed exactly: the cache is restricted to the distinct trimmed,
  non-empty segments of the flag, none of which contains a comma or starts or ends with a
  space; when there is none (an empty flag, or only commas and blanks) every namespace is
  watched.
\<close>
lemma watch_list_exact:
  "case watchNamespaces list of
     None \<Rightarrow> \<forall>seg \<in> set (Split (CHR '','') list). TrimSpace seg = []
   | Some nss \<Rightarrow>
       nss \<noteq> [] \<and> distinct nss \<and> set nss = TrimSpace ` set (Split (CHR '','') list) - {[]} \<and>
       (\<forall>ns \<in> set nss. CHR '','' \<notin> set ns \<and> \<not> is_space (hd ns) \<and> \<not> is_space (last ns))"
proof -
  let ?ns = "filter (\<lambda>ns. ns \<noteq> []) (map TrimSpace (Split (CHR '','') list))"
  have ns: "set (keyset ?ns) = TrimSpace ` set (Split (CHR '','') list) - {[]}" by auto
  have ends: "CHR '','' \<notin> set (TrimSpace seg) \<and> \<not> is_space (hd (TrimSpace seg)) \<and> \<not> is_space (last (TrimSpace seg))"
    if "seg \<in> set (Split (CHR '','') list)" "TrimSpace seg \<noteq> []" for seg
    using TrimSpace_ends [OF that(2)] Split_no_sep [OF that(1)] by blast
  show ?thesis
  proof (cases "keyset ?ns = []")
    case True
    with ns have "watchNamespaces list = None" "\<forall>seg \<in> set (Split (CHR '','') list). TrimSpace seg = []"
      by (simp_all add: watchNamespaces_def Let_def) blast
    then show ?thesis by simp
  next
    case False
    then have "list \<noteq> []" by (auto simp: TrimSpace_def keyset_def)
    with False have "watchNamespaces list = Some (keyset ?ns)" by (simp add: watchNamespaces_def Let_def)
    with False ns ends show ?thesis by auto
  qed
qed

text \<open>
  C28: The gauge says whether a token could be obtained, and nothing else decides it: with a
  usable configuration the connection is reported up (Ready True, gauge 1, next check after
  five minutes unless the status patch fails) exactly when the token request succeeds,
  whatever \<open>/admin/serverinfo\<close> answers; otherwise it is down, is retried after 30 seconds,
  and nothing but the token request was sent.
\<close>
theorem connection_up_iff_token:
  assumes "r_conn (ca_reader A) (cs_cluster st) ns name = Inr conn"
    and "For (ca_reader A) (cs_cluster st) ns name (nw_provider (cs_net st)) = (Inr kc, p)"
    and "client_run (Token H) kc ((cs_net st)\<lparr>nw_provider := p\<rparr>) = (tok, w)"
  shows "case KeycloakConnectionReconciler_Reconcile H A ns name st of (res, conn', st') \<Rightarrow>
    (case tok of
       Inl e \<Rightarrow>
         res = RequeueAfter (30 * Second) \<and> cs_net st' = w \<and> cs_metrics st' = cs_metrics st @ [ConnectionUp ns name 0] \<and>
         conn' = Some (setConnectionCondition A ConditionReady ConditionFalse
           (if errors_Is e ErrAuth then ReasonConnectionUnavailable else ReasonRetrying) (ErrMsg e)
           (conn_generation conn) conn)
     | Inr token \<Rightarrow>
         (\<exists>version. conn' = Some (setConnectionCondition A ConditionReady ConditionTrue ReasonSucceeded
            (Lit (''Connected to Keycloak '' @ version)) (conn_generation conn) (conn\<lparr>conn_serverVersion := version\<rparr>)) \<and>
            cs_metrics st' = cs_metrics st @ [ConnectionUp ns name 1, ServerInfoDelete ns name] @
              (if version \<noteq> [] then [ServerInfoSet ns name version] else [])) \<and>
         (res = RequeueAfter (5 * Minute) \<or> (\<exists>e. res = Failed e \<and> \<not> r_isNotFound (ca_reader A) e)))"
proof (cases tok)
  case (Inl e)
  with assms show ?thesis
    by (simp add: KeycloakConnectionReconciler_Reconcile_def unavailable_def Let_def connectionRetry_def split: prod.split)
next
  case (Inr token)
  obtain info w' where "ServerInfo (client_at H kc) w = (info, w')" by (cases "ServerInfo (client_at H kc) w")
  with Inr assms show ?thesis
    by (auto simp: KeycloakConnectionReconciler_Reconcile_def available_def Let_def connectionRetryInterval_def
        setConnectionCondition_def split: prod.split option.split)
qed

text \<open>
  A token is shared by all reconcilers of a connection: once a call has obtained a token
  through the provider and it is still good for more than 30 seconds, the next call for the
  unchanged connection gets the same client and the same token without any request.
\<close>
lemma token_shared_through_provider:
  assumes "For rdr k ns name p = (Inr kc, p')" and "kc < length (clients p')"
    and "client_run (Token H) kc (w\<lparr>nw_provider := p'\<rparr>) = (Inr t, w1)"
    and "token_cached H \<lparr>cli = clients (nw_provider w1) ! kc, wire = nw_wire w1, mlog = nw_mlog w1\<rparr>"
  shows "For rdr k ns name (nw_provider w1) = (Inr kc, nw_provider w1) \<and>
    client_run (Token H) kc w1 = (Inr t, w1)"
proof -
  obtain s where tok: "Token H \<lparr>cli = clients p' ! kc, wire = nw_wire w, mlog = nw_mlog w\<rparr> = (Inr t, s)"
    and w1: "w1 = w\<lparr>nw_provider := p'\<lparr>clients := (clients p')[kc := cli s]\<rparr>, nw_wire := wire s, nw_mlog := mlog s\<rparr>"
    using assms(3) by (auto simp: client_run_def Let_def split: prod.splits)
  have at: "clients (nw_provider w1) ! kc = cli s" using assms(2) by (simp add: w1)
  have "accessToken (cli s) = t"
    using tok by (auto simp: Token_def Let_def split: if_splits prod.splits sum.splits option.splits)
  then have "Token H \<lparr>cli = cli s, wire = wire s, mlog = mlog s\<rparr> = (Inr t, \<lparr>cli = cli s, wire = wire s, mlog = mlog s\<rparr>)"
    using assms(4) at by (simp add: Token_def w1)
  then have "client_run (Token H) kc w1 = (Inr t, w1)"
    using assms(2) by (simp add: client_run_def w1)
  moreover have "byName (nw_provider w1) = byName p'" by (simp add: w1)
  then have "For rdr k ns name (nw_provider w1) = (Inr kc, nw_provider w1)"
    using assms(1) by (auto simp: For_def Let_def split: sum.splits option.splits if_splits)
  ultimately show ?thesis by blast
qed

section \<open>Instances\<close>

text \<open>A wire that grants every token request and answers everything else with 404.\<close>

definition granting :: "nat http" where
  "granting =
     \<lparr>send = (\<lambda>n q. (Inr (if req_method q = ''POST''
        then \<lparr>resp_status = 200, resp_bytes = ''t'',
              resp_json = Some (JObj [(''access_token'', JStr ''tok''), (''expires_in'', JNum 300)])\<rparr>
        else \<lparr>resp_status = 404, resp_bytes = [], resp_json = None\<rparr>), Suc n)),
      clock = (\<lambda>n. 0), url_ok = (\<lambda>u. True)\<rparr>"

definition demo_net :: "nat netw" where
  "demo_net = \<lparr>nw_provider = NewProvider, nw_wire = 0, nw_mlog = []\<rparr>"

definition demo_api :: "unit conn_api" where
  "demo_api = \<lparr>ca_reader = demo_reader, ca_statusPatch = (\<lambda>k base conn. (None, k)), ca_setCondition = set_type\<rparr>"

definition demo_cstate :: "(nat, unit) cstate" where
  "demo_cstate = \<lparr>cs_net = demo_net, cs_cluster = (), cs_metrics = []\<rparr>"

theorem connection_up_iff_token_witness:
  "fst (KeycloakConnectionReconciler_Reconcile granting demo_api ''ns'' ''kc'' demo_cstate) = RequeueAfter (5 * Minute)"
proof -
  let ?p = "snd (For demo_reader () ''ns'' ''kc'' NewProvider)"
  let ?w = "snd (client_run (Token granting) 0 (demo_net\<lparr>nw_provider := ?p\<rparr>))"
  have conn: "r_conn (ca_reader demo_api) (cs_cluster demo_cstate) ''ns'' ''kc'' = Inr demo_connection"
    by (simp add: demo_api_def demo_reader_def)
  have prov: "For (ca_reader demo_api) (cs_cluster demo_cstate) ''ns'' ''kc'' (nw_provider (cs_net demo_cstate)) = (Inr 0, ?p)"
    by code_simp
  have tok: "client_run (Token granting) 0 ((cs_net demo_cstate)\<lparr>nw_provider := ?p\<rparr>) = (Inr ''tok'', ?w)"
    by code_simp
  have "\<And>e. fst (KeycloakConnectionReconciler_Reconcile granting demo_api ''ns'' ''kc'' demo_cstate) \<noteq> Failed e"
    by code_simp
  with connection_up_iff_token [OF conn prov tok] show ?thesis by (auto simp: split_beta)
qed

end
