(* ===== verification/Instances.thy ===== *)
theory Instances
  imports Controllers
begin

text \<open>
  Concrete instances the witnesses are evaluated on: a realm spec, a server that always gives
  the same answer, an engine on the in-memory cluster of \<open>Kube\<close> and its initial state.
\<close>

section \<open>Concrete instances\<close>

definition demo_realm :: "string \<Rightarrow> RealmSpec" where
  "demo_realm name = \<lparr>keycloakRef = ''kc'', spec_realm = name, adoptionPolicy = None, deletionPolicy = None,
     smtpServerSecretRef = None, realm_fields = []\<rparr>"

text \<open>A server that gives the same answer to every call; its state counts the calls.\<close>

definition answering :: "goerr + json \<Rightarrow> nat kc" where
  "answering r meth path body target n = (r, Suc n)"

definition demo_engine :: "'w kc \<Rightarrow> ('w, 's object list, 's) engine" where
  "demo_engine kc = NewEngine (demo_kube []) (\<lambda>k ns conn w. (Inr kc, w)) True 0"

definition demo_eng :: "'w \<Rightarrow> ('w, 's object list) eng" where
  "demo_eng w = \<lparr>net = w, cluster = [], events = [], emitted = []\<rparr>"

definition same_order :: order where
  "same_order site ks = ks"

lemma demo_engine_ok: "well_behaved (demo_engine kc)" "recording (demo_engine kc)"
  by (simp_all add: well_behaved_def recording_def demo_engine_def NewEngine_def demo_kube_ok demo_kube_stored
      demo_kube_annotation)

text \<open>A cluster that accepts every write.\<close>

definition plain_kube :: "('k, 's) kube" where
  "plain_kube =
     \<lparr>k_getSecret = (\<lambda>k ns n. Inl (KubeErr ''NotFound'')), k_createSecret = (\<lambda>k s. (None, k)), k_updateSecret = (\<lambda>k s. (None, k)),
      k_update = (\<lambda>k obj. (Inr obj, k)), k_patch = (\<lambda>k base obj. (Inr obj, k)), k_statusPatch = (\<lambda>k base obj. (Inr obj, k)),
      k_isNotFound = (\<lambda>e. e = KubeErr ''NotFound''), k_setControllerReference = (\<lambda>obj s. Inr s),
      k_findCondition = find_type, k_setCondition = set_type, k_containsFinalizer = (\<lambda>fs f. f \<in> set fs),
      k_addFinalizer = (\<lambda>fs f. if f \<in> set fs then fs else fs @ [f]), k_removeFinalizer = (\<lambda>fs f. filter (\<lambda>g. g \<noteq> f) fs)\<rparr>"

lemma plain_kube_ok: "kube_ok plain_kube" "status_stored plain_kube" "annotation_stored plain_kube"
  by (auto simp: kube_ok_def status_stored_def annotation_stored_def plain_kube_def find_set_type)

lemmas demo_defs = demo_engine_def demo_eng_def NewEngine_def demo_kube_def demo_object_def demo_realm_def
  answering_def recorded_def live_def

lemma demo_realm_live:
  assumes "name \<noteq> ''master''"
  shows "live (demo_engine kc) (RealmDriver rng) (demo_object ''Realm'' (demo_realm name)) (demo_eng w) kc w"
  using assms
  by (simp add: demo_defs RealmDriver_def RealmDriver_Protected_def RealmSpec_TargetRealm_def ProtectedRealmNames_def)

end
