(* ===== verification/Fake_Server.thy ===== *)
theory Fake_Server
  imports Helpers
begin

text \<open>
  The in-memory Admin API of \<open>internal/keycloak/fake/server.go\<close>, the server the operator's
  own tests run against. Every handler is a function on the stored data \<open>Store\<close> that
  returns the reply it writes; the credentials and the token counter are the rest of the
  \<open>Server\<close>. A panicking handler (an index out of range, an assignment to a nil map) loses
  the connection: the reply is \<open>Dropped\<close>. The iteration order of Go maps is the argument
  \<open>rng\<close>.

  Representations are the maps that \<open>encoding/json\<close> decodes request bodies into. A stored
  identity provider and a stored role mapping can also be the nil map, which is \<open>JNull\<close>.
\<close>

section \<open>State\<close>

text \<open>
  The composites of a role are read with a type assertion to \<open>[]map[string]any\<close>, which holds
  only for a value that the composites handler stored; \<open>rr_typed\<close> says that it did. The nil
  slice is \<open>JNull\<close>.
\<close>

record role_rep =
  rr_rep :: "json gomap"
  rr_typed :: bool

record Store =
  st_realms :: "json gomap gomap"
  st_clients :: "json gomap gomap gomap"
  st_scopes :: "json gomap gomap gomap"
  st_roles :: "role_rep gomap gomap"
  st_clientRoles :: "json gomap gomap gomap"
  st_idps :: "json gomap gomap"
  st_groups :: "json gomap gomap gomap"
  st_groupRR :: "json list gomap gomap"
  st_groupCR :: "json list gomap gomap gomap"
  st_defScope :: "string list gomap gomap"
  st_optScope :: "string list gomap gomap"

record Server =
  s_creds :: "string gomap"
  s_issued :: nat
  s_revoked :: bool
  s_store :: Store

definition empty_store :: Store where
  "empty_store =
     \<lparr>st_realms = [], st_clients = [], st_scopes = [], st_roles = [], st_clientRoles = [], st_idps = [],
      st_groups = [], st_groupRR = [], st_groupCR = [], st_defScope = [], st_optScope = []\<rparr>"

definition New_server :: "string \<Rightarrow> string \<Rightarrow> Server" where
  "New_server username password =
     \<lparr>s_creds = [(username, password)], s_issued = 0, s_revoked = False, s_store = empty_store\<rparr>"

definition RevokeTokens :: "Server \<Rightarrow> Server" where
  "RevokeTokens S = S\<lparr>s_revoked := True\<rparr>"

definition Reset :: "Server \<Rightarrow> Server" where
  "Reset S = S\<lparr>s_store := empty_store\<rparr>"

definition SetRealmField :: "string \<Rightarrow> string \<Rightarrow> json \<Rightarrow> Server \<Rightarrow> Server" where
  "SetRealmField realm key val S =
     (case map_of (st_realms (s_store S)) realm of
        Some rep \<Rightarrow>
          S\<lparr>s_store := (s_store S)\<lparr>st_realms := mput realm (mput key val rep) (st_realms (s_store S))\<rparr>\<rparr>
      | None \<Rightarrow> S)"

text \<open>Lookup in a map whose values are maps or slices: an absent entry reads as nil.\<close>

definition mget :: "'a list gomap \<Rightarrow> string \<Rightarrow> 'a list" where
  "mget m k = (case map_of m k of None \<Rightarrow> [] | Some v \<Rightarrow> v)"

section \<open>Requests and replies\<close>

datatype reply =
    Code int
  | HttpError int string
  | Body json
  | Moved
  | Dropped

definition notFound :: reply where
  "notFound = HttpError 404 ''404 page not found''"

text \<open>\<open>decode\<close> into a \<open>map[string]any\<close> (\<open>null\<close> is the nil map) and into a
  \<open>[]map[string]any\<close> (\<open>null\<close> is the nil slice).\<close>

fun decodeMap :: "req_body \<Rightarrow> json option" where
  "decodeMap (JsonBody (JObj m)) = Some (jround (JObj m))"
| "decodeMap (JsonBody JNull) = Some JNull"
| "decodeMap _ = None"

fun is_map :: "json \<Rightarrow> bool" where
  "is_map (JObj m) = True"
| "is_map JNull = True"
| "is_map _ = False"

fun decodeMaps :: "req_body \<Rightarrow> json list option" where
  "decodeMaps (JsonBody (JArr js)) = (if list_all is_map js then Some (map jround js) else None)"
| "decodeMaps (JsonBody JNull) = Some []"
| "decodeMaps _ = None"

text \<open>The error \<open>decode\<close> writes; what the decoder says after the colon is left out.\<close>

definition badJSON :: reply where
  "badJSON = HttpError 400 ''bad json''"

text \<open>\<open>writeJSON\<close> of a slice; a nil slice is written as \<open>null\<close>.\<close>

definition slice :: "json list \<Rightarrow> json" where
  "slice xs = (if xs = [] then JNull else JArr xs)"

section \<open>Helpers\<close>

definition merge :: "json gomap \<Rightarrow> json gomap \<Rightarrow> json gomap" where
  "merge dst src = mputs dst src"

definition appendUnique :: "string list \<Rightarrow> string \<Rightarrow> string list" where
  "appendUnique list value = (if value \<in> set list then list else list @ [value])"

definition removeValue :: "string list \<Rightarrow> string \<Rightarrow> string list" where
  "removeValue list value = filter (\<lambda>v. v \<noteq> value) list"

text \<open>
  \<open>existing["id"] == rep["id"]\<close> on interface values: \<open>None\<close> is the run-time panic of
  comparing two maps or two slices.
\<close>

definition rep_id :: "json \<Rightarrow> json option" where
  "rep_id rep = map_of (as_obj rep) ''id''"

fun iface_eq :: "json option \<Rightarrow> json option \<Rightarrow> bool option" where
  "iface_eq (Some (JArr a)) (Some (JArr b)) = None"
| "iface_eq (Some (JObj a)) (Some (JObj b)) = None"
| "iface_eq a b = Some ((if a = Some JNull then None else a) = (if b = Some JNull then None else b))"

text \<open>Whether an element of \<open>reps\<close> has the identifier of \<open>rep\<close>; the search stops at the first.\<close>

fun same_id :: "json \<Rightarrow> json list \<Rightarrow> bool option" where
  "same_id rep [] = Some False"
| "same_id rep (x # xs) =
     (case iface_eq (rep_id x) (rep_id rep) of
        None \<Rightarrow> None
      | Some True \<Rightarrow> Some True
      | Some False \<Rightarrow> same_id rep xs)"

fun appendUniqueReps :: "json list \<Rightarrow> json list \<Rightarrow> json list \<Rightarrow> json list option" where
  "appendUniqueReps current out [] = Some out"
| "appendUniqueReps current out (rep # add) =
     (case same_id rep current of
        None \<Rightarrow> None
      | Some found \<Rightarrow> appendUniqueReps current (if found then out else out @ [rep]) add)"

fun removeReps :: "json list \<Rightarrow> json list \<Rightarrow> json list option" where
  "removeReps [] remove = Some []"
| "removeReps (existing # current) remove =
     (case (same_id existing remove, removeReps current remove) of
        (Some dropped, Some out) \<Rightarrow> Some (if dropped then out else existing # out)
      | _ \<Rightarrow> None)"

text \<open>A \<open>POST\<close> adds the payload to a list of representations, a \<open>DELETE\<close> removes it.\<close>

definition mapping_change :: "string \<Rightarrow> json list \<Rightarrow> json list \<Rightarrow> json list option" where
  "mapping_change meth current payload =
     (if meth = ''POST'' then appendUniqueReps current current payload else removeReps current payload)"

section \<open>Realms\<close>

definition createRealm :: "req_body \<Rightarrow> Store \<Rightarrow> reply \<times> Store" where
  "createRealm body S =
     (case decodeMap body of
        None \<Rightarrow> (badJSON, S)
      | Some payload \<Rightarrow>
          let name = str_or_empty (map_of (as_obj payload) ''realm'') in
          if name = [] then (HttpError 400 ''realm name required'', S)
          else if map_of (st_realms S) name \<noteq> None then (HttpError 409 ''realm exists'', S)
          else (Code 201, S\<lparr>st_realms := mput name (mput ''id'' (JStr name) (as_obj payload)) (st_realms S)\<rparr>))"

definition handleRealm :: "string \<Rightarrow> req_body \<Rightarrow> string \<Rightarrow> Store \<Rightarrow> reply \<times> Store" where
  "handleRealm meth body realm S =
     (if meth = ''GET'' then
        (case map_of (st_realms S) realm of
           None \<Rightarrow> (notFound, S)
         | Some rep \<Rightarrow> (Body (JObj rep), S))
      else if meth = ''PUT'' then
        (case decodeMap body of
           None \<Rightarrow> (badJSON, S)
         | Some payload \<Rightarrow>
             (case map_of (st_realms S) realm of
                None \<Rightarrow> (notFound, S)
              | Some rep \<Rightarrow>
                  (Code 204, S\<lparr>st_realms := mput realm (merge rep (as_obj payload)) (st_realms S)\<rparr>)))
      else if meth = ''DELETE'' then
        (if map_of (st_realms S) realm = None then (notFound, S)
         else (Code 204, S\<lparr>st_realms := mdel realm (st_realms S)\<rparr>))
      else (Code 405, S))"

section \<open>Clients\<close>

text \<open>
  Listing a collection: the representations that pass the filter get their key as \<open>id\<close>,
  in the store too, and are returned in iteration order.
\<close>

definition stamp_ids :: "(json gomap \<Rightarrow> bool) \<Rightarrow> json gomap gomap \<Rightarrow> json gomap gomap" where
  "stamp_ids P m = map (\<lambda>p. (fst p, if P (snd p) then mput ''id'' (JStr (fst p)) (snd p) else snd p)) m"

definition list_reps :: "order \<Rightarrow> string \<Rightarrow> (json gomap \<Rightarrow> bool) \<Rightarrow> json gomap gomap \<Rightarrow> json list" where
  "list_reps rng site P m =
     map (\<lambda>p. JObj (mput ''id'' (JStr (fst p)) (snd p))) (filter (\<lambda>p. P (snd p)) (range_map rng site m))"

definition has_value :: "string \<Rightarrow> string \<Rightarrow> json gomap gomap \<Rightarrow> bool" where
  "has_value key v m \<longleftrightarrow> (\<exists>p \<in> set m. map_of (snd p) key = Some (JStr v))"

text \<open>An entry of a map of maps: \<open>m[realm]\<close> is made when it is nil.\<close>

definition put_in :: "string \<Rightarrow> string \<Rightarrow> 'v \<Rightarrow> 'v gomap gomap \<Rightarrow> 'v gomap gomap" where
  "put_in realm ident v m = mput realm (mput ident v (mget m realm)) m"

definition del_in :: "string \<Rightarrow> string \<Rightarrow> 'v gomap gomap \<Rightarrow> 'v gomap gomap" where
  "del_in realm ident m = mput realm (mdel ident (mget m realm)) m"

definition clientCollection ::
    "order \<Rightarrow> string \<Rightarrow> (string \<times> string) list \<Rightarrow> req_body \<Rightarrow> string \<Rightarrow> Store \<Rightarrow> reply \<times> Store" where
  "clientCollection rng meth query body realm S =
     (let reps = mget (st_clients S) realm in
      if meth = ''GET'' then
        (let clientID = mget query ''clientId'';
             P = (\<lambda>rep. clientID = [] \<or> map_of rep ''clientId'' = Some (JStr clientID))
         in (Body (slice (list_reps rng ''handleClients'' P reps)),
             if map_of (st_clients S) realm = None then S
             else S\<lparr>st_clients := mput realm (stamp_ids P reps) (st_clients S)\<rparr>))
      else if meth = ''POST'' then
        (case decodeMap body of
           None \<Rightarrow> (badJSON, S)
         | Some payload \<Rightarrow>
             let clientID = str_or_empty (map_of (as_obj payload) ''clientId'') in
             if clientID = [] then (HttpError 400 ''clientId required'', S)
             else if has_value ''clientId'' clientID reps then (HttpError 409 ''client exists'', S)
             else
               let ident = ''client-'' @ clientID in
               (Code 201, S\<lparr>st_clients :=
                  put_in realm ident (mput ''id'' (JStr ident) (as_obj payload)) (st_clients S)\<rparr>))
      else (Code 405, S))"

definition clientRole :: "string \<Rightarrow> string \<Rightarrow> string \<Rightarrow> Store \<Rightarrow> reply \<times> Store" where
  "clientRole realm ident segment S =
     (case PathUnescape segment of
        None \<Rightarrow> (notFound, S)
      | Some roleName \<Rightarrow>
          (case map_of (mget (mget (st_clientRoles S) realm) ident) roleName of
             Some rep \<Rightarrow> (Body rep, S)
           | None \<Rightarrow> (notFound, S)))"

text \<open>\<open>payload["id"] = ...\<close> on a nil payload panics, after the maps on the way were made.\<close>

definition clientRoles :: "string \<Rightarrow> req_body \<Rightarrow> string \<Rightarrow> string \<Rightarrow> Store \<Rightarrow> reply \<times> Store" where
  "clientRoles meth body realm ident S =
     (if meth = ''POST'' then
        (case decodeMap body of
           None \<Rightarrow> (badJSON, S)
         | Some payload \<Rightarrow>
             let name = str_or_empty (map_of (as_obj payload) ''name'');
                 made = put_in realm ident (mget (mget (st_clientRoles S) realm) ident) (st_clientRoles S);
                 rep = mput ''id'' (JStr (''clientrole-'' @ ident @ ''-'' @ name)) (as_obj payload) in
             if payload = JNull then (Dropped, S\<lparr>st_clientRoles := made\<rparr>)
             else (Code 201, S\<lparr>st_clientRoles :=
                     put_in realm ident (mput name (JObj rep) (mget (mget made realm) ident)) made\<rparr>))
      else (Code 405, S))"

definition clientSecret :: "string \<Rightarrow> string \<Rightarrow> string \<Rightarrow> Store \<Rightarrow> reply \<times> Store" where
  "clientSecret meth realm ident S =
     (case map_of (mget (st_clients S) realm) ident of
        None \<Rightarrow> (notFound, S)
      | Some rep \<Rightarrow>
          if meth = ''GET'' then
            (Body (JObj [(''type'', JStr ''secret''), (''value'', JStr (str_or_empty (map_of rep ''secret'')))]), S)
          else if meth = ''POST'' then
            (let secret = ''regenerated-'' @ ident in
             (Body (JObj [(''type'', JStr ''secret''), (''value'', JStr secret)]),
              S\<lparr>st_clients := put_in realm ident (mput ''secret'' (JStr secret) rep) (st_clients S)\<rparr>))
          else (Code 405, S))"

text \<open>
  The scope assignments of a client: \<open>store\<close> is \<open>defScope\<close> or \<open>optScope\<close>. A \<open>PUT\<close> without
  a scope indexes past the path, a \<open>DELETE\<close> in a realm without assignments writes to a nil
  map: both panic.
\<close>

definition scopeAssignments ::
    "string \<Rightarrow> string \<Rightarrow> string list \<Rightarrow> json gomap gomap \<Rightarrow> string list gomap gomap \<Rightarrow>
     reply \<times> string list gomap gomap" where
  "scopeAssignments meth realm sub scopes store =
     (let ident = sub ! 0; assigned = mget (mget store realm) ident in
      if meth = ''GET'' then
        (Body (slice (List.map_filter (\<lambda>scopeID. map_option JObj (map_of scopes scopeID)) assigned)), store)
      else if meth = ''PUT'' then
        (if length sub < 3 then (Dropped, store)
         else if map_of scopes (sub ! 2) = None then (notFound, store)
         else (Code 204, put_in realm ident (appendUnique assigned (sub ! 2)) store))
      else if meth = ''DELETE'' then
        (if length sub < 3 then (notFound, store)
         else if map_of store realm = None then (Dropped, store)
         else (Code 204, put_in realm ident (removeValue assigned (sub ! 2)) store))
      else (Code 405, store))"

text \<open>A single stored representation, as the clients, the client scopes and the groups serve it.\<close>

definition singleRep ::
    "string \<Rightarrow> req_body \<Rightarrow> string \<Rightarrow> string \<Rightarrow> json gomap gomap gomap \<Rightarrow> reply \<times> json gomap gomap gomap" where
  "singleRep meth body realm ident store =
     (case map_of (mget store realm) ident of
        None \<Rightarrow> (notFound, store)
      | Some rep \<Rightarrow>
          if meth = ''GET'' then (Body (JObj rep), store)
          else if meth = ''PUT'' then
            (case decodeMap body of
               None \<Rightarrow> (badJSON, store)
             | Some payload \<Rightarrow> (Code 204, put_in realm ident (merge rep (as_obj payload)) store))
          else if meth = ''DELETE'' then (Code 204, del_in realm ident store)
          else (Code 405, store))"

definition handleClients ::
    "order \<Rightarrow> string \<Rightarrow> (string \<times> string) list \<Rightarrow> req_body \<Rightarrow> string \<Rightarrow> string list \<Rightarrow> Store \<Rightarrow> reply \<times> Store" where
  "handleClients rng meth query body realm sub S =
     (if map_of (st_realms S) realm = None then (notFound, S)
      else if sub = [] then clientCollection rng meth query body realm S
      else if length sub = 3 \<and> sub ! 1 = ''roles'' then clientRole realm (sub ! 0) (sub ! 2) S
      else if length sub = 2 \<and> sub ! 1 = ''roles'' then clientRoles meth body realm (sub ! 0) S
      else if length sub = 2 \<and> sub ! 1 = ''client-secret'' then clientSecret meth realm (sub ! 0) S
      else if 2 \<le> length sub \<and> sub ! 1 = ''default-client-scopes'' then
        (case scopeAssignments meth realm sub (mget (st_scopes S) realm) (st_defScope S) of
           (r, store) \<Rightarrow> (r, S\<lparr>st_defScope := store\<rparr>))
      else if 2 \<le> length sub \<and> sub ! 1 = ''optional-client-scopes'' then
        (case scopeAssignments meth realm sub (mget (st_scopes S) realm) (st_optScope S) of
           (r, store) \<Rightarrow> (r, S\<lparr>st_optScope := store\<rparr>))
      else
        (case singleRep meth body realm (sub ! 0) (st_clients S) of
           (r, store) \<Rightarrow> (r, S\<lparr>st_clients := store\<rparr>)))"

section \<open>Client scopes\<close>

definition scopeCollection :: "order \<Rightarrow> string \<Rightarrow> req_body \<Rightarrow> string \<Rightarrow> Store \<Rightarrow> reply \<times> Store" where
  "scopeCollection rng meth body realm S =
     (let reps = mget (st_scopes S) realm; P = (\<lambda>rep. True) in
      if meth = ''GET'' then
        (Body (slice (list_reps rng ''handleClientScopes'' P reps)),
         if map_of (st_scopes S) realm = None then S
         else S\<lparr>st_scopes := mput realm (stamp_ids P reps) (st_scopes S)\<rparr>)
      else if meth = ''POST'' then
        (case decodeMap body of
           None \<Rightarrow> (badJSON, S)
         | Some payload \<Rightarrow>
             let name = str_or_empty (map_of (as_obj payload) ''name''); ident = ''scope-'' @ name in
             if has_value ''name'' name reps then (HttpError 409 ''scope exists'', S)
             else if payload = JNull then (Dropped, S)
             else (Code 201, S\<lparr>st_scopes :=
                     put_in realm ident (mput ''id'' (JStr ident) (as_obj payload)) (st_scopes S)\<rparr>))
      else (Code 405, S))"

definition handleClientScopes ::
    "order \<Rightarrow> string \<Rightarrow> req_body \<Rightarrow> string \<Rightarrow> string list \<Rightarrow> Store \<Rightarrow> reply \<times> Store" where
  "handleClientScopes rng meth body realm sub S =
     (if map_of (st_realms S) realm = None then (notFound, S)
      else if sub = [] then scopeCollection rng meth body realm S
      else
        (case singleRep meth body realm (sub ! 0) (st_scopes S) of
           (r, store) \<Rightarrow> (r, S\<lparr>st_scopes := store\<rparr>)))"

section \<open>Roles\<close>

definition roleCollection :: "string \<Rightarrow> req_body \<Rightarrow> string \<Rightarrow> Store \<Rightarrow> reply \<times> Store" where
  "roleCollection meth body realm S =
     (if meth = ''POST'' then
        (case decodeMap body of
           None \<Rightarrow> (badJSON, S)
         | Some payload \<Rightarrow>
             let name = str_or_empty (map_of (as_obj payload) ''name'') in
             if map_of (mget (st_roles S) realm) name \<noteq> None then (HttpError 409 ''role exists'', S)
             else if payload = JNull then (Dropped, S\<lparr>st_roles := mput realm (mget (st_roles S) realm) (st_roles S)\<rparr>)
             else (Code 201, S\<lparr>st_roles := put_in realm name
                     \<lparr>rr_rep = mput ''id'' (JStr (''role-'' @ name)) (as_obj payload), rr_typed = False\<rparr>
                     (st_roles S)\<rparr>))
      else (Code 405, S))"

definition typed_composites :: "role_rep \<Rightarrow> json list" where
  "typed_composites role =
     (if rr_typed role then (case any_list (map_of (rr_rep role) ''composites'') of None \<Rightarrow> [] | Some l \<Rightarrow> l) else [])"

definition roleComposites :: "string \<Rightarrow> req_body \<Rightarrow> string \<Rightarrow> string \<Rightarrow> Store \<Rightarrow> reply \<times> Store" where
  "roleComposites meth body realm name S =
     (case map_of (mget (st_roles S) realm) name of
        None \<Rightarrow> (notFound, S)
      | Some role \<Rightarrow>
          if meth = ''GET'' then (Body (slice (typed_composites role)), S)
          else if meth = ''POST'' \<or> meth = ''DELETE'' then
            (case decodeMaps body of
               None \<Rightarrow> (badJSON, S)
             | Some payload \<Rightarrow>
                 let current = typed_composites role;
                     rep = (if meth = ''POST'' then mput ''composite'' (JBool True) (rr_rep role) else rr_rep role) in
                 case mapping_change meth current payload of
                   None \<Rightarrow> (Dropped, S\<lparr>st_roles := put_in realm name (role\<lparr>rr_rep := rep\<rparr>) (st_roles S)\<rparr>)
                 | Some rs \<Rightarrow>
                     (Code 204, S\<lparr>st_roles := put_in realm name
                        \<lparr>rr_rep = mput ''composites'' (slice rs) rep, rr_typed = True\<rparr> (st_roles S)\<rparr>))
          else (Code 405, S))"

definition singleRole :: "string \<Rightarrow> req_body \<Rightarrow> string \<Rightarrow> string \<Rightarrow> Store \<Rightarrow> reply \<times> Store" where
  "singleRole meth body realm name S =
     (case map_of (mget (st_roles S) realm) name of
        None \<Rightarrow> (notFound, S)
      | Some role \<Rightarrow>
          if meth = ''GET'' then (Body (JObj (rr_rep role)), S)
          else if meth = ''PUT'' then
            (case decodeMap body of
               None \<Rightarrow> (badJSON, S)
             | Some payload \<Rightarrow>
                 (Code 204, S\<lparr>st_roles := put_in realm name
                    \<lparr>rr_rep = merge (rr_rep role) (as_obj payload),
                     rr_typed = (rr_typed role \<and> map_of (as_obj payload) ''composites'' = None)\<rparr> (st_roles S)\<rparr>))
          else if meth = ''DELETE'' then (Code 204, S\<lparr>st_roles := del_in realm name (st_roles S)\<rparr>)
          else (Code 405, S))"

definition handleRoles :: "string \<Rightarrow> req_body \<Rightarrow> string \<Rightarrow> string list \<Rightarrow> Store \<Rightarrow> reply \<times> Store" where
  "handleRoles meth body realm sub S =
     (if map_of (st_realms S) realm = None then (notFound, S)
      else if sub = [] then roleCollection meth body realm S
      else if length sub = 2 \<and> sub ! 1 = ''composites'' then roleComposites meth body realm (sub ! 0) S
      else singleRole meth body realm (sub ! 0) S)"

section \<open>Identity providers\<close>

definition idpCollection :: "string \<Rightarrow> req_body \<Rightarrow> string \<Rightarrow> Store \<Rightarrow> reply \<times> Store" where
  "idpCollection meth body realm S =
     (if meth = ''POST'' then
        (case decodeMap body of
           None \<Rightarrow> (badJSON, S)
         | Some payload \<Rightarrow>
             let ident = str_or_empty (map_of (as_obj payload) ''alias'') in
             if map_of (mget (st_idps S) realm) ident \<noteq> None then (HttpError 409 ''idp exists'', S)
             else (Code 201, S\<lparr>st_idps := put_in realm ident payload (st_idps S)\<rparr>))
      else (Code 405, S))"

text \<open>Merging a non-empty payload into a nil representation writes to a nil map.\<close>

definition handleIdentityProviders :: "string \<Rightarrow> req_body \<Rightarrow> string \<Rightarrow> string list \<Rightarrow> Store \<Rightarrow> reply \<times> Store" where
  "handleIdentityProviders meth body realm sub S =
     (if map_of (st_realms S) realm = None then (notFound, S)
      else if sub = [] then idpCollection meth body realm S
      else
        (let ident = sub ! 0 in
         case map_of (mget (st_idps S) realm) ident of
           None \<Rightarrow> (notFound, S)
         | Some rep \<Rightarrow>
             if meth = ''GET'' then (Body rep, S)
             else if meth = ''PUT'' then
               (case decodeMap body of
                  None \<Rightarrow> (badJSON, S)
                | Some payload \<Rightarrow>
                    if rep = JNull \<and> as_obj payload \<noteq> [] then (Dropped, S)
                    else if rep = JNull then (Code 204, S)
                    else (Code 204, S\<lparr>st_idps := put_in realm ident
                            (JObj (merge (as_obj rep) (as_obj payload))) (st_idps S)\<rparr>))
             else if meth = ''DELETE'' then (Code 204, S\<lparr>st_idps := del_in realm ident (st_idps S)\<rparr>)
             else (Code 405, S)))"

section \<open>Groups\<close>

definition groupCollection ::
    "order \<Rightarrow> string \<Rightarrow> (string \<times> string) list \<Rightarrow> req_body \<Rightarrow> string \<Rightarrow> Store \<Rightarrow> reply \<times> Store" where
  "groupCollection rng meth query body realm S =
     (let reps = mget (st_groups S) realm in
      if meth = ''GET'' then
        (let search = mget query ''search'';
             P = (\<lambda>rep. search = [] \<or> map_of rep ''name'' = Some (JStr search))
         in (Body (slice (list_reps rng ''handleGroups'' P reps)),
             if map_of (st_groups S) realm = None then S
             else S\<lparr>st_groups := mput realm (stamp_ids P reps) (st_groups S)\<rparr>))
      else if meth = ''POST'' then
        (case decodeMap body of
           None \<Rightarrow> (badJSON, S)
         | Some payload \<Rightarrow>
             let name = str_or_empty (map_of (as_obj payload) ''name''); ident = ''group-'' @ name in
             if has_value ''name'' name reps then (HttpError 409 ''group exists'', S)
             else if payload = JNull then (Dropped, S)
             else (Code 201, S\<lparr>st_groups :=
                     put_in realm ident (mput ''id'' (JStr ident) (as_obj payload)) (st_groups S)\<rparr>))
      else (Code 405, S))"

text \<open>
  The role mappings of a group, \<open>role-mappings/realm\<close> or \<open>role-mappings/clients/<uuid>\<close>. The
  maps on the way are made before the method is looked at; a path that ends after
  \<open>clients\<close> is indexed out of range.
\<close>

definition realmMappings :: "string \<Rightarrow> req_body \<Rightarrow> string \<Rightarrow> string \<Rightarrow> Store \<Rightarrow> reply \<times> Store" where
  "realmMappings meth body realm ident S0 =
     (let S = S0\<lparr>st_groupRR := mput realm (mget (st_groupRR S0) realm) (st_groupRR S0)\<rparr>;
          current = mget (mget (st_groupRR S) realm) ident in
      if meth = ''GET'' then (Body (slice current), S)
      else if meth = ''POST'' \<or> meth = ''DELETE'' then
        (case decodeMaps body of
           None \<Rightarrow> (badJSON, S)
         | Some payload \<Rightarrow>
             (case mapping_change meth current payload of
                None \<Rightarrow> (Dropped, S)
              | Some rs \<Rightarrow> (Code 204, S\<lparr>st_groupRR := put_in realm ident rs (st_groupRR S)\<rparr>)))
      else (Code 405, S))"

definition clientMappings ::
    "string \<Rightarrow> req_body \<Rightarrow> string \<Rightarrow> string list \<Rightarrow> Store \<Rightarrow> reply \<times> Store" where
  "clientMappings meth body realm sub S0 =
     (let ident = sub ! 0;
          S = S0\<lparr>st_groupCR := put_in realm ident (mget (mget (st_groupCR S0) realm) ident) (st_groupCR S0)\<rparr>;
          mappings = mget (mget (st_groupCR S) realm) ident in
      if length sub < 4 then (Dropped, S)
      else
        let current = mget mappings (sub ! 3) in
        if meth = ''GET'' then (Body (slice current), S)
        else if meth = ''POST'' \<or> meth = ''DELETE'' then
          (case decodeMaps body of
             None \<Rightarrow> (badJSON, S)
           | Some payload \<Rightarrow>
               (case mapping_change meth current payload of
                  None \<Rightarrow> (Dropped, S)
                | Some rs \<Rightarrow>
                    (Code 204, S\<lparr>st_groupCR := put_in realm ident (mput (sub ! 3) rs mappings) (st_groupCR S)\<rparr>)))
        else (Code 405, S))"

definition handleGroups ::
    "order \<Rightarrow> string \<Rightarrow> (string \<times> string) list \<Rightarrow> req_body \<Rightarrow> string \<Rightarrow> string list \<Rightarrow> Store \<Rightarrow> reply \<times> Store" where
  "handleGroups rng meth query body realm sub S =
     (if map_of (st_realms S) realm = None then (notFound, S)
      else if sub = [] then groupCollection rng meth query body realm S
      else if 3 \<le> length sub \<and> sub ! 1 = ''role-mappings'' \<and> (sub ! 2 = ''realm'' \<or> sub ! 2 = ''clients'') then
        (if map_of (mget (st_groups S) realm) (sub ! 0) = None then (notFound, S)
         else if sub ! 2 = ''realm'' then realmMappings meth body realm (sub ! 0) S
         else clientMappings meth body realm sub S)
      else
        (case singleRep meth body realm (sub ! 0) (st_groups S) of
           (r, store) \<Rightarrow> (r, S\<lparr>st_groups := store\<rparr>)))"

section \<open>Dispatch\<close>

record hreq =
  h_method :: string
  h_path :: string
  h_query :: "(string \<times> string) list"
  h_authorization :: string
  h_body :: req_body

definition routeRealm ::
    "order \<Rightarrow> string \<Rightarrow> (string \<times> string) list \<Rightarrow> req_body \<Rightarrow> string \<Rightarrow> string list \<Rightarrow> Store \<Rightarrow> reply \<times> Store" where
  "routeRealm rng meth query body realm sub S =
     (if sub = [] then handleRealm meth body realm S
      else if sub ! 0 = ''clients'' then handleClients rng meth query body realm (tl sub) S
      else if sub ! 0 = ''client-scopes'' then handleClientScopes rng meth body realm (tl sub) S
      else if sub ! 0 = ''roles'' then handleRoles meth body realm (tl sub) S
      else if sub ! 0 = ''identity-provider'' then
        (if 2 \<le> length sub \<and> sub ! 1 = ''instances''
         then handleIdentityProviders meth body realm (drop 2 sub) S
         else (notFound, S))
      else if sub ! 0 = ''groups'' then handleGroups rng meth query body realm (tl sub) S
      else (notFound, S))"

definition handleRealmScoped :: "order \<Rightarrow> hreq \<Rightarrow> string \<Rightarrow> Store \<Rightarrow> reply \<times> Store" where
  "handleRealmScoped rng r rest S =
     (let parts = Split (CHR ''/'') rest in
      case PathUnescape (hd parts) of
        None \<Rightarrow> (notFound, S)
      | Some realm \<Rightarrow> routeRealm rng (h_method r) (h_query r) (h_body r) realm (tl parts) S)"

definition server_version :: json where
  "server_version = JObj [(''systemInfo'', JObj [(''version'', JStr ''26.3.5'')])]"

definition handleAdmin :: "order \<Rightarrow> hreq \<Rightarrow> Server \<Rightarrow> reply \<times> Server" where
  "handleAdmin rng r S =
     (if h_authorization r = [] then (HttpError 401 ''unauthorized'', S)
      else
        let rest = TrimPrefix (h_path r) ''/admin'' in
        if rest = ''/serverinfo'' then (Body server_version, S)
        else if rest = ''/realms'' \<and> h_method r = ''POST'' then
          (case createRealm (h_body r) (s_store S) of (x, st) \<Rightarrow> (x, S\<lparr>s_store := st\<rparr>))
        else if HasPrefix rest ''/realms/'' then
          (case handleRealmScoped rng r (TrimPrefix rest ''/realms/'') (s_store S) of
             (x, st) \<Rightarrow> (x, S\<lparr>s_store := st\<rparr>))
        else (notFound, S))"

section \<open>Tokens\<close>

function itoa :: "nat \<Rightarrow> string" where
  "itoa n = (if n < 10 then [char_of (48 + n)] else itoa (n div 10) @ [char_of (48 + n mod 10)])"
  by pat_completeness auto
termination
  by (relation "measure id") auto

declare itoa.simps [simp del]

definition form_value :: "req_body \<Rightarrow> string \<Rightarrow> string" where
  "form_value body k = (case body of FormBody f \<Rightarrow> mget f k | _ \<Rightarrow> [])"

definition invalid_grant :: string where
  "invalid_grant = ''{\"error\":\"invalid_grant\"}''"

definition handleToken :: "hreq \<Rightarrow> Server \<Rightarrow> reply \<times> Server" where
  "handleToken r S =
     (if \<not> HasSuffix (h_path r) ''/protocol/openid-connect/token'' then (notFound, S)
      else if s_revoked S then (HttpError 401 invalid_grant, S\<lparr>s_revoked := False\<rparr>)
      else
        let username = form_value (h_body r) ''username''; password = form_value (h_body r) ''password'';
            clientID = form_value (h_body r) ''client_id''; clientSecret = form_value (h_body r) ''client_secret'';
            ok = (if username \<noteq> [] then mget (s_creds S) username = password
                  else if clientID \<noteq> [] then mget (s_creds S) (''client:'' @ clientID) = clientSecret
                  else False)
        in if \<not> ok then (HttpError 401 invalid_grant, S)
           else (Body (JObj [(''access_token'', JStr (''fake-token-'' @ itoa (Suc (s_issued S)))),
                             (''expires_in'', JNum 300), (''token_type'', JStr ''Bearer'')]),
                 S\<lparr>s_issued := Suc (s_issued S)\<rparr>))"

section \<open>Inspection\<close>

text \<open>
  What the tests read back. The functions that search a map return the first match in
  iteration order; \<open>scopeNames\<close> panics (\<open>None\<close>) on a scope whose name is not a string.
\<close>

definition clone :: "json gomap \<Rightarrow> json gomap" where
  "clone rep = as_obj (jround (JObj rep))"

definition find_by :: "order \<Rightarrow> string \<Rightarrow> string \<Rightarrow> string \<Rightarrow> json gomap gomap \<Rightarrow> (string \<times> json gomap) option" where
  "find_by rng site key v m = List.find (\<lambda>p. map_of (snd p) key = Some (JStr v)) (range_map rng site m)"

definition Server_Realm :: "string \<Rightarrow> Server \<Rightarrow> json gomap option" where
  "Server_Realm name S = map_option clone (map_of (st_realms (s_store S)) name)"

definition Server_Client :: "order \<Rightarrow> string \<Rightarrow> string \<Rightarrow> Server \<Rightarrow> json gomap option" where
  "Server_Client rng realm clientID S =
     map_option (\<lambda>p. clone (snd p)) (find_by rng ''Client'' ''clientId'' clientID (mget (st_clients (s_store S)) realm))"

definition Server_ClientScope :: "order \<Rightarrow> string \<Rightarrow> string \<Rightarrow> Server \<Rightarrow> json gomap option" where
  "Server_ClientScope rng realm name S =
     map_option (\<lambda>p. clone (snd p)) (find_by rng ''ClientScope'' ''name'' name (mget (st_scopes (s_store S)) realm))"

definition Server_Role :: "string \<Rightarrow> string \<Rightarrow> Server \<Rightarrow> json gomap option" where
  "Server_Role realm name S = map_option (\<lambda>role. clone (rr_rep role)) (map_of (mget (st_roles (s_store S)) realm) name)"

definition Server_IdentityProvider :: "string \<Rightarrow> string \<Rightarrow> Server \<Rightarrow> json gomap option" where
  "Server_IdentityProvider realm idpAlias S =
     map_option (\<lambda>rep. clone (as_obj rep)) (map_of (mget (st_idps (s_store S)) realm) idpAlias)"

definition Server_Group :: "order \<Rightarrow> string \<Rightarrow> string \<Rightarrow> Server \<Rightarrow> json gomap option" where
  "Server_Group rng realm name S =
     map_option (\<lambda>p. clone (snd p)) (find_by rng ''Group'' ''name'' name (mget (st_groups (s_store S)) realm))"

definition rep_names :: "json list \<Rightarrow> string list" where
  "rep_names rs = List.map_filter (\<lambda>rep. any_str (map_of (as_obj rep) ''name'')) rs"

definition Server_RoleComposites :: "string \<Rightarrow> string \<Rightarrow> Server \<Rightarrow> string list" where
  "Server_RoleComposites realm name S =
     (case map_of (mget (st_roles (s_store S)) realm) name of
        None \<Rightarrow> []
      | Some role \<Rightarrow>
          (case any_list (map_of (rr_rep role) ''composites'') of None \<Rightarrow> [] | Some entries \<Rightarrow> rep_names entries))"

definition groupIDLocked :: "order \<Rightarrow> string \<Rightarrow> string \<Rightarrow> Server \<Rightarrow> string" where
  "groupIDLocked rng realm name S =
     (case find_by rng ''groupIDLocked'' ''name'' name (mget (st_groups (s_store S)) realm) of
        None \<Rightarrow> [] | Some p \<Rightarrow> fst p)"

definition clientIDLocked :: "order \<Rightarrow> string \<Rightarrow> string \<Rightarrow> Server \<Rightarrow> string" where
  "clientIDLocked rng realm clientID S =
     (case find_by rng ''clientIDLocked'' ''clientId'' clientID (mget (st_clients (s_store S)) realm) of
        None \<Rightarrow> [] | Some p \<Rightarrow> fst p)"

definition GroupRealmRoles :: "order \<Rightarrow> string \<Rightarrow> string \<Rightarrow> Server \<Rightarrow> string list" where
  "GroupRealmRoles rng realm name S =
     rep_names (mget (mget (st_groupRR (s_store S)) realm) (groupIDLocked rng realm name S))"

definition GroupClientRoles :: "order \<Rightarrow> string \<Rightarrow> string \<Rightarrow> string \<Rightarrow> Server \<Rightarrow> string list" where
  "GroupClientRoles rng realm name clientUUID S =
     rep_names (mget (mget (mget (st_groupCR (s_store S)) realm) (groupIDLocked rng realm name S)) clientUUID)"

fun scopeNames :: "string list \<Rightarrow> json gomap gomap \<Rightarrow> string list option" where
  "scopeNames [] scopes = Some []"
| "scopeNames (i # ids) scopes =
     (case map_of scopes i of
        None \<Rightarrow> scopeNames ids scopes
      | Some rep \<Rightarrow>
          (case any_str (map_of rep ''name'') of
             None \<Rightarrow> None
           | Some n \<Rightarrow> map_option (Cons n) (scopeNames ids scopes)))"

definition ClientDefaultScopes :: "order \<Rightarrow> string \<Rightarrow> string \<Rightarrow> Server \<Rightarrow> string list option" where
  "ClientDefaultScopes rng realm clientID S =
     scopeNames (mget (mget (st_defScope (s_store S)) realm) (clientIDLocked rng realm clientID S))
       (mget (st_scopes (s_store S)) realm)"

definition ClientOptionalScopes :: "order \<Rightarrow> string \<Rightarrow> string \<Rightarrow> Server \<Rightarrow> string list option" where
  "ClientOptionalScopes rng realm clientID S =
     scopeNames (mget (mget (st_optScope (s_store S)) realm) (clientIDLocked rng realm clientID S))
       (mget (st_scopes (s_store S)) realm)"

section \<open>Serving HTTP\<close>

text \<open>
  What \<open>net/http\<close> and \<open>net/url\<close> do around the handlers: the decoded path and query of a
  request, and the multiplexer. A path with empty, \<open>.\<close> or \<open>..\<close> segments is redirected
  (\<open>Moved\<close>); what a client does with a redirect is not modelled.
\<close>

fun QueryUnescape :: "string \<Rightarrow> string option" where
  "QueryUnescape [] = Some []"
| "QueryUnescape (c # rest) =
     (if c = CHR ''%'' then
        (case rest of
           a # b # tail \<Rightarrow>
             (case (unhex a, unhex b) of
                (Some x, Some y) \<Rightarrow> map_option (Cons (char_of (16 * x + y))) (QueryUnescape tail)
              | _ \<Rightarrow> None)
         | _ \<Rightarrow> None)
      else map_option (Cons (if c = CHR ''+'' then CHR '' '' else c)) (QueryUnescape rest))"

definition before :: "char \<Rightarrow> string \<Rightarrow> string" where
  "before c s = takeWhile (\<lambda>x. x \<noteq> c) s"

definition after :: "char \<Rightarrow> string \<Rightarrow> string" where
  "after c s = drop 1 (dropWhile (\<lambda>x. x \<noteq> c) s)"

definition parse_query :: "string \<Rightarrow> (string \<times> string) list" where
  "parse_query raw =
     List.map_filter
       (\<lambda>seg. if seg = [] \<or> CHR '';'' \<in> set seg then None
              else case (QueryUnescape (before (CHR ''='') seg), QueryUnescape (after (CHR ''='') seg)) of
                     (Some k, Some v) \<Rightarrow> Some (k, v)
                   | _ \<Rightarrow> None)
       (Split (CHR ''&'') raw)"

definition clean_path :: "string \<Rightarrow> bool" where
  "clean_path p \<longleftrightarrow>
     (let segs = Split (CHR ''/'') p in
      hd segs = [] \<and> list_all (\<lambda>s. s \<noteq> ''.'' \<and> s \<noteq> ''..'') segs \<and> [] \<notin> set (butlast (tl segs)))"

definition serve :: "order \<Rightarrow> string \<Rightarrow> request \<Rightarrow> Server \<Rightarrow> reply \<times> Server" where
  "serve rng base q S =
     (let target = TrimPrefix (req_url q) base; raw = before (CHR ''?'') target in
      case PathUnescape raw of
        None \<Rightarrow> (HttpError 400 ''400 Bad Request'', S)
      | Some path \<Rightarrow>
          let r = \<lparr>h_method = req_method q, h_path = path, h_query = parse_query (after (CHR ''?'') target),
                   h_authorization = req_authorization q, h_body = req_body q\<rparr> in
          if \<not> clean_path raw \<or> raw = ''/realms'' \<or> raw = ''/admin'' then (Moved, S)
          else if HasPrefix raw ''/realms/'' then handleToken r S
          else if HasPrefix raw ''/admin/'' then handleAdmin rng r S
          else (notFound, S))"

text \<open>
  The reply on the wire; \<open>render\<close> is the text \<open>encoding/json\<close> writes for a value. The only
  error text that is itself JSON is that of a refused grant.
\<close>

definition to_response :: "(json \<Rightarrow> string) \<Rightarrow> reply \<Rightarrow> response option" where
  "to_response render r =
     (case r of
        Code c \<Rightarrow> Some \<lparr>resp_status = c, resp_bytes = [], resp_json = None\<rparr>
      | HttpError c msg \<Rightarrow>
          Some \<lparr>resp_status = c, resp_bytes = msg @ [char_of (10::nat)],
                resp_json = (if msg = invalid_grant then Some (JObj [(''error'', JStr ''invalid_grant'')]) else None)\<rparr>
      | Body j \<Rightarrow> Some \<lparr>resp_status = 200, resp_bytes = render j @ [char_of (10::nat)], resp_json = Some j\<rparr>
      | Moved \<Rightarrow> Some \<lparr>resp_status = 301, resp_bytes = [], resp_json = None\<rparr>
      | Dropped \<Rightarrow> None)"

text \<open>
  The server as the environment of a client: the world is the server and the number of
  exchanges so far, \<open>now\<close> the time at each of them. Replies are taken to be shorter than the
  client's read limit.
\<close>

definition fake_http :: "order \<Rightarrow> (json \<Rightarrow> string) \<Rightarrow> string \<Rightarrow> (nat \<Rightarrow> int) \<Rightarrow> (Server \<times> nat) http" where
  "fake_http rng render base now =
     \<lparr>send = (\<lambda>w q. case serve rng base q (fst w) of
                      (r, S) \<Rightarrow> (case to_response render r of None \<Rightarrow> Inl ''EOF'' | Some x \<Rightarrow> Inr x, (S, Suc (snd w)))),
      clock = (\<lambda>w. now (snd w)), url_ok = (\<lambda>u. True)\<rparr>"

end
