(* ===== verification/Fake_Backend.thy ===== *)
theory Fake_Backend
  imports Fake_Server
begin

text \<open>
  The operator's client on the in-memory Admin API. The first section reads the paths that
  \<open>resources.go\<close> builds the way the server does. The locale \<open>served\<close> is the interface between
  the operations of \<open>resources.go\<close> and the server: calls whose answers are those of the
  handlers on a stored state. It is interpreted on the bare handlers and on the whole stack,
  \<open>Client.Do\<close> with its tokens over HTTP.
\<close>

section \<open>Paths as the server reads them\<close>

text \<open>A name that is one segment of a URL path, and one the server decodes only once.\<close>

definition plain_seg :: "string \<Rightarrow> bool" where
  "plain_seg s \<longleftrightarrow> s \<noteq> [] \<and> CHR ''/'' \<notin> set s \<and> s \<noteq> ''.'' \<and> s \<noteq> ''..''"

definition plain_name :: "string \<Rightarrow> bool" where
  "plain_name s \<longleftrightarrow> plain_seg s \<and> CHR ''%'' \<notin> set s"

definition joined :: "string list \<Rightarrow> string" where
  "joined segs = concat (map (Cons (CHR ''/'')) segs)"

lemma joined_simps [simp]: "joined [] = []" "joined (s # segs) = CHR ''/'' # s @ joined segs"
  by (simp_all add: joined_def)

lemma joined_append: "joined (xs @ ys) = joined xs @ joined ys"
  by (simp add: joined_def)

lemma plain_nameD [simp]: "plain_name s \<Longrightarrow> plain_seg s"
  by (simp add: plain_name_def)

lemma Split_joined: "\<forall>s \<in> set segs. CHR ''/'' \<notin> set s \<Longrightarrow> Split (CHR ''/'') (joined segs) = [] # segs"
proof (induction segs)
  case (Cons s segs)
  then show ?case
    by (cases segs) (simp_all add: Split_plain Split_append)
qed simp

lemma PathUnescape_append: "PathUnescape (PathEscape s @ t) = map_option ((@) s) (PathUnescape t)"
proof (induction s)
  case (Cons c s)
  then show ?case
    using path_plain_facts
    by (auto simp: PathEscape_Cons PathUnescape_percent option.map_comp comp_def)
qed (simp add: option.map_ident)

lemma PathUnescape_joined: "PathUnescape (joined (map PathEscape segs)) = Some (joined segs)"
  by (induction segs) (simp_all add: PathUnescape_append)

lemma PathUnescape_plain: "CHR ''%'' \<notin> set s \<Longrightarrow> PathUnescape s = Some s"
  by (induction s) auto

text \<open>Escaped text is made of unreserved characters and the few listed.\<close>

definition escape_char :: "char \<Rightarrow> bool" where
  "escape_char x \<longleftrightarrow> x \<in> set ''%0123456789ABCDEF''"

lemma hexdigit_range: "d < 16 \<Longrightarrow> escape_char (hexdigit d)"
proof -
  assume "d < 16"
  then have "d \<in> set [0..<16]" by simp
  moreover have "list_all (\<lambda>d. escape_char (hexdigit d)) [0..<16]" by code_simp
  ultimately show ?thesis by (simp only: list_all_iff)
qed

lemma percent_range: "x \<in> set (percent c) \<Longrightarrow> escape_char x"
proof -
  assume "x \<in> set (percent c)"
  moreover have "escape_char (CHR ''%'')" by code_simp
  ultimately show ?thesis
    using of_char_bounds by (auto simp: percent_def Let_def hexdigit_range)
qed

lemma PathEscape_range: "x \<in> set (PathEscape s) \<Longrightarrow> path_plain x \<or> escape_char x"
proof (induction s)
  case (Cons c s)
  then show ?case
    using percent_range [of x c] by (cases "path_plain c") (auto simp: PathEscape_Cons)
qed simp

lemma QueryEscape_Cons:
  "QueryEscape (c # s) = (if unreserved c then [c] else if c = CHR '' '' then ''+'' else percent c) @ QueryEscape s"
  by (simp add: QueryEscape_def)

lemma QueryEscape_range: "x \<in> set (QueryEscape s) \<Longrightarrow> unreserved x \<or> x = CHR ''+'' \<or> escape_char x"
proof (induction s)
  case (Cons c s)
  then show ?case
    using percent_range [of x c]
    by (cases "unreserved c"; cases "c = CHR '' ''") (simp_all add: QueryEscape_Cons, blast+)
qed (simp add: QueryEscape_def)

lemma QueryEscape_no_separators:
  "CHR ''&'' \<notin> set (QueryEscape s)" "CHR '';'' \<notin> set (QueryEscape s)" "CHR ''='' \<notin> set (QueryEscape s)"
proof -
  have "\<not> unreserved c \<and> c \<noteq> CHR ''+'' \<and> \<not> escape_char c" if "c \<in> set ''&;=''" for c
  proof -
    have "list_all (\<lambda>c. \<not> unreserved c \<and> c \<noteq> CHR ''+'' \<and> \<not> escape_char c) ''&;=''" by code_simp
    with that show ?thesis unfolding list_all_iff by blast
  qed
  then have "c \<notin> set (QueryEscape s)" if "c \<in> set ''&;=''" for c
    using that QueryEscape_range by blast
  then show "CHR ''&'' \<notin> set (QueryEscape s)" "CHR '';'' \<notin> set (QueryEscape s)" "CHR ''='' \<notin> set (QueryEscape s)"
    by (simp_all only: list.set insert_iff simp_thms)
qed

lemma QueryUnescape_percent: "QueryUnescape (percent c @ s) = map_option (Cons c) (QueryUnescape s)"
  by (simp add: percent_def Let_def hexdigit_facts of_char_bounds)

lemma query_unescape_escape: "QueryUnescape (QueryEscape s) = Some s"
proof (induction s)
  case (Cons c s)
  have "\<not> unreserved (CHR ''%'')" "\<not> unreserved (CHR ''+'')" by (simp_all add: unreserved_def)
  with Cons show ?case
    by (auto simp: QueryEscape_Cons QueryUnescape_percent)
qed (simp add: QueryEscape_def)

text \<open>One query parameter, alone or followed by others.\<close>

lemma parse_query_one:
  assumes "QueryUnescape k = Some k" and "k \<noteq> []" and "\<forall>c \<in> {CHR ''&'', CHR '';'', CHR ''=''}. c \<notin> set k"
  shows "parse_query (k @ CHR ''='' # QueryEscape v) = [(k, v)]"
    and "parse_query (k @ CHR ''='' # QueryEscape v @ CHR ''&'' # rest) = (k, v) # parse_query rest"
proof -
  let ?seg = "k @ CHR ''='' # QueryEscape v"
  have cut: "before (CHR ''='') ?seg = k" "after (CHR ''='') ?seg = QueryEscape v"
    using assms(3) by (auto simp: before_def after_def takeWhile_append dropWhile_append)
  have amp: "CHR ''&'' \<notin> set ?seg" and semi: "CHR '';'' \<notin> set ?seg"
    using assms(3) QueryEscape_no_separators by auto
  show "parse_query ?seg = [(k, v)]"
    using semi by (simp add: parse_query_def Split_plain [OF amp] cut assms(1,2) query_unescape_escape List.map_filter_simps)
  show "parse_query (k @ CHR ''='' # QueryEscape v @ CHR ''&'' # rest) = (k, v) # parse_query rest"
    using semi Split_append [OF amp, of rest]
    by (simp add: parse_query_def cut assms(1,2) query_unescape_escape List.map_filter_simps)
qed

lemma before_append: "c \<notin> set s \<Longrightarrow> before c (s @ t) = s @ before c t"
  and after_append: "c \<notin> set s \<Longrightarrow> after c (s @ t) = after c t"
  by (simp_all add: before_def after_def takeWhile_append dropWhile_append)

section \<open>One authorized call on the stored data\<close>

definition body_of :: "json option \<Rightarrow> req_body" where
  "body_of b = (case b of None \<Rightarrow> NoBody | Some j \<Rightarrow> JsonBody j)"

definition api_step :: "order \<Rightarrow> string \<Rightarrow> string \<Rightarrow> json option \<Rightarrow> Store \<Rightarrow> reply \<times> Store" where
  "api_step rng meth path body S =
     (case serve rng []
             \<lparr>req_method = meth, req_url = path, req_authorization = ''Bearer'', req_contentType = [],
              req_body = body_of body\<rparr>
             \<lparr>s_creds = [], s_issued = 0, s_revoked = False, s_store = S\<rparr> of
        (r, S') \<Rightarrow> (r, s_store S'))"

lemma TrimPrefix_append [simp]: "TrimPrefix (base @ path) base = path"
  by (simp add: TrimPrefix_def HasPrefix_def)

lemma TrimPrefix_Nil [simp]: "TrimPrefix path [] = path"
  by (simp add: TrimPrefix_def HasPrefix_def)

lemma HasPrefix_append [simp]: "HasPrefix (base @ path) base"
  by (simp add: HasPrefix_def)

lemma HasPrefixE: "HasPrefix s p \<Longrightarrow> \<exists>t. s = p @ t"
  unfolding HasPrefix_def by (metis append_take_drop_id)

text \<open>The server answers an authorized call under \<open>/admin/\<close> from its stored data alone.\<close>

lemma serve_api:
  assumes "HasPrefix path ''/admin/''" and "req_url q = base @ path" and "req_authorization q \<noteq> []"
    and "req_method q = meth" and "req_body q = body_of body"
  shows "serve rng base q S =
    (fst (api_step rng meth path body (s_store S)), S\<lparr>s_store := snd (api_step rng meth path body (s_store S))\<rparr>)"
proof -
  obtain t where path: "path = ''/admin/'' @ t" using HasPrefixE [OF assms(1)] by blast
  have raw: "before (CHR ''?'') path = ''/admin/'' @ before (CHR ''?'') t" by (simp add: path before_def)
  show ?thesis
    using assms(2-5)
    by (simp add: api_step_def serve_def handleAdmin_def handleRealmScoped_def Let_def raw HasPrefix_def
        split: option.split prod.split)
qed

lemma clean_joined:
  assumes "\<forall>s \<in> set segs. plain_seg s"
  shows "clean_path (joined (map PathEscape segs))"
proof -
  have esc: "PathEscape s \<noteq> [] \<and> PathEscape s \<noteq> ''.'' \<and> PathEscape s \<noteq> ''..''" if "plain_seg s" for s
  proof -
    have "PathEscape [] = []" "PathEscape ''.'' = ''.''" "PathEscape ''..'' = ''..''" by code_simp+
    then show ?thesis using that unfolding plain_seg_def by (metis PathEscape_inj)
  qed
  have "Split (CHR ''/'') (joined (map PathEscape segs)) = [] # map PathEscape segs"
    by (rule Split_joined) (simp add: PathEscape_no_slash)
  with assms esc show ?thesis
    by (fastforce simp: clean_path_def list_all_iff dest!: in_set_butlastD)
qed

lemma joined_no_query: "CHR ''?'' \<notin> set (joined (map PathEscape segs))"
  by (induction segs) (simp_all add: PathEscape_no_query)

lemma Split_tl_joined:
  "segs \<noteq> [] \<Longrightarrow> \<forall>s \<in> set segs. plain_seg s \<Longrightarrow> Split (CHR ''/'') (tl (joined segs)) = segs"
  using Split_joined [of segs] by (cases segs) (auto simp: plain_seg_def)

lemma api_step_scoped:
  assumes "segs \<noteq> []" and "\<forall>s \<in> set segs. plain_seg s" and "q = [] \<or> (\<exists>raw. q = CHR ''?'' # raw)"
  shows "api_step rng meth (''/admin/realms'' @ joined (map PathEscape segs) @ q) body S =
    handleRealmScoped rng
      \<lparr>h_method = meth, h_path = ''/admin/realms'' @ joined segs, h_query = parse_query (after (CHR ''?'') q),
       h_authorization = ''Bearer'', h_body = body_of body\<rparr> (tl (joined segs)) S"
proof -
  let ?all = "''admin'' # ''realms'' # segs"
  define raw where "raw = joined (map PathEscape ?all)"
  define path where "path = joined ?all"
  have lit: "PathEscape ''admin'' = ''admin''" "PathEscape ''realms'' = ''realms''" by code_simp+
  have url: "''/admin/realms'' @ joined (map PathEscape segs) @ q = raw @ q" by (simp add: raw_def lit)
  have cut: "before (CHR ''?'') (raw @ q) = raw" "after (CHR ''?'') (raw @ q) = after (CHR ''?'') q"
    using assms(3) joined_no_query [of ?all] unfolding raw_def [symmetric]
    by (auto simp: before_append after_append) (simp_all add: before_def)
  have "clean_path raw"
    unfolding raw_def by (rule clean_joined) (use assms(2) in \<open>auto simp: plain_seg_def\<close>)
  moreover have "raw = ''/admin/realms/'' @ tl (joined (map PathEscape segs))"
    using assms(1) by (cases segs) (simp_all add: raw_def lit)
  then have "raw \<noteq> ''/realms''" "raw \<noteq> ''/admin''" "\<not> HasPrefix raw ''/realms/''" "HasPrefix raw ''/admin/''"
    by (simp_all add: HasPrefix_def)
  moreover have "PathUnescape raw = Some path" by (simp only: raw_def path_def PathUnescape_joined)
  moreover have "TrimPrefix path ''/admin'' = ''/realms/'' @ tl (joined segs)"
    using assms(1) by (cases segs) (simp_all add: path_def TrimPrefix_def HasPrefix_def)
  moreover have "path = ''/admin/realms'' @ joined segs" by (simp add: path_def)
  moreover obtain s ss where "segs = s # ss" using assms(1) by (cases segs) auto
  ultimately show ?thesis
    unfolding url api_step_def serve_def handleAdmin_def
    by (simp add: cut Let_def TrimPrefix_def HasPrefix_def split: prod.split)
qed

lemma realmPath_joined: "realmPath r = ''/admin/realms'' @ joined (map PathEscape [r])"
  by (simp add: realmPath_def)

text \<open>A path below a realm reaches the handler of its collection with the decoded segments.\<close>

lemma api_route:
  assumes "plain_name r" and "list_all plain_seg sub" and "q = [] \<or> (\<exists>raw. q = CHR ''?'' # raw)"
  shows "api_step rng meth (realmPath r @ joined (map PathEscape sub) @ q) body S =
    routeRealm rng meth (parse_query (after (CHR ''?'') q)) (body_of body) r sub S"
proof -
  have plain: "\<forall>s \<in> set (r # sub). plain_seg s" using assms(1,2) by (simp add: list_all_iff)
  have "PathUnescape r = Some r" using assms(1) by (simp add: plain_name_def PathUnescape_plain)
  then show ?thesis
    using api_step_scoped [OF _ plain assms(3), of rng meth body S] Split_tl_joined [OF _ plain]
    by (simp add: realmPath_joined handleRealmScoped_def Let_def)
qed

lemmas api_route_bare = api_route [where q = "[]", simplified]

lemma parse_query_Nil [simp]: "parse_query (after c []) = []"
  by (simp add: after_def parse_query_def List.map_filter_simps)

lemma literal_segments [simp]:
  "plain_seg ''clients''" "plain_seg ''client-scopes''" "plain_seg ''roles''" "plain_seg ''identity-provider''"
  "plain_seg ''instances''" "plain_seg ''groups''" "plain_seg ''composites''" "plain_seg ''client-secret''"
  "plain_seg ''default-client-scopes''" "plain_seg ''optional-client-scopes''" "plain_seg ''role-mappings''"
  "plain_seg ''realm''"
  by (simp_all add: plain_seg_def)

lemma literal_escapes [simp]:
  "PathEscape ''clients'' = ''clients''" "PathEscape ''client-scopes'' = ''client-scopes''"
  "PathEscape ''roles'' = ''roles''" "PathEscape ''identity-provider'' = ''identity-provider''"
  "PathEscape ''instances'' = ''instances''" "PathEscape ''groups'' = ''groups''"
  "PathEscape ''composites'' = ''composites''" "PathEscape ''client-secret'' = ''client-secret''"
  "PathEscape ''default-client-scopes'' = ''default-client-scopes''"
  "PathEscape ''optional-client-scopes'' = ''optional-client-scopes''"
  "PathEscape ''role-mappings'' = ''role-mappings''" "PathEscape ''realm'' = ''realm''"
  by code_simp+

lemma api_paths:
  assumes "plain_name r"
  shows "api_step rng m (realmPath r) b S = handleRealm m (body_of b) r S"
    and "api_step rng m (realmPath r @ ''/clients'') b S = handleClients rng m [] (body_of b) r [] S"
    and "api_step rng m (realmPath r @ ''/client-scopes'') b S = handleClientScopes rng m (body_of b) r [] S"
    and "api_step rng m (realmPath r @ ''/roles'') b S = handleRoles m (body_of b) r [] S"
    and "api_step rng m (realmPath r @ ''/identity-provider/instances'') b S =
      handleIdentityProviders m (body_of b) r [] S"
    and "api_step rng m (realmPath r @ ''/groups'') b S = handleGroups rng m [] (body_of b) r [] S"
  using api_route_bare [OF assms, of "[]"] api_route_bare [OF assms, of "[''clients'']"]
    api_route_bare [OF assms, of "[''client-scopes'']"] api_route_bare [OF assms, of "[''roles'']"]
    api_route_bare [OF assms, of "[''identity-provider'', ''instances'']"] api_route_bare [OF assms, of "[''groups'']"]
  by (simp_all add: routeRealm_def)

lemma api_item_paths:
  assumes "plain_name r" and "plain_seg n"
  shows "api_step rng m (client_path r n) b S = handleClients rng m [] (body_of b) r [n] S"
    and "api_step rng m (client_path r n @ ''/client-secret'') b S =
      handleClients rng m [] (body_of b) r [n, ''client-secret''] S"
    and "api_step rng m (scope_path r n) b S = handleClientScopes rng m (body_of b) r [n] S"
    and "api_step rng m (role_path r n) b S = handleRoles m (body_of b) r [n] S"
    and "api_step rng m (role_path r n @ ''/composites'') b S = handleRoles m (body_of b) r [n, ''composites''] S"
    and "api_step rng m (idp_path r n) b S = handleIdentityProviders m (body_of b) r [n] S"
    and "api_step rng m (group_path r n) b S = handleGroups rng m [] (body_of b) r [n] S"
    and "api_step rng m (group_path r n @ ''/role-mappings'') b S =
      handleGroups rng m [] (body_of b) r [n, ''role-mappings''] S"
    and "api_step rng m (group_path r n @ ''/role-mappings/realm'') b S =
      handleGroups rng m [] (body_of b) r [n, ''role-mappings'', ''realm''] S"
  using assms(2) api_route_bare [OF assms(1), of "[''clients'', n]"]
    api_route_bare [OF assms(1), of "[''clients'', n, ''client-secret'']"]
    api_route_bare [OF assms(1), of "[''client-scopes'', n]"] api_route_bare [OF assms(1), of "[''roles'', n]"]
    api_route_bare [OF assms(1), of "[''roles'', n, ''composites'']"]
    api_route_bare [OF assms(1), of "[''identity-provider'', ''instances'', n]"]
    api_route_bare [OF assms(1), of "[''groups'', n]"]
    api_route_bare [OF assms(1), of "[''groups'', n, ''role-mappings'']"]
    api_route_bare [OF assms(1), of "[''groups'', n, ''role-mappings'', ''realm'']"]
  by (simp_all add: routeRealm_def client_path_def scope_path_def role_path_def idp_path_def group_path_def)

lemma api_find_paths:
  assumes "plain_name r"
  shows "api_step rng m (realmPath r @ ''/clients?clientId='' @ QueryEscape c) b S =
      handleClients rng m [(''clientId'', c)] (body_of b) r [] S"
    and "api_step rng m (realmPath r @ ''/groups?search='' @ QueryEscape c @ ''&exact=true&max=2'') b S =
      handleGroups rng m [(''search'', c), (''exact'', ''true''), (''max'', ''2'')] (body_of b) r [] S"
proof -
  have one: "parse_query (after (CHR ''?'') (''?clientId='' @ QueryEscape c)) = [(''clientId'', c)]"
    using parse_query_one(1) [of "''clientId''" c] by (simp add: after_def)
  show "api_step rng m (realmPath r @ ''/clients?clientId='' @ QueryEscape c) b S =
      handleClients rng m [(''clientId'', c)] (body_of b) r [] S"
    using api_route [OF assms, of "[''clients'']" "''?clientId='' @ QueryEscape c" rng m b S] one
    by (simp add: routeRealm_def)
  have "parse_query ''exact=true&max=2'' = [(''exact'', ''true''), (''max'', ''2'')]" by code_simp
  then have two: "parse_query (after (CHR ''?'') (''?search='' @ QueryEscape c @ ''&exact=true&max=2'')) =
      [(''search'', c), (''exact'', ''true''), (''max'', ''2'')]"
    using parse_query_one(2) [of "''search''" c "''exact=true&max=2''"] by (simp add: after_def)
  show "api_step rng m (realmPath r @ ''/groups?search='' @ QueryEscape c @ ''&exact=true&max=2'') b S =
      handleGroups rng m [(''search'', c), (''exact'', ''true''), (''max'', ''2'')] (body_of b) r [] S"
    using api_route [OF assms, of "[''groups'']" "''?search='' @ QueryEscape c @ ''&exact=true&max=2''" rng m b S] two
    by (simp add: routeRealm_def)
qed

lemma api_assignment_paths:
  assumes "plain_name r" and "plain_seg n" and "plain_seg s"
    and "kind = ''default-client-scopes'' \<or> kind = ''optional-client-scopes''"
  shows "api_step rng m (client_path r n @ CHR ''/'' # kind) b S = handleClients rng m [] (body_of b) r [n, kind] S"
    and "api_step rng m (client_path r n @ CHR ''/'' # kind @ CHR ''/'' # PathEscape s) b S =
      handleClients rng m [] (body_of b) r [n, kind, s] S"
proof -
  have kind: "plain_seg kind" "PathEscape kind = kind" using assms(4) by auto
  show "api_step rng m (client_path r n @ CHR ''/'' # kind) b S = handleClients rng m [] (body_of b) r [n, kind] S"
    and "api_step rng m (client_path r n @ CHR ''/'' # kind @ CHR ''/'' # PathEscape s) b S =
      handleClients rng m [] (body_of b) r [n, kind, s] S"
    using assms(2,3) kind api_route_bare [OF assms(1), of "[''clients'', n, kind]"]
      api_route_bare [OF assms(1), of "[''clients'', n, kind, s]"]
    by (simp_all add: routeRealm_def client_path_def)
qed

section \<open>Authorized calls are never refused\<close>

definition refuses :: "reply \<Rightarrow> bool" where
  "refuses r \<longleftrightarrow> (case r of Code c \<Rightarrow> c = 401 \<or> c = 403 | HttpError c msg \<Rightarrow> c = 401 \<or> c = 403 | _ \<Rightarrow> False)"

lemma refuses_simps [simp]:
  "refuses (Code c) \<longleftrightarrow> c = 401 \<or> c = 403" "refuses (HttpError c msg) \<longleftrightarrow> c = 401 \<or> c = 403"
  "\<not> refuses (Body j)" "\<not> refuses Moved" "\<not> refuses Dropped" "\<not> refuses notFound" "\<not> refuses badJSON"
  by (simp_all add: refuses_def notFound_def badJSON_def)

lemma handlers_never_refuse:
  "\<not> refuses (fst (createRealm b S))" "\<not> refuses (fst (handleRealm m b r S))"
  "\<not> refuses (fst (clientCollection rng m q b r S))" "\<not> refuses (fst (clientRole r n seg S))"
  "\<not> refuses (fst (clientRoles m b r n S))" "\<not> refuses (fst (clientSecret m r n S))"
  "\<not> refuses (fst (scopeAssignments m r sub scopes store))" "\<not> refuses (fst (singleRep m b r n rs))"
  "\<not> refuses (fst (scopeCollection rng m b r S))" "\<not> refuses (fst (roleCollection m b r S))"
  "\<not> refuses (fst (roleComposites m b r n S))" "\<not> refuses (fst (singleRole m b r n S))"
  "\<not> refuses (fst (idpCollection m b r S))" "\<not> refuses (fst (groupCollection rng m q b r S))"
  "\<not> refuses (fst (realmMappings m b r n S))" "\<not> refuses (fst (clientMappings m b r sub S))"
  unfolding createRealm_def handleRealm_def clientCollection_def clientRole_def clientRoles_def clientSecret_def
    scopeAssignments_def singleRep_def scopeCollection_def roleCollection_def roleComposites_def singleRole_def
    idpCollection_def groupCollection_def realmMappings_def clientMappings_def Let_def
  by (simp_all split: option.split)

lemma routeRealm_never_refuses: "\<not> refuses (fst (routeRealm rng m q b r sub S))"
  unfolding routeRealm_def handleClients_def handleClientScopes_def handleRoles_def handleIdentityProviders_def
    handleGroups_def Let_def
  using handlers_never_refuse by (simp add: split_beta split: option.split)

lemma api_step_never_refuses: "HasPrefix path ''/admin/'' \<Longrightarrow> \<not> refuses (fst (api_step rng m path b S))"
proof -
  assume "HasPrefix path ''/admin/''"
  then obtain t where path: "path = ''/admin/'' @ t" using HasPrefixE by blast
  have raw: "before (CHR ''?'') path = ''/admin/'' @ before (CHR ''?'') t" by (simp add: path before_def)
  then show ?thesis
    using handlers_never_refuse(1) routeRealm_never_refuses
    by (simp add: api_step_def serve_def handleAdmin_def handleRealmScoped_def Let_def raw HasPrefix_def split_beta
        split: option.split)
qed

section \<open>The interface\<close>

text \<open>What a call returns for a reply: the decoded body, or the error of its status.\<close>

definition answer :: "(json \<Rightarrow> string) \<Rightarrow> string \<Rightarrow> string \<Rightarrow> out \<Rightarrow> reply \<Rightarrow> goerr + json" where
  "answer render meth path target r =
     (case to_response render r of
        None \<Rightarrow> Inl (Wrapf [''%s %s: %w'', meth, path] (TransportErr ''EOF''))
      | Some x \<Rightarrow> decode_response meth path target x)"

text \<open>
  \<open>kc\<close> is served from the stored data: in a good state every Admin API call returns the
  answer of the handler on \<open>store w\<close> and leaves the data the handler left.
\<close>

locale served =
  fixes rng :: order and render :: "json \<Rightarrow> string" and kc :: "'w kc" and store :: "'w \<Rightarrow> Store" and ok :: "'w \<Rightarrow> bool"
  assumes call: "\<lbrakk>ok w; HasPrefix path ''/admin/''; kc meth path body target w = (x, w')\<rbrakk> \<Longrightarrow>
    x = answer render meth path target (fst (api_step rng meth path body (store w))) \<and>
    store w' = snd (api_step rng meth path body (store w)) \<and> ok w'"

definition store_kc :: "order \<Rightarrow> (json \<Rightarrow> string) \<Rightarrow> Store kc" where
  "store_kc rng render meth path body target S =
     (case api_step rng meth path body S of (r, S') \<Rightarrow> (answer render meth path target r, S'))"

interpretation bare: served rng render "store_kc rng render" "\<lambda>S. S" "\<lambda>S. True"
  by unfold_locales (auto simp: store_kc_def split: prod.splits)

section \<open>The whole client on the server\<close>

text \<open>The server grants tokens for the configuration.\<close>

definition accepts :: "Server \<Rightarrow> Config \<Rightarrow> bool" where
  "accepts S c \<longleftrightarrow>
     (let f = token_form c in
      if mget f ''username'' \<noteq> [] then mget (s_creds S) (mget f ''username'') = mget f ''password''
      else mget f ''client_id'' \<noteq> [] \<and> mget (s_creds S) (''client:'' @ mget f ''client_id'') = mget f ''client_secret'')"

definition logged_in :: "string \<Rightarrow> (Server \<times> nat) kcstate \<Rightarrow> bool" where
  "logged_in base s \<longleftrightarrow>
     URL (cfg (cli s)) = base \<and> plain_seg (AdminRealm (cfg (cli s))) \<and>
     accepts (fst (wire s)) (cfg (cli s)) \<and> \<not> s_revoked (fst (wire s))"

definition data_of :: "(Server \<times> nat) kcstate \<Rightarrow> Store" where
  "data_of s = s_store (fst (wire s))"

lemma accepts_simps [simp]: "accepts (S\<lparr>s_issued := n\<rparr>) c = accepts S c" "accepts (S\<lparr>s_store := x\<rparr>) c = accepts S c"
  by (simp_all add: accepts_def)

lemma mget_simps [simp]: "mget ((k, v) # m) k' = (if k' = k then v else mget m k')" "mget [] k' = []"
  by (simp_all add: mget_def)

lemma serve_token:
  assumes "plain_seg (AdminRealm c)" and "accepts S c" and "\<not> s_revoked S"
  shows "serve rng (URL c) (token_request c) S =
    (Body (JObj [(''access_token'', JStr (''fake-token-'' @ itoa (Suc (s_issued S)))),
                 (''expires_in'', JNum 300), (''token_type'', JStr ''Bearer'')]),
     S\<lparr>s_issued := Suc (s_issued S)\<rparr>)"
proof -
  let ?segs = "[''realms'', AdminRealm c, ''protocol'', ''openid-connect'', ''token'']"
  define raw where "raw = joined (map PathEscape ?segs)"
  have lit: "PathEscape ''realms'' = ''realms''" "PathEscape ''protocol'' = ''protocol''"
    "PathEscape ''openid-connect'' = ''openid-connect''" "PathEscape ''token'' = ''token''" by code_simp+
  have "raw = ''/realms/'' @ PathEscape (AdminRealm c) @ ''/protocol/openid-connect/token''"
    by (simp add: raw_def lit)
  moreover have "before (CHR ''?'') raw = raw"
    using before_append [OF joined_no_query, of ?segs "[]"] unfolding raw_def [symmetric] by (simp add: before_def)
  moreover have "clean_path raw"
    unfolding raw_def by (rule clean_joined) (use assms(1) in \<open>auto simp: plain_seg_def\<close>)
  moreover have "PathUnescape raw = Some (joined ?segs)" by (simp only: raw_def PathUnescape_joined)
  moreover have "HasSuffix (joined ?segs) ''/protocol/openid-connect/token''" by (simp add: HasSuffix_def)
  ultimately show ?thesis
    using assms(2,3)
    by (simp add: serve_def token_request_def token_endpoint_def handleToken_def form_value_def accepts_def Let_def
        HasPrefix_def split: if_splits)
qed

lemma fake_http_simps [simp]:
  "send (fake_http rng render base now) w q =
     (case serve rng base q (fst w) of
        (r, S) \<Rightarrow> (case to_response render r of None \<Rightarrow> Inl ''EOF'' | Some x \<Rightarrow> Inr x, (S, Suc (snd w))))"
  "clock (fake_http rng render base now) w = now (snd w)"
  "url_ok (fake_http rng render base now) = (\<lambda>u. True)"
  by (simp_all add: fake_http_def)

lemma itoa_not_Nil [simp]: "itoa n \<noteq> []"
  by (subst itoa.simps) simp

lemma Token_fake:
  assumes "logged_in base s"
  shows "\<exists>tok s'. Token (fake_http rng render base now) s = (Inr tok, s') \<and> tok \<noteq> [] \<and> logged_in base s' \<and>
    data_of s' = data_of s \<and> cfg (cli s') = cfg (cli s)"
proof (cases "token_cached (fake_http rng render base now) s")
  case True
  with assms show ?thesis by (simp add: Token_def token_cached_def)
next
  case False
  have serve: "serve rng base (token_request (cfg (cli s))) (fst (wire s)) =
    (Body (JObj [(''access_token'', JStr (''fake-token-'' @ itoa (Suc (s_issued (fst (wire s)))))),
                 (''expires_in'', JNum 300), (''token_type'', JStr ''Bearer'')]),
     (fst (wire s))\<lparr>s_issued := Suc (s_issued (fst (wire s)))\<rparr>)"
    using assms serve_token [of "cfg (cli s)" "fst (wire s)" rng] by (simp add: logged_in_def)
  from False assms show ?thesis
    by (simp add: Token_def Let_def serve to_response_def decode_token_def str_field_def int64_field_def
        logged_in_def data_of_def)
qed

lemma doOnce_fake:
  assumes "logged_in base s" and "HasPrefix path ''/admin/''"
    and "doOnce (fake_http rng render base now) meth path body target s = (x, s')"
  shows "x = answer render meth path target (fst (api_step rng meth path body (data_of s))) \<and>
    data_of s' = snd (api_step rng meth path body (data_of s)) \<and> logged_in base s'"
proof -
  obtain tok s1 where tok: "Token (fake_http rng render base now) s = (Inr tok, s1)" "logged_in base s1"
      "data_of s1 = data_of s"
    using Token_fake [OF assms(1)] by metis
  let ?q = "api_request (cfg (cli s1)) tok meth path body"
  have base: "URL (cfg (cli s1)) = base" using tok(2) by (simp add: logged_in_def)
  have "serve rng base ?q (fst (wire s1)) =
    (fst (api_step rng meth path body (data_of s1)),
     (fst (wire s1))\<lparr>s_store := snd (api_step rng meth path body (data_of s1))\<rparr>)"
    unfolding data_of_def
    by (rule serve_api [OF assms(2)]) (simp_all add: api_request_def base body_of_def)
  then show ?thesis
    using assms(3) tok base
    by (auto simp: doOnce_def Let_def answer_def logged_in_def data_of_def split: option.splits)
qed

lemma answer_not_auth: "\<not> refuses r \<Longrightarrow> answer render meth path target r = Inl e \<Longrightarrow> \<not> errors_Is e ErrAuth"
  by (cases r) (auto simp: answer_def to_response_def decode_response_def Let_def split: if_splits option.splits)

lemma observeRequest_fields [simp]:
  "wire (observeRequest m e s) = wire s" "cli (observeRequest m e s) = cli s"
  by (simp_all add: observeRequest_def)

interpretation stack: served rng render "Do (fake_http rng render base now)" data_of "logged_in base"
proof
  fix w path meth body target x and w' :: "(Server \<times> nat) kcstate"
  assume ok: "logged_in base w" "HasPrefix path ''/admin/''"
    and run: "Do (fake_http rng render base now) meth path body target w = (x, w')"
  obtain y w1 where once: "doOnce (fake_http rng render base now) meth path body target w = (y, w1)"
    by (cases "doOnce (fake_http rng render base now) meth path body target w")
  note step = doOnce_fake [OF ok once]
  have "\<not> refuses (fst (api_step rng meth path body (data_of w)))" by (rule api_step_never_refuses [OF ok(2)])
  with step have "\<not> (case y of Inl e \<Rightarrow> errors_Is e ErrAuth | Inr _ \<Rightarrow> False)"
    by (auto split: sum.split dest: answer_not_auth)
  with run once have "x = y" "w' = observeRequest meth (err_of y) w1"
    by (auto simp: Do_def)
  with step show "x = answer render meth path target (fst (api_step rng meth path body (data_of w))) \<and>
      data_of w' = snd (api_step rng meth path body (data_of w)) \<and> logged_in base w'"
    by (simp add: data_of_def logged_in_def)
qed

end
