(* ===== verification/Convergence.thy ===== *)
theory Convergence
  imports Lifecycle
begin

text \<open>
  Convergence of the reconciliation against a server that stores what it is given. The
  locale \<open>stored_driver\<close> is the contract of a driver with such a server: reading returns
  the stored representation, creating and updating leave one that carries the payload, and
  \<open>PostApply\<close>, which reads no more than \<open>ident\<close> of the representation, settles what lives
  outside it. From it follow the two halves of
  convergence: one pass brings the server to the spec (\<open>pass_matches\<close>), and a pass over
  the object as the first one left it changes nothing (\<open>next_pass_quiet\<close>). Together they
  are \<open>settles\<close>.
\<close>

section \<open>Representations that carry a payload\<close>

definition carries :: "json gomap \<Rightarrow> json gomap \<Rightarrow> bool" where
  "carries rep payload \<longleftrightarrow> (\<forall>p \<in> set payload. map_of rep (fst p) = Some (snd p))"

lemma carries_matches:
  assumes "carries rep payload" and "\<forall>p \<in> set payload. jwf (snd p)"
  shows "\<not> PayloadDiffers rep payload"
proof -
  have "\<not> entryDiffers rep k v" if "(k, v) \<in> set payload" for k v
  proof -
    have "map_of rep k = Some v" using assms(1) that by (auto simp: carries_def)
    moreover have "managedValueEqual v v" using assms(2) that managedValueEqual_refl by auto
    ultimately show ?thesis by (simp add: entryDiffers_def)
  qed
  then show ?thesis by (auto simp: PayloadDiffers_iff)
qed

lemma matches_subset: "\<not> PayloadDiffers rep payload \<Longrightarrow> set payload' \<subseteq> set payload \<Longrightarrow> \<not> PayloadDiffers rep payload'"
  by (auto simp: PayloadDiffers_iff)

lemma MergePayload_carries:
  assumes "distinct (map fst payload)" and "\<forall>p \<in> set payload. snd p \<noteq> JNull"
  shows "carries (MergePayload remote payload) payload"
  using assms(2) MergePayload_find [OF assms(1)] map_of_is_SomeI [OF assms(1)]
  by (fastforce simp: carries_def)

section \<open>Recording the same spec again\<close>

lemma EffectivePayload_first: "mjwf m \<Longrightarrow> EffectivePayload m (Raw []) = Some m"
  by (simp add: EffectivePayload_def deepCopyMap_id)

lemma resetRemoved_same: "fst ` set prev \<subseteq> fst ` set payload \<Longrightarrow> resetRemoved payload prev = payload"
proof (induction payload prev rule: resetRemoved.induct)
  case (2 payload k previous prev)
  then have "map_of payload k \<noteq> None" by (simp add: map_of_eq_None_iff)
  with 2 show ?case by (auto split: option.split)
qed simp

lemma EffectivePayload_again: "mjwf m \<Longrightarrow> EffectivePayload m (Marshal (JObj m)) = Some m"
  by (simp add: EffectivePayload_def Marshal_def Unmarshal_map_def deepCopyMap_id resetRemoved_same image_image)

section \<open>The steady pass\<close>

lemma steady_pass:
  assumes "well_behaved E" and "live E drv obj st kc w"
    and "EffectivePayload (spec_map drv obj) (last_applied obj) = Some payload"
    and "d_Get drv kc obj w = (Inr remote, w')" and "\<not> refused drv obj remote" and "managed_by_us drv obj remote"
    and "d_PreparePayload drv (e_client E) obj (cluster st) (d_ManagedMarker drv payload) = Inr prepared"
    and "\<not> PayloadDiffers remote prepared"
    and "d_PostApply drv kc (e_client E) obj remote (cluster st) w' = ((False, None, obj, cluster st), w'')"
    and "recorded_spec obj = Some (Marshal (JObj (spec_map drv obj)))"
  shows "case Reconcile E drv obj st of (res, obj', st') \<Rightarrow>
    res = RequeueAfter (e_resync E) \<and> net st' = w'' \<and> events st' = events st \<and>
    has_cond E obj' ConditionReady ConditionTrue ReasonSucceeded (Lit ''Server state matches spec'') \<and>
    has_cond E obj' ConditionSynced ConditionTrue ReasonSucceeded (Lit ''Server state matches spec'') \<and>
    emitted st' = emitted st @ [ReconciliationsTotal (obj_kind obj) OutcomeSuccess]"
proof -
  have "handleExisting E drv kc obj (spec_map drv obj) payload remote obj (st\<lparr>net := w'\<rparr>) =
      finishExisting E drv kc obj (spec_map drv obj) remote False obj (st\<lparr>net := w'\<rparr>)"
    using assms(5-8) by (simp add: handleExisting_def refused_def managed_by_us_def Let_def)
  also have "\<dots> = finalize E obj (spec_map drv obj) False obj (st\<lparr>net := w''\<rparr>)"
    using assms(9) by (simp add: finishExisting_def)
  also have "\<dots> = (RequeueAfter (e_resync E),
      set_both E obj ConditionTrue ReasonSucceeded (Lit ''Server state matches spec'')
        (Lit ''Server state matches spec'')
        (obj\<lparr>obj_status := (obj_status obj)\<lparr>observedGeneration := obj_generation obj\<rparr>\<rparr>) (st\<lparr>net := w''\<rparr>))"
    using assms(10) by (simp add: finalize_def Let_def recorded_spec_def)
  finally have "reconcileBody E drv obj st = \<dots>"
    using assms(3,4) by (simp add: reconcileBody_live [OF assms(2)])
  then show ?thesis
    by (simp add: Reconcile_simps Let_def emit_def set_both_has [OF assms(1)] set_both_outcome [OF assms(1)])
qed

section \<open>Drivers on a storing server\<close>

text \<open>The annotation is empty or was written by the operator for a spec of the same kind.\<close>

definition operator_written :: "('w, 'k, 's) driver \<Rightarrow> 's object \<Rightarrow> bool" where
  "operator_written drv obj \<longleftrightarrow>
     last_applied obj = Raw [] \<or> (\<exists>old. last_applied obj = Marshal (JObj (spec_map drv old)))"

text \<open>
  The first pass over \<open>obj\<close> brings the server to the spec and records it; every later pass
  over an object with that spec and that record, on a server whose data is still what the
  first pass left, changes nothing, announces nothing, counts no drift and is Ready.
  \<open>settled\<close> is what \<open>PostApply\<close> is to achieve outside the representation.
\<close>

definition settles ::
    "('w, 'k, 's) driver \<Rightarrow> 'w kc \<Rightarrow> ('w \<Rightarrow> 'd) \<Rightarrow> ('w \<Rightarrow> bool) \<Rightarrow> ('s object \<Rightarrow> 'd \<Rightarrow> json gomap option) \<Rightarrow>
     ('s object \<Rightarrow> 'd \<Rightarrow> bool) \<Rightarrow> ('w, 'k, 's) engine \<Rightarrow> 's object \<Rightarrow> ('w, 'k) eng \<Rightarrow> bool" where
  "settles drv kc store ok look settled E obj st \<longleftrightarrow>
     (case Reconcile E drv obj st of (res1, obj1, st1) \<Rightarrow>
        \<exists>rep. look obj (store (net st1)) = Some rep \<and>
          \<not> PayloadDiffers rep (d_ManagedMarker drv (spec_map drv obj)) \<and> settled obj (store (net st1)) \<and>
          recorded_spec obj1 = Some (Marshal (JObj (spec_map drv obj))) \<and>
          (\<forall>obj2 st2 w2. obj_spec obj2 = obj_spec obj \<longrightarrow> recorded_spec obj2 = recorded_spec obj1 \<longrightarrow>
             live E drv obj2 st2 kc w2 \<longrightarrow> ok w2 \<longrightarrow> store w2 = store (net st1) \<longrightarrow>
             (case Reconcile E drv obj2 st2 of (res3, obj3, st3) \<Rightarrow>
                res3 = RequeueAfter (e_resync E) \<and> look obj (store (net st3)) = Some rep \<and> settled obj (store (net st3)) \<and>
                events st3 = events st2 \<and>
                has_cond E obj3 ConditionReady ConditionTrue ReasonSucceeded (Lit ''Server state matches spec'') \<and>
                emitted st3 = emitted st2 @ [ReconciliationsTotal (obj_kind obj2) OutcomeSuccess])))"

locale stored_driver =
  fixes drv :: "('w, 'k, 's) driver" and kc :: "'w kc" and store :: "'w \<Rightarrow> 'd" and ok :: "'w \<Rightarrow> bool"
    and pre :: "'s object \<Rightarrow> 'd \<Rightarrow> bool" and look :: "'s object \<Rightarrow> 'd \<Rightarrow> json gomap option"
    and ident :: "json gomap \<Rightarrow> 'i" and settled :: "'s object \<Rightarrow> 'd \<Rightarrow> bool" and fits :: "'s object \<Rightarrow> json gomap \<Rightarrow> bool"
  assumes get: "\<lbrakk>ok w; pre obj (store w); d_Get drv kc obj w = (x, w')\<rbrakk> \<Longrightarrow>
      ok w' \<and> pre obj (store w') \<and> look obj (store w') = look obj (store w) \<and>
      (settled obj (store w) \<longrightarrow> settled obj (store w')) \<and>
      (case look obj (store w) of None \<Rightarrow> \<exists>e. x = Inl e \<and> errors_Is e ErrNotFound | Some rep \<Rightarrow> x = Inr rep)"
    and create: "\<lbrakk>ok w; pre obj (store w); look obj (store w) = None; fits obj payload;
        d_Create drv kc obj payload w = (e, w')\<rbrakk> \<Longrightarrow>
      e = None \<and> ok w' \<and> pre obj (store w') \<and> (\<exists>rep. look obj (store w') = Some rep \<and> carries rep payload)"
    and update: "\<lbrakk>ok w; pre obj (store w); look obj (store w) = Some remote; fits obj payload;
        d_Update drv kc obj (d_ID drv remote) (MergePayload (cloneMap remote) payload) w = (e, w')\<rbrakk> \<Longrightarrow>
      e = None \<and> ok w' \<and> pre obj (store w') \<and>
      (\<exists>rep. look obj (store w') = Some rep \<and> carries rep payload \<and> ident rep = ident remote)"
    and post: "\<lbrakk>ok w; pre obj (store w); look obj (store w) = Some rep; ident remote = ident rep;
        d_PostApply drv kc K obj remote k w = (y, w')\<rbrakk> \<Longrightarrow>
      (\<exists>changed. y = (changed, None, obj, k) \<and> (settled obj (store w) \<longrightarrow> \<not> changed)) \<and>
      ok w' \<and> pre obj (store w') \<and> look obj (store w') = Some rep \<and> settled obj (store w')"
    and prepare: "pre obj S \<Longrightarrow> d_PreparePayload drv K obj k payload = Inr payload"
    and fitting: "\<lbrakk>pre obj S; operator_written drv obj;
        EffectivePayload (spec_map drv obj) (last_applied obj) = Some payload\<rbrakk> \<Longrightarrow>
      fits obj (d_ManagedMarker drv payload) \<and> set (d_ManagedMarker drv (spec_map drv obj)) \<subseteq> set (d_ManagedMarker drv payload)"
    and fits_wf: "fits obj payload \<Longrightarrow> mjwf payload"
    and spec_wf: "mjwf (spec_map drv obj)"
begin

lemma effective:
  assumes "operator_written drv obj"
  shows "\<exists>payload. EffectivePayload (spec_map drv obj) (last_applied obj) = Some payload"
  using assms EffectivePayload_first [OF spec_wf] effective_lookup [OF spec_wf spec_wf]
  unfolding operator_written_def by metis

text \<open>One pass leaves a representation that matches the spec, marker included.\<close>

lemma create_matches:
  assumes "ok (net st)" and "pre obj (store (net st))" and "look obj (store (net st)) = None"
    and "fits obj (d_ManagedMarker drv payload)"
  shows "case handleCreate E drv kc obj (spec_map drv obj) payload obj st of (res, obj', st') \<Rightarrow>
    ok (net st') \<and> pre obj (store (net st')) \<and> settled obj (store (net st')) \<and>
    (\<exists>rep. look obj (store (net st')) = Some rep \<and> carries rep (d_ManagedMarker drv payload)) \<and>
    (recording E \<longrightarrow> recorded_spec obj' = Some (Marshal (JObj (spec_map drv obj))))"
proof -
  obtain e w1 where c: "d_Create drv kc obj (d_ManagedMarker drv payload) (net st) = (e, w1)"
    by (cases "d_Create drv kc obj (d_ManagedMarker drv payload) (net st)")
  from create [OF assms c] obtain rep where e: "e = None" and w1: "ok w1" "pre obj (store w1)"
    and rep: "look obj (store w1) = Some rep" "carries rep (d_ManagedMarker drv payload)" by blast
  obtain x w2 where g: "d_Get drv kc obj w1 = (x, w2)" by (cases "d_Get drv kc obj w1")
  from get [OF w1 g] rep have x: "x = Inr rep" and w2: "ok w2" "pre obj (store w2)" "look obj (store w2) = Some rep"
    by auto
  obtain y w3 where p: "d_PostApply drv kc (e_client E) obj rep (cluster st) w2 = (y, w3)"
    by (cases "d_PostApply drv kc (e_client E) obj rep (cluster st) w2")
  from post [OF w2 refl p] show ?thesis
    using c e g x p rep prepare [OF assms(2)]
    by (auto simp: handleCreate_def Let_def split_beta finalize_annotation)
qed

lemma finish_matches:
  assumes "ok (net st)" and "pre obj (store (net st))" and "look obj (store (net st)) = Some rep"
    and "ident remote = ident rep"
  shows "case finishExisting E drv kc obj (spec_map drv obj) remote changed obj st of (res, obj', st') \<Rightarrow>
    ok (net st') \<and> pre obj (store (net st')) \<and> look obj (store (net st')) = Some rep \<and>
    settled obj (store (net st')) \<and> (recording E \<longrightarrow> recorded_spec obj' = Some (Marshal (JObj (spec_map drv obj))))"
proof -
  obtain y w where p: "d_PostApply drv kc (e_client E) obj remote (cluster st) (net st) = (y, w)"
    by (cases "d_PostApply drv kc (e_client E) obj remote (cluster st) (net st)")
  from post [OF assms p] show ?thesis
    using p by (auto simp: finishExisting_def Let_def split_beta finalize_annotation)
qed

lemma existing_matches:
  assumes "ok (net st)" and "pre obj (store (net st))" and "look obj (store (net st)) = Some remote"
    and "\<not> refused drv obj remote" and "fits obj (d_ManagedMarker drv payload)"
  shows "case handleExisting E drv kc obj (spec_map drv obj) payload remote obj st of (res, obj', st') \<Rightarrow>
    ok (net st') \<and> pre obj (store (net st')) \<and> settled obj (store (net st')) \<and>
    (\<exists>rep. look obj (store (net st')) = Some rep \<and> \<not> PayloadDiffers rep (d_ManagedMarker drv payload)) \<and>
    (recording E \<longrightarrow> recorded_spec obj' = Some (Marshal (JObj (spec_map drv obj))))"
proof -
  let ?p = "d_ManagedMarker drv payload"
  have wf: "\<forall>p \<in> set ?p. jwf (snd p)" using fits_wf [OF assms(5)] by (simp add: mjwf_def)
  obtain st0 where st0: "net st0 = net st" "cluster st0 = cluster st"
    and run: "handleExisting E drv kc obj (spec_map drv obj) payload remote obj st =
      (if \<not> managed_by_us drv obj remote \<or> PayloadDiffers remote ?p
       then updateExisting E drv kc obj (spec_map drv obj) remote ?p obj st0
       else finishExisting E drv kc obj (spec_map drv obj) remote False obj st0)"
    using handleExisting_proceeds [OF assms(4)] prepare [OF assms(2)] by fastforce
  show ?thesis
  proof (cases "\<not> managed_by_us drv obj remote \<or> PayloadDiffers remote ?p")
    case False
    then show ?thesis
      using run finish_matches [of st0 obj remote remote E False] assms(1-3) st0 by (auto simp: split_beta)
  next
    case True
    obtain e w where u: "d_Update drv kc obj (d_ID drv remote) (MergePayload (cloneMap remote) ?p) (net st0) = (e, w)"
      by (cases "d_Update drv kc obj (d_ID drv remote) (MergePayload (cloneMap remote) ?p) (net st0)")
    from update [OF _ _ _ assms(5) u] assms(1-3) st0 obtain rep where
      e: "e = None" and w: "ok w" "pre obj (store w)" "look obj (store w) = Some rep" and rep: "carries rep ?p"
      and same: "ident rep = ident remote" by auto
    let ?st = "record_event E (Normal ''Updated'' (Lit (''Updated '' @ obj_kind obj @ '' on Keycloak server'')))
      ((emit (DriftCorrectionsTotal (obj_kind obj)) st0)\<lparr>net := w\<rparr>)"
    have "updateExisting E drv kc obj (spec_map drv obj) remote ?p obj st0 =
        finishExisting E drv kc obj (spec_map drv obj) remote True obj ?st"
      using u e by (simp add: updateExisting_def Let_def)
    then show ?thesis
      using run True finish_matches [of ?st obj rep remote E True] w carries_matches [OF rep wf] same
      by (auto simp: split_beta)
  qed
qed

theorem pass_matches:
  assumes "live E drv obj st kc w" and "ok w" and "pre obj (store w)" and "operator_written drv obj"
    and "\<And>remote. look obj (store w) = Some remote \<Longrightarrow> \<not> refused drv obj remote"
  shows "case Reconcile E drv obj st of (res, obj', st') \<Rightarrow>
    ok (net st') \<and> pre obj (store (net st')) \<and> settled obj (store (net st')) \<and>
    (\<exists>rep. look obj (store (net st')) = Some rep \<and>
       \<not> PayloadDiffers rep (d_ManagedMarker drv (spec_map drv obj))) \<and>
    (recording E \<longrightarrow> recorded_spec obj' = Some (Marshal (JObj (spec_map drv obj))))"
proof -
  obtain payload where eff: "EffectivePayload (spec_map drv obj) (last_applied obj) = Some payload"
    using effective [OF assms(4)] by blast
  note fit = fitting [OF assms(3,4) eff]
  have wf: "\<forall>p \<in> set (d_ManagedMarker drv payload). jwf (snd p)" using fits_wf fit unfolding mjwf_def by blast
  obtain x w' where g: "d_Get drv kc obj w = (x, w')" by (cases "d_Get drv kc obj w")
  note got = get [OF assms(2,3) g]
  have "case reconcileBody E drv obj st of (res, obj', st') \<Rightarrow>
    ok (net st') \<and> pre obj (store (net st')) \<and> settled obj (store (net st')) \<and>
    (\<exists>rep. look obj (store (net st')) = Some rep \<and> \<not> PayloadDiffers rep (d_ManagedMarker drv payload)) \<and>
    (recording E \<longrightarrow> recorded_spec obj' = Some (Marshal (JObj (spec_map drv obj))))"
  proof (cases "look obj (store w)")
    case None
    with got obtain e where "x = Inl e" "errors_Is e ErrNotFound" by auto
    then have "reconcileBody E drv obj st = handleCreate E drv kc obj (spec_map drv obj) payload obj (st\<lparr>net := w'\<rparr>)"
      using eff g by (simp add: reconcileBody_live [OF assms(1)])
    then show ?thesis
      using create_matches [of "st\<lparr>net := w'\<rparr>" obj payload E] got None fit carries_matches wf
      by (auto simp: split_beta)
  next
    case (Some remote)
    with got have "x = Inr remote" by simp
    then have "reconcileBody E drv obj st = handleExisting E drv kc obj (spec_map drv obj) payload remote obj (st\<lparr>net := w'\<rparr>)"
      using eff g by (simp add: reconcileBody_live [OF assms(1)])
    then show ?thesis
      using existing_matches [of "st\<lparr>net := w'\<rparr>" obj remote payload E] got Some fit assms(5) by auto
  qed
  then show ?thesis
    using matches_subset fit by (fastforce simp: Reconcile_simps Let_def split_beta)
qed

text \<open>A pass over the object with the spec recorded changes nothing on a server that matches it.\<close>

theorem next_pass_quiet:
  assumes "well_behaved E" and "live E drv obj st kc w" and "ok w" and "pre obj (store w)"
    and "recorded_spec obj = Some (Marshal (JObj (spec_map drv obj)))"
    and "look obj (store w) = Some rep" and "\<not> PayloadDiffers rep (d_ManagedMarker drv (spec_map drv obj))"
    and "sv_Adoption (d_Spec drv obj) \<noteq> AdoptionFailIfExists" and "settled obj (store w)"
  shows "case Reconcile E drv obj st of (res, obj', st') \<Rightarrow>
    res = RequeueAfter (e_resync E) \<and> look obj (store (net st')) = Some rep \<and> settled obj (store (net st')) \<and>
    events st' = events st \<and>
    has_cond E obj' ConditionReady ConditionTrue ReasonSucceeded (Lit ''Server state matches spec'') \<and>
    emitted st' = emitted st @ [ReconciliationsTotal (obj_kind obj) OutcomeSuccess] \<and>
    (\<exists>w1. d_Get drv kc obj w = (Inr rep, w1) \<and>
       d_PostApply drv kc (e_client E) obj rep (cluster st) w1 = ((False, None, obj, cluster st), net st'))"
proof -
  have last: "last_applied obj = Marshal (JObj (spec_map drv obj))"
    using assms(5) by (simp add: last_applied_def recorded_spec_def)
  have eff: "EffectivePayload (spec_map drv obj) (last_applied obj) = Some (spec_map drv obj)"
    by (simp add: last EffectivePayload_again spec_wf)
  obtain x w' where g: "d_Get drv kc obj w = (x, w')" by (cases "d_Get drv kc obj w")
  from get [OF assms(3,4) g] assms(6,9) have x: "x = Inr rep" and w': "ok w'" "pre obj (store w')"
    "look obj (store w') = Some rep" and "settled obj (store w')" by auto
  obtain y w'' where p: "d_PostApply drv kc (e_client E) obj rep (cluster st) w' = (y, w'')"
    by (cases "d_PostApply drv kc (e_client E) obj rep (cluster st) w'")
  have managed: "managed_by_us drv obj rep" by (simp add: managed_by_us_def last Marshal_def)
  then have "\<not> refused drv obj rep" using assms(8) by (simp add: refused_def)
  from steady_pass [OF assms(1,2) eff g [unfolded x] this managed prepare [OF assms(4)] assms(7)]
    post [OF w' refl p] p assms(5) \<open>settled obj (store w')\<close>
  show ?thesis using g x by (auto simp: split_beta)
qed

theorem pass_settles:
  assumes "well_behaved E" and "recording E" and "live E drv obj st kc w" and "ok w" and "pre obj (store w)"
    and "operator_written drv obj" and "sv_Adoption (d_Spec drv obj) \<noteq> AdoptionFailIfExists"
    and unrefused: "\<And>remote. look obj (store w) = Some remote \<Longrightarrow> \<not> refused drv obj remote"
    and same: "\<And>obj2. obj_spec obj2 = obj_spec obj \<Longrightarrow>
      d_Spec drv obj2 = d_Spec drv obj \<and> pre obj2 = pre obj \<and> look obj2 = look obj \<and> settled obj2 = settled obj"
  shows "settles drv kc store ok look settled E obj st"
proof -
  obtain res1 obj1 st1 where run: "Reconcile E drv obj st = (res1, obj1, st1)" by (cases "Reconcile E drv obj st")
  from pass_matches [OF assms(3-6) unrefused] assms(2) obtain rep where
    st1: "pre obj (store (net st1))" "settled obj (store (net st1))" "look obj (store (net st1)) = Some rep"
      "\<not> PayloadDiffers rep (d_ManagedMarker drv (spec_map drv obj))"
      "recorded_spec obj1 = Some (Marshal (JObj (spec_map drv obj)))"
    by (auto simp: run)
  have "case Reconcile E drv obj2 st2 of (res3, obj3, st3) \<Rightarrow>
      res3 = RequeueAfter (e_resync E) \<and> look obj (store (net st3)) = Some rep \<and> settled obj (store (net st3)) \<and>
      events st3 = events st2 \<and>
      has_cond E obj3 ConditionReady ConditionTrue ReasonSucceeded (Lit ''Server state matches spec'') \<and>
      emitted st3 = emitted st2 @ [ReconciliationsTotal (obj_kind obj2) OutcomeSuccess]"
    if later: "obj_spec obj2 = obj_spec obj" "recorded_spec obj2 = recorded_spec obj1" "live E drv obj2 st2 kc w2"
      "ok w2" "store w2 = store (net st1)" for obj2 st2 w2
  proof -
    have eqs: "spec_map drv obj2 = spec_map drv obj" "d_Spec drv obj2 = d_Spec drv obj" "pre obj2 = pre obj"
      "look obj2 = look obj" "settled obj2 = settled obj"
      using same [OF later(1)] by (simp_all add: spec_map_def)
    show ?thesis
      using next_pass_quiet [OF assms(1) later(3,4), of rep] later st1 assms(7) by (auto simp: eqs split_beta)
  qed
  then show ?thesis using st1 by (auto simp: settles_def run)
qed

text \<open>A condition on the stored data that every operation keeps can be assumed throughout.\<close>

lemma extended:
  assumes "\<And>w obj x w'. \<lbrakk>ok w; pre obj (store w); J obj (store w); d_Get drv kc obj w = (x, w')\<rbrakk> \<Longrightarrow> J obj (store w')"
    and "\<And>w obj payload e w'. \<lbrakk>ok w; pre obj (store w); J obj (store w); look obj (store w) = None; fits obj payload;
        d_Create drv kc obj payload w = (e, w')\<rbrakk> \<Longrightarrow> J obj (store w')"
    and "\<And>w obj remote payload e w'. \<lbrakk>ok w; pre obj (store w); J obj (store w); look obj (store w) = Some remote; fits obj payload;
        d_Update drv kc obj (d_ID drv remote) (MergePayload (cloneMap remote) payload) w = (e, w')\<rbrakk> \<Longrightarrow> J obj (store w')"
    and "\<And>w obj rep remote K k y w'. \<lbrakk>ok w; pre obj (store w); J obj (store w); look obj (store w) = Some rep; ident remote = ident rep;
        d_PostApply drv kc K obj remote k w = (y, w')\<rbrakk> \<Longrightarrow> J obj (store w')"
  shows "stored_driver drv kc store ok (\<lambda>obj S. pre obj S \<and> J obj S) look ident settled fits"
proof (unfold_locales, goal_cases)
  case (1 w obj x w')
  then show ?case using get [of w obj x w'] assms(1) [of w obj x w'] by simp
next
  case (2 w obj payload e w')
  then show ?case using create [of w obj payload e w'] assms(2) [of w obj payload e w'] by simp
next
  case (3 w obj remote payload e w')
  then show ?case using update [of w obj remote payload e w'] assms(3) [of w obj remote payload e w'] by simp
next
  case (4 w obj rep remote K k y w')
  then show ?case using post [of w obj rep remote K k y w'] assms(4) [of w obj rep remote K k y w'] by simp
next
  case (5 obj S K k payload)
  then show ?case using prepare by blast
next
  case (6 obj S payload)
  then show ?case using fitting by blast
qed (rule fits_wf spec_wf, assumption?)+

end

end
