(* ===== verification/Fake_Convergence.thy ===== *)
theory Fake_Convergence
  imports Fake_Backend Convergence Realm_Driver Client_Driver
begin

text \<open>
  Realms and client scopes on the in-memory Admin API meet the contract \<open>stored_driver\<close>, for
  every client that is served from the stored data.
\<close>

section \<open>Payloads that survive the wire\<close>

definition jfix :: "json \<Rightarrow> bool" where
  "jfix v \<longleftrightarrow> jround v = v"

definition sendable :: "string \<Rightarrow> string \<Rightarrow> json gomap \<Rightarrow> bool" where
  "sendable key name p \<longleftrightarrow>
     mjwf p \<and> (\<forall>q \<in> set p. jfix (snd q) \<and> snd q \<noteq> JNull) \<and> map_of p ''id'' = None \<and> map_of p key = Some (JStr name)"

lemma map_fixed_iff: "map f l = l \<longleftrightarrow> (\<forall>x \<in> set l. f x = x)"
  by (induction l) auto

lemma jfix_simps [simp]:
  "jfix JNull" "jfix (JBool b)" "jfix (JStr s)" "jfix (JArr l) \<longleftrightarrow> (\<forall>x \<in> set l. jfix x)"
  "jfix (JObj m) \<longleftrightarrow> (\<forall>q \<in> set m. jfix (snd q))" "jfix (jround j)"
  by (auto simp: jfix_def map_fixed_iff)

lemma jround_fixed: "\<forall>q \<in> set p. jfix (snd q) \<Longrightarrow> jround (JObj p) = JObj p"
  using jfix_simps(5) [of p] unfolding jfix_def by simp

lemma sendableD:
  assumes "sendable key name p"
  shows "mjwf p" "mwf p" "distinct (map fst p)" "jround (JObj p) = JObj p" "map_of p ''id'' = None"
    "map_of p key = Some (JStr name)" "\<forall>q \<in> set p. snd q \<noteq> JNull"
  using assms jround_fixed [of p] unfolding sendable_def by (auto simp: mwf_distinct simp del: jround.simps)

lemma set_lookup: "mwf p \<Longrightarrow> q \<in> set p \<longleftrightarrow> map_of p (fst q) = Some (snd q)"
  by (cases q) (simp add: mwf_distinct)

lemma ball_lookup: "mwf p \<Longrightarrow> (\<forall>q \<in> set p. P (snd q)) \<longleftrightarrow> (\<forall>k v. map_of p k = Some v \<longrightarrow> P v)"
  by (metis fst_conv set_lookup snd_conv)

lemma sendable_iff:
  "mjwf p \<Longrightarrow> sendable key name p \<longleftrightarrow>
     (\<forall>k v. map_of p k = Some v \<longrightarrow> jfix v \<and> v \<noteq> JNull) \<and> map_of p ''id'' = None \<and> map_of p key = Some (JStr name)"
  unfolding sendable_def using ball_lookup [of p "\<lambda>v. jfix v \<and> v \<noteq> JNull"] by auto

text \<open>The payload of a spec after another one: the new spec and zero values.\<close>

lemma zeroFor_facts: "zeroFor v = Some z \<Longrightarrow> jfix z \<and> z \<noteq> JNull \<and> any_map (Some z) \<in> {None, Some []}"
  by (cases v) auto

definition zero_extends :: "json gomap \<Rightarrow> json gomap \<Rightarrow> bool" where
  "zero_extends p m \<longleftrightarrow>
     (\<forall>k. map_of p k = map_of m k \<or> map_of m k = None \<and> (\<exists>z. map_of p k = Some z \<and> any_map (Some z) \<in> {None, Some []}))"

lemma effective_sendable:
  assumes m: "sendable key name m" and old: "sendable key' name' old"
    and eff: "EffectivePayload m (Marshal (JObj old)) = Some p"
  shows "sendable key name p \<and> zero_extends p m"
proof -
  obtain p' where "EffectivePayload m (Marshal (JObj old)) = Some p'" and p': "mjwf p'"
    and look: "\<And>k. map_of p' k = (case map_of m k of Some v \<Rightarrow> Some v | None \<Rightarrow> Option.bind (map_of old k) zeroFor)"
    using effective_lookup [OF sendableD(1) [OF m] sendableD(1) [OF old]] by blast
  with eff have p: "p' = p" by simp
  have "map_of p k = Some v \<Longrightarrow> jfix v \<and> v \<noteq> JNull" for k v
    using look [of k] m zeroFor_facts unfolding p sendable_iff [OF sendableD(1) [OF m]]
    by (auto split: option.splits bind_splits)
  moreover have "map_of p ''id'' = None" "map_of p key = Some (JStr name)"
    using look [of "''id''"] look [of key] sendableD [OF m] sendableD [OF old] by (simp_all add: p)
  moreover have "map_of p k = map_of m k \<or> map_of m k = None \<and>
      (\<exists>z. map_of p k = Some z \<and> any_map (Some z) \<in> {None, Some []})" for k
    using look [of k] zeroFor_facts [of "the (map_of old k)"] unfolding p
    by (cases "map_of m k"; cases "map_of old k"; cases "zeroFor (the (map_of old k))") auto
  ultimately show ?thesis using p' by (simp add: p sendable_iff zero_extends_def)
qed

section \<open>The marker\<close>

lemma stamp_lookup:
  "map_of (stampStringAttribute p key val) =
     (map_of p)(''attributes'' \<mapsto> JObj (mput key (JStr val)
        (case any_map (map_of p ''attributes'') of None \<Rightarrow> [] | Some m \<Rightarrow> m)))"
  by (simp add: stampStringAttribute_def)

lemma stamp_wf: "mjwf p \<Longrightarrow> mjwf (stampStringAttribute p key val)"
  unfolding stampStringAttribute_def Let_def
  by (rule mjwf_mput) (auto simp: mjwf_Cons split: option.split dest: any_map_wf)

lemma any_map_Some: "any_map v = Some m \<longleftrightarrow> v = Some (JObj m)"
  by (cases v rule: any_map.cases) auto

lemma stamp_sendable:
  assumes "sendable key name p" and "key \<noteq> ''attributes''"
  shows "sendable key name (stampStringAttribute p a b)"
proof -
  have fixed: "\<forall>q \<in> set (mput a (JStr b) m). jfix (snd q)" if "map_of p ''attributes'' = Some (JObj m)" for m
  proof -
    have "jfix (JObj m)" using assms(1) that unfolding sendable_iff [OF sendableD(1) [OF assms(1)]] by blast
    then show ?thesis using set_mput [of a "JStr b" m] by auto
  qed
  show ?thesis
    using assms fixed unfolding sendable_iff [OF stamp_wf [OF sendableD(1) [OF assms(1)]]]
      sendable_iff [OF sendableD(1) [OF assms(1)]]
    by (auto simp: stamp_lookup any_map_Some split: option.split)
qed

lemma stamp_extends:
  assumes "zero_extends p m" and "mjwf p" and "mjwf m"
  shows "set (stampStringAttribute m a b) \<subseteq> set (stampStringAttribute p a b)"
proof
  fix q assume q: "q \<in> set (stampStringAttribute m a b)"
  have "(case any_map (map_of p ''attributes'') of None \<Rightarrow> [] | Some x \<Rightarrow> x) =
      (case any_map (map_of m ''attributes'') of None \<Rightarrow> [] | Some x \<Rightarrow> x)"
    using assms(1) unfolding zero_extends_def by (elim allE [of _ "''attributes''"]) auto
  moreover have "map_of m (fst q) = Some v \<Longrightarrow> map_of p (fst q) = Some v" for v
    using assms(1) unfolding zero_extends_def by (metis option.distinct(1))
  ultimately show "q \<in> set (stampStringAttribute p a b)"
    using q assms(2,3) by (auto simp: set_lookup stamp_wf stamp_lookup split: if_splits)
qed

section \<open>Encoded specs\<close>

lemma spec_map_lookup:
  "map_of (spec_map drv obj) k =
     (if k \<in> set (d_OperatorFields drv) then None
      else map_option jround (map_of (rev (sv_JSON (d_Spec drv obj))) k))"
  by (simp add: spec_map_def map_of_snd mputs_lookup)

lemma jround_map_wf: "mjwf m \<Longrightarrow> mjwf (map (\<lambda>p. (fst p, jround (snd p))) m)"
  using jround_wf [of "JObj m"] by simp

lemma spec_map_wf: "\<forall>p \<in> set (sv_JSON (d_Spec drv obj)). jwf (snd p) \<Longrightarrow> mjwf (spec_map drv obj)"
  unfolding spec_map_def by (intro mjwf_mdels jround_map_wf mjwf_mputs) simp_all

lemma jround_not_null [simp]: "jround v = JNull \<longleftrightarrow> v = JNull"
  by (cases v) auto

lemma spec_sendable:
  assumes wf: "\<forall>p \<in> set (sv_JSON (d_Spec drv obj)). jwf (snd p)"
    and enc: "sv_JSON (d_Spec drv obj) = xs @ (key, JStr name) # ys"
    and fields: "\<forall>p \<in> set xs \<union> set ys. snd p \<noteq> JNull \<and> fst p \<noteq> ''id''"
    and key: "key \<notin> fst ` set ys" "key \<notin> set (d_OperatorFields drv)" "key \<noteq> ''id''"
  shows "sendable key name (spec_map drv obj)"
proof -
  let ?kvs = "sv_JSON (d_Spec drv obj)"
  have "v \<noteq> JNull \<and> k \<noteq> ''id''" if "map_of (rev ?kvs) k = Some v" for k v
  proof -
    have "(k, v) = (key, JStr name) \<or> (k, v) \<in> set xs \<union> set ys"
      using map_of_SomeD [OF that] unfolding enc by auto
    then show ?thesis
    proof
      assume "(k, v) \<in> set xs \<union> set ys"
      from bspec [OF fields this] show ?thesis by simp
    qed (simp add: key(3))
  qed
  moreover from this have "map_of (rev ?kvs) ''id'' = None" by (cases "map_of (rev ?kvs) ''id''") auto
  moreover have "map_of (rev ?kvs) key = Some (JStr name)"
    using key(1) unfolding enc by (simp add: map_add_def map_of_eq_None_iff [THEN iffD2] split: option.split)
  ultimately show ?thesis
    using key(2) by (subst sendable_iff [OF spec_map_wf [OF wf]])
      (auto simp: spec_map_lookup)
qed

lemma encodeFields_range: "p \<in> set (encodeFields tab fs) \<Longrightarrow> fst p \<in> fst ` set tab \<and> snd p \<noteq> JNull"
proof (induction tab fs rule: encodeFields.induct)
  case (2 k kind tab fs)
  moreover have "j \<noteq> JNull" if "fieldJSON v = Some j" for v j
    using that by (cases v) (auto simp: jstrs_def jmap_def jstrsmap_def split: if_splits)
  ultimately show ?case by (auto split: option.splits if_splits)
qed simp

lemma table_keys:
  "''id'' \<notin> fst ` set RealmSpec_table" "''realm'' \<notin> fst ` set RealmSpec_table"
  "''id'' \<notin> fst ` set ClientScopeSpec_table" "''name'' \<notin> fst ` set ClientScopeSpec_table"
  by code_simp+

lemma realm_spec_sendable: "sendable ''realm'' (spec_realm (obj_spec obj)) (spec_map (RealmDriver rng) obj)"
proof (rule spec_sendable)
  let ?s = "obj_spec obj"
  let ?ys = "jopt ''adoptionPolicy'' JStr (adoptionPolicy ?s) @ jopt ''deletionPolicy'' JStr (deletionPolicy ?s) @
    jopt ''smtpServerSecretRef'' selectorsJSON (smtpServerSecretRef ?s) @ encodeFields RealmSpec_table (realm_fields ?s)"
  show "sv_JSON (d_Spec (RealmDriver rng) obj) =
      [(''keycloakRef'', JObj [(''name'', JStr (keycloakRef ?s))])] @ (''realm'', JStr (spec_realm ?s)) # ?ys"
    by (simp add: RealmDriver_def RealmDriver_Spec_def Let_def RealmSpec_JSON_def baseJSON_def)
  show "\<forall>p \<in> set (sv_JSON (d_Spec (RealmDriver rng) obj)). jwf (snd p)"
    using specJSON_wf(1) by (simp add: RealmDriver_def RealmDriver_Spec_def Let_def)
  show "\<forall>p \<in> set [(''keycloakRef'', JObj [(''name'', JStr (keycloakRef ?s))])] \<union> set ?ys. snd p \<noteq> JNull \<and> fst p \<noteq> ''id''"
    and "''realm'' \<notin> fst ` set ?ys"
    using encodeFields_range [of _ RealmSpec_table "realm_fields ?s"] table_keys
    by (auto simp: jopt_def selectorsJSON_def split: option.splits)
qed (simp_all add: RealmDriver_def RealmDriver_OperatorFields_def)

lemma scope_spec_sendable: "sendable ''name'' (scope_name (obj_spec obj)) (spec_map ClientScopeDriver obj)"
proof (rule spec_sendable)
  let ?s = "obj_spec obj"
  show "sv_JSON (d_Spec ClientScopeDriver obj) =
      baseJSON ?s @ (''name'', JStr (scope_name ?s)) # encodeFields ClientScopeSpec_table (scope_fields ?s)"
    by (simp add: ClientScopeDriver_def ClientScopeDriver_Spec_def Let_def ClientScopeSpec_JSON_def)
  show "\<forall>p \<in> set (sv_JSON (d_Spec ClientScopeDriver obj)). jwf (snd p)"
    using specJSON_wf(3) by (simp add: ClientScopeDriver_def ClientScopeDriver_Spec_def Let_def)
  show "\<forall>p \<in> set (baseJSON ?s) \<union> set (encodeFields ClientScopeSpec_table (scope_fields ?s)). snd p \<noteq> JNull \<and> fst p \<noteq> ''id''"
    and "''name'' \<notin> fst ` set (encodeFields ClientScopeSpec_table (scope_fields ?s))"
    using encodeFields_range [of _ ClientScopeSpec_table "scope_fields ?s"] table_keys
    by (auto simp: jopt_def baseJSON_def split: option.splits)
qed (simp_all add: ClientScopeDriver_def ClientScopeDriver_OperatorFields_def)

text \<open>A payload with the string marker is what the server can take, and covers the bare spec.\<close>

lemma marked_fitting:
  assumes spec: "\<And>x. sendable key (name x) (spec_map drv x)" and key: "key \<noteq> ''attributes''"
    and marker: "d_ManagedMarker drv = (\<lambda>p. stampStringAttribute p a b)"
    and written: "operator_written drv obj"
    and eff: "EffectivePayload (spec_map drv obj) (last_applied obj) = Some payload"
  shows "sendable key (name obj) (d_ManagedMarker drv payload) \<and>
    set (d_ManagedMarker drv (spec_map drv obj)) \<subseteq> set (d_ManagedMarker drv payload)"
proof -
  have wf: "mjwf (spec_map drv obj)" by (rule sendableD(1) [OF spec])
  have "sendable key (name obj) payload \<and> zero_extends payload (spec_map drv obj)"
  proof (cases "last_applied obj = Raw []")
    case True
    then show ?thesis using eff spec [of obj] EffectivePayload_first [OF wf] by (simp add: zero_extends_def)
  next
    case False
    then obtain old where "last_applied obj = Marshal (JObj (spec_map drv old))"
      using written by (auto simp: operator_written_def)
    then show ?thesis using effective_sendable [OF spec spec] eff by simp
  qed
  then show ?thesis
    using stamp_sendable [OF _ key] stamp_extends [OF _ sendableD(1) wf] unfolding marker by blast
qed

section \<open>Merged representations\<close>

lemma clone_lookup: "map_of (clone rep) k = map_option jround (map_of rep k)"
  by (simp add: clone_def map_of_snd)

lemma mput_values: "\<forall>q \<in> set m. P (snd q) \<Longrightarrow> P v \<Longrightarrow> \<forall>q \<in> set (mput k v m). P (snd q)"
  using set_mput [of k v m] by auto

lemma mputs_values: "\<forall>q \<in> set m. P (snd q) \<Longrightarrow> \<forall>q \<in> set kvs. P (snd q) \<Longrightarrow> \<forall>q \<in> set (mputs m kvs). P (snd q)"
proof (induction m kvs rule: mputs.induct)
  case (2 m k v kvs)
  then show ?case using mput_values [of m P v k] by simp
qed simp

lemma MergePayload_values:
  "\<forall>q \<in> set m. P (snd q) \<Longrightarrow> \<forall>q \<in> set kvs. P (snd q) \<Longrightarrow> \<forall>q \<in> set (MergePayload m kvs). P (snd q)"
proof (induction m kvs rule: MergePayload.induct)
  case (2 m k v kvs)
  then show ?case using mput_values [of m P v k] by (simp add: mdel_def)
qed simp

lemma MergePayload_mwf: "mwf m \<Longrightarrow> mwf (MergePayload m kvs)"
  by (induction m kvs rule: MergePayload.induct) simp_all

lemma map_of_rev: "distinct (map fst m) \<Longrightarrow> map_of (rev m) = map_of m"
  by (rule map_of_inject_set [THEN iffD2]) (simp_all add: rev_map [symmetric])

text \<open>What the server stores when a merged representation is written back.\<close>

lemma written_back:
  fixes rep payload
  defines "m \<equiv> MergePayload (cloneMap (clone rep)) payload"
  assumes "sendable key name payload"
  shows "jround (JObj m) = JObj m" "carries (clone (merge stored m)) payload"
proof -
  have "\<forall>q \<in> set (clone rep). jfix (snd q)" by (auto simp: clone_def)
  then have "\<forall>q \<in> set m. jfix (snd q)"
    using assms(2) unfolding m_def cloneMap_def sendable_def
    by (intro MergePayload_values mputs_values) auto
  then show "jround (JObj m) = JObj m" by (rule jround_fixed)
  have "map_of (rev m) = map_of m"
    by (rule map_of_rev) (simp add: m_def cloneMap_def MergePayload_mwf mwf_distinct)
  moreover have "carries m payload"
    unfolding m_def by (rule MergePayload_carries) (use sendableD [OF assms(2)] in auto)
  moreover have "\<forall>q \<in> set payload. jround (snd q) = snd q" using assms(2) by (simp add: sendable_def jfix_def)
  ultimately show "carries (clone (merge stored m)) payload"
    by (auto simp: carries_def clone_lookup merge_def mputs_lookup)
qed

lemma stored_new:
  assumes "sendable key name payload"
  shows "carries (clone (mput ''id'' v payload)) payload"
  using assms by (auto simp: carries_def clone_lookup sendable_def jfix_def set_lookup)

lemma carries_id:
  "carries (clone rep) payload \<Longrightarrow> map_of payload ''id'' = None \<Longrightarrow> carries (clone (mput ''id'' v rep)) payload"
  by (auto simp: carries_def clone_lookup map_of_eq_None_iff image_iff)

section \<open>Collections\<close>

text \<open>The entry a listing of a collection finds: the first, in iteration order, with the value.\<close>

definition coll_find :: "order \<Rightarrow> string \<Rightarrow> string \<Rightarrow> string \<Rightarrow> json gomap gomap \<Rightarrow> (string \<times> json gomap) option" where
  "coll_find rng site key v m = List.find (\<lambda>p. map_of (snd p) key = Some (JStr v)) (range_map rng site m)"

definition coll_look :: "order \<Rightarrow> string \<Rightarrow> string \<Rightarrow> string \<Rightarrow> json gomap gomap \<Rightarrow> json gomap option" where
  "coll_look rng site key v m =
     map_option (\<lambda>p. clone (mput ''id'' (JStr (fst p)) (snd p))) (coll_find rng site key v m)"

definition coll_ok :: "json gomap gomap \<Rightarrow> bool" where
  "coll_ok m \<longleftrightarrow> mwf m \<and> (\<forall>k \<in> fst ` set m. plain_seg k)"

lemma coll_ok_mput: "coll_ok m \<Longrightarrow> plain_seg k \<Longrightarrow> coll_ok (mput k v m)"
  by (auto simp: coll_ok_def mput_keys)

lemma keys_map [simp]: "map fst (map (\<lambda>p. (fst p, g p)) m) = map fst m"
  by (simp add: comp_def)

lemma coll_ok_stamp: "coll_ok (stamp_ids P m) \<longleftrightarrow> coll_ok m"
  by (simp add: coll_ok_def stamp_ids_def mwf_def image_image comp_def)

lemma map_of_keyed: "map_of (map (\<lambda>p. (fst p, g (fst p) (snd p))) m) k = map_option (g k) (map_of m k)"
  by (induction m) auto

lemma range_map_keyed:
  "range_map rng site (map (\<lambda>p. (fst p, g (fst p) (snd p))) m) = map (\<lambda>p. (fst p, g (fst p) (snd p))) (range_map rng site m)"
proof -
  have "List.map_filter (\<lambda>k. map_option (Pair k) (map_option (g k) (map_of m k))) ks =
      map (\<lambda>p. (fst p, g (fst p) (snd p))) (List.map_filter (\<lambda>k. map_option (Pair k) (map_of m k)) ks)" for ks
    by (induction ks) (auto simp: List.map_filter_simps split: option.split)
  then show ?thesis by (simp add: range_map_def map_of_keyed comp_def)
qed

lemma find_map: "List.find P (map f xs) = map_option f (List.find (\<lambda>x. P (f x)) xs)"
  by (induction xs) auto

lemma find_cong': "(\<And>x. x \<in> set xs \<Longrightarrow> P x = Q x) \<Longrightarrow> List.find P xs = List.find Q xs"
  by (induction xs) auto

text \<open>Listing does not change what is found.\<close>

lemma coll_look_stamp:
  assumes "key \<noteq> ''id''"
  shows "coll_look rng site key v (stamp_ids P m) = coll_look rng site key v m"
proof -
  define g where "g k r = (if P r then mput ''id'' (JStr k) r else r)" for k r
  have "stamp_ids P m = map (\<lambda>p. (fst p, g (fst p) (snd p))) m" by (simp add: stamp_ids_def g_def)
  moreover have "map_of (g k r) key = map_of r key" "mput ''id'' (JStr k) (g k r) = mput ''id'' (JStr k) r" for k r
    using assms by (auto simp: g_def)
  ultimately show ?thesis
    by (simp add: coll_look_def coll_find_def range_map_keyed find_map option.map_comp comp_def)
qed

lemma jround_str [simp]: "jround v = JStr s \<longleftrightarrow> v = JStr s"
  by (cases v) auto

lemma find_rep_listed:
  assumes "key \<noteq> ''id''" and "\<And>rep. map_of rep key = Some (JStr v) \<Longrightarrow> P rep"
  shows "find_rep key v (map clone (map (\<lambda>p. mput ''id'' (JStr (fst p)) (snd p)) (filter (\<lambda>p. P (snd p)) xs))) =
    map_option (\<lambda>p. clone (mput ''id'' (JStr (fst p)) (snd p))) (List.find (\<lambda>p. map_of (snd p) key = Some (JStr v)) xs)"
  using assms by (induction xs) (auto simp: clone_lookup)

lemma carried_string: "carries (clone rep) payload \<Longrightarrow> (k, JStr s) \<in> set payload \<Longrightarrow> map_of rep k = Some (JStr s)"
  by (force simp: carries_def clone_lookup)

lemma coll_find_None:
  assumes "order_ok rng" and "mwf m"
  shows "coll_find rng site key v m = None \<longleftrightarrow> \<not> has_value key v m"
  unfolding coll_find_def find_None_iff has_value_def set_range_map [OF assms] by blast

lemma find_unique:
  "x \<in> set xs \<Longrightarrow> P x \<Longrightarrow> (\<And>y. y \<in> set xs \<Longrightarrow> P y \<Longrightarrow> y = x) \<Longrightarrow> List.find P xs = Some x"
proof (induction xs)
  case (Cons z zs)
  show ?case
  proof (cases "P z")
    case True
    then have "z = x" by (intro Cons.prems(3)) simp_all
    with True show ?thesis by simp
  next
    case False
    then have "x \<in> set zs" using Cons.prems(1,2) by auto
    then have "List.find P zs = Some x"
      by (rule Cons.IH [OF _ Cons.prems(2)]) (rule Cons.prems(3), simp_all)
    with False show ?thesis by simp
  qed
qed simp

lemma find_in: "List.find P xs = Some x \<Longrightarrow> x \<in> set xs"
  by (induction xs) (auto split: if_splits)

lemma coll_find_stored:
  "order_ok rng \<Longrightarrow> mwf m \<Longrightarrow> coll_find rng site key v m = Some (k, rep) \<Longrightarrow> map_of m k = Some rep"
  unfolding coll_find_def by (drule find_in) (simp add: range_map_lookup)

lemma coll_ok_key: "coll_ok m \<Longrightarrow> map_of m k = Some rep \<Longrightarrow> plain_seg k"
  by (force simp: coll_ok_def dest: map_of_SomeD)

text \<open>A new entry is the one that is found.\<close>

lemma coll_look_new:
  assumes "order_ok rng" and "mwf m" and "\<not> has_value key v m" and "map_of rep key = Some (JStr v)"
  shows "coll_look rng site key v (mput k rep m) = Some (clone (mput ''id'' (JStr k) rep))"
proof -
  let ?m = "mput k rep m"
  have m: "mwf ?m" using assms(2) by simp
  have "coll_find rng site key v ?m = Some (k, rep)"
    unfolding coll_find_def
  proof (rule find_unique)
    show "(k, rep) \<in> set (range_map rng site ?m)"
      using range_map_lookup [OF assms(1) m] by simp
    show "y = (k, rep)" if "y \<in> set (range_map rng site ?m)" "map_of (snd y) key = Some (JStr v)" for y
      using that assms(3) set_range_map [OF assms(1) m] set_mput [of k rep m] unfolding has_value_def by auto
  qed (simp add: assms(4))
  then show ?thesis by (simp add: coll_look_def)
qed

text \<open>Writing to the entry that was found keeps it the one that is found.\<close>

lemma find_replaced:
  assumes "List.find (\<lambda>p. Q (snd p)) xs = Some (k, v)" and "Q v'" and "distinct (map fst xs)"
  shows "List.find (\<lambda>p. Q (snd p)) (map (\<lambda>p. (fst p, if fst p = k then v' else snd p)) xs) = Some (k, v')"
  using assms
proof (induction xs)
  case (Cons p xs)
  then show ?case by (cases p) (auto simp: find_Some_iff split: if_splits)
qed simp

lemma coll_look_written:
  assumes "order_ok rng" and "mwf m" and "coll_find rng site key v m = Some (k, rep)" and "map_of rep' key = Some (JStr v)"
  shows "coll_look rng site key v (mput k rep' m) = Some (clone (mput ''id'' (JStr k) rep'))"
proof -
  let ?g = "\<lambda>i r. if i = k then rep' else r"
  have k: "map_of m k \<noteq> None" using coll_find_stored [OF assms(1-3)] by simp
  have "mput k rep' m = map (\<lambda>p. (fst p, ?g (fst p) (snd p))) m"
  proof (rule mwf_map_of_eq)
    show "mwf (map (\<lambda>p. (fst p, ?g (fst p) (snd p))) m)" using assms(2) unfolding mwf_def keys_map .
    show "map_of (mput k rep' m) = map_of (map (\<lambda>p. (fst p, ?g (fst p) (snd p))) m)"
    proof
      fix x
      have "map_of (map (\<lambda>p. (fst p, ?g (fst p) (snd p))) m) x = map_option (?g x) (map_of m x)" by (rule map_of_keyed)
      with k show "map_of (mput k rep' m) x = map_of (map (\<lambda>p. (fst p, ?g (fst p) (snd p))) m) x"
        by (cases "x = k") (auto simp: option.map_ident)
    qed
  qed (simp add: assms(2))
  moreover have "distinct (map fst (range_map rng site m))"
    using assms(1,2) by (simp add: fst_range_map order_ok_distinct mwf_distinct)
  ultimately have "coll_find rng site key v (mput k rep' m) = Some (k, rep')"
    using find_replaced [OF assms(3) [unfolded coll_find_def], OF assms(4)] range_map_keyed [of rng site ?g m]
    by (simp add: coll_find_def)
  then show ?thesis by (simp add: coll_look_def)
qed

text \<open>What a collection holds after a new entry, and after an update of the one that is found.\<close>

lemma coll_created:
  fixes i payload
  defines "new \<equiv> mput ''id'' (JStr i) payload"
  assumes "order_ok rng" and "coll_ok m" and "coll_look rng site key n m = None" and "sendable key n payload" and "plain_seg i"
    and "key \<noteq> ''id''"
  shows "\<not> has_value key n m" "coll_ok (mput i new m)"
    "\<exists>rep. coll_look rng site key n (mput i new m) = Some rep \<and> carries rep payload \<and> map_of rep ''id'' = Some (JStr i)"
proof -
  have wf: "mwf m" using assms(3) by (simp add: coll_ok_def)
  show none: "\<not> has_value key n m" using assms(4) coll_find_None [OF assms(2) wf] by (simp add: coll_look_def)
  show "coll_ok (mput i new m)" using assms(3,6) by (rule coll_ok_mput)
  have "coll_look rng site key n (mput i new m) = Some (clone (mput ''id'' (JStr i) new))"
    using sendableD(6) [OF assms(5)] assms(7) by (intro coll_look_new assms(2) wf none) (simp add: new_def)
  then show "\<exists>rep. coll_look rng site key n (mput i new m) = Some rep \<and> carries rep payload \<and> map_of rep ''id'' = Some (JStr i)"
    using stored_new [OF assms(5), of "JStr i"] by (simp add: new_def clone_lookup)
qed

lemma coll_updated:
  fixes remote payload
  defines "p \<equiv> MergePayload (cloneMap remote) payload"
  assumes "order_ok rng" and "coll_ok m" and "coll_look rng site key n m = Some remote" and "sendable key n payload"
  obtains i rep where "map_of m i = Some rep" "plain_seg i" "map_of remote ''id'' = Some (JStr i)" "jround (JObj p) = JObj p"
    "coll_ok (mput i (merge rep p) m)"
    "\<exists>rep'. coll_look rng site key n (mput i (merge rep p) m) = Some rep' \<and> carries rep' payload \<and> map_of rep' ''id'' = Some (JStr i)"
proof -
  obtain i rep where found: "coll_find rng site key n m = Some (i, rep)" and remote: "remote = clone (mput ''id'' (JStr i) rep)"
    using assms(4) by (auto simp: coll_look_def)
  have wf: "mwf m" using assms(3) by (simp add: coll_ok_def)
  have stored: "map_of m i = Some rep" by (rule coll_find_stored [OF assms(2) wf found])
  have seg: "plain_seg i" by (rule coll_ok_key [OF assms(3) stored])
  note wb = written_back [OF assms(5), where rep = "mput ''id'' (JStr i) rep", folded remote p_def]
  have "map_of (merge rep p) key = Some (JStr n)"
    by (rule carried_string [OF wb(2) map_of_SomeD [OF sendableD(6) [OF assms(5)]]])
  note look = coll_look_written [OF assms(2) wf found this]
  show thesis
    by (rule that [OF stored seg _ wb(1) coll_ok_mput [OF assms(3) seg]])
      (use look carries_id [OF wb(2) [of rep] sendableD(5) [OF assms(5)]] in \<open>auto simp: remote clone_lookup\<close>)
qed

text \<open>What a collection shows: the entries with a value at the key, as a GET request returns them.\<close>

definition entry :: "string \<Rightarrow> json gomap gomap \<Rightarrow> string \<Rightarrow> string \<Rightarrow> json gomap \<Rightarrow> bool" where
  "entry key m i v x \<longleftrightarrow>
     (\<exists>rep. map_of m i = Some rep \<and> map_of rep key = Some (JStr v) \<and> x = clone (mput ''id'' (JStr i) rep))"

lemma entry_stamp:
  assumes "key \<noteq> ''id''"
  shows "entry key (stamp_ids P m) = entry key m"
proof -
  define g where "g k r = (if P r then mput ''id'' (JStr k) r else r)" for k r
  have "map_of (stamp_ids P m) i = map_option (g i) (map_of m i)" for i
    using map_of_keyed [of g m i] by (simp add: stamp_ids_def g_def)
  moreover have "map_of (g i r) key = map_of r key" "mput ''id'' (JStr i) (g i r) = mput ''id'' (JStr i) r" for i r
    using assms by (simp_all add: g_def)
  ultimately show ?thesis by (auto simp: entry_def fun_eq_iff)
qed

lemma mget_put_in [simp]: "mget (put_in r i v m) r = mput i v (mget m r)"
  by (simp add: mget_def put_in_def)

lemma decodeMap_sent: "jround (JObj p) = JObj p \<Longrightarrow> decodeMap (body_of (Some (JObj p))) = Some (JObj p)"
  by (simp add: body_of_def)

lemma singleRep_PUT:
  "jround (JObj p) = JObj p \<Longrightarrow> map_of (mget m r) i = Some rep \<Longrightarrow>
   singleRep ''PUT'' (body_of (Some (JObj p))) r i m = (Code 204, put_in r i (merge rep p) m)"
  by (simp add: singleRep_def decodeMap_sent del: jround.simps)

section \<open>Answers\<close>

lemma answer_simps [simp]:
  "answer render m p OutMap (Body (JObj rep)) = Inr (JObj (clone rep))"
  "200 \<le> c \<Longrightarrow> c < 300 \<Longrightarrow> answer render m p OutNil (Code c) = Inr JNull"
  "answer render m p t notFound = Inl (Wrapf [''%w: %s %s'', m, p] ErrNotFound)"
  by (simp_all add: answer_def to_response_def decode_response_def clone_def notFound_def)

lemma decode_slice: "decodeOut OutMaps (jround (slice (map JObj rs))) = Some (JArr (map (\<lambda>r. JObj (clone r)) rs))"
proof -
  have "decode_elems (map jround (map JObj rs)) = Some (map (\<lambda>r. JObj (clone r)) rs)"
    by (induction rs) (simp_all add: clone_def)
  then show ?thesis by (simp add: slice_def)
qed

lemma answer_list [simp]:
  "answer render m p OutMaps (Body (slice (map JObj rs))) = Inr (JArr (map (\<lambda>r. JObj (clone r)) rs))"
  by (simp add: answer_def to_response_def decode_response_def decode_slice)

lemma answer_objs [simp]:
  "map_sum id as_objs (answer render m p OutMaps (Body (slice (map JObj rs)))) = Inr (map clone rs)"
  by (simp add: comp_def)

lemma admin_prefix [simp]: "HasPrefix (realmPath r) ''/admin/''" "HasPrefix (realmPath r @ s) ''/admin/''"
  by (simp_all add: realmPath_def HasPrefix_def)

lemma admin_prefix_items [simp]:
  "HasPrefix (client_path r n) ''/admin/''" "HasPrefix (scope_path r n) ''/admin/''"
  "HasPrefix (role_path r n) ''/admin/''" "HasPrefix (idp_path r n) ''/admin/''" "HasPrefix (group_path r n) ''/admin/''"
  by (simp_all add: client_path_def scope_path_def role_path_def idp_path_def group_path_def)

lemma api_create_realm: "api_step rng ''POST'' ''/admin/realms'' b S = createRealm (body_of b) S"
proof -
  have "before (CHR ''?'') ''/admin/realms'' = ''/admin/realms''" "PathUnescape ''/admin/realms'' = Some ''/admin/realms''"
    "clean_path ''/admin/realms''" by code_simp+
  then show ?thesis
    by (simp add: api_step_def serve_def handleAdmin_def Let_def HasPrefix_def TrimPrefix_def split: prod.split)
qed

text \<open>What the server holds for a realm and for a client scope, as a GET request shows it.\<close>

definition realm_at :: "RealmSpec object \<Rightarrow> Store \<Rightarrow> json gomap option" where
  "realm_at obj S = map_option clone (map_of (st_realms S) (spec_realm (obj_spec obj)))"

text \<open>Listing the scopes of a realm at most writes their identifiers into them.\<close>

definition scopes_stamped :: "string \<Rightarrow> Store \<Rightarrow> Store \<Rightarrow> bool" where
  "scopes_stamped r S S' \<longleftrightarrow>
     S' = S \<or> S' = S\<lparr>st_scopes := mput r (stamp_ids (\<lambda>rep. True) (mget (st_scopes S) r)) (st_scopes S)\<rparr>"

definition scope_at :: "order \<Rightarrow> ClientScopeSpec object \<Rightarrow> Store \<Rightarrow> json gomap option" where
  "scope_at rng obj S =
     coll_look rng ''handleClientScopes'' ''name'' (scope_name (obj_spec obj))
       (mget (st_scopes S) (spec_realm (obj_spec obj)))"

section \<open>Operations of a served client\<close>

context served
begin

lemma object_call:
  assumes "ok w" and "HasPrefix path ''/admin/''" and "map_result f (kc meth path body target w) = (x, w')"
  shows "x = map_sum id f (answer render meth path target (fst (api_step rng meth path body (store w)))) \<and>
    store w' = snd (api_step rng meth path body (store w)) \<and> ok w'"
proof -
  obtain y w1 where run: "kc meth path body target w = (y, w1)" by (cases "kc meth path body target w")
  from call [OF assms(1,2) run] assms(3) run show ?thesis
    by (auto simp: map_result_def split: sum.splits)
qed

lemma write_call:
  assumes "ok w" and "HasPrefix path ''/admin/''" and "no_result (kc meth path body OutNil w) = (e, w')"
  shows "e = err_of (answer render meth path OutNil (fst (api_step rng meth path body (store w)))) \<and>
    store w' = snd (api_step rng meth path body (store w)) \<and> ok w'"
proof -
  obtain y w1 where run: "kc meth path body OutNil w = (y, w1)" by (cases "kc meth path body OutNil w")
  from call [OF assms(1,2) run] assms(3) run show ?thesis
    by (auto simp: no_result_def err_of_def split: sum.splits)
qed

lemma realm_get:
  assumes "ok w" and "plain_name r" and "GetRealm kc r w = (x, w')"
  shows "ok w' \<and> store w' = store w \<and>
    (case map_of (st_realms (store w)) r of
       None \<Rightarrow> \<exists>e. x = Inl e \<and> errors_Is e ErrNotFound
     | Some rep \<Rightarrow> x = Inr (clone rep))"
  using object_call [OF assms(1) _ assms(3) [unfolded GetRealm_def]] assms(2)
  by (auto simp: api_paths handleRealm_def split: option.split)

lemma realm_create:
  assumes "ok w" and "sendable ''realm'' r p" and "r \<noteq> []" and "map_of (st_realms (store w)) r = None"
    and "CreateRealm kc p w = (e, w')"
  shows "e = None \<and> ok w' \<and> store w' = (store w)\<lparr>st_realms := mput r (mput ''id'' (JStr r) p) (st_realms (store w))\<rparr>"
proof -
  let ?p = "''/admin/realms''"
  have run: "no_result (kc ''POST'' ?p (Some (JObj p)) OutNil w) = (e, w')"
    using assms(5) by (simp add: CreateRealm_def)
  have "createRealm (body_of (Some (JObj p))) (store w) =
      (Code 201, (store w)\<lparr>st_realms := mput r (mput ''id'' (JStr r) p) (st_realms (store w))\<rparr>)"
    using assms(3,4) sendableD [OF assms(2)]
    by (simp add: createRealm_def body_of_def str_or_empty_def Let_def)
  with write_call [OF assms(1) _ run] show ?thesis
    by (simp add: api_create_realm HasPrefix_def err_of_def)
qed

lemma realm_update:
  assumes "ok w" and "plain_name r" and "map_of (st_realms (store w)) r = Some rep"
    and "jround (JObj m) = JObj m" and "UpdateRealm kc r m w = (e, w')"
  shows "e = None \<and> ok w' \<and> store w' = (store w)\<lparr>st_realms := mput r (merge rep m) (st_realms (store w))\<rparr>"
proof -
  have "handleRealm ''PUT'' (body_of (Some (JObj m))) r (store w) =
      (Code 204, (store w)\<lparr>st_realms := mput r (merge rep m) (st_realms (store w))\<rparr>)"
    using assms(3,4) by (simp add: handleRealm_def body_of_def)
  with write_call [OF assms(1) _ assms(5) [unfolded UpdateRealm_def]] assms(2) show ?thesis
    by (simp add: api_paths err_of_def)
qed

text \<open>Realms meet the contract.\<close>

sublocale realms: stored_driver "RealmDriver rng'" kc store ok
    "\<lambda>obj S. plain_name (spec_realm (obj_spec obj)) \<and> smtpServerSecretRef (obj_spec obj) = None"
    realm_at "\<lambda>rep. ()" "\<lambda>obj S. True" "\<lambda>obj. sendable ''realm'' (spec_realm (obj_spec obj))"
  for rng'
proof (unfold_locales, goal_cases)
  case (1 w obj x w')
  then show ?case
    using realm_get [of w "spec_realm (obj_spec obj)" x w']
    by (auto simp: realm_at_def RealmDriver_def RealmDriver_Get_def RealmSpec_TargetRealm_def split: option.splits)
next
  case (2 w obj payload e w')
  then show ?case
    using realm_create [of w "spec_realm (obj_spec obj)" payload e w'] stored_new [OF 2(4)]
    by (auto simp: realm_at_def RealmDriver_def RealmDriver_Create_def plain_name_def plain_seg_def)
next
  case (3 w obj remote payload e w')
  then obtain rep where rep: "map_of (st_realms (store w)) (spec_realm (obj_spec obj)) = Some rep" "remote = clone rep"
    by (auto simp: realm_at_def)
  with 3 show ?case
    using realm_update [of w "spec_realm (obj_spec obj)" rep _ e w'] written_back [OF 3(4), where rep = rep]
    by (auto simp: realm_at_def RealmDriver_def RealmDriver_Update_def RealmSpec_TargetRealm_def simp del: jround.simps)
next
  case (4 w obj rep K remote k y w')
  then show ?case by (auto simp: realm_at_def RealmDriver_def RealmDriver_PostApply_def)
next
  case (5 obj S K k payload)
  then show ?case by (simp add: RealmDriver_def RealmDriver_PreparePayload_def)
next
  case (6 obj S payload)
  then show ?case
    by (intro marked_fitting [where key = "''realm''" and a = ManagedAnnotation and b = ManagedValue] realm_spec_sendable)
      (simp_all add: RealmDriver_def RealmDriver_ManagedMarker_def [abs_def])
next
  case (7 obj payload)
  then show ?case by (rule sendableD(1))
next
  case (8 obj)
  then show ?case using realm_spec_sendable sendableD(1) by blast
qed

lemma scopes_list:
  assumes "ok w" and "plain_name r" and "map_of (st_realms (store w)) r \<noteq> None"
    and "ListClientScopes kc r w = (x, w')"
  shows "ok w' \<and> st_realms (store w') = st_realms (store w) \<and> scopes_stamped r (store w) (store w') \<and>
    x = Inr (map clone (map (\<lambda>p. mput ''id'' (JStr (fst p)) (snd p))
      (filter (\<lambda>p. True) (range_map rng ''handleClientScopes'' (mget (st_scopes (store w)) r))))) \<and>
    (mget (st_scopes (store w')) r = mget (st_scopes (store w)) r \<or>
     mget (st_scopes (store w')) r = stamp_ids (\<lambda>rep. True) (mget (st_scopes (store w)) r))"
proof -
  define l where "l = map (\<lambda>p. mput ''id'' (JStr (fst p)) (snd p))
    (filter (\<lambda>p. True) (range_map rng ''handleClientScopes'' (mget (st_scopes (store w)) r)))"
  have "list_reps rng ''handleClientScopes'' (\<lambda>rep. True) (mget (st_scopes (store w)) r) = map JObj l"
    by (simp add: list_reps_def l_def)
  then show ?thesis
    unfolding l_def [symmetric]
    using object_call [OF assms(1) _ assms(4) [unfolded ListClientScopes_def]] assms(2,3)
    by (auto simp: api_paths handleClientScopes_def scopeCollection_def scopes_stamped_def Let_def mget_def split: if_splits)
qed

lemma scope_find:
  assumes "ok w" and "plain_name r" and "map_of (st_realms (store w)) r \<noteq> None" and "coll_ok (mget (st_scopes (store w)) r)"
    and "FindClientScope kc r n w = (x, w')"
  shows "ok w' \<and> st_realms (store w') = st_realms (store w) \<and> scopes_stamped r (store w) (store w') \<and> coll_ok (mget (st_scopes (store w')) r) \<and>
    coll_look rng ''handleClientScopes'' ''name'' n (mget (st_scopes (store w')) r) =
      coll_look rng ''handleClientScopes'' ''name'' n (mget (st_scopes (store w)) r) \<and>
    (case coll_look rng ''handleClientScopes'' ''name'' n (mget (st_scopes (store w)) r) of
       None \<Rightarrow> \<exists>e. x = Inl e \<and> errors_Is e ErrNotFound
     | Some rep \<Rightarrow> x = Inr rep)"
proof -
  obtain y w1 where l: "ListClientScopes kc r w = (y, w1)" by (cases "ListClientScopes kc r w")
  note listed = scopes_list [OF assms(1-3) l]
  have "find_rep ''name'' n (map clone (map (\<lambda>p. mput ''id'' (JStr (fst p)) (snd p))
      (filter (\<lambda>p. True) (range_map rng ''handleClientScopes'' (mget (st_scopes (store w)) r))))) =
    coll_look rng ''handleClientScopes'' ''name'' n (mget (st_scopes (store w)) r)"
    using find_rep_listed [of "''name''" n "\<lambda>rep. True"] by (simp add: coll_look_def coll_find_def)
  with listed l assms(4,5) show ?thesis
    by (auto simp: FindClientScope_def coll_look_stamp coll_ok_stamp split: option.splits)
qed

lemma scope_create:
  assumes "ok w" and "plain_name r" and "map_of (st_realms (store w)) r \<noteq> None" and "sendable ''name'' n p"
    and "\<not> has_value ''name'' n (mget (st_scopes (store w)) r)" and "CreateClientScope kc r p w = (e, w')"
  shows "e = None \<and> ok w' \<and> store w' = (store w)\<lparr>st_scopes :=
    put_in r (''scope-'' @ n) (mput ''id'' (JStr (''scope-'' @ n)) p) (st_scopes (store w))\<rparr>"
proof -
  have "scopeCollection rng ''POST'' (body_of (Some (JObj p))) r (store w) =
      (Code 201, (store w)\<lparr>st_scopes :=
         put_in r (''scope-'' @ n) (mput ''id'' (JStr (''scope-'' @ n)) p) (st_scopes (store w))\<rparr>)"
    using assms(5) sendableD [OF assms(4)]
    by (simp add: scopeCollection_def decodeMap_sent str_or_empty_def Let_def del: jround.simps)
  then show ?thesis
    using write_call [OF assms(1) _ assms(6) [unfolded CreateClientScope_def]] assms(2,3)
    by (simp add: api_paths handleClientScopes_def err_of_def)
qed

lemma scope_update:
  assumes "ok w" and "plain_name r" and "plain_seg i" and "map_of (st_realms (store w)) r \<noteq> None"
    and "map_of (mget (st_scopes (store w)) r) i = Some rep" and "jround (JObj m) = JObj m"
    and "UpdateClientScope kc r i m w = (e, w')"
  shows "e = None \<and> ok w' \<and> store w' = (store w)\<lparr>st_scopes := put_in r i (merge rep m) (st_scopes (store w))\<rparr>"
  using write_call [OF assms(1) _ assms(7) [unfolded UpdateClientScope_def]] assms(2-4) singleRep_PUT [OF assms(6,5)]
  by (simp add: api_item_paths handleClientScopes_def err_of_def)

text \<open>Client scopes meet the contract in a realm whose scopes have plain identifiers.\<close>

sublocale client_scopes: stored_driver ClientScopeDriver kc store ok
    "\<lambda>obj S. order_ok rng \<and> plain_name (spec_realm (obj_spec obj)) \<and> CHR ''/'' \<notin> set (scope_name (obj_spec obj)) \<and>
       map_of (st_realms S) (spec_realm (obj_spec obj)) \<noteq> None \<and>
       coll_ok (mget (st_scopes S) (spec_realm (obj_spec obj)))"
    "scope_at rng" "\<lambda>rep. ()" "\<lambda>obj S. True" "\<lambda>obj. sendable ''name'' (scope_name (obj_spec obj))"
proof (unfold_locales, unfold scope_at_def, goal_cases)
  case (1 w obj x w')
  then show ?case
    using scope_find [of w "spec_realm (obj_spec obj)" "scope_name (obj_spec obj)" x w']
    by (auto simp: ClientScopeDriver_def ClientScopeDriver_Get_def ClientScopeSpec_TargetRealm_def Let_def)
next
  case (2 w obj payload e w')
  let ?n = "scope_name (obj_spec obj)"
  have seg: "plain_seg (''scope-'' @ ?n)" using 2(2) by (simp add: plain_seg_def)
  note new = coll_created [OF _ _ 2(3,4) seg]
  from 2 new scope_create [OF 2(1) _ _ 2(4), of "spec_realm (obj_spec obj)" e w'] show ?case
    by (auto simp: ClientScopeDriver_def ClientScopeDriver_Create_def ClientScopeSpec_TargetRealm_def)
next
  case (3 w obj remote payload e w')
  let ?r = "spec_realm (obj_spec obj)" and ?p = "MergePayload (cloneMap remote) payload"
  from 3(2) have "order_ok rng" "coll_ok (mget (st_scopes (store w)) ?r)" by auto
  from coll_updated [OF this 3(3,4)] obtain i rep where
    i: "map_of (mget (st_scopes (store w)) ?r) i = Some rep" "plain_seg i" "map_of remote ''id'' = Some (JStr i)"
      "jround (JObj ?p) = JObj ?p"
    and new: "coll_ok (mput i (merge rep ?p) (mget (st_scopes (store w)) ?r))"
      "\<exists>rep'. coll_look rng ''handleClientScopes'' ''name'' (scope_name (obj_spec obj))
        (mput i (merge rep ?p) (mget (st_scopes (store w)) ?r)) = Some rep' \<and> carries rep' payload \<and> map_of rep' ''id'' = Some (JStr i)" .
  have "UpdateClientScope kc ?r i ?p w = (e, w')"
    using 3(5) i(3) by (simp add: ClientScopeDriver_def ClientScopeDriver_Update_def ClientScopeDriver_ID_def
        str_or_empty_def ClientScopeSpec_TargetRealm_def)
  from scope_update [OF 3(1) _ i(2) _ i(1,4) this] show ?case using 3(2) new by auto
next
  case (4 w obj rep K remote k y w')
  then show ?case by (auto simp: ClientScopeDriver_def ClientScopeDriver_PostApply_def)
next
  case (5 obj S K k payload)
  then show ?case by (simp add: ClientScopeDriver_def ClientScopeDriver_PreparePayload_def)
next
  case (6 obj S payload)
  then show ?case
    by (intro marked_fitting [where key = "''name''" and a = ManagedAnnotation and b = ManagedValue] scope_spec_sendable)
      (simp_all add: ClientScopeDriver_def ClientScopeDriver_ManagedMarker_def [abs_def])
next
  case (7 obj payload)
  then show ?case by (rule sendableD(1))
next
  case (8 obj)
  then show ?case using scope_spec_sendable sendableD(1) by blast
qed

end

end
