(* ===== verification/Fake_Scopes.thy ===== *)
theory Fake_Scopes
  imports Fake_Convergence
begin

text \<open>
  Scope assignments of a client on the in-memory Admin API: \<open>enforceScopeAssignments\<close> makes
  them exactly the desired names.
\<close>

section \<open>Names and identifiers of scopes\<close>

definition scope_named :: "json gomap gomap \<Rightarrow> string \<Rightarrow> string \<Rightarrow> bool" where
  "scope_named m i n \<longleftrightarrow> (\<exists>rep. map_of m i = Some rep \<and> map_of rep ''name'' = Some (JStr n))"

definition names_unique :: "json gomap gomap \<Rightarrow> bool" where
  "names_unique m \<longleftrightarrow> (\<forall>i j n. scope_named m i n \<longrightarrow> scope_named m j n \<longrightarrow> i = j)"

definition assigned_names :: "json gomap gomap \<Rightarrow> string list \<Rightarrow> string set" where
  "assigned_names m ids = {n. \<exists>i \<in> set ids. scope_named m i n}"

text \<open>Which store of assignments a call works on.\<close>

definition assignments :: "bool \<Rightarrow> Store \<Rightarrow> string list gomap gomap" where
  "assignments optional S = (if optional then st_optScope S else st_defScope S)"

text \<open>The scopes are the same but for stamps.\<close>

definition same_scopes :: "Store \<Rightarrow> Store \<Rightarrow> bool" where
  "same_scopes S S' \<longleftrightarrow>
     (\<forall>r. entry ''name'' (mget (st_scopes S') r) = entry ''name'' (mget (st_scopes S) r) \<and>
          coll_ok (mget (st_scopes S') r) = coll_ok (mget (st_scopes S) r))"

text \<open>Nothing but the assignments of one kind of one client and the stamps of scopes changed.\<close>

definition assignments_only :: "bool \<Rightarrow> string \<Rightarrow> string \<Rightarrow> Store \<Rightarrow> Store \<Rightarrow> bool" where
  "assignments_only optional r c S S' \<longleftrightarrow> same_scopes S S' \<and>
     (\<forall>r' j. (r', j) \<noteq> (r, c) \<longrightarrow> mget (mget (assignments optional S') r') j = mget (mget (assignments optional S) r') j) \<and>
     st_realms S' = st_realms S \<and> st_clients S' = st_clients S \<and>
     assignments (\<not> optional) S' = assignments (\<not> optional) S \<and>
     scope_named (mget (st_scopes S') r) = scope_named (mget (st_scopes S) r) \<and>
     coll_ok (mget (st_scopes S') r) = coll_ok (mget (st_scopes S) r)"

lemma assignments_only_refl [simp]: "assignments_only optional r c S S"
  by (simp add: assignments_only_def same_scopes_def)

lemma assignments_only_trans: "assignments_only optional r c S S' \<Longrightarrow> assignments_only optional r c S' S'' \<Longrightarrow> assignments_only optional r c S S''"
  by (simp add: assignments_only_def same_scopes_def)

lemma scopes_stamped_same:
  assumes "scopes_stamped r S S'"
  shows "same_scopes S S'"
proof -
  have "entry ''name'' (mget (st_scopes S') r') = entry ''name'' (mget (st_scopes S) r') \<and>
      coll_ok (mget (st_scopes S') r') = coll_ok (mget (st_scopes S) r')" for r'
  proof -
    consider "mget (st_scopes S') r' = mget (st_scopes S) r'"
      | "mget (st_scopes S') r' = stamp_ids (\<lambda>rep. True) (mget (st_scopes S) r')"
      using assms by (cases "r' = r") (auto simp: scopes_stamped_def mget_def)
    then show ?thesis by cases (simp_all add: entry_stamp coll_ok_stamp)
  qed
  then show ?thesis by (simp add: same_scopes_def)
qed

lemma put_in_other: "(r', j) \<noteq> (r, c) \<Longrightarrow> mget (mget (put_in r c v m) r') j = mget (mget m r') j"
  by (auto simp: put_in_def mget_def)

lemma scope_named_stamp: "scope_named (stamp_ids P m) i n \<longleftrightarrow> scope_named m i n"
proof -
  define g where "g k r = (if P r then mput ''id'' (JStr k) r else r)" for k r
  have "map_of (stamp_ids P m) i = map_option (g i) (map_of m i)"
    using map_of_keyed [of g m i] by (simp add: stamp_ids_def g_def)
  moreover have "map_of (g i r) ''name'' = map_of r ''name''" for r by (simp add: g_def)
  ultimately show ?thesis by (auto simp: scope_named_def)
qed

lemma any_str_clone: "any_str (map_of (clone rep) k) = any_str (map_of rep k)"
  by (cases "map_of rep k" rule: any_str.cases) (simp_all add: clone_lookup)

lemma any_str_Some: "any_str v = Some s \<longleftrightarrow> v = Some (JStr s)"
  by (cases v rule: any_str.cases) auto

lemma ids_by_name_listed:
  assumes "order_ok rng" and "mwf m" and "names_unique m"
  shows "map_of (ids_by_name (map clone (map (\<lambda>p. mput ''id'' (JStr (fst p)) (snd p)) (range_map rng site m)))) n = Some i \<longleftrightarrow>
    scope_named m i n"
proof -
  define pair where "pair rep = (case (any_str (map_of rep ''name''), any_str (map_of rep ''id'')) of
    (Some n, Some i) \<Rightarrow> Some (n, i) | _ \<Rightarrow> None)" for rep
  define l where "l = List.map_filter pair (map clone (map (\<lambda>p. mput ''id'' (JStr (fst p)) (snd p)) (range_map rng site m)))"
  have pair: "pair (clone (mput ''id'' (JStr b) rep)) = Some (a, c) \<longleftrightarrow> c = b \<and> map_of rep ''name'' = Some (JStr a)"
    for a b c rep by (auto simp: pair_def any_str_clone any_str_Some split: option.split)
  have l: "(a, b) \<in> set l \<longleftrightarrow> scope_named m b a" for a b
  proof -
    have "(a, b) \<in> set l \<longleftrightarrow>
        (\<exists>p \<in> set (range_map rng site m). fst p = b \<and> map_of (snd p) ''name'' = Some (JStr a))"
      by (auto simp: l_def set_map_filter pair)
    then show ?thesis
      by (simp only: Bex_def split_paired_Ex fst_conv snd_conv range_map_lookup [OF assms(1,2)] scope_named_def) blast
  qed
  have "map_of (rev l) n = Some i \<longleftrightarrow> scope_named m i n"
  proof
    assume "map_of (rev l) n = Some i"
    from map_of_SomeD [OF this] show "scope_named m i n" by (simp add: l)
  next
    assume named: "scope_named m i n"
    then have "(n, i) \<in> set (rev l)" by (simp add: l)
    then obtain j where j: "map_of (rev l) n = Some j" using weak_map_of_SomeI by metis
    from map_of_SomeD [OF this] have "scope_named m j n" by (simp add: l)
    with named assms(3) j show "map_of (rev l) n = Some i" by (auto simp: names_unique_def)
  qed
  then show ?thesis
    unfolding ids_by_name_def pair_def [symmetric] l_def [symmetric] by (simp add: mputs_lookup)
qed

text \<open>The names the server reports for a list of assigned identifiers.\<close>

lemma scope_names_reported:
  "set (scope_names (map clone (List.map_filter (map_of m) ids))) = assigned_names m ids"
proof -
  have "any_str (map_of (clone rep) ''name'') = Some n \<longleftrightarrow> map_of rep ''name'' = Some (JStr n)" for rep n
    by (simp add: any_str_clone any_str_Some)
  then show ?thesis
    unfolding assigned_names_def scope_named_def by (auto simp: scope_names_def set_map_filter simp del: any_str_clone)
qed

lemma names_adjusted:
  assumes "\<And>n. n \<in> D \<Longrightarrow> \<exists>i. scope_named m i n"
    and "set ids' = set ids \<union> {i. \<exists>n \<in> D - assigned_names m ids. scope_named m i n} -
      {i. \<exists>n \<in> assigned_names m ids - D. scope_named m i n}"
  shows "assigned_names m ids' = D"
proof -
  have one: "scope_named m i n \<Longrightarrow> scope_named m i n' \<Longrightarrow> n = n'" for i n n' by (auto simp: scope_named_def)
  show ?thesis
  proof (intro set_eqI iffI)
    fix n assume "n \<in> assigned_names m ids'"
    then obtain i where i: "i \<in> set ids'" "scope_named m i n" by (auto simp: assigned_names_def)
    then show "n \<in> D" using one unfolding assms(2) assigned_names_def by blast
  next
    fix n assume n: "n \<in> D"
    obtain i where i: "scope_named m i n" "n \<in> assigned_names m ids \<longrightarrow> i \<in> set ids"
      using assms(1) [OF n] by (auto simp: assigned_names_def)
    then have "i \<in> set ids'" using n one unfolding assms(2) by blast
    with i(1) show "n \<in> assigned_names m ids'" by (auto simp: assigned_names_def)
  qed
qed

section \<open>Adding and removing one by one\<close>

text \<open>
  What the two loops rely on: \<open>assign\<close> adds a known identifier and removes an assigned one.
\<close>

locale assignment_api =
  fixes assign :: "string \<Rightarrow> bool \<Rightarrow> 'w \<Rightarrow> goerr option \<times> 'w" and held :: "'w \<Rightarrow> string set"
    and good :: "'w \<Rightarrow> bool" and known :: "'w \<Rightarrow> 'd" and member :: "'d \<Rightarrow> string \<Rightarrow> bool"
  assumes add: "\<lbrakk>good w; member (known w) i; assign i True w = (e, w')\<rbrakk> \<Longrightarrow>
      e = None \<and> good w' \<and> known w' = known w \<and> held w' = insert i (held w)"
    and remove: "\<lbrakk>good w; member (known w) i; i \<in> held w; assign i False w = (e, w')\<rbrakk> \<Longrightarrow>
      e = None \<and> good w' \<and> known w' = known w \<and> held w' = held w - {i}"
begin

lemma add_all:
  assumes "good w" and "\<forall>n \<in> set names. \<exists>i. map_of ids n = Some i \<and> member (known w) i" and "addScopes assign realm ids names w = (e, w')"
  shows "e = None \<and> good w' \<and> known w' = known w \<and> held w' = held w \<union> {i. \<exists>n \<in> set names. map_of ids n = Some i}"
  using assms
proof (induction names arbitrary: w)
  case (Cons name names)
  then obtain i where i: "map_of ids name = Some i" "member (known w) i" by auto
  obtain e1 w1 where run: "assign i True w = (e1, w1)" by (cases "assign i True w")
  from add [OF Cons.prems(1) i(2) run] Cons.IH [of w1] Cons.prems i run show ?case by auto
qed auto

lemma remove_all:
  assumes "good w" and "distinct names" and "\<forall>n \<in> set names. \<exists>i. map_of ids n = Some i \<and> member (known w) i \<and> i \<in> held w"
    and "inj_on (map_of ids) (set names)" and "removeScopes assign ids names w = (e, w')"
  shows "e = None \<and> good w' \<and> known w' = known w \<and> held w' = held w - {i. \<exists>n \<in> set names. map_of ids n = Some i}"
  using assms
proof (induction names arbitrary: w)
  case (Cons name names)
  then obtain i where i: "map_of ids name = Some i" "member (known w) i" "i \<in> held w" by auto
  obtain e1 w1 where run: "assign i False w = (e1, w1)" by (cases "assign i False w")
  note step = remove [OF Cons.prems(1) i(2,3) run]
  have "\<exists>j. map_of ids n = Some j \<and> member (known w1) j \<and> j \<in> held w1" if n: "n \<in> set names" for n
  proof -
    obtain j where j: "map_of ids n = Some j" "member (known w) j" "j \<in> held w" using Cons.prems(3) n by fastforce
    moreover have "j \<noteq> i" using Cons.prems(2,4) n i j by (auto simp: inj_on_def)
    ultimately show ?thesis using step by auto
  qed
  with Cons.IH [of w1] Cons.prems step i run show ?case by auto
qed auto

end

section \<open>Assignments on the server\<close>

definition assigned_ids :: "bool \<Rightarrow> string \<Rightarrow> string \<Rightarrow> Store \<Rightarrow> string list" where
  "assigned_ids optional r c S = mget (mget (assignments optional S) r) c"

definition scope_kind :: "bool \<Rightarrow> string" where
  "scope_kind optional = (if optional then ''optional-client-scopes'' else ''default-client-scopes'')"

lemma handle_assignments:
  assumes "map_of (st_realms S) r \<noteq> None"
  shows "handleClients rng m q b r (c # scope_kind optional # rest) S =
     (case scopeAssignments m r (c # scope_kind optional # rest) (mget (st_scopes S) r) (assignments optional S) of
        (x, store) \<Rightarrow> (x, if optional then S\<lparr>st_optScope := store\<rparr> else S\<lparr>st_defScope := store\<rparr>))"
  using assms by (auto simp: handleClients_def scope_kind_def assignments_def split: prod.split)

lemma map_filter_objs: "List.map_filter (\<lambda>i. map_option JObj (f i)) xs = map JObj (List.map_filter f xs)"
  by (induction xs) (simp_all split: option.split)

lemma scope_kind_cases: "scope_kind optional = ''default-client-scopes'' \<or> scope_kind optional = ''optional-client-scopes''"
  by (simp add: scope_kind_def)

lemma assigned_put_in: "mget (mget (put_in r c v m) r) c = v" "mget (mput c v m') c = v" "map_of m r = None \<Longrightarrow> mget m r = []"
  by (simp_all add: put_in_def mget_def)

lemmas assignment_defs = assigned_ids_def assignments_def scopeAssignments_def assigned_put_in Let_def

lemma enforce_unfold:
  fixes kc :: "'w kc" and r c optional
  defines "assign \<equiv> assignClientScope kc r c (scope_kind optional)"
    and "site \<equiv> (if optional then ''optional'' else ''default'')"
  assumes "listClientScopeAssignments kc r c (scope_kind optional) w = (Inr current, w1)"
    and "toAdd = filter (\<lambda>n. n \<notin> set (scope_names current)) (rng' (site @ ''/add'') (keyset desired))"
    and "toRemove = filter (\<lambda>n. n \<notin> set (keyset desired)) (rng' (site @ ''/remove'') (scope_names current))"
  shows "toAdd = [] \<and> toRemove = [] \<Longrightarrow> enforceScopeAssignments rng' kc r c desired optional w = ((False, None), w1)"
    and "\<not> (toAdd = [] \<and> toRemove = []) \<Longrightarrow> ListClientScopes kc r w1 = (Inr scopes, w2) \<Longrightarrow>
      addScopes assign r (ids_by_name scopes) toAdd w2 = (None, w3) \<Longrightarrow>
      removeScopes assign (ids_by_name scopes) toRemove w3 = (None, w4) \<Longrightarrow>
      enforceScopeAssignments rng' kc r c desired optional w = ((True, None), w4)"
proof -
  have kinds: "(if optional then AssignClientOptionalScope kc r c else AssignClientDefaultScope kc r c) = assign"
    "(if optional then ClientOptionalScopeAssignments kc r c w else ClientDefaultScopeAssignments kc r c w) =
      listClientScopeAssignments kc r c (scope_kind optional) w"
    by (auto simp: fun_eq_iff AssignClientOptionalScope_def AssignClientDefaultScope_def ClientOptionalScopeAssignments_def
        ClientDefaultScopeAssignments_def scope_kind_def assign_def)
  show "toAdd = [] \<and> toRemove = [] \<Longrightarrow> enforceScopeAssignments rng' kc r c desired optional w = ((False, None), w1)"
    and "\<not> (toAdd = [] \<and> toRemove = []) \<Longrightarrow> ListClientScopes kc r w1 = (Inr scopes, w2) \<Longrightarrow>
      addScopes assign r (ids_by_name scopes) toAdd w2 = (None, w3) \<Longrightarrow>
      removeScopes assign (ids_by_name scopes) toRemove w3 = (None, w4) \<Longrightarrow>
      enforceScopeAssignments rng' kc r c desired optional w = ((True, None), w4)"
    unfolding enforceScopeAssignments_def Let_def kinds assms(3) site_def [symmetric] sum.case prod.case
      assms(4,5) [symmetric] by simp_all
qed

context served
begin

lemma assignments_list:
  assumes "ok w" and "plain_name r" and "plain_seg c" and "map_of (st_realms (store w)) r \<noteq> None"
    and "listClientScopeAssignments kc r c (scope_kind optional) w = (x, w')"
  shows "ok w' \<and> store w' = store w \<and>
    x = Inr (map clone (List.map_filter (map_of (mget (st_scopes (store w)) r)) (assigned_ids optional r c (store w))))"
proof -
  have path: "api_step rng ''GET'' (client_path r c @ CHR ''/'' # scope_kind optional) None (store w) =
      handleClients rng ''GET'' [] (body_of None) r [c, scope_kind optional] (store w)"
    by (rule api_assignment_paths(1) [OF assms(2,3,3) scope_kind_cases])
  have "api_step rng ''GET'' (client_path r c @ CHR ''/'' # scope_kind optional) None (store w) =
      (Body (slice (map JObj (List.map_filter (map_of (mget (st_scopes (store w)) r)) (assigned_ids optional r c (store w))))), store w)"
    unfolding path handle_assignments [OF assms(4)]
    by (simp add: assignment_defs map_filter_objs)
  with object_call [OF assms(1) _ assms(5) [unfolded listClientScopeAssignments_def]] show ?thesis
    by (simp add: client_path_def)
qed

lemma assignment_change:
  assumes "ok w" and "plain_name r" and "plain_seg c" and "plain_seg i" and "map_of (st_realms (store w)) r \<noteq> None"
    and "map_of (mget (st_scopes (store w)) r) i \<noteq> None" and "add \<or> i \<in> set (assigned_ids optional r c (store w))"
    and "assignClientScope kc r c (scope_kind optional) i add w = (e, w')"
  shows "e = None \<and> ok w' \<and> st_realms (store w') = st_realms (store w) \<and> st_scopes (store w') = st_scopes (store w) \<and>
    assignments_only optional r c (store w) (store w') \<and>
    set (assigned_ids optional r c (store w')) =
      (if add then insert i (set (assigned_ids optional r c (store w))) else set (assigned_ids optional r c (store w)) - {i})"
proof -
  let ?m = "if add then ''PUT'' else ''DELETE''"
  let ?ids = "assigned_ids optional r c (store w)"
  let ?new = "put_in r c (if add then appendUnique ?ids i else removeValue ?ids i) (assignments optional (store w))"
  have path: "api_step rng ?m (client_path r c @ CHR ''/'' # scope_kind optional @ CHR ''/'' # PathEscape i) None (store w) =
      handleClients rng ?m [] (body_of None) r [c, scope_kind optional, i] (store w)"
    by (rule api_assignment_paths(2) [OF assms(2,3,4) scope_kind_cases])
  have "map_of (assignments optional (store w)) r \<noteq> None \<or> add"
    using assms(7) by (cases "map_of (assignments optional (store w)) r") (simp_all add: assigned_ids_def assigned_put_in(3))
  then have "scopeAssignments ?m r [c, scope_kind optional, i] (mget (st_scopes (store w)) r) (assignments optional (store w)) =
      (Code 204, ?new)"
    using assms(6) by (auto simp: scopeAssignments_def assigned_ids_def Let_def)
  then have "api_step rng ?m (client_path r c @ CHR ''/'' # scope_kind optional @ CHR ''/'' # PathEscape i) None (store w) =
      (Code 204, if optional then (store w)\<lparr>st_optScope := ?new\<rparr> else (store w)\<lparr>st_defScope := ?new\<rparr>)"
    unfolding path handle_assignments [OF assms(5)] by simp
  with write_call [OF assms(1) _ assms(8) [unfolded assignClientScope_def]] show ?thesis
    by (cases add; cases optional)
      (auto simp: client_path_def err_of_def assigned_ids_def assignments_def assigned_put_in appendUnique_def removeValue_def
        assignments_only_def same_scopes_def put_in_other)
qed

text \<open>The two loops work on these calls.\<close>

sublocale scopes: assignment_api "assignClientScope kc r c (scope_kind optional)"
    "\<lambda>w. set (assigned_ids optional r c (store w))"
    "\<lambda>w. ok w \<and> plain_name r \<and> plain_seg c \<and> map_of (st_realms (store w)) r \<noteq> None \<and> coll_ok (mget (st_scopes (store w)) r) \<and>
       assignments_only optional r c S (store w)"
    "\<lambda>w. mget (st_scopes (store w)) r" "\<lambda>m i. map_of m i \<noteq> None"
  for r c optional S
proof
  fix w i e w'
  let ?good = "\<lambda>w. ok w \<and> plain_name r \<and> plain_seg c \<and> map_of (st_realms (store w)) r \<noteq> None \<and>
    coll_ok (mget (st_scopes (store w)) r) \<and> assignments_only optional r c S (store w)"
  assume w: "?good w" and i: "map_of (mget (st_scopes (store w)) r) i \<noteq> None"
  then have seg: "plain_seg i" using coll_ok_key by blast
  show "e = None \<and> ?good w' \<and> mget (st_scopes (store w')) r = mget (st_scopes (store w)) r \<and>
      set (assigned_ids optional r c (store w')) = insert i (set (assigned_ids optional r c (store w)))"
    if "assignClientScope kc r c (scope_kind optional) i True w = (e, w')"
    using assignment_change [OF _ _ _ seg _ _ _ that] w i assignments_only_trans [of optional r c S "store w" "store w'"] by simp
  show "e = None \<and> ?good w' \<and> mget (st_scopes (store w')) r = mget (st_scopes (store w)) r \<and>
      set (assigned_ids optional r c (store w')) = set (assigned_ids optional r c (store w)) - {i}"
    if "i \<in> set (assigned_ids optional r c (store w))" "assignClientScope kc r c (scope_kind optional) i False w = (e, w')"
    using assignment_change [OF _ _ _ seg _ _ _ that(2)] that(1) w i assignments_only_trans [of optional r c S "store w" "store w'"]
    by simp
qed

lemma scopes_list_keeps:
  assumes "ok w" and "plain_name r" and "map_of (st_realms (store w)) r \<noteq> None"
    and "ListClientScopes kc r w = (x, w')"
  shows "assigned_ids optional r c (store w') = assigned_ids optional r c (store w) \<and>
    assignments_only optional r c (store w) (store w')"
proof -
  have st: "scopes_stamped r (store w) (store w')" using scopes_list [OF assms] by simp
  show ?thesis
    using st scopes_stamped_same [OF st] by (auto simp: scopes_stamped_def assigned_ids_def assignments_def assignments_only_def
        scope_named_stamp coll_ok_stamp fun_eq_iff mget_def)
qed

text \<open>Both loops over the names that are missing and the names that are too many.\<close>

lemma assignments_adjusted:
  fixes r c optional w S
  defines "held v \<equiv> set (assigned_ids optional r c (store v))" and "m \<equiv> mget (st_scopes (store w)) r"
    and "good v \<equiv> ok v \<and> plain_name r \<and> plain_seg c \<and> map_of (st_realms (store v)) r \<noteq> None \<and>
      coll_ok (mget (st_scopes (store v)) r) \<and> assignments_only optional r c S (store v)"
  assumes "good w"
    and ids: "\<And>n i. map_of ids n = Some i \<longleftrightarrow> scope_named m i n"
    and add: "\<And>n. n \<in> set toAdd \<Longrightarrow> \<exists>i. scope_named m i n"
    and remove: "distinct toRemove" "\<And>n. n \<in> set toRemove \<Longrightarrow> \<exists>i \<in> held w. scope_named m i n"
    and run1: "addScopes (assignClientScope kc r c (scope_kind optional)) r ids toAdd w = (e1, w1)"
    and run2: "removeScopes (assignClientScope kc r c (scope_kind optional)) ids toRemove w1 = (e2, w2)"
  shows "e1 = None \<and> e2 = None \<and> good w2 \<and> mget (st_scopes (store w2)) r = m \<and>
    held w2 = held w \<union> {i. \<exists>n \<in> set toAdd. scope_named m i n} - {i. \<exists>n \<in> set toRemove. scope_named m i n}"
proof -
  have known: "scope_named m i n \<Longrightarrow> map_of m i \<noteq> None" for i n by (auto simp: scope_named_def)
  have one: "scope_named m i n \<Longrightarrow> scope_named m i n' \<Longrightarrow> n = n'" for i n n' by (auto simp: scope_named_def)
  have "\<forall>n \<in> set toAdd. \<exists>i. map_of ids n = Some i \<and> map_of m i \<noteq> None" using add known unfolding ids by blast
  from scopes.add_all [OF assms(4) [unfolded good_def] this [unfolded m_def] run1]
  have w1: "e1 = None" "good w1" "mget (st_scopes (store w1)) r = m"
    "held w1 = held w \<union> {i. \<exists>n \<in> set toAdd. scope_named m i n}" by (auto simp: good_def held_def m_def ids)
  have "inj_on (map_of ids) (set toRemove)"
  proof (rule inj_onI)
    fix n n' assume n: "n \<in> set toRemove" and eq: "map_of ids n = map_of ids n'"
    from remove(2) [OF n] obtain i where "map_of ids n = Some i" by (auto simp: ids)
    with eq have "scope_named m i n" "scope_named m i n'" by (simp_all add: ids [symmetric])
    then show "n = n'" by (rule one)
  qed
  moreover have "\<forall>n \<in> set toRemove. \<exists>i. map_of ids n = Some i \<and> map_of m i \<noteq> None \<and> i \<in> held w1"
    using remove(2) known by (auto simp: ids w1(4)) blast
  ultimately have "e2 = None \<and> good w2 \<and> mget (st_scopes (store w2)) r = m \<and>
      held w2 = held w1 - {i. \<exists>n \<in> set toRemove. map_of ids n = Some i}"
    using scopes.remove_all [OF w1(2) [unfolded good_def] remove(1) _ _ run2] unfolding good_def held_def w1(3) by blast
  with w1 show ?thesis by (simp add: ids)
qed

text \<open>Listing the scopes and running both loops, when something is missing or too much.\<close>

lemma assignments_changed:
  fixes w r c optional
  defines "m \<equiv> mget (st_scopes (store w)) r" and "ids v \<equiv> assigned_ids optional r c (store v)"
  assumes "ok w1" and same: "store w1 = store w" and "plain_name r" and "plain_seg c"
    and realm: "map_of (st_realms (store w)) r \<noteq> None"
    and wf: "coll_ok m" and unique: "names_unique m" and order: "order_ok rng"
    and exist: "\<And>n. n \<in> set desired \<Longrightarrow> \<exists>i. scope_named m i n"
    and add: "set toAdd = set desired - assigned_names m (ids w)"
    and remove: "set toRemove = assigned_names m (ids w) - set desired" "distinct toRemove"
    and l: "ListClientScopes kc r w1 = (y, w2)"
  shows "\<exists>scopes w3 w4. y = Inr scopes \<and>
    addScopes (assignClientScope kc r c (scope_kind optional)) r (ids_by_name scopes) toAdd w2 = (None, w3) \<and>
    removeScopes (assignClientScope kc r c (scope_kind optional)) (ids_by_name scopes) toRemove w3 = (None, w4) \<and>
    ok w4 \<and> assignments_only optional r c (store w) (store w4) \<and>
    assigned_names (mget (st_scopes (store w4)) r) (ids w4) = set desired"
proof -
  let ?assign = "assignClientScope kc r c (scope_kind optional)" and ?m = "mget (st_scopes (store w2)) r"
  define scopes where "scopes = map clone (map (\<lambda>p. mput ''id'' (JStr (fst p)) (snd p)) (range_map rng ''handleClientScopes'' m))"
  have w2: "ok w2" "y = Inr scopes" "map_of (st_realms (store w2)) r \<noteq> None" "ids w2 = ids w"
    "assignments_only optional r c (store w) (store w2)"
    and "?m = m \<or> ?m = stamp_ids (\<lambda>rep. True) m"
    using scopes_list [OF assms(3,5) _ l] scopes_list_keeps [OF assms(3,5) _ l, of optional c] realm
    by (simp_all add: same m_def ids_def scopes_def)
  then have named: "scope_named ?m = scope_named m" and "coll_ok ?m"
    using wf scope_named_stamp coll_ok_stamp by (auto simp: fun_eq_iff)
  have idmap: "map_of (ids_by_name scopes) n = Some i \<longleftrightarrow> scope_named ?m i n" for n i
    unfolding named scopes_def using wf by (intro ids_by_name_listed order unique) (simp add: coll_ok_def)
  obtain e1 w3 where run1: "addScopes ?assign r (ids_by_name scopes) toAdd w2 = (e1, w3)"
    by (cases "addScopes ?assign r (ids_by_name scopes) toAdd w2")
  obtain e2 w4 where run2: "removeScopes ?assign (ids_by_name scopes) toRemove w3 = (e2, w4)"
    by (cases "removeScopes ?assign (ids_by_name scopes) toRemove w3")
  have "e1 = None \<and> e2 = None \<and> (ok w4 \<and> plain_name r \<and> plain_seg c \<and> map_of (st_realms (store w4)) r \<noteq> None \<and>
      coll_ok (mget (st_scopes (store w4)) r) \<and> assignments_only optional r c (store w) (store w4)) \<and> mget (st_scopes (store w4)) r = ?m \<and>
    set (ids w4) = set (ids w2) \<union> {i. \<exists>n \<in> set toAdd. scope_named ?m i n} - {i. \<exists>n \<in> set toRemove. scope_named ?m i n}"
    unfolding ids_def
  proof (rule assignments_adjusted [OF _ idmap _ _ _ run1 run2], fold ids_def)
    show "\<exists>i \<in> set (ids w2). scope_named ?m i n" if "n \<in> set toRemove" for n
      using that unfolding remove(1) named w2(4) by (auto simp: assigned_names_def)
  qed (use w2 remove add exist assms(5,6) \<open>coll_ok ?m\<close> in \<open>auto simp: named\<close>)
  moreover from this have "assigned_names m (ids w4) = set desired"
    by (intro names_adjusted [where ids = "ids w"] exist) (simp_all add: w2(4) named add remove)
  ultimately show ?thesis
    using w2(2) run1 run2 by (auto simp: assigned_names_def named)
qed

theorem assignments_exact:
  fixes w r c
  defines "m \<equiv> mget (st_scopes (store w)) r"
  assumes "ok w" and "plain_name r" and "plain_seg c" and realm: "map_of (st_realms (store w)) r \<noteq> None"
    and wf: "coll_ok m" and unique: "names_unique m" and order: "order_ok rng" "order_ok rng'"
    and exist: "\<And>n. n \<in> set desired \<Longrightarrow> \<exists>i. scope_named m i n"
    and run: "enforceScopeAssignments rng' kc r c desired optional w = ((changed, e), w')"
  shows "e = None \<and> ok w' \<and> assignments_only optional r c (store w) (store w') \<and>
    assigned_names (mget (st_scopes (store w')) r) (assigned_ids optional r c (store w')) = set desired \<and>
    (changed \<longleftrightarrow> assigned_names m (assigned_ids optional r c (store w)) \<noteq> set desired) \<and> (\<not> changed \<longrightarrow> store w' = store w)"
proof -
  let ?ids = "\<lambda>w. assigned_ids optional r c (store w)"
  define current where "current = map clone (List.map_filter (map_of m) (?ids w))"
  define toAdd where "toAdd = filter (\<lambda>n. n \<notin> set (scope_names current))
    (rng' ((if optional then ''optional'' else ''default'') @ ''/add'') (keyset desired))"
  define toRemove where "toRemove = filter (\<lambda>n. n \<notin> set (keyset desired))
    (rng' ((if optional then ''optional'' else ''default'') @ ''/remove'') (scope_names current))"
  have names: "set (scope_names current) = assigned_names m (?ids w)"
    unfolding current_def by (rule scope_names_reported)
  have sets: "set toAdd = set desired - assigned_names m (?ids w)" "set toRemove = assigned_names m (?ids w) - set desired"
    and once: "distinct toRemove"
    using order(2) by (auto simp: toAdd_def toRemove_def order_ok_set order_ok_distinct scope_names_def names [symmetric])
  obtain x w1 where l: "listClientScopeAssignments kc r c (scope_kind optional) w = (x, w1)"
    by (cases "listClientScopeAssignments kc r c (scope_kind optional) w")
  have w1: "x = Inr current" "ok w1" "store w1 = store w"
    using assignments_list [OF assms(2-4) realm l] by (simp_all add: current_def m_def)
  note unfold = enforce_unfold [OF l [unfolded w1(1)] toAdd_def toRemove_def]
  show ?thesis
  proof (cases "toAdd = [] \<and> toRemove = []")
    case True
    then have "assigned_names m (?ids w) = set desired" using sets by auto
    then show ?thesis using run unfold(1) [OF True] w1 by (simp add: m_def)
  next
    case False
    obtain y w2 where l2: "ListClientScopes kc r w1 = (y, w2)" by (cases "ListClientScopes kc r w1")
    from assignments_changed [OF w1(2,3) assms(3,4) realm wf [unfolded m_def] unique [unfolded m_def] order(1) exist [unfolded m_def]
        sets [unfolded m_def] once l2]
    obtain scopes w3 w4 where steps: "y = Inr scopes"
        "addScopes (assignClientScope kc r c (scope_kind optional)) r (ids_by_name scopes) toAdd w2 = (None, w3)"
        "removeScopes (assignClientScope kc r c (scope_kind optional)) (ids_by_name scopes) toRemove w3 = (None, w4)"
      and final: "ok w4" "assignments_only optional r c (store w) (store w4)" "assigned_names (mget (st_scopes (store w4)) r) (?ids w4) = set desired" by blast
    moreover have "assigned_names m (?ids w) \<noteq> set desired" using False sets by auto
    ultimately show ?thesis using run unfold(2) [OF False l2 [unfolded steps(1)] steps(2,3)] by simp
  qed
qed

end

end
