(* ===== verification/Fake_Clients.thy ===== *)
theory Fake_Clients
  imports Fake_Scopes
begin

text \<open>
  Clients on the in-memory Admin API: a client without Secret references meets the contract
  \<open>stored_driver\<close>, with its default and optional scope assignments as what \<open>PostApply\<close>
  settles.
\<close>

section \<open>The state of a client\<close>

definition wanted :: "bool \<Rightarrow> ClientSpec \<Rightarrow> string list option" where
  "wanted optional s = (if optional then optionalClientScopes s else defaultClientScopes s)"

text \<open>The client as a GET request finds it.\<close>

definition client_found :: "order \<Rightarrow> ClientSpec object \<Rightarrow> Store \<Rightarrow> json gomap option" where
  "client_found rng obj S =
     coll_look rng ''handleClients'' ''clientId'' (clientId (obj_spec obj)) (mget (st_clients S) (spec_realm (obj_spec obj)))"

definition client_key :: "json gomap \<Rightarrow> string" where
  "client_key rep = str_or_empty (map_of rep ''id'')"

text \<open>What is assumed of the spec and of the realm on the server.\<close>

definition client_pre :: "ClientSpec object \<Rightarrow> Store \<Rightarrow> bool" where
  "client_pre obj S \<longleftrightarrow>
     (let s = obj_spec obj; r = spec_realm s; scopes = mget (st_scopes S) r in
      plain_name r \<and> clientId s \<noteq> [] \<and> CHR ''/'' \<notin> set (clientId s) \<and> secretRef s = None \<and> secretOutput s = None \<and>
      map_of (st_realms S) r \<noteq> None \<and> coll_ok (mget (st_clients S) r) \<and> coll_ok scopes \<and> names_unique scopes \<and>
      (\<forall>optional names n. wanted optional s = Some names \<longrightarrow> n \<in> set names \<longrightarrow> (\<exists>i. scope_named scopes i n)))"

definition client_settled :: "order \<Rightarrow> ClientSpec object \<Rightarrow> Store \<Rightarrow> bool" where
  "client_settled rng obj S \<longleftrightarrow>
     (let s = obj_spec obj; r = spec_realm s in
      \<forall>optional names. wanted optional s = Some names \<longrightarrow>
        (\<exists>rep. client_found rng obj S = Some rep \<and>
           assigned_names (mget (st_scopes S) r) (assigned_ids optional r (client_key rep) S) = set names))"

lemma assigned_names_cong: "scope_named m = scope_named m' \<Longrightarrow> assigned_names m ids = assigned_names m' ids"
  by (simp add: assigned_names_def)

lemma names_unique_cong: "scope_named m = scope_named m' \<Longrightarrow> names_unique m = names_unique m'"
  by (simp add: names_unique_def)

lemma client_frame:
  assumes "assignments_only optional (spec_realm (obj_spec obj)) c S S'"
  shows "client_pre obj S' = client_pre obj S" "client_found rng obj S' = client_found rng obj S"
  using assms names_unique_cong [of "mget (st_scopes S') (spec_realm (obj_spec obj))" "mget (st_scopes S) (spec_realm (obj_spec obj))"]
  by (simp_all add: assignments_only_def client_pre_def client_found_def Let_def)

lemma held_frame:
  "assignments_only optional r c S S' \<Longrightarrow>
   assigned_names (mget (st_scopes S') r) (assigned_ids (\<not> optional) r i S') =
   assigned_names (mget (st_scopes S) r) (assigned_ids (\<not> optional) r i S)"
  by (simp add: assignments_only_def assigned_ids_def assigned_names_def)

lemma client_settled_iff:
  assumes "client_found rng obj S = Some rep"
  shows "client_settled rng obj S \<longleftrightarrow>
    (\<forall>optional names. wanted optional (obj_spec obj) = Some names \<longrightarrow>
       assigned_names (mget (st_scopes S) (spec_realm (obj_spec obj)))
         (assigned_ids optional (spec_realm (obj_spec obj)) (client_key rep) S) = set names)"
  using assms by (simp add: client_settled_def Let_def)

lemma client_spec_sendable: "sendable ''clientId'' (clientId (obj_spec obj)) (spec_map (ClientDriver rng) obj)"
proof (rule spec_sendable)
  let ?s = "obj_spec obj"
  let ?ys = "jopt ''secretRef'' selectorJSON (secretRef ?s) @ jopt ''secretOutput'' selectorJSON (secretOutput ?s) @
     jopt ''defaultClientScopes'' jstrs (defaultClientScopes ?s) @
     jopt ''optionalClientScopes'' jstrs (optionalClientScopes ?s) @ encodeFields ClientSpec_table (client_fields ?s)"
  have keys: "''id'' \<notin> fst ` set ClientSpec_table" "''clientId'' \<notin> fst ` set ClientSpec_table" by code_simp+
  show "sv_JSON (d_Spec (ClientDriver rng) obj) = baseJSON ?s @ (''clientId'', JStr (clientId ?s)) # ?ys"
    by (simp add: ClientDriver_def ClientDriver_Spec_def Let_def ClientSpec_JSON_def)
  show "\<forall>p \<in> set (sv_JSON (d_Spec (ClientDriver rng) obj)). jwf (snd p)"
    using specJSON_wf(2) by (simp add: ClientDriver_def ClientDriver_Spec_def Let_def)
  show "\<forall>p \<in> set (baseJSON ?s) \<union> set ?ys. snd p \<noteq> JNull \<and> fst p \<noteq> ''id''" and "''clientId'' \<notin> fst ` set ?ys"
    using encodeFields_range [of _ ClientSpec_table "client_fields ?s"] keys
    by (auto simp: jopt_def baseJSON_def selectorJSON_def jstrs_def split: option.splits)
qed (simp_all add: ClientDriver_def ClientDriver_OperatorFields_def)

text \<open>Finding a client at most writes identifiers into the clients of the realm.\<close>

definition clients_stamped :: "string \<Rightarrow> Store \<Rightarrow> Store \<Rightarrow> bool" where
  "clients_stamped r S S' \<longleftrightarrow>
     (\<exists>P. S' = S \<or> S' = S\<lparr>st_clients := mput r (stamp_ids P (mget (st_clients S) r)) (st_clients S)\<rparr>)"

context served
begin

lemma client_find:
  assumes "ok w" and "plain_name r" and "c \<noteq> []" and "map_of (st_realms (store w)) r \<noteq> None" and "coll_ok (mget (st_clients (store w)) r)"
    and "FindClient kc r c w = (x, w')"
  shows "ok w' \<and> coll_ok (mget (st_clients (store w')) r) \<and> clients_stamped r (store w) (store w') \<and>
    st_realms (store w') = st_realms (store w) \<and> st_scopes (store w') = st_scopes (store w) \<and>
    assignments optional (store w') = assignments optional (store w) \<and>
    coll_look rng ''handleClients'' ''clientId'' c (mget (st_clients (store w')) r) =
      coll_look rng ''handleClients'' ''clientId'' c (mget (st_clients (store w)) r) \<and>
    (case coll_look rng ''handleClients'' ''clientId'' c (mget (st_clients (store w)) r) of
       None \<Rightarrow> \<exists>e. x = Inl e \<and> errors_Is e ErrNotFound
     | Some rep \<Rightarrow> x = Inr rep)"
proof -
  let ?P = "\<lambda>rep. c = [] \<or> map_of rep ''clientId'' = Some (JStr c)" and ?m = "mget (st_clients (store w)) r"
  let ?path = "realmPath r @ ''/clients?clientId='' @ QueryEscape c"
  define l where "l = map (\<lambda>p. mput ''id'' (JStr (fst p)) (snd p)) (filter (\<lambda>p. ?P (snd p)) (range_map rng ''handleClients'' ?m))"
  obtain y w1 where run: "kc ''GET'' ?path None OutMaps w = (y, w1)" by (cases "kc ''GET'' ?path None OutMaps w")
  have step: "api_step rng ''GET'' ?path None (store w) =
      (Body (slice (map JObj l)), if map_of (st_clients (store w)) r = None then store w
         else (store w)\<lparr>st_clients := mput r (stamp_ids ?P ?m) (st_clients (store w))\<rparr>)"
    unfolding api_find_paths(1) [OF assms(2)] using assms(4)
    by (auto simp: handleClients_def clientCollection_def list_reps_def l_def comp_def Let_def)
  have found: "find_rep ''clientId'' c (map clone l) = coll_look rng ''handleClients'' ''clientId'' c ?m"
    unfolding l_def coll_look_def coll_find_def by (rule find_rep_listed) simp_all
  have "HasPrefix ?path ''/admin/''" by simp
  from call [OF assms(1) this run] step have w1: "y = Inr (JArr (map (\<lambda>r. JObj (clone r)) l))" "ok w1"
    "store w1 = (if map_of (st_clients (store w)) r = None then store w
       else (store w)\<lparr>st_clients := mput r (stamp_ids ?P ?m) (st_clients (store w))\<rparr>)" by simp_all
  have "x = (case coll_look rng ''handleClients'' ''clientId'' c ?m of
      Some rep \<Rightarrow> Inr rep | None \<Rightarrow> Inl (Wrapf [''%w: client %q'', c] ErrNotFound))" "w' = w1"
    using assms(6) found unfolding FindClient_def run by (auto simp: w1(1) comp_def split: option.splits)
  moreover have "mget (st_clients (store w1)) r = ?m \<or> mget (st_clients (store w1)) r = stamp_ids ?P ?m"
    by (auto simp: w1(3) mget_def)
  moreover have "clients_stamped r (store w) (store w1)" unfolding clients_stamped_def w1(3) by (intro exI [of _ ?P]) simp
  ultimately show ?thesis
    using w1(2,3) assms(5) by (auto simp: coll_look_stamp coll_ok_stamp assignments_def split: option.split if_splits)
qed

lemma client_create:
  assumes "ok w" and "plain_name r" and "map_of (st_realms (store w)) r \<noteq> None" and "sendable ''clientId'' c p" and "c \<noteq> []"
    and "\<not> has_value ''clientId'' c (mget (st_clients (store w)) r)" and "CreateClient kc r p w = (e, w')"
  shows "e = None \<and> ok w' \<and> store w' = (store w)\<lparr>st_clients :=
    put_in r (''client-'' @ c) (mput ''id'' (JStr (''client-'' @ c)) p) (st_clients (store w))\<rparr>"
proof -
  have "clientCollection rng ''POST'' [] (body_of (Some (JObj p))) r (store w) =
      (Code 201, (store w)\<lparr>st_clients :=
         put_in r (''client-'' @ c) (mput ''id'' (JStr (''client-'' @ c)) p) (st_clients (store w))\<rparr>)"
    using assms(5,6) sendableD [OF assms(4)]
    by (simp add: clientCollection_def decodeMap_sent str_or_empty_def Let_def del: jround.simps)
  then show ?thesis
    using write_call [OF assms(1) _ assms(7) [unfolded CreateClient_def]] assms(2,3)
    by (simp add: api_paths handleClients_def err_of_def)
qed

lemma client_update:
  assumes "ok w" and "plain_name r" and "plain_seg i" and "map_of (st_realms (store w)) r \<noteq> None"
    and "map_of (mget (st_clients (store w)) r) i = Some rep" and "jround (JObj m) = JObj m"
    and "UpdateClient kc r i m w = (e, w')"
  shows "e = None \<and> ok w' \<and> store w' = (store w)\<lparr>st_clients := put_in r i (merge rep m) (st_clients (store w))\<rparr>"
  using write_call [OF assms(1) _ assms(7) [unfolded UpdateClient_def]] assms(2-4) singleRep_PUT [OF assms(6,5)]
  by (simp add: api_item_paths handleClients_def err_of_def)

text \<open>One of the two lists of scopes.\<close>

lemma client_scopes_enforced:
  fixes obj optional w i
  defines "r \<equiv> spec_realm (obj_spec obj)"
  defines "held S \<equiv> assigned_names (mget (st_scopes S) r) (assigned_ids optional r i S)"
  assumes "ok w" and "client_pre obj (store w)" and "plain_seg i" and "order_ok rng" and "order_ok rng'"
    and "enforceScopes rng' kc obj i optional w = (x, w')"
  shows "snd x = None \<and> ok w' \<and> assignments_only optional r i (store w) (store w') \<and>
    (\<not> fst x \<longrightarrow> store w' = store w) \<and>
    (\<forall>names. wanted optional (obj_spec obj) = Some names \<longrightarrow> held (store w') = set names \<and> (fst x \<longleftrightarrow> held (store w) \<noteq> set names)) \<and>
    (wanted optional (obj_spec obj) = None \<longrightarrow> x = (False, None))"
proof (cases "wanted optional (obj_spec obj)")
  case None
  then show ?thesis using assms(3,8) by (auto simp: enforceScopes_def Let_def wanted_def split: if_splits)
next
  case (Some names)
  then have run: "enforceScopeAssignments rng' kc r i names optional w = ((fst x, snd x), w')"
    using assms(8) by (simp add: enforceScopes_def Let_def wanted_def r_def ClientSpec_TargetRealm_def split: if_splits)
  have pre: "plain_name r" "map_of (st_realms (store w)) r \<noteq> None" "coll_ok (mget (st_scopes (store w)) r)"
    "names_unique (mget (st_scopes (store w)) r)" "\<And>n. n \<in> set names \<Longrightarrow> \<exists>i. scope_named (mget (st_scopes (store w)) r) i n"
    using assms(4) Some by (auto simp: client_pre_def Let_def r_def)
  from assignments_exact [OF assms(3) pre(1) assms(5) pre(2-4) assms(6,7) pre(5) run] Some show ?thesis
    by (simp add: held_def)
qed

lemma client_post:
  assumes "ok w" and "client_pre obj (store w)" and "order_ok rng" and "order_ok rng'" and "client_found rng obj (store w) = Some rep"
    and "client_key remote = client_key rep" and "ClientDriver_PostApply rng' kc K obj remote k w = (y, w')"
  shows "(\<exists>changed. y = (changed, None, obj, k) \<and> (client_settled rng obj (store w) \<longrightarrow> \<not> changed)) \<and>
    ok w' \<and> client_pre obj (store w') \<and> client_found rng obj (store w') = Some rep \<and> client_settled rng obj (store w') \<and>
    (\<exists>S1. assignments_only False (spec_realm (obj_spec obj)) (client_key rep) (store w) S1 \<and>
       assignments_only True (spec_realm (obj_spec obj)) (client_key rep) S1 (store w')) \<and>
    (client_settled rng obj (store w) \<longrightarrow> store w' = store w)"
proof -
  let ?r = "spec_realm (obj_spec obj)" and ?i = "client_key rep"
  obtain j stored where "coll_find rng ''handleClients'' ''clientId'' (clientId (obj_spec obj)) (mget (st_clients (store w)) ?r) = Some (j, stored)"
    and j: "?i = j"
    using assms(5) by (auto simp: client_found_def coll_look_def client_key_def clone_lookup str_or_empty_def)
  then have seg: "plain_seg ?i"
    using coll_find_stored [OF assms(3)] coll_ok_key assms(2) unfolding client_pre_def coll_ok_def Let_def by metis
  obtain x1 w1 where e1: "enforceScopes rng' kc obj ?i False w = (x1, w1)" by (cases "enforceScopes rng' kc obj ?i False w")
  note s1 = client_scopes_enforced [OF assms(1,2) seg assms(3,4) e1]
  from s1 have pre1: "client_pre obj (store w1)" "client_found rng obj (store w1) = client_found rng obj (store w)" "ok w1"
    using client_frame assms(2) by auto
  obtain x2 w2 where e2: "enforceScopes rng' kc obj ?i True w1 = (x2, w2)" by (cases "enforceScopes rng' kc obj ?i True w1")
  note s2 = client_scopes_enforced [OF pre1(3,1) seg assms(3,4) e2]
  have pre2: "client_pre obj (store w2)" "client_found rng obj (store w2) = client_found rng obj (store w1)"
    using s2 client_frame pre1 by auto
  have y: "y = (fst x1 \<or> fst x2, None, obj, k)" "w' = w2"
    using assms(2,6,7) seg e1 e2 s1 s2
    by (auto simp: ClientDriver_PostApply_def exportSecret_def client_pre_def Let_def client_key_def plain_seg_def)
  have held: "assigned_names (mget (st_scopes (store w2)) ?r) (assigned_ids False ?r ?i (store w2)) =
      assigned_names (mget (st_scopes (store w1)) ?r) (assigned_ids False ?r ?i (store w1))"
    "assigned_names (mget (st_scopes (store w1)) ?r) (assigned_ids True ?r ?i (store w1)) =
      assigned_names (mget (st_scopes (store w)) ?r) (assigned_ids True ?r ?i (store w))"
    using held_frame [of True ?r ?i "store w1" "store w2" ?i] held_frame [of False ?r ?i "store w" "store w1" ?i] s1 s2 by simp_all
  have "client_settled rng obj (store w2)"
    using s1 s2 held assms(5) pre1(2) pre2(2) by (simp add: client_settled_iff [of rng obj "store w2" rep] all_bool_eq)
  moreover have "client_settled rng obj (store w) \<Longrightarrow> \<not> (fst x1 \<or> fst x2)"
    using s1 s2 held unfolding client_settled_iff [OF assms(5)]
    by (cases "wanted False (obj_spec obj)"; cases "wanted True (obj_spec obj)") auto
  moreover have "assignments_only False ?r ?i (store w) (store w1)" "assignments_only True ?r ?i (store w1) (store w2)"
    "\<not> fst x1 \<Longrightarrow> store w1 = store w" "\<not> fst x2 \<Longrightarrow> store w2 = store w1"
    using s1 s2 by simp_all
  ultimately show ?thesis using y s2 pre1(2) pre2 assms(5) by auto
qed

text \<open>Clients without Secret references meet the contract.\<close>

sublocale clients: stored_driver "ClientDriver rng'" kc store ok
    "\<lambda>obj S. order_ok rng \<and> order_ok rng' \<and> client_pre obj S" "client_found rng" client_key "client_settled rng"
    "\<lambda>obj. sendable ''clientId'' (clientId (obj_spec obj))"
  for rng'
proof (unfold_locales, goal_cases)
  case (1 w obj x w')
  let ?r = "spec_realm (obj_spec obj)"
  have "FindClient kc ?r (clientId (obj_spec obj)) w = (x, w')"
    using 1(3) by (simp add: ClientDriver_def ClientDriver_Get_def ClientSpec_TargetRealm_def Let_def)
  note found = client_find [OF 1(1) _ _ _ _ this]
  then have keep: "client_found rng obj (store w') = client_found rng obj (store w)" "st_scopes (store w') = st_scopes (store w)"
    "assigned_ids optional ?r i (store w') = assigned_ids optional ?r i (store w)" for optional i
    using 1(2) by (auto simp: client_pre_def client_found_def assigned_ids_def Let_def)
  show ?case
    using found 1(2) keep by (auto simp: client_pre_def client_found_def client_settled_def Let_def)
next
  case (2 w obj payload e w')
  let ?r = "spec_realm (obj_spec obj)" and ?i = "''client-'' @ clientId (obj_spec obj)"
  have seg: "plain_seg ?i" using 2(2) by (simp add: plain_seg_def client_pre_def Let_def)
  have coll: "order_ok rng" "coll_ok (mget (st_clients (store w)) ?r)" using 2(2) by (auto simp: client_pre_def Let_def)
  note new = coll_created [OF coll 2(3) [unfolded client_found_def] 2(4) seg, simplified]
  have "CreateClient kc ?r payload w = (e, w')"
    using 2(5) by (simp add: ClientDriver_def ClientDriver_Create_def ClientSpec_TargetRealm_def)
  from client_create [OF 2(1) _ _ 2(4) _ new(1) this] show ?case
    using 2(2) new(2,3) by (auto simp: client_pre_def client_found_def Let_def)
next
  case (3 w obj remote payload e w')
  let ?r = "spec_realm (obj_spec obj)" and ?p = "MergePayload (cloneMap remote) payload"
  from 3(2) have "order_ok rng" "coll_ok (mget (st_clients (store w)) ?r)" by (auto simp: client_pre_def Let_def)
  from coll_updated [OF this 3(3) [unfolded client_found_def] 3(4)] obtain i rep where
    i: "map_of (mget (st_clients (store w)) ?r) i = Some rep" "plain_seg i" "map_of remote ''id'' = Some (JStr i)"
      "jround (JObj ?p) = JObj ?p"
    and new: "coll_ok (mput i (merge rep ?p) (mget (st_clients (store w)) ?r))"
      "\<exists>rep'. coll_look rng ''handleClients'' ''clientId'' (clientId (obj_spec obj))
        (mput i (merge rep ?p) (mget (st_clients (store w)) ?r)) = Some rep' \<and> carries rep' payload \<and> map_of rep' ''id'' = Some (JStr i)" .
  have "UpdateClient kc ?r i ?p w = (e, w')"
    using 3(5) i(3) by (simp add: ClientDriver_def ClientDriver_Update_def ClientDriver_ID_def str_or_empty_def
        ClientSpec_TargetRealm_def)
  from client_update [OF 3(1) _ i(2) _ i(1,4) this] show ?case
    using 3(2) new i(3) by (auto simp: client_pre_def client_found_def client_key_def Let_def)
next
  case (4 w obj rep remote K k y w')
  then show ?case
    using client_post [OF 4(1) _ _ _ 4(3,4), of rng' K k y w'] by (simp add: ClientDriver_def)
next
  case (5 obj S K k payload)
  then show ?case by (simp add: ClientDriver_def ClientDriver_PreparePayload_def client_pre_def Let_def)
next
  case (6 obj S payload)
  then show ?case
    by (intro marked_fitting [where key = "''clientId''" and a = ManagedAnnotation and b = ManagedValue] client_spec_sendable)
      (simp_all add: ClientDriver_def ClientDriver_ManagedMarker_def [abs_def])
next
  case (7 obj payload)
  then show ?case by (rule sendableD(1))
next
  case (8 obj)
  then show ?case using client_spec_sendable sendableD(1) by blast
qed

end

end
