(* ===== verification/Fake_System.thy ===== *)
theory Fake_System
  imports Instances Fake_Clients
begin

text \<open>
  The operator against the in-memory Admin API, end to end: the engine with the realm and the
  client scope driver, a client of the provider with its token handling, the wire and the
  server's handlers. The composed system is shown to converge; the scope assignments of a
  client are shown to become exactly what the spec lists.
\<close>

section \<open>A client of the provider on the server\<close>

definition net_data :: "(Server \<times> nat) netw \<Rightarrow> Store" where
  "net_data w = s_store (fst (nw_wire w))"

definition net_ok :: "string \<Rightarrow> nat \<Rightarrow> (Server \<times> nat) netw \<Rightarrow> bool" where
  "net_ok base i w \<longleftrightarrow>
     i < length (clients (nw_provider w)) \<and>
     logged_in base \<lparr>cli = clients (nw_provider w) ! i, wire = nw_wire w, mlog = nw_mlog w\<rparr>"

interpretation wired: served rng render "client_at (fake_http rng render base now) i" net_data "net_ok base i"
proof
  fix w path meth body target x and w' :: "(Server \<times> nat) netw"
  assume ok: "net_ok base i w" "HasPrefix path ''/admin/''"
    and run: "client_at (fake_http rng render base now) i meth path body target w = (x, w')"
  let ?s = "\<lparr>cli = clients (nw_provider w) ! i, wire = nw_wire w, mlog = nw_mlog w\<rparr>"
  obtain y s' where call: "Do (fake_http rng render base now) meth path body target ?s = (y, s')"
    by (cases "Do (fake_http rng render base now) meth path body target ?s")
  have "logged_in base ?s" using ok(1) by (simp add: net_ok_def)
  from stack.call [OF this ok(2) call]
  show "x = answer render meth path target (fst (api_step rng meth path body (net_data w))) \<and>
      net_data w' = snd (api_step rng meth path body (net_data w)) \<and> net_ok base i w'"
    using run call ok(1)
    by (auto simp: client_at_def client_run_def net_ok_def net_data_def data_of_def logged_in_def Let_def)
qed

section \<open>Convergence\<close>

text \<open>
  C4: Realms converge. The operator runs against the in-memory Admin API through a client of
  the provider, with credentials it accepts. After one pass over a live Realm with a plain name, no SMTP Secret
  reference and a policy that allows it (not \<open>FailIfExists\<close>), the server holds the
  realm with every field of the spec and the operator's marker, and the spec is recorded.
  Every later pass over the Realm with that spec and that record, while nobody else writes to
  the server, leaves the stored realm as it is, records no event, counts no drift correction,
  asks for the next resync and reports Ready.
\<close>
theorem realm_converges:
  assumes "well_behaved E" and "recording E"
    and "live E (RealmDriver rng') obj st (client_at (fake_http rng render base now) i) w" and "net_ok base i w"
    and "plain_name (spec_realm (obj_spec obj))" and "smtpServerSecretRef (obj_spec obj) = None"
    and "operator_written (RealmDriver rng' :: ((Server \<times> nat) netw, 'k, RealmSpec) driver) obj"
    and "RealmSpec_Adoption (obj_spec obj) \<noteq> AdoptionFailIfExists"
    and "\<And>remote. realm_at obj (net_data w) = Some remote \<Longrightarrow>
      \<not> refused (RealmDriver rng' :: ((Server \<times> nat) netw, 'k, RealmSpec) driver) obj remote"
  shows "settles (RealmDriver rng') (client_at (fake_http rng render base now) i) net_data (net_ok base i) realm_at (\<lambda>obj S. True) E obj
    (st :: ((Server \<times> nat) netw, 'k) eng)"
proof (rule wired.realms.pass_settles)
  show "sv_Adoption (d_Spec (RealmDriver rng') obj) \<noteq> AdoptionFailIfExists"
    using assms(8) by (simp add: RealmDriver_def RealmDriver_Spec_def Let_def)
  show "d_Spec (RealmDriver rng') obj2 = d_Spec (RealmDriver rng') obj \<and>
      (\<lambda>S. plain_name (spec_realm (obj_spec obj2)) \<and> smtpServerSecretRef (obj_spec obj2) = None) =
      (\<lambda>S. plain_name (spec_realm (obj_spec obj)) \<and> smtpServerSecretRef (obj_spec obj) = None) \<and>
      realm_at obj2 = realm_at obj \<and> (\<lambda>S. True) = (\<lambda>S. True)" if "obj_spec obj2 = obj_spec obj" for obj2
    using that by (simp add: RealmDriver_def RealmDriver_Spec_def Let_def realm_at_def [abs_def])
qed (use assms in auto)

text \<open>
  Client scopes converge in the same sense, in a realm the server holds and in which no
  two scopes share an identifier and identifiers contain no slash.
\<close>
lemma scope_converges:
  assumes "well_behaved E" and "recording E" and "order_ok rng"
    and "live E ClientScopeDriver obj st (client_at (fake_http rng render base now) i) w" and "net_ok base i w"
    and "plain_name (spec_realm (obj_spec obj))" and "CHR ''/'' \<notin> set (scope_name (obj_spec obj))"
    and "map_of (st_realms (net_data w)) (spec_realm (obj_spec obj)) \<noteq> None"
    and "coll_ok (mget (st_scopes (net_data w)) (spec_realm (obj_spec obj)))"
    and "operator_written (ClientScopeDriver :: ((Server \<times> nat) netw, 'k, ClientScopeSpec) driver) obj"
    and "ClientScopeSpec_Adoption (obj_spec obj) \<noteq> AdoptionFailIfExists"
    and "\<And>remote. scope_at rng obj (net_data w) = Some remote \<Longrightarrow>
      \<not> refused (ClientScopeDriver :: ((Server \<times> nat) netw, 'k, ClientScopeSpec) driver) obj remote"
  shows "settles ClientScopeDriver (client_at (fake_http rng render base now) i) net_data (net_ok base i) (scope_at rng)
    (\<lambda>obj S. True) E obj
    (st :: ((Server \<times> nat) netw, 'k) eng)"
proof (rule wired.client_scopes.pass_settles)
  show "sv_Adoption (d_Spec ClientScopeDriver obj) \<noteq> AdoptionFailIfExists"
    using assms(11) by (simp add: ClientScopeDriver_def ClientScopeDriver_Spec_def Let_def)
qed (use assms in \<open>auto simp: ClientScopeDriver_def ClientScopeDriver_Spec_def Let_def scope_at_def [abs_def]\<close>)

text \<open>
  C5: Clients converge with their scope assignments. For a client without Secret references,
  in a realm that has every scope the spec lists, one pass makes the server hold the client
  with every field of the spec and the marker, and its default and optional scope assignments
  are exactly the listed names where the spec lists any. Every later pass over the unchanged
  object and server changes nothing of it, records no event, counts no drift and reports
  Ready, whatever order Go's maps iterate in.
\<close>
theorem client_converges:
  assumes "well_behaved E" and "recording E" and "order_ok rng" and "order_ok rng'"
    and "live E (ClientDriver rng') obj st (client_at (fake_http rng render base now) i) w" and "net_ok base i w"
    and "client_pre obj (net_data w)"
    and "operator_written (ClientDriver rng' :: ((Server \<times> nat) netw, 'k, ClientSpec) driver) obj"
    and "ClientSpec_Adoption (obj_spec obj) \<noteq> AdoptionFailIfExists"
    and "\<And>remote. client_found rng obj (net_data w) = Some remote \<Longrightarrow>
      \<not> refused (ClientDriver rng' :: ((Server \<times> nat) netw, 'k, ClientSpec) driver) obj remote"
  shows "settles (ClientDriver rng') (client_at (fake_http rng render base now) i) net_data (net_ok base i) (client_found rng)
    (client_settled rng) E obj (st :: ((Server \<times> nat) netw, 'k) eng)"
proof (rule wired.clients.pass_settles)
  show "sv_Adoption (d_Spec (ClientDriver rng') obj) \<noteq> AdoptionFailIfExists"
    using assms(9) by (simp add: ClientDriver_def ClientDriver_Spec_def Let_def)
qed (use assms in \<open>auto simp: ClientDriver_def ClientDriver_Spec_def Let_def client_pre_def client_found_def [abs_def]
      client_settled_def [abs_def]\<close>)

section \<open>A concrete operator\<close>

definition demo_server :: "Server \<times> nat" where
  "demo_server = ((New_server ''admin'' ''pw'')\<lparr>s_store := empty_store\<lparr>st_realms := [(''live'', [(''realm'', JStr ''live'')])]\<rparr>\<rparr>, 0)"

definition demo_wire :: "(Server \<times> nat) http" where
  "demo_wire = fake_http same_order (\<lambda>j. []) ''https://kc'' (\<lambda>n. 0)"

definition demo_lookup :: "'k reader" where
  "demo_lookup = \<lparr>r_conn = (\<lambda>k ns n. Inr demo_connection), r_secret = (\<lambda>k ns n. Inr demo_credentials), r_isNotFound = (\<lambda>e. False)\<rparr>"

definition demo_operator :: "((Server \<times> nat) netw, 's object list, 's) engine" where
  "demo_operator =
     NewEngine (demo_kube []) (provider_For demo_wire demo_lookup) True 0"

definition demo_start :: "((Server \<times> nat) netw, 's object list) eng" where
  "demo_start = demo_eng \<lparr>nw_provider = NewProvider, nw_wire = demo_server, nw_mlog = []\<rparr>"

definition demo_connected :: "(Server \<times> nat) netw" where
  "demo_connected = \<lparr>nw_provider = snd (For demo_reader () ''ns'' ''kc'' NewProvider), nw_wire = demo_server, nw_mlog = []\<rparr>"

definition demo_scope :: ClientScopeSpec where
  "demo_scope = \<lparr>keycloakRef = ''kc'', spec_realm = ''live'', adoptionPolicy = None, deletionPolicy = None,
     scope_name = ''profile'', scope_fields = []\<rparr>"

lemma demo_operator_ok: "well_behaved demo_operator" "recording demo_operator"
  by (simp_all add: well_behaved_def recording_def demo_operator_def NewEngine_def demo_kube_ok demo_kube_stored
      demo_kube_annotation)

lemma demo_net_ok: "net_ok ''https://kc'' 0 demo_connected"
  by code_simp

lemma demo_provider:
  "e_provider demo_operator k ''ns'' ''kc'' (net demo_start) = (Inr (client_at demo_wire 0), demo_connected)"
proof -
  have "For demo_lookup
      k ''ns'' ''kc'' NewProvider = (Inr 0, snd (For demo_reader () ''ns'' ''kc'' NewProvider))"
    by code_simp
  then show ?thesis
    by (simp add: demo_operator_def NewEngine_def demo_start_def demo_eng_def provider_For_def demo_connected_def)
qed

theorem realm_converges_witness:
  "settles (RealmDriver same_order) (client_at demo_wire 0) net_data (net_ok ''https://kc'' 0) realm_at (\<lambda>obj S. True) demo_operator
     (demo_object ''Realm'' (demo_realm ''new'')) demo_start"
  unfolding demo_wire_def
proof (rule realm_converges [OF demo_operator_ok, where w = demo_connected])
  show "live demo_operator (RealmDriver same_order) (demo_object ''Realm'' (demo_realm ''new'')) demo_start
      (client_at (fake_http same_order (\<lambda>j. []) ''https://kc'' (\<lambda>n. 0)) 0) demo_connected"
    using demo_provider
    by (simp add: live_def demo_object_def demo_realm_def demo_wire_def RealmDriver_def RealmDriver_Protected_def
        RealmSpec_TargetRealm_def ProtectedRealmNames_def RealmDriver_Spec_def RealmSpec_ConnectionName_def Let_def demo_operator_def NewEngine_def demo_kube_def)
  show "net_ok ''https://kc'' 0 demo_connected" by (rule demo_net_ok)
qed (simp_all add: demo_object_def demo_realm_def plain_name_def plain_seg_def operator_written_def last_applied_def
    RealmSpec_Adoption_def realm_at_def net_data_def demo_connected_def demo_server_def empty_store_def)

text \<open>A realm with two scopes, one of which is assigned.\<close>

definition demo_scoped :: "(Server \<times> nat) netw" where
  "demo_scoped = demo_connected\<lparr>nw_wire := ((New_server ''admin'' ''pw'')\<lparr>s_store := empty_store\<lparr>
     st_realms := [(''live'', [(''realm'', JStr ''live'')])],
     st_scopes := [(''live'', [(''s1'', [(''name'', JStr ''profile'')]), (''s2'', [(''name'', JStr ''email'')])])],
     st_defScope := [(''live'', [(''c'', [''s1''])])]\<rparr>\<rparr>, 0)\<rparr>"

definition demo_scoped_client :: ClientSpec where
  "demo_scoped_client = \<lparr>keycloakRef = ''kc'', spec_realm = ''live'', adoptionPolicy = None, deletionPolicy = None,
     clientId = ''app'', secretRef = None, secretOutput = None, defaultClientScopes = Some [''email''],
     optionalClientScopes = None, client_fields = []\<rparr>"

definition demo_scoped_start :: "((Server \<times> nat) netw, 's object list) eng" where
  "demo_scoped_start = demo_eng demo_scoped"

lemma demo_scope_names:
  "scope_named (mget (st_scopes (net_data demo_scoped)) ''live'') i n \<longleftrightarrow>
     i = ''s1'' \<and> n = ''profile'' \<or> i = ''s2'' \<and> n = ''email''"
proof -
  have "mget (st_scopes (net_data demo_scoped)) ''live'' =
      [(''s1'', [(''name'', JStr ''profile'')]), (''s2'', [(''name'', JStr ''email'')])]" by code_simp
  then show ?thesis by (auto simp: scope_named_def)
qed

lemma demo_client_pre: "client_pre (demo_object ''Client'' demo_scoped_client) (net_data demo_scoped)"
proof -
  have "plain_name ''live''" "coll_ok (mget (st_clients (net_data demo_scoped)) ''live'')"
    "coll_ok (mget (st_scopes (net_data demo_scoped)) ''live'')" "map_of (st_realms (net_data demo_scoped)) ''live'' \<noteq> None"
    by code_simp+
  moreover have "names_unique (mget (st_scopes (net_data demo_scoped)) ''live'')"
    unfolding names_unique_def demo_scope_names by auto
  ultimately show ?thesis
    by (auto simp: client_pre_def demo_object_def demo_scoped_client_def wanted_def demo_scope_names Let_def split: if_splits)
qed

theorem client_converges_witness:
  "settles (ClientDriver same_order) (client_at demo_wire 0) net_data (net_ok ''https://kc'' 0) (client_found same_order)
     (client_settled same_order) demo_operator (demo_object ''Client'' demo_scoped_client) demo_scoped_start"
  unfolding demo_wire_def
proof (rule client_converges [OF demo_operator_ok, where w = demo_scoped])
  have "provider_For demo_wire demo_lookup k ''ns'' ''kc'' demo_scoped = (Inr (client_at demo_wire 0), demo_scoped)" for k :: 'a
  proof -
    have "For demo_lookup
      k ''ns'' ''kc'' (nw_provider demo_scoped) = (Inr 0, nw_provider demo_scoped)" by code_simp
    then show ?thesis by (simp add: provider_For_def)
  qed
  then show "live demo_operator (ClientDriver same_order) (demo_object ''Client'' demo_scoped_client) demo_scoped_start
      (client_at (fake_http same_order (\<lambda>j. []) ''https://kc'' (\<lambda>n. 0)) 0) demo_scoped"
    by (simp add: live_def demo_object_def demo_scoped_client_def demo_wire_def ClientDriver_def ClientDriver_Protected_def
        ClientDriver_Spec_def ClientSpec_ConnectionName_def Let_def demo_operator_def NewEngine_def demo_kube_def
        demo_scoped_start_def demo_eng_def)
  show "net_ok ''https://kc'' 0 demo_scoped" by code_simp
  show "client_pre (demo_object ''Client'' demo_scoped_client) (net_data demo_scoped)" by (rule demo_client_pre)
  show "\<not> refused (ClientDriver same_order) (demo_object ''Client'' demo_scoped_client) remote"
    if "client_found same_order (demo_object ''Client'' demo_scoped_client) (net_data demo_scoped) = Some remote" for remote
  proof -
    have "client_found same_order (demo_object ''Client'' demo_scoped_client) (net_data demo_scoped) = None" by code_simp
    with that show ?thesis by simp
  qed
qed (simp_all add: demo_object_def demo_scoped_client_def operator_written_def last_applied_def ClientSpec_Adoption_def
    same_order_def order_ok_def)

text \<open>
  C23: The operator's HTTP client is transparent to the handlers of the in-memory Admin API:
  while the server accepts the connection's credentials and they are not revoked, every Admin API call through a client
  of the provider, token requests included, returns the decoded reply of the handler on the
  stored data and leaves exactly the data the handler left, with the client still accepted.
\<close>
theorem client_transparent:
  assumes "net_ok base i w" and "HasPrefix path ''/admin/''"
    and "client_at (fake_http rng render base now) i meth path body target w = (x, w')"
  shows "x = answer render meth path target (fst (api_step rng meth path body (net_data w))) \<and>
    net_data w' = snd (api_step rng meth path body (net_data w)) \<and> net_ok base i w'"
  using assms by (rule wired.call)

theorem client_transparent_witness:
  "st_realms (net_data (snd (client_at demo_wire 0 ''DELETE'' ''/admin/realms/live'' None OutNil demo_connected))) = []"
proof -
  obtain x w' where run: "client_at (fake_http same_order (\<lambda>j. []) ''https://kc'' (\<lambda>n. 0)) 0 ''DELETE'' ''/admin/realms/live'' None
      OutNil demo_connected = (x, w')" by fastforce
  have "HasPrefix ''/admin/realms/live'' ''/admin/''" by code_simp
  from client_transparent [OF demo_net_ok this run]
  have "net_data w' = snd (api_step same_order ''DELETE'' ''/admin/realms/live'' None (net_data demo_connected))" by simp
  moreover have "st_realms (snd (api_step same_order ''DELETE'' ''/admin/realms/live'' None (net_data demo_connected))) = []"
    by code_simp
  ultimately show ?thesis using run by (simp add: demo_wire_def)
qed

section \<open>Scope assignments\<close>

text \<open>
  C21: The scope assignments of a client become exactly the listed ones. On the in-memory
  Admin API, when every listed name is a scope of the realm and no two scopes share a name, \<open>enforceScopeAssignments\<close>
  succeeds for the default and for the optional assignments, the assigned names afterwards
  are the listed names, whatever order Go's maps iterate in, and it reports a change exactly
  when they differed before.
\<close>
theorem scope_assignments_exact:
  fixes w r c optional
  defines "m \<equiv> mget (st_scopes (net_data w)) r"
  assumes "net_ok base i w" and "plain_name r" and "plain_seg c" and "map_of (st_realms (net_data w)) r \<noteq> None"
    and "coll_ok m" and "names_unique m" and "order_ok rng" and "order_ok rng'"
    and "\<And>n. n \<in> set desired \<Longrightarrow> \<exists>i. scope_named m i n"
    and "enforceScopeAssignments rng' (client_at (fake_http rng render base now) i) r c desired optional w = ((changed, e), w')"
  shows "e = None \<and> net_ok base i w' \<and>
    assigned_names (mget (st_scopes (net_data w')) r) (assigned_ids optional r c (net_data w')) = set desired \<and>
    (changed \<longleftrightarrow> assigned_names m (assigned_ids optional r c (net_data w)) \<noteq> set desired)"
  using wired.assignments_exact [OF assms(2-8) [unfolded m_def] assms(9-) [unfolded m_def]] by (simp add: m_def)

theorem scope_assignments_exact_witness:
  "\<exists>e w'. enforceScopeAssignments same_order (client_at demo_wire 0) ''live'' ''c'' [''email''] False demo_scoped = ((True, e), w') \<and>
     assigned_names (mget (st_scopes (net_data w')) ''live'') (assigned_ids False ''live'' ''c'' (net_data w')) = {''email''}"
proof -
  obtain changed e w' where run: "enforceScopeAssignments same_order (client_at (fake_http same_order (\<lambda>j. []) ''https://kc'' (\<lambda>n. 0)) 0)
      ''live'' ''c'' [''email''] False demo_scoped = ((changed, e), w')"
    by (metis surj_pair)
  have scopes: "mget (st_scopes (net_data demo_scoped)) ''live'' =
      [(''s1'', [(''name'', JStr ''profile'')]), (''s2'', [(''name'', JStr ''email'')])]" (is "_ = ?m") by code_simp
  have ids: "assigned_ids False ''live'' ''c'' (net_data demo_scoped) = [''s1'']" by code_simp
  have named: "scope_named ?m i n \<longleftrightarrow> i = ''s1'' \<and> n = ''profile'' \<or> i = ''s2'' \<and> n = ''email''" for i n
    by (auto simp: scope_named_def)
  have "e = None \<and> net_ok ''https://kc'' 0 w' \<and>
    assigned_names (mget (st_scopes (net_data w')) ''live'') (assigned_ids False ''live'' ''c'' (net_data w')) = set [''email''] \<and>
    (changed \<longleftrightarrow> assigned_names (mget (st_scopes (net_data demo_scoped)) ''live'')
       (assigned_ids False ''live'' ''c'' (net_data demo_scoped)) \<noteq> set [''email''])"
  proof (rule scope_assignments_exact [OF _ _ _ _ _ _ _ _ _ run])
    show "net_ok ''https://kc'' 0 demo_scoped" "plain_name ''live''" "plain_seg ''c''"
      "coll_ok (mget (st_scopes (net_data demo_scoped)) ''live'')" by code_simp+
    show "map_of (st_realms (net_data demo_scoped)) ''live'' \<noteq> None" by code_simp
    show "names_unique (mget (st_scopes (net_data demo_scoped)) ''live'')"
      unfolding scopes names_unique_def named by auto
    show "\<exists>i. scope_named (mget (st_scopes (net_data demo_scoped)) ''live'') i n" if "n \<in> set [''email'']" for n
      using that unfolding scopes named by simp
  qed (simp_all add: order_ok_def same_order_def)
  moreover have "assigned_names (mget (st_scopes (net_data demo_scoped)) ''live'')
      (assigned_ids False ''live'' ''c'' (net_data demo_scoped)) = {''profile''}"
    unfolding scopes ids assigned_names_def named by auto
  ultimately show ?thesis using run by (auto simp: demo_wire_def)
qed

section \<open>What the server does not serve\<close>

text \<open>
  C39: The server has no endpoint for the mappers of an identity provider: a request for them
  is answered with the provider itself. So for every provider it holds, listing the mappers
  fails, and the \<open>PostApply\<close> of the identity provider driver fails with it.
\<close>
theorem idp_mappers_unserved:
  assumes "net_ok base i w" and "plain_name (spec_realm (obj_spec obj))" and "plain_seg (idp_alias (obj_spec obj))"
    and "map_of (st_realms (net_data w)) (spec_realm (obj_spec obj)) \<noteq> None"
    and "map_of (mget (st_idps (net_data w)) (spec_realm (obj_spec obj))) (idp_alias (obj_spec obj)) = Some (JObj rep)"
  shows "\<exists>e w'. IdentityProviderDriver_PostApply rng' (client_at (fake_http rng render base now) i) K obj remote k w =
    ((False, Some e, obj, k), w') \<and> net_data w' = net_data w"
proof -
  let ?r = "spec_realm (obj_spec obj)" and ?a = "idp_alias (obj_spec obj)"
  have lit: "PathEscape ''mappers'' = ''mappers''" "plain_seg ''mappers''" by code_simp+
  have step: "api_step rng ''GET'' (idp_path ?r ?a @ ''/mappers'') None (net_data w) = (Body (JObj rep), net_data w)"
    using api_route_bare [OF assms(2), of "[''identity-provider'', ''instances'', ?a, ''mappers'']"] assms(3-5)
    by (auto simp: lit routeRealm_def idp_path_def handleIdentityProviders_def Let_def)
  obtain x w' where l: "ListIdentityProviderMappers (client_at (fake_http rng render base now) i) ?r ?a w = (x, w')"
    by (cases "ListIdentityProviderMappers (client_at (fake_http rng render base now) i) ?r ?a w")
  have "HasPrefix (idp_path ?r ?a @ ''/mappers'') ''/admin/''" by (simp add: idp_path_def)
  from wired.object_call [OF assms(1) this l [unfolded ListIdentityProviderMappers_def]]
  obtain e where "x = Inl e" "net_data w' = net_data w"
    by (auto simp: step answer_def to_response_def decode_response_def)
  then show ?thesis
    using l by (simp add: IdentityProviderDriver_PostApply_def enforceMappers_def IdentityProviderSpec_TargetRealm_def Let_def)
qed

definition demo_idp :: IdentityProviderSpec where
  "demo_idp = \<lparr>keycloakRef = ''kc'', spec_realm = ''live'', adoptionPolicy = None, deletionPolicy = None,
     idp_alias = ''corp'', providerId = ''oidc'', configSecretRef = None, mappers = [], idp_fields = []\<rparr>"

definition demo_brokered :: "(Server \<times> nat) netw" where
  "demo_brokered = demo_connected\<lparr>nw_wire := ((New_server ''admin'' ''pw'')\<lparr>s_store := empty_store\<lparr>
     st_realms := [(''live'', [(''realm'', JStr ''live'')])],
     st_idps := [(''live'', [(''corp'', JObj [(''alias'', JStr ''corp'')])])]\<rparr>\<rparr>, 0)\<rparr>"

theorem idp_mappers_unserved_witness:
  "\<exists>e w'. IdentityProviderDriver_PostApply same_order (client_at demo_wire 0) (demo_kube [])
     (demo_object ''IdentityProvider'' demo_idp) [] [] demo_brokered =
    ((False, Some e, demo_object ''IdentityProvider'' demo_idp, []), w') \<and> net_data w' = net_data demo_brokered"
  unfolding demo_wire_def
proof (rule idp_mappers_unserved)
  show "net_ok ''https://kc'' 0 demo_brokered" by code_simp
  show "map_of (st_realms (net_data demo_brokered)) (spec_realm (obj_spec (demo_object ''IdentityProvider'' demo_idp))) \<noteq> None"
    by code_simp
  show "map_of (mget (st_idps (net_data demo_brokered)) (spec_realm (obj_spec (demo_object ''IdentityProvider'' demo_idp))))
      (idp_alias (obj_spec (demo_object ''IdentityProvider'' demo_idp))) = Some (JObj [(''alias'', JStr ''corp'')])"
    by code_simp
qed (simp_all add: demo_object_def demo_idp_def plain_name_def plain_seg_def)

section \<open>Revoked tokens\<close>

text \<open>
  Revoking tokens changes nothing for requests that carry one: only the next token request is
  refused.
\<close>

lemma revoked_tokens_accepted:
  assumes "req_url q = base @ path" and "HasPrefix path ''/admin/''"
  shows "serve rng base q (RevokeTokens S) =
    (fst (serve rng base q S), RevokeTokens (snd (serve rng base q S)))"
proof -
  obtain t where path: "path = ''/admin/'' @ t" using HasPrefixE [OF assms(2)] by blast
  have "before (CHR ''?'') (TrimPrefix (req_url q) base) = ''/admin/'' @ before (CHR ''?'') t"
    by (simp add: assms(1) path before_def)
  then show ?thesis
    by (simp add: serve_def handleAdmin_def RevokeTokens_def Let_def HasPrefix_def split_beta split: option.split)
qed

end
