(* ===== verification/Fake_Frames.thy ===== *)
theory Fake_Frames
  imports Fake_Clients
begin

text \<open>
  What a pass over one resource leaves of the others on the in-memory Admin API. A collection
  in which names and identifiers agree (\<open>coll_good\<close>) is determined by its entries; a pass
  changes only the entry of its own resource (the frames), and a pass over a resource that is
  settled changes no entry and no assignment at all (\<open>still\<close>).
\<close>

section \<open>Collections by their entries\<close>

text \<open>No two entries share a name, and the identifier the server would give to a new name is
  not taken by another name.\<close>

definition coll_good :: "string \<Rightarrow> string \<Rightarrow> json gomap gomap \<Rightarrow> bool" where
  "coll_good key pfx m \<longleftrightarrow> coll_ok m \<and>
     (\<forall>i j v x y. entry key m i v x \<longrightarrow> entry key m j v y \<longrightarrow> i = j) \<and>
     (\<forall>n v x. entry key m (pfx @ n) v x \<longrightarrow> v = n)"

lemma coll_goodD:
  assumes "coll_good key pfx m"
  shows "coll_ok m" "mwf m" "entry key m i v x \<Longrightarrow> entry key m j v y \<Longrightarrow> i = j" "entry key m (pfx @ n) v x \<Longrightarrow> v = n"
  using assms unfolding coll_good_def coll_ok_def by blast+

text \<open>Only the entries of one name differ.\<close>

definition coll_frame :: "string \<Rightarrow> string \<Rightarrow> json gomap gomap \<Rightarrow> json gomap gomap \<Rightarrow> bool" where
  "coll_frame key n m m' \<longleftrightarrow> (\<forall>i v x. v \<noteq> n \<longrightarrow> entry key m' i v x = entry key m i v x)"

lemma coll_look_entry:
  assumes "order_ok rng" and "coll_good key pfx m"
  shows "coll_look rng site key v m = Some x \<longleftrightarrow> (\<exists>i. entry key m i v x)"
proof -
  note wf = coll_goodD(2) [OF assms(2)]
  have found: "entry key m i v (clone (mput ''id'' (JStr i) rep))" if f: "coll_find rng site key v m = Some (i, rep)" for i rep
  proof -
    have "map_of rep key = Some (JStr v)"
      using f unfolding coll_find_def find_Some_iff by (metis snd_conv)
    then show ?thesis using coll_find_stored [OF assms(1) wf f] by (simp add: entry_def)
  qed
  have "coll_look rng site key v m = Some x" if e: "entry key m i v x" for i
  proof -
    have "has_value key v m"
      using e unfolding entry_def has_value_def by (metis map_of_SomeD snd_conv)
    then obtain j rep where f: "coll_find rng site key v m = Some (j, rep)"
      using coll_find_None [OF assms(1) wf] by (metis not_None_eq surj_pair)
    then have "entry key m j v (clone (mput ''id'' (JStr j) rep))" by (rule found)
    moreover from coll_goodD(3) [OF assms(2) this e] have "j = i" .
    ultimately show ?thesis using e f by (auto simp: coll_look_def entry_def)
  qed
  then show ?thesis using found by (auto simp: coll_look_def)
qed

lemma coll_look_cong:
  assumes "order_ok rng" and "coll_good key pfx m" and "coll_good key pfx m'" and "\<And>i x. entry key m' i v x = entry key m i v x"
  shows "coll_look rng site key v m' = coll_look rng site key v m"
  using coll_look_entry [OF assms(1,2), of site v] coll_look_entry [OF assms(1,3), of site v] assms(4)
  by (metis not_Some_eq)

lemma coll_look_frame:
  assumes "order_ok rng" and "coll_good key pfx m" and "coll_good key pfx m'" and "coll_frame key n m m'" and "v \<noteq> n"
  shows "coll_look rng site key v m' = coll_look rng site key v m"
  using coll_look_cong [OF assms(1-3)] assms(4,5) unfolding coll_frame_def by blast

lemma entry_mput:
  "entry key (mput i new m) j v x \<longleftrightarrow>
     (if j = i then map_of new key = Some (JStr v) \<and> x = clone (mput ''id'' (JStr i) new) else entry key m j v x)"
  by (auto simp: entry_def)

lemma coll_good_cong: "entry key m' = entry key m \<Longrightarrow> coll_ok m' = coll_ok m \<Longrightarrow> coll_good key pfx m' = coll_good key pfx m"
  by (simp add: coll_good_def)

lemma created_good:
  assumes "coll_good key pfx m" and "\<And>i x. \<not> entry key m i n x" and "map_of new key = Some (JStr n)" and "plain_seg (pfx @ n)"
  shows "coll_good key pfx (mput (pfx @ n) new m)" and "coll_frame key n m (mput (pfx @ n) new m)"
proof -
  note good = coll_goodD [OF assms(1)]
  have own: "v = n" if "entry key (mput (pfx @ n) new m) (pfx @ n) v x" for v x
    using that assms(3) by (simp add: entry_mput)
  show "coll_good key pfx (mput (pfx @ n) new m)"
    unfolding coll_good_def
  proof (intro conjI allI impI)
    show "coll_ok (mput (pfx @ n) new m)" using good(1) assms(4) by (rule coll_ok_mput)
    show "i = j" if "entry key (mput (pfx @ n) new m) i v x" "entry key (mput (pfx @ n) new m) j v y" for i j v x y
      using that own assms(2) good(3) by (metis entry_mput)
    show "v = k" if "entry key (mput (pfx @ n) new m) (pfx @ k) v x" for k v x
      using that own good(4) by (metis entry_mput same_append_eq)
  qed
  show "coll_frame key n m (mput (pfx @ n) new m)"
    unfolding coll_frame_def using own good(4) by (metis entry_mput)
qed

lemma updated_good:
  assumes "coll_good key pfx m" and "entry key m i n y" and "map_of new key = Some (JStr n)"
  shows "coll_good key pfx (mput i new m)" and "coll_frame key n m (mput i new m)"
proof -
  have seg: "plain_seg i" using assms(2) coll_ok_key [OF coll_goodD(1) [OF assms(1)]] by (auto simp: entry_def)
  have new: "v = n" if "entry key (mput i new m) i v x" for v x using that assms(3) by (simp add: entry_mput)
  have own: "v = n" if "entry key m i v x" for v x using that assms(2) by (auto simp: entry_def)
  show "coll_good key pfx (mput i new m)"
    unfolding coll_good_def
  proof (intro conjI allI impI)
    show "coll_ok (mput i new m)" using coll_goodD(1) [OF assms(1)] seg by (rule coll_ok_mput)
    show "j = k" if "entry key (mput i new m) j v x" "entry key (mput i new m) k v y" for j k v x y
      using that new assms(2) coll_goodD(3) [OF assms(1)] by (metis entry_mput)
    show "v = k" if "entry key (mput i new m) (pfx @ k) v x" for k v x
      using that new assms(2) coll_goodD(4) [OF assms(1)] by (metis entry_mput)
  qed
  show "coll_frame key n m (mput i new m)"
    unfolding coll_frame_def using own new by (metis entry_mput)
qed

section \<open>Frames on the store\<close>

definition store_good :: "Store \<Rightarrow> bool" where
  "store_good S \<longleftrightarrow>
     (\<forall>r. coll_good ''clientId'' ''client-'' (mget (st_clients S) r) \<and> coll_good ''name'' ''scope-'' (mget (st_scopes S) r))"

text \<open>Over all realms, only the entries of one name in one realm differ.\<close>

definition entries_frame :: "string \<Rightarrow> string \<Rightarrow> string \<Rightarrow> json gomap gomap gomap \<Rightarrow> json gomap gomap gomap \<Rightarrow> bool" where
  "entries_frame key r n m m' \<longleftrightarrow>
     (\<forall>r' i v x. (r', v) \<noteq> (r, n) \<longrightarrow> entry key (mget m' r') i v x = entry key (mget m r') i v x)"

text \<open>What a pass over a realm, over a client scope and over a client may have changed.\<close>

definition realm_frame :: "string \<Rightarrow> Store \<Rightarrow> Store \<Rightarrow> bool" where
  "realm_frame r S S' \<longleftrightarrow>
     (\<exists>m. S' = S\<lparr>st_realms := m\<rparr> \<and> (\<forall>r'. r' \<noteq> r \<longrightarrow> map_of m r' = map_of (st_realms S) r'))"

definition scope_frame :: "string \<Rightarrow> string \<Rightarrow> Store \<Rightarrow> Store \<Rightarrow> bool" where
  "scope_frame r n S S' \<longleftrightarrow>
     (\<exists>m. S' = S\<lparr>st_scopes := m\<rparr> \<and> entries_frame ''name'' r n (st_scopes S) m)"

definition assigned_frame :: "string \<Rightarrow> string \<Rightarrow> Store \<Rightarrow> Store \<Rightarrow> bool" where
  "assigned_frame r c S S' \<longleftrightarrow>
     (\<forall>optional r' j. assigned_ids optional r' j S' \<noteq> assigned_ids optional r' j S \<longrightarrow>
        r' = r \<and> (\<exists>x. entry ''clientId'' (mget (st_clients S') r) j c x))"

definition client_frames :: "string \<Rightarrow> string \<Rightarrow> Store \<Rightarrow> Store \<Rightarrow> bool" where
  "client_frames r c S S' \<longleftrightarrow> st_realms S' = st_realms S \<and> same_scopes S S' \<and>
     entries_frame ''clientId'' r c (st_clients S) (st_clients S') \<and> assigned_frame r c S S'"

lemma frames_refl [simp]: "realm_frame r S S" "scope_frame r n S S" "client_frames r c S S"
proof -
  show "realm_frame r S S" unfolding realm_frame_def by (intro exI [of _ "st_realms S"]) simp
  show "scope_frame r n S S" unfolding scope_frame_def entries_frame_def by (intro exI [of _ "st_scopes S"]) simp
  show "client_frames r c S S" by (simp add: client_frames_def entries_frame_def same_scopes_def assigned_frame_def)
qed

text \<open>Nothing a client can see has changed.\<close>

definition still :: "Store \<Rightarrow> Store \<Rightarrow> bool" where
  "still S S' \<longleftrightarrow> st_realms S' = st_realms S \<and> same_scopes S S' \<and>
     (\<forall>r. entry ''clientId'' (mget (st_clients S') r) = entry ''clientId'' (mget (st_clients S) r) \<and>
        coll_ok (mget (st_clients S') r) = coll_ok (mget (st_clients S) r)) \<and>
     (\<forall>optional. assignments optional S' = assignments optional S)"

lemma still_refl [simp]: "still S S"
  by (simp add: still_def same_scopes_def)

lemma still_trans: "still S S' \<Longrightarrow> still S' S'' \<Longrightarrow> still S S''"
  by (simp add: still_def same_scopes_def)

lemma same_scopes_good:
  "same_scopes S S' \<Longrightarrow> coll_good ''name'' pfx (mget (st_scopes S') r) = coll_good ''name'' pfx (mget (st_scopes S) r)"
  by (intro coll_good_cong) (simp_all add: same_scopes_def)

lemma still_good: "still S S' \<Longrightarrow> store_good S' = store_good S"
  using same_scopes_good [of S S' "''scope-''"] coll_good_cong [of "''clientId''" "mget (st_clients S') _" "mget (st_clients S) _" "''client-''"]
  by (simp add: still_def store_good_def)

lemma stamps_still:
  shows "scopes_stamped r S S' \<Longrightarrow> still S S'" and "clients_stamped r S S' \<Longrightarrow> still S S'"
proof -
  assume a: "scopes_stamped r S S'"
  with scopes_stamped_same [OF a] show "still S S'"
    by (auto simp: still_def scopes_stamped_def assignments_def)
next
  assume "clients_stamped r S S'"
  then obtain P where S': "S' = S \<or> S' = S\<lparr>st_clients := mput r (stamp_ids P (mget (st_clients S) r)) (st_clients S)\<rparr>"
    by (auto simp: clients_stamped_def)
  have "entry ''clientId'' (mget (st_clients S') r') = entry ''clientId'' (mget (st_clients S) r') \<and>
      coll_ok (mget (st_clients S') r') = coll_ok (mget (st_clients S) r')" for r'
  proof -
    consider "mget (st_clients S') r' = mget (st_clients S) r'" | "mget (st_clients S') r' = stamp_ids P (mget (st_clients S) r')"
      using S' by (cases "r' = r") (auto simp: mget_def)
    then show ?thesis by cases (simp_all add: entry_stamp coll_ok_stamp)
  qed
  with S' show "still S S'" by (auto simp: still_def same_scopes_def assignments_def)
qed

text \<open>A change that keeps what is seen stays within the frames.\<close>

lemma still_client_frames: "client_frames r c S S' \<Longrightarrow> still S' S'' \<Longrightarrow> client_frames r c S S''"
  unfolding client_frames_def still_def same_scopes_def entries_frame_def assigned_frame_def assigned_ids_def by (simp; metis)

lemma stamped_scope_frame:
  assumes "scope_frame r n S S'" and "scopes_stamped r' S' S''"
  shows "scope_frame r n S S''"
proof -
  from assms obtain m m' where "S' = S\<lparr>st_scopes := m\<rparr>" "entries_frame ''name'' r n (st_scopes S) m" "S'' = S\<lparr>st_scopes := m'\<rparr>"
    by (fastforce simp: scope_frame_def scopes_stamped_def)
  with scopes_stamped_same [OF assms(2)] show ?thesis
    by (auto simp: scope_frame_def same_scopes_def entries_frame_def)
qed

lemma mget_put_other: "r' \<noteq> r \<Longrightarrow> mget (put_in r i v m) r' = mget m r'"
  by (simp add: put_in_def mget_def)

lemma put_entries_frame:
  assumes "entries_frame key r n m0 m" and "coll_frame key n (mget m r) (mput i v (mget m r))"
  shows "entries_frame key r n m0 (put_in r i v m)"
proof -
  have "entry key (mget (put_in r i v m) r') j k x = entry key (mget m r') j k x" if "(r', k) \<noteq> (r, n)" for r' j k x
    using that assms(2) by (cases "r' = r") (auto simp: mget_put_other coll_frame_def)
  with assms(1) show ?thesis by (simp add: entries_frame_def)
qed

lemma put_good:
  assumes "\<And>r. coll_good key pfx (mget m r)" and "coll_good key pfx (mput i v (mget m r))"
  shows "coll_good key pfx (mget (put_in r i v m) r')"
  using assms by (cases "r' = r") (simp_all add: mget_put_other)

lemma updated_name:
  assumes "order_ok rng" and "coll_ok m" and "coll_look rng site key n m = Some remote" and "sendable key n payload"
    and "map_of remote ''id'' = Some (JStr i)" and "map_of m i = Some rep"
  shows "\<exists>y. entry key m i n y" and "map_of (merge rep (MergePayload (cloneMap remote) payload)) key = Some (JStr n)"
proof -
  obtain j r where found: "coll_find rng site key n m = Some (j, r)" and remote: "remote = clone (mput ''id'' (JStr j) r)"
    using assms(3) by (auto simp: coll_look_def)
  have "map_of m j = Some r" using coll_find_stored [OF assms(1) _ found] assms(2) by (simp add: coll_ok_def)
  moreover have "j = i" using assms(5) by (simp add: remote clone_lookup)
  ultimately have r: "r = rep" "remote = clone (mput ''id'' (JStr i) rep)" using assms(6) remote by simp_all
  have "map_of rep key = Some (JStr n)" using found r(1) unfolding coll_find_def find_Some_iff by (metis snd_conv)
  then show "\<exists>y. entry key m i n y" using assms(6) by (simp add: entry_def)
  show "map_of (merge rep (MergePayload (cloneMap remote) payload)) key = Some (JStr n)"
    unfolding r(2)
    by (rule carried_string [OF written_back(2) [OF assms(4)] map_of_SomeD [OF sendableD(6) [OF assms(4)]]])
qed

text \<open>Writing one entry of the own name.\<close>

lemma scope_put:
  assumes "store_good S" and "scope_frame r n S0 S" and "coll_good ''name'' ''scope-'' (mput i v (mget (st_scopes S) r))"
    and "coll_frame ''name'' n (mget (st_scopes S) r) (mput i v (mget (st_scopes S) r))"
  shows "store_good (S\<lparr>st_scopes := put_in r i v (st_scopes S)\<rparr>) \<and> scope_frame r n S0 (S\<lparr>st_scopes := put_in r i v (st_scopes S)\<rparr>)"
proof -
  from assms(2) obtain m where "S = S0\<lparr>st_scopes := m\<rparr>" "entries_frame ''name'' r n (st_scopes S0) m" by (auto simp: scope_frame_def)
  with put_entries_frame [OF _ assms(4), of "st_scopes S0"] put_good [OF _ assms(3)] assms(1) show ?thesis
    by (auto simp: scope_frame_def store_good_def)
qed

lemma client_put:
  assumes "store_good S" and "client_frames r c S0 S" and "coll_good ''clientId'' ''client-'' (mput i v (mget (st_clients S) r))"
    and "coll_frame ''clientId'' c (mget (st_clients S) r) (mput i v (mget (st_clients S) r))"
    and "\<And>j x. entry ''clientId'' (mget (st_clients S) r) j c x \<Longrightarrow> \<exists>y. entry ''clientId'' (mput i v (mget (st_clients S) r)) j c y"
  shows "store_good (S\<lparr>st_clients := put_in r i v (st_clients S)\<rparr>) \<and> client_frames r c S0 (S\<lparr>st_clients := put_in r i v (st_clients S)\<rparr>)"
proof -
  have "entries_frame ''clientId'' r c (st_clients S0) (put_in r i v (st_clients S))"
    using assms(2) put_entries_frame [OF _ assms(4)] by (simp add: client_frames_def)
  moreover have "store_good (S\<lparr>st_clients := put_in r i v (st_clients S)\<rparr>)"
    using assms(1) put_good [OF _ assms(3)] by (simp add: store_good_def)
  moreover have "assigned_frame r c S0 (S\<lparr>st_clients := put_in r i v (st_clients S)\<rparr>)"
    unfolding assigned_frame_def
  proof (intro allI impI)
    fix opt r' j
    assume "assigned_ids opt r' j (S\<lparr>st_clients := put_in r i v (st_clients S)\<rparr>) \<noteq> assigned_ids opt r' j S0"
    then have "assigned_ids opt r' j S \<noteq> assigned_ids opt r' j S0" by (cases opt) (simp_all add: assigned_ids_def assignments_def)
    with assms(2) have "r' = r \<and> (\<exists>x. entry ''clientId'' (mget (st_clients S) r) j c x)"
      unfolding client_frames_def assigned_frame_def by blast
    with assms(5) show "r' = r \<and> (\<exists>x. entry ''clientId'' (mget (st_clients (S\<lparr>st_clients := put_in r i v (st_clients S)\<rparr>)) r) j c x)"
      by auto
  qed
  ultimately show ?thesis using assms(2) by (simp add: client_frames_def same_scopes_def)
qed

text \<open>Changing the assignments of the own client.\<close>

lemma assigned_frames:
  assumes "assignments_only optional r i S S'" and "entry ''clientId'' (mget (st_clients S) r) i c x"
    and "store_good S" and "client_frames r c S0 S"
  shows "store_good S' \<and> client_frames r c S0 S'"
proof -
  have same: "same_scopes S S'" "st_clients S' = st_clients S" "st_realms S' = st_realms S"
    using assms(1) by (simp_all add: assignments_only_def)
  have "assigned_ids opt r' j S' = assigned_ids opt r' j S" if "(r', j) \<noteq> (r, i)" for opt r' j
    using that assms(1) by (cases "opt = optional") (auto simp: assignments_only_def assigned_ids_def)
  moreover have "assigned_frame r c S0 S" using assms(4) by (simp add: client_frames_def)
  ultimately have "assigned_frame r c S0 S'"
    unfolding assigned_frame_def same(2) using assms(2) by (metis prod.inject)
  with assms(3,4) same same_scopes_good [OF same(1)] show ?thesis
    by (simp add: client_frames_def store_good_def same_scopes_def)
qed

section \<open>Passes stay within their frames\<close>

context served
begin

lemma realms_framed:
  "stored_driver (RealmDriver rng') kc store ok
    (\<lambda>obj S. (plain_name (spec_realm (obj_spec obj)) \<and> smtpServerSecretRef (obj_spec obj) = None) \<and>
       (store_good S \<and> realm_frame (spec_realm (obj_spec obj)) S0 S))
    realm_at (\<lambda>rep. ()) (\<lambda>obj S. True) (\<lambda>obj. sendable ''realm'' (spec_realm (obj_spec obj)))"
proof (rule realms.extended, goal_cases)
  case (1 w obj x w')
  then show ?case
    using realm_get [of w "spec_realm (obj_spec obj)" x w'] by (simp add: RealmDriver_def RealmDriver_Get_def RealmSpec_TargetRealm_def)
next
  case (2 w obj payload e w')
  then show ?case
    using realm_create [of w "spec_realm (obj_spec obj)" payload e w']
    by (auto simp: realm_at_def RealmDriver_def RealmDriver_Create_def plain_name_def plain_seg_def store_good_def realm_frame_def)
next
  case (3 w obj remote payload e w')
  then obtain rep where rep: "map_of (st_realms (store w)) (spec_realm (obj_spec obj)) = Some rep" "remote = clone rep"
    by (auto simp: realm_at_def)
  with 3 show ?case
    using realm_update [of w "spec_realm (obj_spec obj)" rep _ e w'] written_back [OF 3(5), where rep = rep]
    by (auto simp: RealmDriver_def RealmDriver_Update_def RealmSpec_TargetRealm_def store_good_def realm_frame_def simp del: jround.simps)
next
  case (4 w obj rep remote K k y w')
  then show ?case by (simp add: RealmDriver_def RealmDriver_PostApply_def)
qed

lemma scopes_framed:
  "stored_driver ClientScopeDriver kc store ok
    (\<lambda>obj S. (order_ok rng \<and> plain_name (spec_realm (obj_spec obj)) \<and> CHR ''/'' \<notin> set (scope_name (obj_spec obj)) \<and>
         map_of (st_realms S) (spec_realm (obj_spec obj)) \<noteq> None \<and> coll_ok (mget (st_scopes S) (spec_realm (obj_spec obj)))) \<and>
       (store_good S \<and> scope_frame (spec_realm (obj_spec obj)) (scope_name (obj_spec obj)) S0 S))
    (scope_at rng) (\<lambda>rep. ()) (\<lambda>obj S. True) (\<lambda>obj. sendable ''name'' (scope_name (obj_spec obj)))"
proof (rule client_scopes.extended, goal_cases)
  case (1 w obj x w')
  have "FindClientScope kc (spec_realm (obj_spec obj)) (scope_name (obj_spec obj)) w = (x, w')"
    using 1(4) by (simp add: ClientScopeDriver_def ClientScopeDriver_Get_def ClientScopeSpec_TargetRealm_def Let_def)
  from scope_find [OF 1(1) _ _ _ this] 1(2) have "scopes_stamped (spec_realm (obj_spec obj)) (store w) (store w')" by simp
  with 1(3) show ?case using stamped_scope_frame still_good stamps_still(1) by blast
next
  case (2 w obj payload e w')
  let ?r = "spec_realm (obj_spec obj)" and ?n = "scope_name (obj_spec obj)" and ?m = "st_scopes (store w)"
  let ?new = "mput ''id'' (JStr (''scope-'' @ ?n)) payload"
  have good: "coll_good ''name'' ''scope-'' (mget ?m r)" for r using 2(3) by (simp add: store_good_def)
  have seg: "plain_seg (''scope-'' @ ?n)" using 2(2) by (simp add: plain_seg_def)
  have none: "\<not> entry ''name'' (mget ?m ?r) i ?n x" for i x
    using 2(2,4) coll_look_entry [OF _ good, of rng "''handleClientScopes''" ?n ?r] by (auto simp: scope_at_def)
  have key: "map_of ?new ''name'' = Some (JStr ?n)" using sendableD(6) [OF 2(5)] by simp
  note new = created_good [OF good none key seg]
  have "\<not> has_value ''name'' ?n (mget ?m ?r)"
    using coll_created(1) [OF _ _ 2(4) [unfolded scope_at_def] 2(5) seg] 2(2) by simp
  moreover have "CreateClientScope kc ?r payload w = (e, w')"
    using 2(6) by (simp add: ClientScopeDriver_def ClientScopeDriver_Create_def ClientScopeSpec_TargetRealm_def)
  ultimately have store: "store w' = (store w)\<lparr>st_scopes := put_in ?r (''scope-'' @ ?n) ?new ?m\<rparr>"
    using scope_create [OF 2(1) _ _ 2(5)] 2(2) by simp
  show ?case unfolding store by (rule scope_put) (use 2(3) new in auto)
next
  case (3 w obj remote payload e w')
  let ?r = "spec_realm (obj_spec obj)" and ?n = "scope_name (obj_spec obj)" and ?m = "st_scopes (store w)"
  let ?p = "MergePayload (cloneMap remote) payload"
  have good: "coll_good ''name'' ''scope-'' (mget ?m r)" for r using 3(3) by (simp add: store_good_def)
  have coll: "order_ok rng" "coll_ok (mget ?m ?r)" using 3(2) by auto
  note look = 3(4) [unfolded scope_at_def]
  from coll_updated [OF coll look 3(5)] obtain i rep where
    i: "map_of (mget ?m ?r) i = Some rep" "plain_seg i" "map_of remote ''id'' = Some (JStr i)" "jround (JObj ?p) = JObj ?p" by metis
  have "UpdateClientScope kc ?r i ?p w = (e, w')"
    using 3(6) i(3) by (simp add: ClientScopeDriver_def ClientScopeDriver_Update_def ClientScopeDriver_ID_def
        str_or_empty_def ClientScopeSpec_TargetRealm_def)
  from scope_update [OF 3(1) _ i(2) _ i(1,4) this] 3(2)
  have store: "store w' = (store w)\<lparr>st_scopes := put_in ?r i (merge rep ?p) ?m\<rparr>" by simp
  obtain y where y: "entry ''name'' (mget ?m ?r) i ?n y" using updated_name(1) [OF coll look 3(5) i(3,1)] by blast
  note new = updated_good [OF good y updated_name(2) [OF coll look 3(5) i(3,1)]]
  show ?case unfolding store by (rule scope_put) (use 3(3) new in auto)
next
  case (4 w obj rep remote K k y w')
  then show ?case by (simp add: ClientScopeDriver_def ClientScopeDriver_PostApply_def)
qed

lemma clients_framed:
  "stored_driver (ClientDriver rng') kc store ok
    (\<lambda>obj S. (order_ok rng \<and> order_ok rng' \<and> client_pre obj S) \<and>
       (store_good S \<and> client_frames (spec_realm (obj_spec obj)) (clientId (obj_spec obj)) S0 S))
    (client_found rng) client_key (client_settled rng) (\<lambda>obj. sendable ''clientId'' (clientId (obj_spec obj)))"
proof (rule clients.extended, goal_cases)
  case (1 w obj x w')
  have "FindClient kc (spec_realm (obj_spec obj)) (clientId (obj_spec obj)) w = (x, w')"
    using 1(4) by (simp add: ClientDriver_def ClientDriver_Get_def ClientSpec_TargetRealm_def Let_def)
  from client_find [OF 1(1) _ _ _ _ this] 1(2) have "clients_stamped (spec_realm (obj_spec obj)) (store w) (store w')"
    by (simp add: client_pre_def Let_def)
  with 1(3) show ?case using still_client_frames still_good stamps_still(2) by blast
next
  case (2 w obj payload e w')
  let ?r = "spec_realm (obj_spec obj)" and ?n = "clientId (obj_spec obj)" and ?m = "st_clients (store w)"
  let ?new = "mput ''id'' (JStr (''client-'' @ ?n)) payload"
  have good: "coll_good ''clientId'' ''client-'' (mget ?m r)" for r using 2(3) by (simp add: store_good_def)
  have pre: "order_ok rng" "plain_name ?r" "?n \<noteq> []" "map_of (st_realms (store w)) ?r \<noteq> None" "plain_seg (''client-'' @ ?n)"
    using 2(2) by (simp_all add: client_pre_def Let_def plain_seg_def)
  have none: "\<not> entry ''clientId'' (mget ?m ?r) i ?n x" for i x
    using 2(4) coll_look_entry [OF pre(1) good, of "''handleClients''" ?n ?r] by (auto simp: client_found_def)
  have key: "map_of ?new ''clientId'' = Some (JStr ?n)" using sendableD(6) [OF 2(5)] by simp
  note new = created_good [OF good none key pre(5)]
  have "\<not> has_value ''clientId'' ?n (mget ?m ?r)"
    using coll_created(1) [OF pre(1) coll_goodD(1) [OF good] 2(4) [unfolded client_found_def] 2(5) pre(5)] by simp
  moreover have "CreateClient kc ?r payload w = (e, w')"
    using 2(6) by (simp add: ClientDriver_def ClientDriver_Create_def ClientSpec_TargetRealm_def)
  ultimately have store: "store w' = (store w)\<lparr>st_clients := put_in ?r (''client-'' @ ?n) ?new ?m\<rparr>"
    using client_create [OF 2(1) pre(2,4) 2(5) pre(3)] by simp
  show ?case unfolding store by (rule client_put) (use 2(3) new none in auto)
next
  case (3 w obj remote payload e w')
  let ?r = "spec_realm (obj_spec obj)" and ?n = "clientId (obj_spec obj)" and ?m = "st_clients (store w)"
  let ?p = "MergePayload (cloneMap remote) payload"
  have good: "coll_good ''clientId'' ''client-'' (mget ?m r)" for r using 3(3) by (simp add: store_good_def)
  have coll: "order_ok rng" "coll_ok (mget ?m ?r)" using 3(2) coll_goodD(1) [OF good] by auto
  have pre: "plain_name ?r" "map_of (st_realms (store w)) ?r \<noteq> None" using 3(2) by (simp_all add: client_pre_def Let_def)
  note look = 3(4) [unfolded client_found_def]
  from coll_updated [OF coll look 3(5)] obtain i rep where
    i: "map_of (mget ?m ?r) i = Some rep" "plain_seg i" "map_of remote ''id'' = Some (JStr i)" "jround (JObj ?p) = JObj ?p" by metis
  have "UpdateClient kc ?r i ?p w = (e, w')"
    using 3(6) i(3) by (simp add: ClientDriver_def ClientDriver_Update_def ClientDriver_ID_def str_or_empty_def
        ClientSpec_TargetRealm_def)
  from client_update [OF 3(1) pre(1) i(2) pre(2) i(1,4) this]
  have store: "store w' = (store w)\<lparr>st_clients := put_in ?r i (merge rep ?p) ?m\<rparr>" by simp
  obtain y where y: "entry ''clientId'' (mget ?m ?r) i ?n y" using updated_name(1) [OF coll look 3(5) i(3,1)] by blast
  note name = updated_name(2) [OF coll look 3(5) i(3,1)]
  note new = updated_good [OF good y name]
  have "\<exists>y. entry ''clientId'' (mput i (merge rep ?p) (mget ?m ?r)) j ?n y" if "entry ''clientId'' (mget ?m ?r) j ?n x" for j x
    using coll_goodD(3) [OF good that y] name by (simp add: entry_mput)
  then show ?case unfolding store by (intro client_put) (use 3(3) new in auto)
next
  case (4 w obj rep remote K k y w')
  let ?r = "spec_realm (obj_spec obj)" and ?n = "clientId (obj_spec obj)"
  have "ClientDriver_PostApply rng' kc K obj remote k w = (y, w')" using 4(6) by (simp add: ClientDriver_def)
  from client_post [OF 4(1) _ _ _ 4(4,5) this] 4(2) obtain S1 where
    S1: "assignments_only False ?r (client_key rep) (store w) S1" "assignments_only True ?r (client_key rep) S1 (store w')" by auto
  have good: "coll_good ''clientId'' ''client-'' (mget (st_clients (store w)) ?r)" using 4(3) by (simp add: store_good_def)
  have "\<exists>i. entry ''clientId'' (mget (st_clients (store w)) ?r) i ?n rep"
    using 4(2,4) coll_look_entry [OF _ good] by (auto simp: client_found_def)
  then have e: "entry ''clientId'' (mget (st_clients (store w)) ?r) (client_key rep) ?n rep"
    by (auto simp: entry_def client_key_def clone_lookup str_or_empty_def)
  have "store_good S1 \<and> client_frames ?r ?n S0 S1" by (rule assigned_frames [OF S1(1) e]) (use 4(3) in auto)
  moreover have "entry ''clientId'' (mget (st_clients S1) ?r) (client_key rep) ?n rep"
    using S1(1) e by (simp add: assignments_only_def)
  ultimately show ?case using assigned_frames [OF S1(2)] by blast
qed

text \<open>The two calls of a pass over a settled resource.\<close>

lemma realm_reads_still:
  assumes "ok w" and "plain_name (spec_realm (obj_spec obj))" and "d_Get (RealmDriver rng') kc obj w = (x, w1)"
    and "d_PostApply (RealmDriver rng') kc K obj rep k w1 = (y, w2)"
  shows "still (store w) (store w2)"
  using realm_get [OF assms(1,2)] assms(3,4)
  by (auto simp: RealmDriver_def RealmDriver_Get_def RealmDriver_PostApply_def RealmSpec_TargetRealm_def)

lemma scope_reads_still:
  assumes "ok w" and "plain_name (spec_realm (obj_spec obj))" and "map_of (st_realms (store w)) (spec_realm (obj_spec obj)) \<noteq> None"
    and "coll_ok (mget (st_scopes (store w)) (spec_realm (obj_spec obj)))"
    and "d_Get ClientScopeDriver kc obj w = (x, w1)" and "d_PostApply ClientScopeDriver kc K obj rep k w1 = (y, w2)"
  shows "still (store w) (store w2)"
proof -
  have "FindClientScope kc (spec_realm (obj_spec obj)) (scope_name (obj_spec obj)) w = (x, w1)"
    using assms(5) by (simp add: ClientScopeDriver_def ClientScopeDriver_Get_def ClientScopeSpec_TargetRealm_def Let_def)
  from scope_find [OF assms(1-4) this] have "still (store w) (store w1)" using stamps_still(1) by blast
  with assms(6) show ?thesis by (simp add: ClientScopeDriver_def ClientScopeDriver_PostApply_def)
qed

lemma client_reads_still:
  assumes "ok w" and "order_ok rng" and "order_ok rng'" and "client_pre obj (store w)" and "client_found rng obj (store w) = Some rep"
    and "client_settled rng obj (store w)" and "d_Get (ClientDriver rng') kc obj w = (Inr rep, w1)"
    and "d_PostApply (ClientDriver rng') kc K obj rep k w1 = (y, w2)"
  shows "still (store w) (store w2)"
proof -
  have find: "FindClient kc (spec_realm (obj_spec obj)) (clientId (obj_spec obj)) w = (Inr rep, w1)"
    using assms(7) by (simp add: ClientDriver_def ClientDriver_Get_def ClientSpec_TargetRealm_def Let_def)
  have "clients_stamped (spec_realm (obj_spec obj)) (store w) (store w1)"
    using client_find [OF assms(1) _ _ _ _ find] assms(4) by (simp add: client_pre_def Let_def)
  then have "still (store w) (store w1)" by (rule stamps_still(2))
  moreover have "ok w1" "client_pre obj (store w1)" "client_found rng obj (store w1) = Some rep" "client_settled rng obj (store w1)"
    using clients.get [where rng' = rng', OF assms(1) _ assms(7)] assms(2-6) by auto
  with client_post [OF this(1,2) assms(2,3) this(3) refl, of K k y w2] assms(8)
  have "store w2 = store w1" by (simp add: ClientDriver_def)
  ultimately show ?thesis by simp
qed

end

end
