(* ===== verification/Deployment.thy ===== *)
theory Deployment
  imports Fake_System Fake_Frames
begin

text \<open>
  A whole deployment on the in-memory Admin API: realms, client scopes and clients that are
  reconciled one after the other. One round in the order of their dependencies brings all of
  them to their specs at once, and from then on every pass over any of them, in any order and
  any number of times, is silent and leaves all of them settled.
\<close>

section \<open>Passes over the resources of a deployment\<close>

datatype item = RealmItem "RealmSpec object" | ScopeItem "ClientScopeSpec object" | ClientItem "ClientSpec object"

text \<open>Where the passes happen: the client of the connection with the data it reaches, the
  iteration orders of the server and of the operator, and the engine per kind.\<close>

record ('w, 'k) site =
  si_kc :: "'w kc"
  si_data :: "'w \<Rightarrow> Store"
  si_ready :: "'w \<Rightarrow> bool"
  si_server_order :: order
  si_order :: order
  si_realms :: "('w, 'k, RealmSpec) engine"
  si_scopes :: "('w, 'k, ClientScopeSpec) engine"
  si_clients :: "('w, 'k, ClientSpec) engine"

text \<open>A pass over a live object that finds the data \<open>S\<close> and leaves \<open>S'\<close>.\<close>

definition pass_over :: "('w, 'k) site \<Rightarrow> ('w, 'k, 's) engine \<Rightarrow> ('w, 'k, 's) driver \<Rightarrow> 's object \<Rightarrow> Store \<Rightarrow> Store \<Rightarrow> bool" where
  "pass_over P E drv obj S S' \<longleftrightarrow>
     (\<exists>st w. live E drv obj st (si_kc P) w \<and> si_ready P w \<and> si_data P w = S \<and>
        si_data P (net (snd (snd (Reconcile E drv obj st)))) = S')"

fun passes_item :: "('w, 'k) site \<Rightarrow> item \<Rightarrow> Store \<Rightarrow> Store \<Rightarrow> bool" where
  "passes_item P (RealmItem obj) = pass_over P (si_realms P) (RealmDriver (si_order P)) obj"
| "passes_item P (ScopeItem obj) = pass_over P (si_scopes P) ClientScopeDriver obj"
| "passes_item P (ClientItem obj) = pass_over P (si_clients P) (ClientDriver (si_order P)) obj"

text \<open>Every such pass asks for the next resync, announces nothing, counts no drift and is Ready.\<close>

definition silent_over :: "('w, 'k) site \<Rightarrow> ('w, 'k, 's) engine \<Rightarrow> ('w, 'k, 's) driver \<Rightarrow> 's object \<Rightarrow> Store \<Rightarrow> bool" where
  "silent_over P E drv obj S \<longleftrightarrow>
     (\<forall>st w. live E drv obj st (si_kc P) w \<longrightarrow> si_ready P w \<longrightarrow> si_data P w = S \<longrightarrow>
        (case Reconcile E drv obj st of (res, obj', st') \<Rightarrow>
           res = RequeueAfter (e_resync E) \<and> events st' = events st \<and>
           has_cond E obj' ConditionReady ConditionTrue ReasonSucceeded (Lit ''Server state matches spec'') \<and>
           emitted st' = emitted st @ [ReconciliationsTotal (obj_kind obj) OutcomeSuccess]))"

fun silent_item :: "('w, 'k) site \<Rightarrow> item \<Rightarrow> Store \<Rightarrow> bool" where
  "silent_item P (RealmItem obj) = silent_over P (si_realms P) (RealmDriver (si_order P)) obj"
| "silent_item P (ScopeItem obj) = silent_over P (si_scopes P) ClientScopeDriver obj"
| "silent_item P (ClientItem obj) = silent_over P (si_clients P) (ClientDriver (si_order P)) obj"

text \<open>The server holds the resource with every field of the spec and the marker, and the scope
  assignments of a client are the listed ones.\<close>

definition carried :: "('w, 'k, 's) engine \<Rightarrow> ('w, 'k, 's) driver \<Rightarrow> 's object \<Rightarrow> json gomap option \<Rightarrow> bool" where
  "carried E drv obj remote \<longleftrightarrow>
     (\<exists>rep. remote = Some rep \<and> \<not> PayloadDiffers rep (d_ManagedMarker drv (spec_map drv obj)))"

fun seen_item :: "('w, 'k) site \<Rightarrow> item \<Rightarrow> Store \<Rightarrow> json gomap option" where
  "seen_item P (RealmItem obj) S = realm_at obj S"
| "seen_item P (ScopeItem obj) S = scope_at (si_server_order P) obj S"
| "seen_item P (ClientItem obj) S = client_found (si_server_order P) obj S"

fun settled_item :: "('w, 'k) site \<Rightarrow> item \<Rightarrow> Store \<Rightarrow> bool" where
  "settled_item P (ClientItem obj) S = client_settled (si_server_order P) obj S"
| "settled_item P it S = True"

fun carried_item :: "('w, 'k) site \<Rightarrow> item \<Rightarrow> json gomap option \<Rightarrow> bool" where
  "carried_item P (RealmItem obj) = carried (si_realms P) (RealmDriver (si_order P)) obj"
| "carried_item P (ScopeItem obj) = carried (si_scopes P) ClientScopeDriver obj"
| "carried_item P (ClientItem obj) = carried (si_clients P) (ClientDriver (si_order P)) obj"

definition matches_item :: "('w, 'k) site \<Rightarrow> item \<Rightarrow> Store \<Rightarrow> bool" where
  "matches_item P it S \<longleftrightarrow> carried_item P it (seen_item P it S) \<and> settled_item P it S"

text \<open>The same resource after the operator recorded its spec.\<close>

definition recorded_as :: "('w, 'k, 's) engine \<Rightarrow> ('w, 'k, 's) driver \<Rightarrow> 's object \<Rightarrow> 's object \<Rightarrow> bool" where
  "recorded_as E drv obj obj2 \<longleftrightarrow>
     obj_spec obj2 = obj_spec obj \<and> recorded_spec obj2 = Some (Marshal (JObj (spec_map drv obj)))"

fun recorded_item :: "('w, 'k) site \<Rightarrow> item \<Rightarrow> item \<Rightarrow> bool" where
  "recorded_item P (RealmItem obj) (RealmItem obj2) = recorded_as (si_realms P) (RealmDriver (si_order P)) obj obj2"
| "recorded_item P (ScopeItem obj) (ScopeItem obj2) = recorded_as (si_scopes P) ClientScopeDriver obj obj2"
| "recorded_item P (ClientItem obj) (ClientItem obj2) = recorded_as (si_clients P) (ClientDriver (si_order P)) obj obj2"
| "recorded_item P it it2 = False"

text \<open>A round over the resources in the given order, and the passes after it.\<close>

inductive one_round :: "('w, 'k) site \<Rightarrow> item list \<Rightarrow> Store \<Rightarrow> Store \<Rightarrow> bool" for P where
  none: "one_round P [] S S"
| pass: "passes_item P it S S' \<Longrightarrow> one_round P its S' S'' \<Longrightarrow> one_round P (it # its) S S''"

inductive later :: "('w, 'k) site \<Rightarrow> item list \<Rightarrow> Store \<Rightarrow> Store \<Rightarrow> bool" for P its where
  here: "later P its S S"
| pass: "later P its S S' \<Longrightarrow> it \<in> set its \<Longrightarrow> recorded_item P it it2 \<Longrightarrow> passes_item P it2 S' S'' \<Longrightarrow> later P its S S''"

section \<open>Deployments\<close>

text \<open>The policy lets the operator write the resource, as far as the server holds it.\<close>

definition writable :: "('w, 'k, 's) engine \<Rightarrow> ('w, 'k, 's) driver \<Rightarrow> 's object \<Rightarrow> json gomap option \<Rightarrow> bool" where
  "writable E drv obj remote \<longleftrightarrow>
     operator_written drv obj \<and> sv_Adoption (d_Spec drv obj) \<noteq> AdoptionFailIfExists \<and>
     (\<forall>rep. remote = Some rep \<longrightarrow> \<not> refused drv obj rep)"

fun writable_item :: "('w, 'k) site \<Rightarrow> item \<Rightarrow> json gomap option \<Rightarrow> bool" where
  "writable_item P (RealmItem obj) = writable (si_realms P) (RealmDriver (si_order P)) obj"
| "writable_item P (ScopeItem obj) = writable (si_scopes P) ClientScopeDriver obj"
| "writable_item P (ClientItem obj) = writable (si_clients P) (ClientDriver (si_order P)) obj"

text \<open>What the operator identifies a resource by on the server: its kind, realm and name.\<close>

fun item_key :: "item \<Rightarrow> nat \<times> string \<times> string" where
  "item_key (RealmItem obj) = (0, spec_realm (obj_spec obj), [])"
| "item_key (ScopeItem obj) = (1, spec_realm (obj_spec obj), scope_name (obj_spec obj))"
| "item_key (ClientItem obj) = (2, spec_realm (obj_spec obj), clientId (obj_spec obj))"

text \<open>Names without slashes, no Secret references, and nothing that is not in the deployment
  itself is referred to.\<close>

fun item_ok :: "item \<Rightarrow> bool" where
  "item_ok (RealmItem obj) \<longleftrightarrow> plain_name (spec_realm (obj_spec obj)) \<and> smtpServerSecretRef (obj_spec obj) = None"
| "item_ok (ScopeItem obj) \<longleftrightarrow> plain_name (spec_realm (obj_spec obj)) \<and> CHR ''/'' \<notin> set (scope_name (obj_spec obj))"
| "item_ok (ClientItem obj) \<longleftrightarrow> plain_name (spec_realm (obj_spec obj)) \<and> clientId (obj_spec obj) \<noteq> [] \<and>
     CHR ''/'' \<notin> set (clientId (obj_spec obj)) \<and> secretRef (obj_spec obj) = None \<and> secretOutput (obj_spec obj) = None"

fun requires :: "item \<Rightarrow> (nat \<times> string \<times> string) set" where
  "requires (RealmItem obj) = {}"
| "requires (ScopeItem obj) = {(0, spec_realm (obj_spec obj), [])}"
| "requires (ClientItem obj) = insert (0, spec_realm (obj_spec obj), [])
     {(1, spec_realm (obj_spec obj), n) | n optional names. wanted optional (obj_spec obj) = Some names \<and> n \<in> set names}"

text \<open>Every resource comes after what it refers to and after the kinds below it.\<close>

fun ordered :: "item list \<Rightarrow> item list \<Rightarrow> bool" where
  "ordered prev [] \<longleftrightarrow> True"
| "ordered prev (it # its) \<longleftrightarrow>
     item_ok it \<and> item_key it \<notin> item_key ` set prev \<and> requires it \<subseteq> item_key ` set prev \<and>
     (\<forall>b \<in> set prev. fst (item_key b) \<le> fst (item_key it)) \<and> ordered (prev @ [it]) its"

definition deployable :: "('w, 'k) site \<Rightarrow> item list \<Rightarrow> Store \<Rightarrow> bool" where
  "deployable P its S \<longleftrightarrow> store_good S \<and> ordered [] its \<and> (\<forall>it \<in> set its. writable_item P it (seen_item P it S))"

definition site_ok :: "('w, 'k) site \<Rightarrow> bool" where
  "site_ok P \<longleftrightarrow>
     (\<exists>render. served (si_server_order P) render (si_kc P) (si_data P) (si_ready P)) \<and>
     order_ok (si_server_order P) \<and> order_ok (si_order P) \<and>
     well_behaved (si_realms P) \<and> well_behaved (si_scopes P) \<and> well_behaved (si_clients P)"

section \<open>What the other resources see of a pass\<close>

fun item_frame :: "item \<Rightarrow> Store \<Rightarrow> Store \<Rightarrow> bool" where
  "item_frame (RealmItem obj) S S' = realm_frame (spec_realm (obj_spec obj)) S S'"
| "item_frame (ScopeItem obj) S S' = scope_frame (spec_realm (obj_spec obj)) (scope_name (obj_spec obj)) S S'"
| "item_frame (ClientItem obj) S S' = client_frames (spec_realm (obj_spec obj)) (clientId (obj_spec obj)) S S'"

lemma scope_named_entry: "scope_named m i n \<longleftrightarrow> (\<exists>x. entry ''name'' m i n x)"
  by (auto simp: scope_named_def entry_def)

lemma same_scopes_named: "same_scopes S S' \<Longrightarrow> scope_named (mget (st_scopes S') r) = scope_named (mget (st_scopes S) r)"
  by (simp add: same_scopes_def scope_named_entry fun_eq_iff)

lemma scope_at_cong:
  assumes "order_ok rng" and "store_good S" and "store_good S'"
    and "\<And>i x. entry ''name'' (mget (st_scopes S') (spec_realm (obj_spec obj))) i (scope_name (obj_spec obj)) x =
      entry ''name'' (mget (st_scopes S) (spec_realm (obj_spec obj))) i (scope_name (obj_spec obj)) x"
  shows "scope_at rng obj S' = scope_at rng obj S"
  unfolding scope_at_def using assms by (intro coll_look_cong) (auto simp: store_good_def)

lemma client_found_cong:
  assumes "order_ok rng" and "store_good S" and "store_good S'"
    and "\<And>i x. entry ''clientId'' (mget (st_clients S') (spec_realm (obj_spec obj))) i (clientId (obj_spec obj)) x =
      entry ''clientId'' (mget (st_clients S) (spec_realm (obj_spec obj))) i (clientId (obj_spec obj)) x"
  shows "client_found rng obj S' = client_found rng obj S"
  unfolding client_found_def using assms by (intro coll_look_cong) (auto simp: store_good_def)

lemma seen_framed:
  assumes "order_ok (si_server_order P)" and "store_good S" and "store_good S'"
    and "item_frame it S S'" and "item_key it' \<noteq> item_key it"
  shows "seen_item P it' S' = seen_item P it' S"
proof -
  have realm: "realm_at obj S' = realm_at obj S" if "it' = RealmItem obj" for obj
    using assms(4,5) that by (cases it) (auto simp: realm_at_def realm_frame_def scope_frame_def client_frames_def)
  have scope: "scope_at (si_server_order P) obj S' = scope_at (si_server_order P) obj S" if "it' = ScopeItem obj" for obj
    using assms(4,5) that
    by (cases it; intro scope_at_cong assms(1-3))
      (auto simp: realm_frame_def scope_frame_def client_frames_def same_scopes_def entries_frame_def)
  have client: "client_found (si_server_order P) obj S' = client_found (si_server_order P) obj S" if "it' = ClientItem obj" for obj
    using assms(4,5) that
    by (cases it; intro client_found_cong assms(1-3))
      (auto simp: realm_frame_def scope_frame_def client_frames_def entries_frame_def)
  from realm scope client show ?thesis by (cases it') simp_all
qed

lemma client_key_entry:
  assumes "order_ok rng" and "store_good S" and "client_found rng obj S = Some rep"
  shows "entry ''clientId'' (mget (st_clients S) (spec_realm (obj_spec obj))) (client_key rep) (clientId (obj_spec obj)) rep"
proof -
  have "coll_good ''clientId'' ''client-'' (mget (st_clients S) (spec_realm (obj_spec obj)))" using assms(2) by (simp add: store_good_def)
  from coll_look_entry [OF assms(1) this] assms(3) show ?thesis
    by (auto simp: client_found_def entry_def client_key_def clone_lookup str_or_empty_def)
qed

lemma settled_framed:
  assumes "order_ok (si_server_order P)" and "store_good S" and "store_good S'"
    and "item_frame it S S'" and "item_key it' \<noteq> item_key it" and "fst (item_key it') \<le> fst (item_key it)" and "matches_item P it' S"
  shows "matches_item P it' S'"
proof (cases it')
  case (ClientItem obj)
  let ?r = "spec_realm (obj_spec obj)" and ?rng = "si_server_order P"
  from assms(6) ClientItem obtain obj2 where it: "it = ClientItem obj2" by (cases it) auto
  with assms(4) have frame: "client_frames (spec_realm (obj_spec obj2)) (clientId (obj_spec obj2)) S S'" by simp
  have seen: "client_found ?rng obj S' = client_found ?rng obj S" using seen_framed [OF assms(1-5)] ClientItem by simp
  have "assigned_ids optional ?r (client_key rep) S' = assigned_ids optional ?r (client_key rep) S"
    if "client_found ?rng obj S = Some rep" for rep optional
  proof (rule ccontr)
    assume "\<not> ?thesis"
    with frame obtain x where "?r = spec_realm (obj_spec obj2)"
      "entry ''clientId'' (mget (st_clients S') (spec_realm (obj_spec obj2))) (client_key rep) (clientId (obj_spec obj2)) x"
      unfolding client_frames_def assigned_frame_def by blast
    moreover have "entry ''clientId'' (mget (st_clients S') ?r) (client_key rep) (clientId (obj_spec obj)) rep"
      using client_key_entry [OF assms(1,3)] seen that by simp
    ultimately show False using assms(5) ClientItem it by (auto simp: entry_def)
  qed
  moreover have "scope_named (mget (st_scopes S') ?r) = scope_named (mget (st_scopes S) ?r)"
    using frame same_scopes_named by (simp add: client_frames_def)
  ultimately show ?thesis
    using assms(7) seen unfolding ClientItem matches_item_def
    by (fastforce simp: client_settled_def Let_def assigned_names_def)
qed (use assms(7) seen_framed [OF assms(1-5)] in \<open>simp_all add: matches_item_def\<close>)

lemma matches_still:
  assumes "order_ok (si_server_order P)" and "store_good S" and "still S S'" and "matches_item P it S"
  shows "matches_item P it S'"
proof -
  have good: "store_good S'" using assms(2,3) still_good by blast
  have seen: "seen_item P it S' = seen_item P it S"
    using assms(3) by (cases it) (auto simp: still_def same_scopes_def realm_at_def intro!: scope_at_cong client_found_cong assms(1,2) good)
  have "settled_item P it S' = settled_item P it S"
  proof (cases it)
    case (ClientItem obj)
    have "assigned_ids optional r j S' = assigned_ids optional r j S" for optional r j
      using assms(3) by (simp add: still_def assigned_ids_def)
    moreover have "scope_named (mget (st_scopes S') r) = scope_named (mget (st_scopes S) r)" for r
      using assms(3) same_scopes_named by (simp add: still_def)
    ultimately show ?thesis using seen ClientItem by (simp add: client_settled_def assigned_names_def)
  qed simp_all
  with seen assms(4) show ?thesis by (simp add: matches_item_def)
qed

section \<open>The first round\<close>

fun present :: "Store \<Rightarrow> nat \<times> string \<times> string \<Rightarrow> bool" where
  "present S (k, r, n) \<longleftrightarrow>
     (if k = 0 then map_of (st_realms S) r \<noteq> None else \<exists>i. scope_named (mget (st_scopes S) r) i n)"

lemma matches_present:
  assumes "order_ok (si_server_order P)" and "store_good S" and "matches_item P it S" and "fst (item_key it) < 2"
  shows "present S (item_key it)"
proof (cases it)
  case (ScopeItem obj)
  have "coll_good ''name'' ''scope-'' (mget (st_scopes S) (spec_realm (obj_spec obj)))" using assms(2) by (simp add: store_good_def)
  from coll_look_entry [OF assms(1) this] assms(3) ScopeItem show ?thesis
    by (auto simp: matches_item_def carried_def scope_at_def scope_named_entry)
qed (use assms(3,4) in \<open>auto simp: matches_item_def carried_def realm_at_def\<close>)

text \<open>What each kind needs before its pass follows from what comes before it.\<close>

lemma good_names_unique: "coll_good ''name'' pfx m \<Longrightarrow> names_unique m"
  unfolding names_unique_def scope_named_entry using coll_goodD(3) by blast

lemma client_ready:
  assumes "store_good S" and "item_ok (ClientItem obj)" and "\<forall>k \<in> requires (ClientItem obj). present S k"
  shows "client_pre obj S"
proof -
  have "\<exists>i. scope_named (mget (st_scopes S) (spec_realm (obj_spec obj))) i n"
    if "wanted optional (obj_spec obj) = Some names" "n \<in> set names" for optional names n
    using assms(3) that by fastforce
  with assms show ?thesis
    by (auto simp: client_pre_def Let_def store_good_def dest: coll_goodD(1) good_names_unique)
qed

lemma first_pass:
  assumes "site_ok P" and "store_good S" and "item_ok it" and "\<forall>k \<in> requires it. present S k"
    and "writable_item P it (seen_item P it S)" and "passes_item P it S S'"
  shows "matches_item P it S' \<and> store_good S' \<and> item_frame it S S'"
proof -
  from assms(1) obtain render where srv: "served (si_server_order P) render (si_kc P) (si_data P) (si_ready P)"
    and ord: "order_ok (si_server_order P)" "order_ok (si_order P)" by (auto simp: site_ok_def)
  show ?thesis
  proof (cases it)
    case (RealmItem obj)
    with assms(6) obtain st w where run: "live (si_realms P) (RealmDriver (si_order P)) obj st (si_kc P) w" "si_ready P w"
      "si_data P w = S" "S' = si_data P (net (snd (snd (Reconcile (si_realms P) (RealmDriver (si_order P)) obj st))))"
      by (auto simp: pass_over_def)
    from stored_driver.pass_matches [OF served.realms_framed [OF srv, of "si_order P" S] run(1,2)] assms(2,3,5) run(3,4) RealmItem
    show ?thesis by (auto simp: split_beta writable_def matches_item_def carried_def)
  next
    case (ScopeItem obj)
    with assms(6) obtain st w where run: "live (si_scopes P) ClientScopeDriver obj st (si_kc P) w" "si_ready P w"
      "si_data P w = S" "S' = si_data P (net (snd (snd (Reconcile (si_scopes P) ClientScopeDriver obj st))))"
      by (auto simp: pass_over_def)
    have "coll_ok (mget (st_scopes S) r)" for r using assms(2) coll_goodD(1) by (auto simp: store_good_def)
    with stored_driver.pass_matches [OF served.scopes_framed [OF srv, of S] run(1,2)] assms(2-5) run(3,4) ScopeItem ord
    show ?thesis by (auto simp: split_beta writable_def matches_item_def carried_def)
  next
    case (ClientItem obj)
    with assms(6) obtain st w where run: "live (si_clients P) (ClientDriver (si_order P)) obj st (si_kc P) w" "si_ready P w"
      "si_data P w = S" "S' = si_data P (net (snd (snd (Reconcile (si_clients P) (ClientDriver (si_order P)) obj st))))"
      by (auto simp: pass_over_def)
    have "client_pre obj S" using client_ready assms(2-4) ClientItem by blast
    with stored_driver.pass_matches [OF served.clients_framed [OF srv, of "si_order P" S] run(1,2)] assms(2,5) run(3,4) ClientItem ord
    show ?thesis by (auto simp: split_beta writable_def matches_item_def carried_def)
  qed
qed

lemma ordered_keys: "ordered prev its \<Longrightarrow> it \<in> set its \<Longrightarrow> item_key it \<notin> item_key ` set prev"
  by (induction prev its rule: ordered.induct) auto

lemma requires_kinds: "k \<in> requires it \<Longrightarrow> fst k < 2"
  by (cases it) auto

lemma required_present:
  assumes "site_ok P" and "store_good S" and "\<forall>it \<in> set prev. matches_item P it S" and "requires it \<subseteq> item_key ` set prev"
  shows "\<forall>k \<in> requires it. present S k"
proof
  fix k assume k: "k \<in> requires it"
  with assms(4) obtain b where "b \<in> set prev" "item_key b = k" by blast
  with matches_present [of P S b] requires_kinds [OF k] assms(1-3) show "present S k" by (auto simp: site_ok_def)
qed

lemma round_matches:
  assumes "one_round P its S S'" and "site_ok P" and "ordered prev its" and "store_good S"
    and "\<forall>it \<in> set prev. matches_item P it S" and "\<forall>it \<in> set its. writable_item P it (seen_item P it S)"
  shows "store_good S' \<and> (\<forall>it \<in> set (prev @ its). matches_item P it S')"
  using assms
proof (induction arbitrary: prev rule: one_round.induct)
  case (pass it S S' its S'')
  note ord = pass.prems(2) [unfolded ordered.simps]
  have rng: "order_ok (si_server_order P)" using pass.prems(1) by (simp add: site_ok_def)
  have "\<forall>k \<in> requires it. present S k" using required_present [OF pass.prems(1,3,4)] ord by blast
  with first_pass [OF pass.prems(1,3) _ _ _ pass.hyps(1)] ord pass.prems(5)
  have S': "matches_item P it S'" "store_good S'" "item_frame it S S'" by simp_all
  have "matches_item P b S'" if "b \<in> set prev" for b
  proof -
    have "item_key b \<noteq> item_key it" using that ord by (metis imageI)
    with settled_framed [OF rng pass.prems(3) S'(2,3)] that ord pass.prems(4) show ?thesis by blast
  qed
  moreover have "writable_item P b (seen_item P b S')" if "b \<in> set its" for b
    using seen_framed [OF rng pass.prems(3) S'(2,3), of b] ordered_keys [of "prev @ [it]" its b] that ord pass.prems(5) by simp
  ultimately show ?case
    using pass.IH [of "prev @ [it]"] ord S'(1,2) pass.prems(1) by auto
qed simp

section \<open>After the round\<close>

lemma quiet_over:
  fixes drv :: "('w, 'k, 's) driver" and P :: "('w, 'k) site"
  assumes "stored_driver drv (si_kc P) (si_data P) (si_ready P) pre look ident settled fits" and "well_behaved E" and "pre obj2 S"
    and "recorded_as E drv obj obj2" and "d_Spec drv obj2 = d_Spec drv obj" and "carried E drv obj (look obj2 S)"
    and "writable E drv obj remote" and "settled obj2 S"
    and reads: "\<And>w w1 w2 rep K k y. \<lbrakk>si_ready P w; si_data P w = S; look obj2 S = Some rep;
        d_Get drv (si_kc P) obj2 w = (Inr rep, w1); d_PostApply drv (si_kc P) K obj2 rep k w1 = (y, w2)\<rbrakk> \<Longrightarrow> still S (si_data P w2)"
  shows "silent_over P E drv obj2 S \<and> (pass_over P E drv obj2 S S' \<longrightarrow> still S S')"
proof -
  have spec: "spec_map drv obj2 = spec_map drv obj" using assms(5) by (simp add: spec_map_def)
  from assms(6) obtain rep where rep: "look obj2 S = Some rep" "\<not> PayloadDiffers rep (d_ManagedMarker drv (spec_map drv obj))"
    by (auto simp: carried_def)
  have quiet: "case Reconcile E drv obj2 st of (res, obj', st') \<Rightarrow>
      res = RequeueAfter (e_resync E) \<and> events st' = events st \<and>
      has_cond E obj' ConditionReady ConditionTrue ReasonSucceeded (Lit ''Server state matches spec'') \<and>
      emitted st' = emitted st @ [ReconciliationsTotal (obj_kind obj2) OutcomeSuccess] \<and> still S (si_data P (net st'))"
    if w: "live E drv obj2 st (si_kc P) w" "si_ready P w" "si_data P w = S" for st w
    using stored_driver.next_pass_quiet [OF assms(1,2) w(1,2), of rep] assms(3-5,7,8) w(3) rep reads [OF w(2,3) rep(1)]
    by (auto simp: split_beta spec recorded_as_def writable_def)
  then have "silent_over P E drv obj2 S" by (fastforce simp: silent_over_def split_beta)
  moreover have "still S S'" if "pass_over P E drv obj2 S S'"
    using that quiet by (fastforce simp: pass_over_def split_beta)
  ultimately show ?thesis by blast
qed

lemma later_pass:
  assumes "site_ok P" and "store_good S" and "item_ok it" and "\<forall>k \<in> requires it. present S k" and "matches_item P it S"
    and "writable_item P it remote" and "recorded_item P it it2"
  shows "silent_item P it2 S \<and> (passes_item P it2 S S' \<longrightarrow> still S S')"
proof -
  from assms(1) obtain render where srv: "served (si_server_order P) render (si_kc P) (si_data P) (si_ready P)"
    and ord: "order_ok (si_server_order P)" "order_ok (si_order P)"
    and E: "well_behaved (si_realms P)" "well_behaved (si_scopes P)" "well_behaved (si_clients P)" by (auto simp: site_ok_def)
  have coll: "coll_ok (mget (st_scopes S) r)" for r using assms(2) coll_goodD(1) by (auto simp: store_good_def)
  show ?thesis
  proof (cases it)
    case (RealmItem obj)
    with assms(7) obtain obj2 where it2: "it2 = RealmItem obj2" "obj_spec obj2 = obj_spec obj"
      "recorded_as (si_realms P) (RealmDriver (si_order P)) obj obj2" by (cases it2) (auto simp: recorded_as_def)
    let ?drv = "RealmDriver (si_order P)"
    have spec: "d_Spec ?drv obj2 = d_Spec ?drv obj" using it2(2) by (simp add: RealmDriver_def RealmDriver_Spec_def Let_def)
    have reads: "still S (si_data P w2)" if "si_ready P w" "si_data P w = S" "d_Get ?drv (si_kc P) obj2 w = (x, w1)"
        "d_PostApply ?drv (si_kc P) K obj2 rep k w1 = (y, w2)" for w w1 w2 x y rep K k
      using served.realm_reads_still [OF srv that(1) _ that(3,4)] that(2) assms(3) RealmItem it2(2) by simp
    have "silent_over P (si_realms P) ?drv obj2 S \<and> (pass_over P (si_realms P) ?drv obj2 S S' \<longrightarrow> still S S')"
      by (rule quiet_over [OF served.realms_framed [OF srv, of "si_order P" S] E(1) _ it2(3) spec _ _ _ reads])
        (use assms(2,3,5,6) RealmItem it2(2) in \<open>auto simp: matches_item_def realm_at_def\<close>)
    then show ?thesis using it2(1) by simp
  next
    case (ScopeItem obj)
    with assms(7) obtain obj2 where it2: "it2 = ScopeItem obj2" "obj_spec obj2 = obj_spec obj"
      "recorded_as (si_scopes P) ClientScopeDriver obj obj2" by (cases it2) (auto simp: recorded_as_def)
    let ?drv = "ClientScopeDriver"
    have spec: "d_Spec ?drv obj2 = d_Spec ?drv obj" using it2(2) by (simp add: ClientScopeDriver_def ClientScopeDriver_Spec_def Let_def)
    have reads: "still S (si_data P w2)" if "si_ready P w" "si_data P w = S" "d_Get ?drv (si_kc P) obj2 w = (x, w1)"
        "d_PostApply ?drv (si_kc P) K obj2 rep k w1 = (y, w2)" for w w1 w2 x y rep K k
      using served.scope_reads_still [OF srv that(1) _ _ _ that(3,4)] that(2) assms(3,4) coll ScopeItem it2(2) by simp
    have "silent_over P (si_scopes P) ?drv obj2 S \<and> (pass_over P (si_scopes P) ?drv obj2 S S' \<longrightarrow> still S S')"
      by (rule quiet_over [OF served.scopes_framed [OF srv, of S] E(2) _ it2(3) spec _ _ _ reads])
        (use assms(2-6) ScopeItem it2(2) ord coll in \<open>auto simp: matches_item_def scope_at_def\<close>)
    then show ?thesis using it2(1) by simp
  next
    case (ClientItem obj)
    with assms(7) obtain obj2 where it2: "it2 = ClientItem obj2" "obj_spec obj2 = obj_spec obj"
      "recorded_as (si_clients P) (ClientDriver (si_order P)) obj obj2" by (cases it2) (auto simp: recorded_as_def)
    have pre: "client_pre obj2 S" using client_ready [of S obj] assms(2-4) ClientItem it2(2) by (simp add: client_pre_def)
    have settled: "client_settled (si_server_order P) obj2 S"
      using assms(5) ClientItem it2(2) by (simp add: matches_item_def client_settled_def client_found_def)
    let ?drv = "ClientDriver (si_order P)"
    have spec: "d_Spec ?drv obj2 = d_Spec ?drv obj" using it2(2) by (simp add: ClientDriver_def ClientDriver_Spec_def Let_def)
    have reads: "still S (si_data P w2)" if "si_ready P w" "si_data P w = S" "client_found (si_server_order P) obj2 S = Some rep"
        "d_Get ?drv (si_kc P) obj2 w = (Inr rep, w1)" "d_PostApply ?drv (si_kc P) K obj2 rep k w1 = (y, w2)" for w w1 w2 y rep K k
      using served.client_reads_still [OF srv that(1) ord _ _ _ that(4,5)] that(2,3) pre settled by simp
    have "silent_over P (si_clients P) ?drv obj2 S \<and> (pass_over P (si_clients P) ?drv obj2 S S' \<longrightarrow> still S S')"
      by (rule quiet_over [OF served.clients_framed [OF srv, of "si_order P" S] E(3) _ it2(3) spec _ _ _ reads])
        (use assms(2,5,6) ClientItem it2(2) ord pre settled in \<open>auto simp: matches_item_def client_found_def\<close>)
    then show ?thesis using it2(1) by simp
  qed
qed

lemma ordered_items: "ordered prev its \<Longrightarrow> it \<in> set its \<Longrightarrow> item_ok it \<and> requires it \<subseteq> item_key ` set (prev @ its)"
  by (induction prev its rule: ordered.induct) auto

lemma later_matches:
  assumes "later P its S S'" and "site_ok P" and "ordered [] its" and "store_good S" and "\<forall>it \<in> set its. matches_item P it S"
    and "\<forall>it \<in> set its. writable_item P it (seen it)"
  shows "store_good S' \<and> (\<forall>it \<in> set its. matches_item P it S')"
  using assms(1,4,5)
proof (induction rule: later.induct)
  case (pass S S' it it2 S'')
  have it: "item_ok it" "requires it \<subseteq> item_key ` set its" using ordered_items [OF assms(3) pass.hyps(2)] by simp_all
  have "\<forall>k \<in> requires it. present S' k" using required_present [OF assms(2) _ _ it(2)] pass by blast
  with later_pass [OF assms(2) _ it(1)] pass assms(6) have "still S' S''" by blast
  with matches_still still_good pass assms(2) show ?case unfolding site_ok_def by blast
qed simp

text \<open>The operator with a client of the provider on the in-memory Admin API.\<close>

definition operator_site :: "order \<Rightarrow> order \<Rightarrow> (json \<Rightarrow> string) \<Rightarrow> string \<Rightarrow> (nat \<Rightarrow> int) \<Rightarrow> nat \<Rightarrow>
    ((Server \<times> nat) netw, 'k, RealmSpec) engine \<Rightarrow> ((Server \<times> nat) netw, 'k, ClientScopeSpec) engine \<Rightarrow>
    ((Server \<times> nat) netw, 'k, ClientSpec) engine \<Rightarrow> ((Server \<times> nat) netw, 'k) site" where
  "operator_site rng rng' render base now i E1 E2 E3 =
     \<lparr>si_kc = client_at (fake_http rng render base now) i, si_data = net_data, si_ready = net_ok base i,
      si_server_order = rng, si_order = rng', si_realms = E1, si_scopes = E2, si_clients = E3\<rparr>"

lemma operator_site_ok:
  assumes "well_behaved E1" and "well_behaved E2" and "well_behaved E3" and "order_ok rng" and "order_ok rng'"
  shows "site_ok (operator_site rng rng' render base now i E1 E2 E3)"
  using assms wired.served_axioms [of rng render base now i] by (auto simp: site_ok_def operator_site_def)

section \<open>Convergence of a deployment\<close>

text \<open>
  C2: Deployments converge as a whole. Realms, client scopes and clients are reconciled against
  the in-memory Admin API, each after the realm and the scopes it refers to; none of them is
  refused on the data the round starts from. After one round the server holds every one of
  them with its spec and marker, and the scope assignments of every client are the listed
  ones: no pass undoes what an earlier one did. From then on passes over any of them, in any
  order and any number of times, leave all of them in that state, and each is silent: it asks
  for the next resync, records no event, counts no drift correction and reports Ready.
\<close>
theorem deployment_converges:
  fixes E1 :: "((Server \<times> nat) netw, 'k, RealmSpec) engine" and rng rng' render base now i E2 E3
  defines "P \<equiv> operator_site rng rng' render base now i E1 E2 E3"
  assumes "well_behaved E1" and "well_behaved E2" and "well_behaved E3" and "order_ok rng" and "order_ok rng'"
    and "deployable P its S0" and "one_round P its S0 S1"
  shows "(\<forall>it \<in> set its. matches_item P it S1) \<and>
    (\<forall>S2. later P its S1 S2 \<longrightarrow>
       (\<forall>it \<in> set its. matches_item P it S2 \<and> (\<forall>it2. recorded_item P it it2 \<longrightarrow> silent_item P it2 S2)))"
proof -
  have site: "site_ok P" using operator_site_ok assms(2-6) by (simp add: P_def)
  have dep: "store_good S0" "ordered [] its" "\<forall>it \<in> set its. writable_item P it (seen_item P it S0)"
    using assms(7) by (simp_all add: deployable_def)
  from round_matches [OF assms(8) site dep(2,1)] dep(3) have S1: "store_good S1" "\<forall>it \<in> set its. matches_item P it S1" by simp_all
  have "matches_item P it S2 \<and> (\<forall>it2. recorded_item P it it2 \<longrightarrow> silent_item P it2 S2)"
    if later: "later P its S1 S2" and it: "it \<in> set its" for S2 it
  proof -
    from later_matches [OF later site dep(2) S1 dep(3)] have S2: "store_good S2" "\<forall>it \<in> set its. matches_item P it S2" by simp_all
    have ok: "item_ok it" "requires it \<subseteq> item_key ` set its" using ordered_items [OF dep(2) it] by simp_all
    from later_pass [OF site S2(1) ok(1) required_present [OF site S2 ok(2)]] S2(2) dep(3) it show ?thesis by blast
  qed
  with S1(2) show ?thesis by blast
qed

section \<open>A concrete deployment\<close>

definition demo_site_engine :: "((Server \<times> nat) netw, unit, 's) engine" where
  "demo_site_engine = NewEngine plain_kube (provider_For demo_wire demo_lookup) True 0"

definition demo_site :: "((Server \<times> nat) netw, unit) site" where
  "demo_site = operator_site same_order same_order (\<lambda>j. []) ''https://kc'' (\<lambda>n. 0) 0
     demo_site_engine demo_site_engine demo_site_engine"

definition demo_realm_object :: "RealmSpec object" where
  "demo_realm_object = demo_object ''Realm'' (demo_realm ''new'')"

definition demo_scope_object :: "ClientScopeSpec object" where
  "demo_scope_object = demo_object ''ClientScope'' (demo_scope\<lparr>spec_realm := ''new''\<rparr>)"

definition demo_client_object :: "ClientSpec object" where
  "demo_client_object = demo_object ''Client''
     (demo_scoped_client\<lparr>spec_realm := ''new'', defaultClientScopes := Some [''profile'']\<rparr>)"

definition demo_items :: "item list" where
  "demo_items = [RealmItem demo_realm_object, ScopeItem demo_scope_object, ClientItem demo_client_object]"

text \<open>The connected operator in front of a server with the given data.\<close>

definition demo_facing :: "Store \<Rightarrow> ((Server \<times> nat) netw, unit) eng" where
  "demo_facing S =
     \<lparr>net = demo_connected\<lparr>nw_wire := ((fst demo_server)\<lparr>s_store := S\<rparr>, 0)\<rparr>, cluster = (), events = [], emitted = []\<rparr>"

lemma demo_facing_ok:
  "net_ok ''https://kc'' 0 (net (demo_facing S))" "net_data (net (demo_facing S)) = S"
  "provider_For demo_wire demo_lookup k ''ns'' ''kc'' (net (demo_facing S)) = (Inr (client_at demo_wire 0), net (demo_facing S))"
proof -
  show "net_ok ''https://kc'' 0 (net (demo_facing S))"
    using demo_net_ok by (simp add: net_ok_def logged_in_def demo_facing_def demo_connected_def)
  show "net_data (net (demo_facing S)) = S" by (simp add: net_data_def demo_facing_def)
  have "For demo_lookup k ''ns'' ''kc'' (nw_provider demo_connected) = (Inr 0, nw_provider demo_connected)" by code_simp
  then show "provider_For demo_wire demo_lookup k ''ns'' ''kc'' (net (demo_facing S)) = (Inr (client_at demo_wire 0), net (demo_facing S))"
    by (simp add: provider_For_def demo_facing_def)
qed

lemma demo_live:
  "live demo_site_engine (RealmDriver same_order) demo_realm_object (demo_facing S) (client_at demo_wire 0) (net (demo_facing S))"
  "live demo_site_engine ClientScopeDriver demo_scope_object (demo_facing S) (client_at demo_wire 0) (net (demo_facing S))"
  "live demo_site_engine (ClientDriver same_order) demo_client_object (demo_facing S) (client_at demo_wire 0) (net (demo_facing S))"
  using demo_facing_ok(3)
  by (simp_all add: live_def demo_site_engine_def NewEngine_def plain_kube_def demo_realm_object_def demo_scope_object_def
      demo_client_object_def demo_object_def demo_realm_def demo_scope_def demo_scoped_client_def RealmDriver_def
      RealmDriver_Protected_def RealmSpec_TargetRealm_def ProtectedRealmNames_def RealmDriver_Spec_def RealmSpec_ConnectionName_def
      ClientScopeDriver_def ClientScopeDriver_Protected_def ClientScopeDriver_Spec_def ClientScopeSpec_ConnectionName_def
      ClientDriver_def ClientDriver_Protected_def ClientDriver_Spec_def ClientSpec_ConnectionName_def Let_def)

lemma demo_round: "\<exists>S. one_round demo_site demo_items S0 S"
proof -
  have "\<exists>S'. passes_item demo_site it S S'" if "it \<in> set demo_items" for it S
  proof -
    note facts = demo_live [of S] demo_facing_ok(1,2) [of S]
    have "si_kc demo_site = client_at demo_wire 0" "si_ready demo_site = net_ok ''https://kc'' 0" "si_data demo_site = net_data"
      "si_order demo_site = same_order" "si_realms demo_site = demo_site_engine" "si_scopes demo_site = demo_site_engine"
      "si_clients demo_site = demo_site_engine" by (simp_all add: demo_site_def operator_site_def demo_wire_def)
    with that facts show ?thesis by (auto simp: demo_items_def pass_over_def intro!: exI [of _ "demo_facing S"])
  qed
  then show ?thesis unfolding demo_items_def by (meson list.set_intros one_round.none one_round.pass)
qed

lemma demo_deployable: "deployable demo_site demo_items (net_data demo_connected)"
proof -
  have data: "net_data demo_connected = empty_store\<lparr>st_realms := [(''live'', [(''realm'', JStr ''live'')])]\<rparr>"
    by (simp add: net_data_def demo_connected_def demo_server_def)
  have "store_good (net_data demo_connected)"
    by (simp add: data store_good_def empty_store_def coll_good_def coll_ok_def mwf_def entry_def)
  moreover have "ordered [] demo_items"
    by (auto simp: demo_items_def demo_realm_object_def demo_scope_object_def demo_client_object_def demo_object_def demo_realm_def
        demo_scope_def demo_scoped_client_def plain_name_def plain_seg_def wanted_def split: if_splits)
  moreover have "seen_item demo_site it (net_data demo_connected) = None" if "it \<in> set demo_items" for it
    using that
    by (auto simp: demo_items_def data empty_store_def demo_realm_object_def demo_scope_object_def demo_client_object_def demo_object_def
        demo_realm_def demo_scope_def demo_scoped_client_def realm_at_def scope_at_def client_found_def coll_look_def coll_find_def
        range_map_def demo_site_def operator_site_def same_order_def)
  moreover have "writable_item demo_site it None" if "it \<in> set demo_items" for it
    using that
    by (auto simp: demo_items_def demo_realm_object_def demo_scope_object_def demo_client_object_def demo_object_def demo_realm_def
        demo_scope_def demo_scoped_client_def writable_def operator_written_def last_applied_def RealmDriver_def RealmDriver_Spec_def
        ClientScopeDriver_def ClientScopeDriver_Spec_def ClientDriver_def ClientDriver_Spec_def RealmSpec_Adoption_def
        ClientScopeSpec_Adoption_def ClientSpec_Adoption_def Let_def AdoptionCreateOnly_def AdoptionFailIfExists_def)
  ultimately show ?thesis by (simp add: deployable_def)
qed

theorem deployment_converges_witness:
  "\<exists>S. one_round demo_site demo_items (net_data demo_connected) S \<and> (\<forall>it \<in> set demo_items. matches_item demo_site it S)"
proof -
  obtain S where S: "one_round demo_site demo_items (net_data demo_connected) S" using demo_round by blast
  have ok: "well_behaved demo_site_engine" "order_ok same_order"
    using plain_kube_ok by (simp_all add: well_behaved_def demo_site_engine_def NewEngine_def order_ok_def same_order_def)
  from deployment_converges [OF ok(1) ok(1) ok(1) ok(2) ok(2) demo_deployable [unfolded demo_site_def] S [unfolded demo_site_def]]
  show ?thesis using S by (auto simp: demo_site_def)
qed

end
