(* ===== verification/Fake_Invariant.thy ===== *)
theory Fake_Invariant
  imports Fake_Server
begin

text \<open>
  The invariant of the in-memory Admin API: whatever requests arrive, in whatever order, the
  stored data consists of Go maps at every level, a client is never assigned a scope twice,
  and the composites of a role that the composites handler stored are a list of
  representations. \<open>reachable\<close> is the set of server states that requests and the test hooks
  lead to.
\<close>

section \<open>The invariant\<close>

definition level :: "('v \<Rightarrow> bool) \<Rightarrow> 'v gomap \<Rightarrow> bool" where
  "level P m \<longleftrightarrow> mwf m \<and> (\<forall>p \<in> set m. P (snd p))"

definition role_ok :: "role_rep \<Rightarrow> bool" where
  "role_ok role \<longleftrightarrow> mjwf (rr_rep role) \<and>
     (rr_typed role \<longrightarrow> (case map_of (rr_rep role) ''composites'' of
        Some (JArr l) \<Rightarrow> l \<noteq> [] \<and> list_all is_map l | Some JNull \<Rightarrow> True | _ \<Rightarrow> False))"

definition reps_ok :: "json list \<Rightarrow> bool" where
  "reps_ok l \<longleftrightarrow> list_all (\<lambda>j. is_map j \<and> jwf j) l"

definition map_json_ok :: "json \<Rightarrow> bool" where
  "map_json_ok j \<longleftrightarrow> is_map j \<and> jwf j"

definition store_ok :: "Store \<Rightarrow> bool" where
  "store_ok S \<longleftrightarrow>
     level mjwf (st_realms S) \<and> level (level mjwf) (st_clients S) \<and> level (level mjwf) (st_scopes S) \<and>
     level (level role_ok) (st_roles S) \<and> level (level (level map_json_ok)) (st_clientRoles S) \<and>
     level (level map_json_ok) (st_idps S) \<and> level (level mjwf) (st_groups S) \<and>
     level (level reps_ok) (st_groupRR S) \<and> level (level (level reps_ok)) (st_groupCR S) \<and>
     level (level distinct) (st_defScope S) \<and> level (level distinct) (st_optScope S)"

definition body_ok :: "req_body \<Rightarrow> bool" where
  "body_ok b \<longleftrightarrow> (case b of JsonBody j \<Rightarrow> jwf j | _ \<Rightarrow> True)"

lemma level_Nil [simp]: "level P []"
  by (simp add: level_def)

lemma level_mput [wf_intros]: "level P m \<Longrightarrow> P v \<Longrightarrow> level P (mput k v m)"
  using set_mput [of k v m] by (auto simp: level_def)

lemma level_mdel [wf_intros]: "level P m \<Longrightarrow> level P (mdel k m)"
  by (auto simp: level_def mdel_def intro: mwf_mdel [unfolded mdel_def])

lemma level_find [dest]: "level P m \<Longrightarrow> map_of m k = Some v \<Longrightarrow> P v"
  by (force simp: level_def dest: map_of_SomeD)

lemma level_mget: "level (level P) m \<Longrightarrow> level P (mget m k)"
  by (auto simp: mget_def split: option.split)

lemma level_put_in [wf_intros]: "level (level P) m \<Longrightarrow> P v \<Longrightarrow> level (level P) (put_in r i v m)"
  by (auto simp: put_in_def intro!: level_mput dest: level_mget)

lemma level_del_in [wf_intros]: "level (level P) m \<Longrightarrow> level (level P) (del_in r i m)"
  by (auto simp: del_in_def intro!: level_mput level_mdel dest: level_mget)

lemma mget_distinct: "level distinct m \<Longrightarrow> distinct (mget m k)"
  by (auto simp: mget_def split: option.split)

lemma mget_reps: "level reps_ok m \<Longrightarrow> reps_ok (mget m k)"
  by (auto simp: mget_def reps_ok_def split: option.split)

lemma decodeMap_ok:
  assumes "body_ok b" and "decodeMap b = Some j"
  shows "map_json_ok j"
proof -
  have "map_json_ok (jround (JObj m))" if "jwf (JObj m)" for m
    using jround_wf [OF that] by (simp add: map_json_ok_def)
  with assms show ?thesis
    by (cases b rule: decodeMap.cases) (auto simp: body_ok_def map_json_ok_def)
qed

lemma map_json_obj: "map_json_ok j \<Longrightarrow> mjwf (as_obj j)"
  by (cases j) (simp_all add: map_json_ok_def)

lemma is_map_jround [simp]: "is_map (jround j) = is_map j"
  by (cases j) simp_all

lemma reps_ok_decoded: "list_all jwf js \<Longrightarrow> list_all is_map js \<Longrightarrow> reps_ok (map jround js)"
  by (induction js) (simp_all add: reps_ok_def jround_wf)

lemma decodeMaps_ok:
  assumes "body_ok b" and "decodeMaps b = Some l"
  shows "reps_ok l"
proof (cases b rule: decodeMaps.cases)
  case (1 js)
  then have "list_all is_map js" "l = map jround js" using assms(2) by (simp_all split: if_splits)
  with 1 assms(1) show ?thesis by (simp add: body_ok_def reps_ok_decoded)
qed (use assms in \<open>simp_all add: reps_ok_def\<close>)

lemma reps_ok_simps [simp]:
  "reps_ok []" "reps_ok (x # xs) \<longleftrightarrow> is_map x \<and> jwf x \<and> reps_ok xs" "reps_ok (xs @ ys) \<longleftrightarrow> reps_ok xs \<and> reps_ok ys"
  by (simp_all add: reps_ok_def)

lemma appendUniqueReps_ok: "reps_ok out \<Longrightarrow> reps_ok add \<Longrightarrow> appendUniqueReps cur out add = Some l \<Longrightarrow> reps_ok l"
proof (induction cur out add rule: appendUniqueReps.induct)
  case (2 current out rep add)
  then obtain found where "same_id rep current = Some found" by (cases "same_id rep current") simp_all
  with 2 show ?case by (cases found) simp_all
qed simp

lemma removeReps_ok: "reps_ok cur \<Longrightarrow> removeReps cur rem = Some l \<Longrightarrow> reps_ok l"
proof (induction cur arbitrary: l)
  case (Cons x cur)
  then obtain b l' where "same_id x rem = Some b" and "removeReps cur rem = Some l'" "l = (if b then l' else x # l')"
    by (cases "same_id x rem"; cases "removeReps cur rem") auto
  with Cons show ?case by simp
qed simp

lemma mapping_change_ok:
  assumes "reps_ok cur" and "reps_ok p" and "mapping_change m cur p = Some rs"
  shows "reps_ok rs"
proof (cases "m = ''POST''")
  case True
  with assms(3) have "appendUniqueReps cur cur p = Some rs" by (simp add: mapping_change_def)
  with assms(1,2) show ?thesis by (rule appendUniqueReps_ok)
next
  case False
  with assms(3) have "removeReps cur p = Some rs" by (simp add: mapping_change_def)
  with assms(1) show ?thesis by (rule removeReps_ok)
qed

lemma stamp_ids_ok: "level mjwf m \<Longrightarrow> level mjwf (stamp_ids P m)"
  by (auto simp: level_def stamp_ids_def mwf_def comp_def)

lemma merge_ok: "mjwf m \<Longrightarrow> mjwf n \<Longrightarrow> mjwf (merge m n)"
  unfolding merge_def by (rule mjwf_mputs) (auto simp: mjwf_def)

section \<open>Every handler keeps it\<close>

lemma slice_cases: "slice xs = (if xs = [] then JNull else JArr xs)"
  by (simp add: slice_def)

lemma typed_ok: "role_ok role \<Longrightarrow> reps_ok (typed_composites role)"
proof -
  assume ok: "role_ok role"
  have "reps_ok l" if "map_of (rr_rep role) ''composites'' = Some (JArr l)" "rr_typed role" for l
    using ok that mjwf_lookup [of "rr_rep role" "''composites''" "JArr l"]
    by (auto simp: role_ok_def reps_ok_def list_all_iff)
  then show ?thesis
    by (cases "map_of (rr_rep role) ''composites''" rule: any_list.cases) (auto simp: typed_composites_def)
qed

lemma stored_composites:
  "mjwf rep \<Longrightarrow> reps_ok rs \<Longrightarrow> role_ok \<lparr>rr_rep = mput ''composites'' (slice rs) rep, rr_typed = True\<rparr>"
  by (auto simp: role_ok_def slice_def reps_ok_def list_all_iff intro!: mjwf_mput)

lemma untyped_role: "mjwf rep \<Longrightarrow> role_ok \<lparr>rr_rep = rep, rr_typed = False\<rparr>"
  by (simp add: role_ok_def)

lemma merged_role:
  "role_ok role \<Longrightarrow> mjwf p \<Longrightarrow>
   role_ok \<lparr>rr_rep = merge (rr_rep role) p, rr_typed = (rr_typed role \<and> map_of p ''composites'' = None)\<rparr>"
proof -
  assume a: "role_ok role" "mjwf p"
  have "map_of (merge (rr_rep role) p) ''composites'' = map_of (rr_rep role) ''composites''"
    if "map_of p ''composites'' = None"
  proof -
    have "map_of (rev p) ''composites'' = None" using that by (simp add: map_of_eq_None_iff)
    then show ?thesis by (simp add: merge_def mputs_lookup map_add_def)
  qed
  with a show ?thesis by (auto simp: role_ok_def merge_ok)
qed

lemma with_field: "role_ok role \<Longrightarrow> k \<noteq> ''composites'' \<Longrightarrow> jwf v \<Longrightarrow> role_ok (role\<lparr>rr_rep := mput k v (rr_rep role)\<rparr>)"
  by (auto simp: role_ok_def)

lemmas store_intros = level_mput level_mdel level_put_in level_del_in merge_ok mjwf_mput map_json_obj decodeMap_ok
  untyped_role merged_role stored_composites with_field

lemma createRealm_ok: "body_ok b \<Longrightarrow> store_ok S \<Longrightarrow> store_ok (snd (createRealm b S))"
  by (auto simp: createRealm_def Let_def store_ok_def split: option.split
      intro!: store_intros)

lemma handleRealm_ok: "body_ok b \<Longrightarrow> store_ok S \<Longrightarrow> store_ok (snd (handleRealm m b r S))"
  by (auto simp: handleRealm_def store_ok_def split: option.split intro!: store_intros)

lemma collections_ok:
  assumes "body_ok b" and "store_ok S"
  shows "store_ok (snd (clientCollection rng m q b r S))" "store_ok (snd (scopeCollection rng m b r S))"
    "store_ok (snd (groupCollection rng m q b r S))" "store_ok (snd (roleCollection m b r S))"
    "store_ok (snd (idpCollection m b r S))"
  using assms
  by (auto simp: clientCollection_def scopeCollection_def groupCollection_def roleCollection_def idpCollection_def
      Let_def store_ok_def split: option.split intro!: store_intros stamp_ids_ok level_mget)

lemma singleRep_ok: "body_ok b \<Longrightarrow> level (level mjwf) m \<Longrightarrow> level (level mjwf) (snd (singleRep meth b r i m))"
  by (auto simp: singleRep_def split: option.split intro!: store_intros dest: level_mget)

lemma scopeAssignments_ok:
  "level (level distinct) store \<Longrightarrow> level (level distinct) (snd (scopeAssignments meth r sub scopes store))"
  by (auto simp: scopeAssignments_def Let_def appendUnique_def removeValue_def intro!: level_put_in mget_distinct level_mget distinct_filter)

lemma clientParts_ok:
  assumes "body_ok b" and "store_ok S"
  shows "store_ok (snd (clientRole r i seg S))" "store_ok (snd (clientRoles m b r i S))" "store_ok (snd (clientSecret m r i S))"
proof -
  show "store_ok (snd (clientRole r i seg S))"
    using assms by (simp add: clientRole_def split: option.split)
  show "store_ok (snd (clientSecret m r i S))"
    using assms by (auto simp: clientSecret_def store_ok_def Let_def split: option.split intro!: store_intros dest: level_mget)
  have roles: "level (level (level map_json_ok)) (st_clientRoles S)" using assms(2) by (simp add: store_ok_def)
  define made where "made = put_in r i (mget (mget (st_clientRoles S) r) i) (st_clientRoles S)"
  have made: "level (level (level map_json_ok)) made"
    unfolding made_def by (intro level_put_in level_mget roles)
  have "level (level (level map_json_ok)) (put_in r i (mput name (JObj (mput ''id'' (JStr s) (as_obj p))) (mget (mget made r) i)) made)"
    if "decodeMap b = Some p" for name s p
    by (intro level_put_in level_mput level_mget made)
      (use map_json_obj [OF decodeMap_ok [OF assms(1) that]] in \<open>simp add: map_json_ok_def\<close>)
  with made assms(2) show "store_ok (snd (clientRoles m b r i S))"
    unfolding clientRoles_def Let_def made_def [symmetric] by (auto simp: store_ok_def split: option.split)
qed

lemma roleParts_ok:
  assumes "body_ok b" and "store_ok S"
  shows "store_ok (snd (singleRole m b r n S))" "store_ok (snd (roleComposites m b r n S))"
proof -
  have roles: "level (level role_ok) (st_roles S)" using assms(2) by (simp add: store_ok_def)
  have role: "role_ok role" if "map_of (mget (st_roles S) r) n = Some role" for role
    using level_find [OF level_mget [OF roles] that] .
  show "store_ok (snd (singleRole m b r n S))"
    using assms role by (auto simp: singleRole_def store_ok_def split: option.split intro!: store_intros)
  have rep: "mjwf (if m = ''POST'' then mput ''composite'' (JBool True) (rr_rep role) else rr_rep role)"
    if "map_of (mget (st_roles S) r) n = Some role" for role
    using role [OF that] by (simp add: role_ok_def)
  have changed: "reps_ok rs"
    if "map_of (mget (st_roles S) r) n = Some role" "decodeMaps b = Some p"
      "mapping_change m (typed_composites role) p = Some rs" for role p rs
    by (rule mapping_change_ok [OF typed_ok [OF role [OF that(1)]] decodeMaps_ok [OF assms(1) that(2)] that(3)])
  have kept: "role_ok (role\<lparr>rr_rep := if m = ''POST'' then mput ''composite'' (JBool True) (rr_rep role) else rr_rep role\<rparr>)"
    if "map_of (mget (st_roles S) r) n = Some role" for role
    using with_field [OF role [OF that], of "''composite''" "JBool True"] role [OF that] by simp
  have upd: "store_ok (S\<lparr>st_roles := put_in r n x (st_roles S)\<rparr>)" if "role_ok x" for x
    using assms(2) that by (simp add: store_ok_def level_put_in)
  show "store_ok (snd (roleComposites m b r n S))"
  proof (cases "map_of (mget (st_roles S) r) n")
    case None
    then show ?thesis using assms(2) by (simp add: roleComposites_def)
  next
    case (Some x)
    note facts = upd [OF kept [OF Some]] upd [OF stored_composites [OF rep [OF Some] changed [OF Some]]]
    show ?thesis
      using assms(2) Some facts
      by (cases "decodeMaps b"; cases "mapping_change m (typed_composites x) (the (decodeMaps b))")
        (simp_all add: roleComposites_def Let_def)
  qed
qed

lemma mappings_ok:
  assumes "body_ok b" and "store_ok S"
  shows "store_ok (snd (realmMappings m b r i S))" "store_ok (snd (clientMappings m b r sub S))"
proof -
  have rr: "level (level reps_ok) (st_groupRR S)" and cr: "level (level (level reps_ok)) (st_groupCR S)"
    using assms(2) by (simp_all add: store_ok_def)
  define R where "R = mput r (mget (st_groupRR S) r) (st_groupRR S)"
  have R: "level (level reps_ok) R" unfolding R_def by (intro level_mput level_mget rr)
  define C where "C = put_in r (sub ! 0) (mget (mget (st_groupCR S) r) (sub ! 0)) (st_groupCR S)"
  have C: "level (level (level reps_ok)) C" unfolding C_def by (intro level_put_in level_mget cr)
  have "store_ok (S\<lparr>st_groupRR := R\<rparr>)" "store_ok (S\<lparr>st_groupCR := C\<rparr>)"
    using assms(2) R C by (simp_all add: store_ok_def)
  moreover have "store_ok (S\<lparr>st_groupRR := put_in r i rs R\<rparr>)"
    if "decodeMaps b = Some p" "mapping_change m (mget (mget R r) i) p = Some rs" for p rs
    using assms(2) mapping_change_ok [OF mget_reps [OF level_mget [OF R]] decodeMaps_ok [OF assms(1) that(1)] that(2)]
    by (simp add: store_ok_def level_put_in R)
  moreover have "store_ok (S\<lparr>st_groupCR := put_in r (sub ! 0) (mput (sub ! 3) rs (mget (mget C r) (sub ! 0))) C\<rparr>)"
    if "decodeMaps b = Some p" "mapping_change m (mget (mget (mget C r) (sub ! 0)) (sub ! 3)) p = Some rs" for p rs
    using assms(2) mapping_change_ok [OF mget_reps [OF level_mget [OF level_mget [OF C]]] decodeMaps_ok [OF assms(1) that(1)] that(2)]
    by (simp add: store_ok_def level_put_in level_mput level_mget C)
  ultimately show "store_ok (snd (realmMappings m b r i S))" "store_ok (snd (clientMappings m b r sub S))"
    unfolding realmMappings_def clientMappings_def Let_def R_def [symmetric] C_def [symmetric]
    by (simp_all add: R_def [symmetric] C_def [symmetric] split: option.split)
qed

lemma handleIdentityProviders_ok:
  assumes "body_ok b" and "store_ok S"
  shows "store_ok (snd (handleIdentityProviders m b r sub S))"
proof -
  have idps: "level (level map_json_ok) (st_idps S)" using assms(2) by (simp add: store_ok_def)
  have "map_json_ok (JObj (merge (as_obj rep) (as_obj p)))"
    if "map_of (mget (st_idps S) r) i = Some rep" "decodeMap b = Some p" for rep p i
    using merge_ok [OF map_json_obj [OF level_find [OF level_mget [OF idps] that(1)]]
        map_json_obj [OF decodeMap_ok [OF assms(1) that(2)]]] by (simp add: map_json_ok_def)
  then show ?thesis
    using assms collections_ok(5) [OF assms] by (auto simp: handleIdentityProviders_def Let_def store_ok_def
        intro!: level_put_in level_del_in split: option.split)
qed

lemma routeRealm_ok:
  assumes "body_ok b" and "store_ok S"
  shows "store_ok (snd (routeRealm rng m q b r sub S))"
proof -
  have "store_ok (S\<lparr>st_clients := snd (singleRep m b r i (st_clients S))\<rparr>)"
    "store_ok (S\<lparr>st_scopes := snd (singleRep m b r i (st_scopes S))\<rparr>)"
    "store_ok (S\<lparr>st_groups := snd (singleRep m b r i (st_groups S))\<rparr>)"
    "store_ok (S\<lparr>st_defScope := snd (scopeAssignments m r sub' sc (st_defScope S))\<rparr>)"
    "store_ok (S\<lparr>st_optScope := snd (scopeAssignments m r sub' sc (st_optScope S))\<rparr>)" for i sub' sc
    using assms(2) singleRep_ok [OF assms(1)] scopeAssignments_ok by (simp_all add: store_ok_def)
  then show ?thesis
    using assms collections_ok [OF assms] clientParts_ok [OF assms] roleParts_ok [OF assms] mappings_ok [OF assms]
      handleIdentityProviders_ok [OF assms] handleRealm_ok [OF assms]
    by (simp add: routeRealm_def handleClients_def handleClientScopes_def handleRoles_def handleGroups_def split_beta)
qed

lemma serve_ok:
  assumes "body_ok (req_body q)" and "store_ok (s_store S)"
  shows "store_ok (s_store (snd (serve rng base q S)))"
  using assms createRealm_ok [OF assms] routeRealm_ok [OF assms]
  by (simp add: serve_def handleAdmin_def handleToken_def handleRealmScoped_def Let_def split_beta split: option.split)

section \<open>Reachable servers\<close>

inductive reachable :: "Server \<Rightarrow> bool" where
  start: "reachable (New_server username password)"
| request: "reachable S \<Longrightarrow> body_ok (req_body q) \<Longrightarrow> reachable (snd (serve rng base q S))"
| revoke: "reachable S \<Longrightarrow> reachable (RevokeTokens S)"
| reset: "reachable S \<Longrightarrow> reachable (Reset S)"
| drift: "reachable S \<Longrightarrow> jwf v \<Longrightarrow> reachable (SetRealmField realm key v S)"

lemma empty_store_ok: "store_ok empty_store"
  by (simp add: store_ok_def empty_store_def)

lemma SetRealmField_ok: "store_ok (s_store S) \<Longrightarrow> jwf v \<Longrightarrow> store_ok (s_store (SetRealmField realm key v S))"
  by (auto simp: SetRealmField_def store_ok_def split: option.split intro!: level_mput mjwf_mput)

text \<open>
  C22: Whatever requests arrive, with whatever paths and JSON bodies, interleaved with token
  revocations, resets and drift injected by a test, the stored data stays well formed: every
  level is a Go map without duplicate keys, no client is assigned a scope twice, and the
  composites that the composites endpoint stored are a list of representations.
\<close>
theorem server_state_ok: "reachable S \<Longrightarrow> store_ok (s_store S)"
proof (induction rule: reachable.induct)
  case (start username password)
  then show ?case by (simp add: New_server_def empty_store_ok)
next
  case (request S q rng base)
  then show ?case by (intro serve_ok)
next
  case (reset S)
  then show ?case by (simp add: Reset_def empty_store_ok)
next
  case (drift S v realm key)
  then show ?case by (intro SetRealmField_ok)
qed (simp add: RevokeTokens_def)

theorem server_state_ok_witness:
  "store_ok (s_store (snd (serve (\<lambda>site ks. ks) ''http://kc''
     \<lparr>req_method = ''POST'', req_url = ''http://kc/admin/realms'', req_authorization = ''Bearer t'',
      req_contentType = ''application/json'', req_body = JsonBody (JObj [(''realm'', JStr ''demo'')])\<rparr>
     (New_server ''admin'' ''pw''))))"
  by (rule server_state_ok, rule reachable.request, rule reachable.start) (simp add: body_ok_def mjwf_Cons)

end
