(* ===== verification/Flags.thy ===== *)
theory Flags
  imports Engine
begin

text \<open>
  The command line of the operator (\<open>cmd/main.go\<close>) and the version banner
  (\<open>internal/version/version.go\<close>).

  The \<open>flag\<close> package is modelled as far as \<open>main\<close> uses it: \<open>parseOne\<close> reads one flag,
  \<open>Parse\<close> repeats it until an argument is no flag, and \<open>ParseBool\<close> and
  \<open>ParseDuration\<close> decode values. A formal flag is whether it is boolean and how it sets its
  variable. The flags that the logging library binds, and the state they set, are a
  parameter.
\<close>

section \<open>The version banner\<close>

text \<open>The variables are set at link time; \<open>runtime.Version()\<close> is the compiler's.\<close>

record build =
  Version :: string
  Commit :: string
  Date :: string
  runtime_Version :: string

definition dev_build :: "string \<Rightarrow> build" where
  "dev_build go = \<lparr>Version = ''dev'', Commit = ''unknown'', Date = ''unknown'', runtime_Version = go\<rparr>"

definition version_String :: "build \<Rightarrow> string" where
  "version_String b =
     ''keycloak-operator '' @ Version b @ '' (commit '' @ Commit b @ '', built '' @ Date b @ '', '' @
     runtime_Version b @ '')''"

section \<open>Decoding values\<close>

definition ParseBool :: "string \<Rightarrow> bool option" where
  "ParseBool s =
     (if s \<in> {''1'', ''t'', ''T'', ''true'', ''TRUE'', ''True''} then Some True
      else if s \<in> {''0'', ''f'', ''F'', ''false'', ''FALSE'', ''False''} then Some False
      else None)"

definition is_digit :: "char \<Rightarrow> bool" where
  "is_digit c \<longleftrightarrow> (let n = (of_char c :: nat) in 48 \<le> n \<and> n \<le> 57)"

definition digit_value :: "char \<Rightarrow> nat" where
  "digit_value c = of_char c - 48"

text \<open>\<open>leadingInt\<close> and \<open>leadingFraction\<close> of package \<open>time\<close>; integers beyond
  2 to the 63 are refused by the first and cut by the second.\<close>

fun leadingInt :: "nat \<Rightarrow> string \<Rightarrow> (nat \<times> string) option" where
  "leadingInt x [] = Some (x, [])"
| "leadingInt x (c # s) =
     (if \<not> is_digit c then Some (x, c # s)
      else if 2 ^ 63 div 10 < x then None
      else
        let y = x * 10 + digit_value c
        in if 2 ^ 63 < y then None else leadingInt y s)"

fun leadingFraction :: "nat \<Rightarrow> nat \<Rightarrow> bool \<Rightarrow> string \<Rightarrow> nat \<times> nat \<times> string" where
  "leadingFraction x scale overflow [] = (x, scale, [])"
| "leadingFraction x scale overflow (c # s) =
     (if \<not> is_digit c then (x, scale, c # s)
      else if overflow \<or> (2 ^ 63 - 1) div 10 < x then leadingFraction x scale True s
      else
        let y = x * 10 + digit_value c
        in if 2 ^ 63 < y then leadingFraction x scale True s else leadingFraction y (scale * 10) False s)"

definition unitMap :: "(string \<times> nat) list" where
  "unitMap =
     [(''ns'', 1), (''us'', 10 ^ 3), ([CHR 0xC2, CHR 0xB5, CHR ''s''], 10 ^ 3),
      ([CHR 0xCE, CHR 0xBC, CHR ''s''], 10 ^ 3), (''ms'', 10 ^ 6), (''s'', 10 ^ 9),
      (''m'', 60 * 10 ^ 9), (''h'', 3600 * 10 ^ 9)]"

text \<open>
  One number with its unit; the result is the value in nanoseconds and what is left. The
  fraction is the exact quotient, rounded down, where Go computes it in \<open>float64\<close>.
\<close>

definition number_part :: "string \<Rightarrow> (nat \<times> nat \<times> nat \<times> string) option" where
  "number_part s =
     (if s = [] \<or> \<not> (hd s = CHR ''.'' \<or> is_digit (hd s)) then None
      else case leadingInt 0 s of
        None \<Rightarrow> None
      | Some (v, s1) \<Rightarrow>
          (case s1 of
             [] \<Rightarrow> Some (v, 0, 1, [])
           | c # s2 \<Rightarrow>
               if c \<noteq> CHR ''.'' then Some (v, 0, 1, s1)
               else
                 case leadingFraction 0 1 False s2 of
                   (f, scale, s3) \<Rightarrow> if s1 = s \<and> s3 = s2 then None else Some (v, f, scale, s3)))"

definition duration_part :: "string \<Rightarrow> (nat \<times> string) option" where
  "duration_part s =
     (case number_part s of
        None \<Rightarrow> None
      | Some (v, f, scale, rest) \<Rightarrow>
          let plain = (\<lambda>c. \<not> (c = CHR ''.'' \<or> is_digit c)); u = takeWhile plain rest
          in if u = [] then None
             else case map_of unitMap u of
               None \<Rightarrow> None
             | Some unit \<Rightarrow>
                 if 2 ^ 63 div unit < v then None
                 else
                   let d = v * unit + (if 0 < f then f * unit div scale else 0)
                   in if 2 ^ 63 < d then None else Some (d, dropWhile plain rest))"

lemma leadingInt_length: "leadingInt x s = Some (v, r) \<Longrightarrow> length r \<le> length s"
  by (induction x s rule: leadingInt.induct) (auto simp: Let_def split: if_splits)

lemma leadingFraction_length: "leadingFraction x sc ov s = (f, sc', r) \<Longrightarrow> length r \<le> length s"
  by (induction x sc ov s rule: leadingFraction.induct) (auto simp: Let_def split: if_splits)

lemma number_part_length: "number_part s = Some (v, f, sc, r) \<Longrightarrow> length r \<le> length s"
  by (force simp: number_part_def split: if_splits option.splits prod.splits list.splits
      dest: leadingInt_length leadingFraction_length)

lemma duration_part_shorter: "duration_part s = Some (d, r) \<Longrightarrow> length r < length s"
proof -
  assume part: "duration_part s = Some (d, r)"
  let ?plain = "\<lambda>c. \<not> (c = CHR ''.'' \<or> is_digit c)"
  obtain v f sc rest where "number_part s = Some (v, f, sc, rest)" and u: "takeWhile ?plain rest \<noteq> []"
    and r: "r = dropWhile ?plain rest"
    using part by (auto simp: duration_part_def Let_def split: option.splits prod.splits if_splits)
  moreover have "length r < length rest"
  proof (rule ccontr)
    assume "\<not> length r < length rest"
    then have "length (takeWhile ?plain rest) = 0"
      using takeWhile_dropWhile_id [of ?plain rest] unfolding r by (metis add_cancel_left_left
        length_append length_dropWhile_le less_le)
    with u show False by simp
  qed
  ultimately show ?thesis using number_part_length by fastforce
qed

function duration_parts :: "nat \<Rightarrow> string \<Rightarrow> nat option" where
  "duration_parts d s =
     (if s = [] then Some d
      else case duration_part s of
        None \<Rightarrow> None
      | Some (v, r) \<Rightarrow> if 2 ^ 63 < d + v then None else duration_parts (d + v) r)"
  by pat_completeness auto
termination by (relation "measure (\<lambda>(d, s). length s)") (auto simp: duration_part_shorter)

declare duration_parts.simps [simp del]

definition ParseDuration :: "string \<Rightarrow> duration option" where
  "ParseDuration text =
     (let neg = (text \<noteq> [] \<and> hd text = CHR ''-'');
          s = (if text \<noteq> [] \<and> (hd text = CHR ''-'' \<or> hd text = CHR ''+'') then tl text else text)
      in if s = ''0'' then Some 0
         else if s = [] then None
         else case duration_parts 0 s of
           None \<Rightarrow> None
         | Some d \<Rightarrow> if neg then Some (- int d) else if 2 ^ 63 - 1 < d then None else Some (int d))"

section \<open>The flags\<close>

text \<open>The variables of \<open>main\<close>; \<open>zapOptions\<close> is what the flags of the logging library set.\<close>

record 'z flags =
  metricsAddr :: string
  metricsCertPath :: string
  metricsCertName :: string
  metricsCertKey :: string
  webhookCertPath :: string
  webhookCertName :: string
  webhookCertKey :: string
  enableLeaderElection :: bool
  probeAddr :: string
  secureMetrics :: bool
  enableHTTP2 :: bool
  resyncPeriod :: duration
  watchNamespaceList :: string
  showVersion :: bool
  zapOptions :: 'z

definition default_flags :: "'z \<Rightarrow> 'z flags" where
  "default_flags z =
     \<lparr>metricsAddr = ''0'', metricsCertPath = [], metricsCertName = ''tls.crt'', metricsCertKey = ''tls.key'',
      webhookCertPath = [], webhookCertName = ''tls.crt'', webhookCertKey = ''tls.key'',
      enableLeaderElection = False, probeAddr = '':8081'', secureMetrics = True, enableHTTP2 = False,
      resyncPeriod = DefaultResync, watchNamespaceList = [], showVersion = False, zapOptions = z\<rparr>"

record 'f formal =
  isBoolFlag :: bool
  set_value :: "string \<Rightarrow> 'f \<Rightarrow> 'f option"

definition StringVar :: "(string \<Rightarrow> 'f \<Rightarrow> 'f) \<Rightarrow> 'f formal" where
  "StringVar upd = \<lparr>isBoolFlag = False, set_value = (\<lambda>s f. Some (upd s f))\<rparr>"

definition BoolVar :: "(bool \<Rightarrow> 'f \<Rightarrow> 'f) \<Rightarrow> 'f formal" where
  "BoolVar upd = \<lparr>isBoolFlag = True, set_value = (\<lambda>s f. map_option (\<lambda>b. upd b f) (ParseBool s))\<rparr>"

definition DurationVar :: "(duration \<Rightarrow> 'f \<Rightarrow> 'f) \<Rightarrow> 'f formal" where
  "DurationVar upd = \<lparr>isBoolFlag = False, set_value = (\<lambda>s f. map_option (\<lambda>d. upd d f) (ParseDuration s))\<rparr>"

definition main_flags :: "(string \<times> 'z flags formal) list" where
  "main_flags =
     [(''metrics-bind-address'', StringVar (\<lambda>s. metricsAddr_update (\<lambda>_. s))),
      (''health-probe-bind-address'', StringVar (\<lambda>s. probeAddr_update (\<lambda>_. s))),
      (''leader-elect'', BoolVar (\<lambda>b. enableLeaderElection_update (\<lambda>_. b))),
      (''metrics-secure'', BoolVar (\<lambda>b. secureMetrics_update (\<lambda>_. b))),
      (''webhook-cert-path'', StringVar (\<lambda>s. webhookCertPath_update (\<lambda>_. s))),
      (''webhook-cert-name'', StringVar (\<lambda>s. webhookCertName_update (\<lambda>_. s))),
      (''webhook-cert-key'', StringVar (\<lambda>s. webhookCertKey_update (\<lambda>_. s))),
      (''metrics-cert-path'', StringVar (\<lambda>s. metricsCertPath_update (\<lambda>_. s))),
      (''metrics-cert-name'', StringVar (\<lambda>s. metricsCertName_update (\<lambda>_. s))),
      (''metrics-cert-key'', StringVar (\<lambda>s. metricsCertKey_update (\<lambda>_. s))),
      (''enable-http2'', BoolVar (\<lambda>b. enableHTTP2_update (\<lambda>_. b))),
      (''resync-period'', DurationVar (\<lambda>d. resyncPeriod_update (\<lambda>_. d))),
      (''watch-namespace'', StringVar (\<lambda>s. watchNamespaceList_update (\<lambda>_. s))),
      (''version'', BoolVar (\<lambda>b. showVersion_update (\<lambda>_. b)))]"

section \<open>Parsing the command line\<close>

datatype 'f parse_step = Seen 'f "string list" | Stop "string list" | Help | Bad

text \<open>The name of a flag ends at the first equals sign that is not its first character.\<close>

definition split_value :: "string \<Rightarrow> string \<times> string option" where
  "split_value arg =
     (case arg of
        [] \<Rightarrow> ([], None)
      | c # r \<Rightarrow>
          (case dropWhile (\<lambda>x. x \<noteq> CHR ''='') r of
             [] \<Rightarrow> (arg, None)
           | eq # v \<Rightarrow> (c # takeWhile (\<lambda>x. x \<noteq> CHR ''='') r, Some v)))"

definition set_flag :: "'f formal \<Rightarrow> string option \<Rightarrow> string list \<Rightarrow> 'f \<Rightarrow> 'f parse_step" where
  "set_flag fl value args f =
     (let assign = (\<lambda>v rest. case set_value fl v f of None \<Rightarrow> Bad | Some f' \<Rightarrow> Seen f' rest)
      in if isBoolFlag fl then assign (case value of Some v \<Rightarrow> v | None \<Rightarrow> ''true'') args
         else case value of
           Some v \<Rightarrow> assign v args
         | None \<Rightarrow> (case args of [] \<Rightarrow> Bad | v # rest \<Rightarrow> assign v rest))"

definition parseOne :: "(string \<times> 'f formal) list \<Rightarrow> string list \<Rightarrow> 'f \<Rightarrow> 'f parse_step" where
  "parseOne formals arguments f =
     (case arguments of
        [] \<Rightarrow> Stop []
      | s # args \<Rightarrow>
          if length s < 2 \<or> hd s \<noteq> CHR ''-'' then Stop arguments
          else if s = ''--'' then Stop args
          else
            let arg = (if s ! 1 = CHR ''-'' then drop 2 s else drop 1 s)
            in if arg = [] \<or> hd arg = CHR ''-'' \<or> hd arg = CHR ''='' then Bad
               else case split_value arg of
                 (name, value) \<Rightarrow>
                   (case map_of formals name of
                      None \<Rightarrow> if name = ''help'' \<or> name = ''h'' then Help else Bad
                    | Some fl \<Rightarrow> set_flag fl value args f))"

datatype 'f parsed = Parsed 'f "string list" | Exit_usage | Exit_bad

lemma set_flag_rest: "set_flag fl value args f = Seen f' rest \<Longrightarrow> length rest \<le> length args"
  by (auto simp: set_flag_def Let_def split: if_splits option.splits list.splits)

lemma parseOne_consumes: "parseOne formals args f = Seen f' rest \<Longrightarrow> length rest < length args"
  by (auto simp: parseOne_def Let_def split: if_splits option.splits list.splits prod.splits dest!: set_flag_rest)

function Parse :: "(string \<times> 'f formal) list \<Rightarrow> string list \<Rightarrow> 'f \<Rightarrow> 'f parsed" where
  "Parse formals args f =
     (case parseOne formals args f of
        Seen f' rest \<Rightarrow> Parse formals rest f'
      | Stop rest \<Rightarrow> Parsed f rest
      | Help \<Rightarrow> Exit_usage
      | Bad \<Rightarrow> Exit_bad)"
  by pat_completeness auto
termination by (relation "measure (\<lambda>(formals, args, f). length args)") (auto simp: parseOne_consumes)

declare Parse.simps [simp del]

section \<open>Durations are read exactly and within range\<close>

fun digits :: "nat \<Rightarrow> string" where
  "digits n = (if n < 10 then [char_of (48 + n)] else digits (n div 10) @ [char_of (48 + n mod 10)])"

declare digits.simps [simp del]

lemma digit_char:
  assumes "d < 10"
  shows "is_digit (char_of (48 + d))" and "digit_value (char_of (48 + d)) = d"
  using assms by (simp_all add: is_digit_def digit_value_def)

lemma leadingInt_digits:
  assumes "n \<le> 2 ^ 63"
  shows "leadingInt 0 (digits n @ s) = leadingInt n s"
  using assms
proof (induction n arbitrary: s rule: digits.induct)
  case (1 n)
  show ?case
  proof (cases "n < 10")
    case True
    then show ?thesis by (simp add: digits.simps [of n] digit_char)
  next
    case False
    have "leadingInt 0 (digits n @ s) = leadingInt 0 (digits (n div 10) @ (char_of (48 + n mod 10) # s))"
      using False by (simp add: digits.simps [of n])
    also have "\<dots> = leadingInt (n div 10) (char_of (48 + n mod 10) # s)"
      using False 1 by simp
    also have "\<dots> = leadingInt n s"
      using 1(2) div_le_mono [OF 1(2), of 10] by (simp add: digit_char)
    finally show ?thesis .
  qed
qed

lemma digits_start: "digits n \<noteq> [] \<and> is_digit (hd (digits n)) \<and> hd (digits n) \<noteq> CHR ''-'' \<and> hd (digits n) \<noteq> CHR ''+''"
proof (induction n rule: digits.induct)
  case (1 n)
  have "\<not> is_digit CHR ''-''" "\<not> is_digit CHR ''+''" by code_simp+
  then have small: "is_digit (char_of (48 + d)) \<and> char_of (48 + d) \<noteq> CHR ''-'' \<and> char_of (48 + d) \<noteq> CHR ''+''"
    if "d < 10" for d :: nat using digit_char(1) [OF that] by metis
  show ?case
  proof (cases "n < 10")
    case True
    then show ?thesis using small [OF True] by (simp add: digits.simps [of n])
  next
    case False
    with 1 show ?thesis by (simp add: digits.simps [of n])
  qed
qed

definition duration_text :: "duration \<Rightarrow> string" where
  "duration_text d = (if d < 0 then CHR ''-'' # digits (nat (- d)) else digits (nat d)) @ ''ns''"

lemma duration_parts_ns:
  assumes "n \<le> 2 ^ 63"
  shows "duration_parts 0 (digits n @ ''ns'') = Some n"
proof -
  let ?s = "digits n @ ''ns''"
  have int: "leadingInt 0 ?s = Some (n, ''ns'')"
    using leadingInt_digits [of n "''ns''"] assms by (simp add: is_digit_def)
  have start: "?s \<noteq> []" "is_digit (hd ?s)" using digits_start [of n] by (cases "digits n"; simp)+
  then have "number_part ?s = Some (n, 0, 1, ''ns'')" using int by (simp add: number_part_def)
  then have "duration_part ?s = Some (n, [])"
    using assms by (simp add: duration_part_def Let_def is_digit_def unitMap_def)
  then show ?thesis using assms start by (simp add: duration_parts.simps)
qed

lemma ParseDuration_text:
  assumes "- (2 ^ 63) \<le> d" and "d < 2 ^ 63"
  shows "ParseDuration (duration_text d) = Some d"
proof -
  have parts: "duration_parts 0 (digits (nat \<bar>d\<bar>) @ ''ns'') = Some (nat \<bar>d\<bar>)"
    by (rule duration_parts_ns) (use assms in auto)
  have start: "digits n @ ''ns'' \<noteq> []" "hd (digits n @ ''ns'') \<noteq> CHR ''-''" "hd (digits n @ ''ns'') \<noteq> CHR ''+''"
    "digits n @ ''ns'' \<noteq> ''0''" for n using digits_start [of n] by (cases "digits n"; simp)+
  show ?thesis
  proof (cases "d < 0")
    case True
    then show ?thesis using parts start assms by (simp add: ParseDuration_def duration_text_def Let_def)
  next
    case False
    moreover from False assms(2) have "\<not> 2 ^ 63 - 1 < nat d" by auto
    ultimately show ?thesis using parts start by (simp add: ParseDuration_def duration_text_def Let_def)
  qed
qed

lemma duration_parts_bound: "duration_parts d s = Some n \<Longrightarrow> d \<le> 2 ^ 63 \<Longrightarrow> n \<le> 2 ^ 63"
  by (induction d s rule: duration_parts.induct)
     (subst (asm) duration_parts.simps, auto split: if_splits option.splits prod.splits)

lemma ParseDuration_range: "ParseDuration s = Some d \<Longrightarrow> - (2 ^ 63) \<le> d \<and> d < 2 ^ 63"
proof -
  assume "ParseDuration s = Some d"
  then consider "d = 0" | n where "d = - int n" "n \<le> 2 ^ 63" | n where "d = int n" "n \<le> 2 ^ 63 - 1"
    by (auto simp: ParseDuration_def Let_def not_less split: if_splits option.splits dest!: duration_parts_bound)
  then show ?thesis by cases auto
qed

section \<open>Every configuration can be given on the command line\<close>

definition flag_arg :: "string \<Rightarrow> string \<Rightarrow> string" where
  "flag_arg name value = ''--'' @ name @ ''='' @ value"

definition bool_text :: "bool \<Rightarrow> string" where
  "bool_text b = (if b then ''true'' else ''false'')"

definition command_line :: "'z flags \<Rightarrow> string list" where
  "command_line f =
     [flag_arg ''metrics-bind-address'' (metricsAddr f), flag_arg ''health-probe-bind-address'' (probeAddr f),
      flag_arg ''leader-elect'' (bool_text (enableLeaderElection f)), flag_arg ''metrics-secure'' (bool_text (secureMetrics f)),
      flag_arg ''webhook-cert-path'' (webhookCertPath f), flag_arg ''webhook-cert-name'' (webhookCertName f),
      flag_arg ''webhook-cert-key'' (webhookCertKey f), flag_arg ''metrics-cert-path'' (metricsCertPath f),
      flag_arg ''metrics-cert-name'' (metricsCertName f), flag_arg ''metrics-cert-key'' (metricsCertKey f),
      flag_arg ''enable-http2'' (bool_text (enableHTTP2 f)),
      flag_arg ''resync-period'' (duration_text (resyncPeriod f)),
      flag_arg ''watch-namespace'' (watchNamespaceList f), flag_arg ''version'' (bool_text (showVersion f))]"

lemma ParseBool_text [simp]: "ParseBool (bool_text b) = Some b"
  by (simp add: ParseBool_def bool_text_def)

lemma split_value_arg:
  assumes "name \<noteq> []" and "CHR ''='' \<notin> set name"
  shows "split_value (name @ CHR ''='' # value) = (name, Some value)"
proof (cases name)
  case (Cons c r)
  with assms(2) have "\<And>x. x \<in> set r \<Longrightarrow> x \<noteq> CHR ''=''" by auto
  then show ?thesis by (simp add: split_value_def Cons dropWhile_append2 takeWhile_append2)
qed (use assms in simp)

lemma Parse_flag:
  assumes "name \<noteq> []" and "CHR ''='' \<notin> set name" and "hd name \<noteq> CHR ''-''"
    and "map_of formals name = Some fl" and "set_value fl value f = Some f'"
  shows "Parse formals (flag_arg name value # args) f = Parse formals args f'"
proof -
  have "hd name \<noteq> CHR ''=''" using assms(1,2) hd_in_set by metis
  with assms have "parseOne formals (flag_arg name value # args) f = Seen f' args"
    by (simp add: parseOne_def flag_arg_def Let_def split_value_arg set_flag_def)
  then show ?thesis by (simp add: Parse.simps)
qed

text \<open>
  C19: Every configuration can be given on the command line: whatever strings, switches and
  resync period (any duration, negative ones included) a configuration has, writing it as
  \<open>--name=value\<close> arguments and parsing them gives exactly that configuration, whatever the
  defaults were and whatever flags the logging library binds, and leaves the positional
  arguments after \<open>--\<close> alone.
\<close>
theorem flags_roundtrip:
  assumes "- (2 ^ 63) \<le> resyncPeriod fl" and "resyncPeriod fl < 2 ^ 63"
  shows "Parse (main_flags @ zap) (command_line fl @ ''--'' # rest) fl0 =
    Parsed (fl\<lparr>zapOptions := zapOptions fl0\<rparr>) rest"
proof -
  note resync = ParseDuration_text [OF assms]
  have stop: "Parse formals (''--'' # rest) f = Parsed f rest" for formals and f :: "'a flags"
    by (simp add: Parse.simps parseOne_def)
  show ?thesis
    unfolding command_line_def append.simps
    by (simp add: Parse_flag main_flags_def StringVar_def BoolVar_def DurationVar_def resync stop assms)
qed

theorem flags_roundtrip_witness:
  "Parse main_flags
     (command_line ((default_flags ())\<lparr>watchNamespaceList := ''a=b,c'', resyncPeriod := 90 * Second\<rparr>) @ [''--'', ''x''])
     (default_flags ()) =
   Parsed ((default_flags ())\<lparr>watchNamespaceList := ''a=b,c'', resyncPeriod := 90 * Second\<rparr>) [''x'']"
  using flags_roundtrip [of "(default_flags ())\<lparr>watchNamespaceList := ''a=b,c'', resyncPeriod := 90 * Second\<rparr>" "[]"
      "[''x'']" "default_flags ()"]
  by (simp add: default_flags_def)

end
