(* ===== verification/Startup.thy ===== *)
theory Startup
  imports Flags Controllers "HOL-Library.Sublist"
begin

text \<open>
  The start of the operator: the API group and its kinds
  (\<open>api/v1alpha1/groupversion_info.go\<close> and the \<open>init\<close> functions of the types), the
  registration of the controllers (\<open>SetupWithManager\<close>), and \<open>main\<close> of
  \<open>cmd/main.go\<close> from the flags to the running manager.

  controller-runtime and client-go are the parameter \<open>framework\<close>: the scheme and the manager
  are its abstract values, and each of its calls may fail. Pointers to the provider and to the
  engine, which \<open>main\<close> creates once, are indices into the list of objects allocated so far.
\<close>

section \<open>The API group\<close>

definition SchemeGroupVersion :: "string \<times> string" where
  "SchemeGroupVersion = (''keycloak.ctn-solutions.io'', ''v1alpha1'')"

definition client_types_init :: "string list" where
  "client_types_init = [''Client'', ''ClientList'']"

definition clientscope_types_init :: "string list" where
  "clientscope_types_init = [''ClientScope'', ''ClientScopeList'']"

definition group_types_init :: "string list" where
  "group_types_init = [''Group'', ''GroupList'']"

definition identityprovider_types_init :: "string list" where
  "identityprovider_types_init = [''IdentityProvider'', ''IdentityProviderList'']"

definition keycloakconnection_types_init :: "string list" where
  "keycloakconnection_types_init = [''KeycloakConnection'', ''KeycloakConnectionList'']"

definition realm_types_init :: "string list" where
  "realm_types_init = [''Realm'', ''RealmList'']"

definition realmrole_types_init :: "string list" where
  "realmrole_types_init = [''RealmRole'', ''RealmRoleList'']"

text \<open>The objects of the builder after the package is initialised, file by file.\<close>

definition SchemeBuilder :: "string list" where
  "SchemeBuilder =
     client_types_init @ clientscope_types_init @ group_types_init @ identityprovider_types_init @
     keycloakconnection_types_init @ realm_types_init @ realmrole_types_init"

section \<open>Servers\<close>

record tls_config =
  NextProtos :: "string list"

record webhook_options =
  wh_TLSOpts :: "(tls_config \<Rightarrow> tls_config) list"
  wh_CertDir :: string
  wh_CertName :: string
  wh_KeyName :: string

datatype metrics_filter = WithAuthenticationAndAuthorization

record metrics_options =
  ms_BindAddress :: string
  ms_SecureServing :: bool
  ms_TLSOpts :: "(tls_config \<Rightarrow> tls_config) list"
  ms_FilterProvider :: "metrics_filter option"
  ms_CertDir :: string
  ms_CertName :: string
  ms_KeyName :: string

definition disableHTTP2 :: "tls_config \<Rightarrow> tls_config" where
  "disableHTTP2 c = c\<lparr>NextProtos := [''http/1.1'']\<rparr>"

definition tlsOpts :: "'z flags \<Rightarrow> (tls_config \<Rightarrow> tls_config) list" where
  "tlsOpts fl = (if \<not> enableHTTP2 fl then [disableHTTP2] else [])"

definition webhookServerOptions :: "'z flags \<Rightarrow> webhook_options" where
  "webhookServerOptions fl =
     (let opts = \<lparr>wh_TLSOpts = tlsOpts fl, wh_CertDir = [], wh_CertName = [], wh_KeyName = []\<rparr>
      in if webhookCertPath fl \<noteq> []
         then opts\<lparr>wh_CertDir := webhookCertPath fl, wh_CertName := webhookCertName fl, wh_KeyName := webhookCertKey fl\<rparr>
         else opts)"

definition metricsServerOptions :: "'z flags \<Rightarrow> metrics_options" where
  "metricsServerOptions fl =
     (let opts = \<lparr>ms_BindAddress = metricsAddr fl, ms_SecureServing = secureMetrics fl, ms_TLSOpts = tlsOpts fl,
                  ms_FilterProvider = None, ms_CertDir = [], ms_CertName = [], ms_KeyName = []\<rparr>;
          opts1 = (if secureMetrics fl then opts\<lparr>ms_FilterProvider := Some WithAuthenticationAndAuthorization\<rparr> else opts)
      in if metricsCertPath fl \<noteq> []
         then opts1\<lparr>ms_CertDir := metricsCertPath fl, ms_CertName := metricsCertName fl, ms_KeyName := metricsCertKey fl\<rparr>
         else opts1)"

record 's manager_options =
  mo_Scheme :: 's
  mo_Metrics :: metrics_options
  mo_WebhookServer :: webhook_options
  mo_HealthProbeBindAddress :: string
  mo_LeaderElection :: bool
  mo_LeaderElectionID :: string
  mo_DefaultNamespaces :: "string list option"

definition managerOptions :: "'s \<Rightarrow> 'z flags \<Rightarrow> 's manager_options" where
  "managerOptions scheme fl =
     \<lparr>mo_Scheme = scheme, mo_Metrics = metricsServerOptions fl, mo_WebhookServer = webhookServerOptions fl,
      mo_HealthProbeBindAddress = probeAddr fl, mo_LeaderElection = enableLeaderElection fl,
      mo_LeaderElectionID = ''44c9846b.ctn-solutions.io'',
      mo_DefaultNamespaces = watchNamespaces (watchNamespaceList fl)\<rparr>"

section \<open>The framework\<close>

text \<open>A controller as the builder receives it: the kind it watches, its name, and the
  reconciler with its pointer to the provider or to the engine.\<close>

datatype reconciler =
    KeycloakConnectionReconciler nat
  | RealmReconciler nat
  | ClientReconciler nat
  | ClientScopeReconciler nat
  | RealmRoleReconciler nat
  | IdentityProviderReconciler nat
  | GroupReconciler nat

record registration =
  reg_For :: string
  reg_Named :: string
  reg_Complete :: reconciler

datatype logline = LogInfo string | LogError string "string option" goerr

text \<open>\<open>GetConfigOrDie\<close> may end the process itself, with a status and what it logged.\<close>

record ('s, 'c, 'm) framework =
  fw_NewScheme :: 's
  fw_clientgo_AddToScheme :: "'s \<Rightarrow> goerr option \<times> 's"
  fw_AddToScheme :: "string \<times> string \<Rightarrow> string list \<Rightarrow> 's \<Rightarrow> goerr option \<times> 's"
  fw_GetConfigOrDie :: "(nat \<times> logline list) + 'c"
  fw_NewManager :: "'c \<Rightarrow> 's manager_options \<Rightarrow> goerr + 'm"
  fw_Complete :: "registration \<Rightarrow> 'm \<Rightarrow> goerr option \<times> 'm"
  fw_AddHealthzCheck :: "string \<Rightarrow> 'm \<Rightarrow> goerr option \<times> 'm"
  fw_AddReadyzCheck :: "string \<Rightarrow> 'm \<Rightarrow> goerr option \<times> 'm"
  fw_Start :: "'m \<Rightarrow> goerr option \<times> 'm"

section \<open>Registration of the controllers\<close>

definition KeycloakConnectionReconciler_SetupWithManager ::
    "('s, 'c, 'm) framework \<Rightarrow> nat \<Rightarrow> 'm \<Rightarrow> goerr option \<times> 'm" where
  "KeycloakConnectionReconciler_SetupWithManager fw provider =
     fw_Complete fw \<lparr>reg_For = ''KeycloakConnection'', reg_Named = ''keycloakconnection'',
       reg_Complete = KeycloakConnectionReconciler provider\<rparr>"

definition RealmReconciler_SetupWithManager :: "('s, 'c, 'm) framework \<Rightarrow> nat \<Rightarrow> 'm \<Rightarrow> goerr option \<times> 'm" where
  "RealmReconciler_SetupWithManager fw engine =
     fw_Complete fw \<lparr>reg_For = ''Realm'', reg_Named = ''realm'', reg_Complete = RealmReconciler engine\<rparr>"

definition ClientReconciler_SetupWithManager :: "('s, 'c, 'm) framework \<Rightarrow> nat \<Rightarrow> 'm \<Rightarrow> goerr option \<times> 'm" where
  "ClientReconciler_SetupWithManager fw engine =
     fw_Complete fw \<lparr>reg_For = ''Client'', reg_Named = ''client'', reg_Complete = ClientReconciler engine\<rparr>"

definition ClientScopeReconciler_SetupWithManager :: "('s, 'c, 'm) framework \<Rightarrow> nat \<Rightarrow> 'm \<Rightarrow> goerr option \<times> 'm" where
  "ClientScopeReconciler_SetupWithManager fw engine =
     fw_Complete fw \<lparr>reg_For = ''ClientScope'', reg_Named = ''clientscope'', reg_Complete = ClientScopeReconciler engine\<rparr>"

definition RealmRoleReconciler_SetupWithManager :: "('s, 'c, 'm) framework \<Rightarrow> nat \<Rightarrow> 'm \<Rightarrow> goerr option \<times> 'm" where
  "RealmRoleReconciler_SetupWithManager fw engine =
     fw_Complete fw \<lparr>reg_For = ''RealmRole'', reg_Named = ''realmrole'', reg_Complete = RealmRoleReconciler engine\<rparr>"

definition IdentityProviderReconciler_SetupWithManager ::
    "('s, 'c, 'm) framework \<Rightarrow> nat \<Rightarrow> 'm \<Rightarrow> goerr option \<times> 'm" where
  "IdentityProviderReconciler_SetupWithManager fw engine =
     fw_Complete fw \<lparr>reg_For = ''IdentityProvider'', reg_Named = ''identityprovider'',
       reg_Complete = IdentityProviderReconciler engine\<rparr>"

definition GroupReconciler_SetupWithManager :: "('s, 'c, 'm) framework \<Rightarrow> nat \<Rightarrow> 'm \<Rightarrow> goerr option \<times> 'm" where
  "GroupReconciler_SetupWithManager fw engine =
     fw_Complete fw \<lparr>reg_For = ''Group'', reg_Named = ''group'', reg_Complete = GroupReconciler engine\<rparr>"

section \<open>The start\<close>

text \<open>The objects \<open>main\<close> allocates; an engine is known by the arguments of \<open>NewEngine\<close>.\<close>

record engine_args =
  ea_provider :: nat
  ea_recorder :: string
  ea_resync :: duration

record objects =
  providers :: "Provider list"
  engines :: "engine_args list"

datatype status = Return | Exit nat | Panic

record 'm process =
  pr_status :: status
  pr_stderr :: "string list"
  pr_log :: "logline list"
  pr_objects :: objects
  pr_manager :: "'m option"

text \<open>One statement of the part of \<open>main\<close> that has a manager: an \<open>Info\<close> line, or a call
  whose failure is logged and ends the process.\<close>

datatype 'm stmt = Log string | Try string "string option" "'m \<Rightarrow> goerr option \<times> 'm"

fun run_stmts :: "'m stmt list \<Rightarrow> logline list \<Rightarrow> 'm \<Rightarrow> status \<times> logline list \<times> 'm" where
  "run_stmts [] lg m = (Return, lg, m)"
| "run_stmts (Log msg # sts) lg m = run_stmts sts (lg @ [LogInfo msg]) m"
| "run_stmts (Try msg ctl act # sts) lg m =
     (case act m of
        (Some e, m') \<Rightarrow> (Exit 1, lg @ [LogError msg ctl e], m')
      | (None, m') \<Rightarrow> run_stmts sts lg m')"

definition main_stmts :: "('s, 'c, 'm) framework \<Rightarrow> nat \<Rightarrow> nat \<Rightarrow> 'm stmt list" where
  "main_stmts fw provider engine =
     (let failed = ''Failed to create controller'' in
      [Try failed (Some ''keycloakconnection'') (KeycloakConnectionReconciler_SetupWithManager fw provider),
       Try failed (Some ''realm'') (RealmReconciler_SetupWithManager fw engine),
       Try failed (Some ''client'') (ClientReconciler_SetupWithManager fw engine),
       Try failed (Some ''clientscope'') (ClientScopeReconciler_SetupWithManager fw engine),
       Try failed (Some ''realmrole'') (RealmRoleReconciler_SetupWithManager fw engine),
       Try failed (Some ''identityprovider'') (IdentityProviderReconciler_SetupWithManager fw engine),
       Try failed (Some ''group'') (GroupReconciler_SetupWithManager fw engine),
       Try ''Failed to set up health check'' None (fw_AddHealthzCheck fw ''healthz''),
       Try ''Failed to set up ready check'' None (fw_AddReadyzCheck fw ''readyz''),
       Log ''Starting manager'',
       Try ''Failed to run manager'' None (fw_Start fw)])"

definition init_scheme :: "('s, 'c, 'm) framework \<Rightarrow> goerr + 's" where
  "init_scheme fw =
     (case fw_clientgo_AddToScheme fw (fw_NewScheme fw) of
        (Some e, s) \<Rightarrow> Inl e
      | (None, s) \<Rightarrow>
          (case fw_AddToScheme fw SchemeGroupVersion SchemeBuilder s of
             (Some e, s') \<Rightarrow> Inl e
           | (None, s') \<Rightarrow> Inr s'))"

definition cert_logs :: "'z flags \<Rightarrow> logline list" where
  "cert_logs fl =
     (if webhookCertPath fl \<noteq> []
      then [LogInfo ''Initializing webhook certificate watcher using provided certificates''] else []) @
     (if metricsCertPath fl \<noteq> []
      then [LogInfo ''Initializing metrics certificate watcher using provided certificates''] else [])"

definition stopped :: "status \<Rightarrow> string list \<Rightarrow> logline list \<Rightarrow> 'm process" where
  "stopped st err lg =
     \<lparr>pr_status = st, pr_stderr = err, pr_log = lg, pr_objects = \<lparr>providers = [], engines = []\<rparr>, pr_manager = None\<rparr>"

definition run_manager :: "('s, 'c, 'm) framework \<Rightarrow> 'z flags \<Rightarrow> 's \<Rightarrow> 'm process" where
  "run_manager fw fl scheme =
     (case fw_GetConfigOrDie fw of
        Inl (code, lg) \<Rightarrow> stopped (Exit code) [] (cert_logs fl @ lg)
      | Inr conf \<Rightarrow>
          (case fw_NewManager fw conf (managerOptions scheme fl) of
             Inl e \<Rightarrow> stopped (Exit 1) [] (cert_logs fl @ [LogError ''Failed to start manager'' None e])
           | Inr mgr \<Rightarrow>
               let provider = 0; engine = 0;
                   objs = \<lparr>providers = [NewProvider],
                           engines = [\<lparr>ea_provider = provider, ea_recorder = ''keycloak-operator'',
                                      ea_resync = resyncPeriod fl\<rparr>]\<rparr>
               in case run_stmts (main_stmts fw provider engine) (cert_logs fl) mgr of
                    (st, lg, m) \<Rightarrow>
                      \<lparr>pr_status = st, pr_stderr = [], pr_log = lg, pr_objects = objs, pr_manager = Some m\<rparr>))"

text \<open>
  The whole process: package initialisation (a panic when a type cannot be registered), the
  flags (a panic when a flag is bound twice), \<open>--version\<close>, and the manager. \<open>GetConfigOrDie\<close>
  ends the process itself.
\<close>

definition operator_main :: "('s, 'c, 'm) framework \<Rightarrow> build \<Rightarrow> (string \<times> 'z flags formal) list \<Rightarrow> 'z \<Rightarrow>
    string list \<Rightarrow> 'm process" where
  "operator_main fw b zap z args =
     (case init_scheme fw of
        Inl e \<Rightarrow> stopped Panic [] []
      | Inr scheme \<Rightarrow>
          if \<not> distinct (map fst (main_flags @ zap)) then stopped Panic [] []
          else
            case Parse (main_flags @ zap) args (default_flags z) of
              Exit_usage \<Rightarrow> stopped (Exit 0) [] []
            | Exit_bad \<Rightarrow> stopped (Exit 2) [] []
            | Parsed fl rest \<Rightarrow>
                if showVersion fl then stopped Return [version_String b] []
                else run_manager fw fl scheme)"

section \<open>What the start guarantees\<close>

text \<open>The framework with the calls on the manager and their results recorded.\<close>

datatype manager_call = Completed registration | Healthz string | Readyz string | Started

type_synonym trace = "(manager_call \<times> goerr option) list"

definition noted :: "manager_call \<Rightarrow> ('m \<Rightarrow> goerr option \<times> 'm) \<Rightarrow> 'm \<times> trace \<Rightarrow> goerr option \<times> 'm \<times> trace" where
  "noted c act m = (case act (fst m) of (e, m') \<Rightarrow> (e, m', snd m @ [(c, e)]))"

definition watched :: "('s, 'c, 'm) framework \<Rightarrow> ('s, 'c, 'm \<times> trace) framework" where
  "watched fw =
     \<lparr>fw_NewScheme = fw_NewScheme fw, fw_clientgo_AddToScheme = fw_clientgo_AddToScheme fw,
      fw_AddToScheme = fw_AddToScheme fw, fw_GetConfigOrDie = fw_GetConfigOrDie fw,
      fw_NewManager = (\<lambda>conf opts. map_sum id (\<lambda>m. (m, [])) (fw_NewManager fw conf opts)),
      fw_Complete = (\<lambda>reg. noted (Completed reg) (fw_Complete fw reg)),
      fw_AddHealthzCheck = (\<lambda>n. noted (Healthz n) (fw_AddHealthzCheck fw n)),
      fw_AddReadyzCheck = (\<lambda>n. noted (Readyz n) (fw_AddReadyzCheck fw n)),
      fw_Start = noted Started (fw_Start fw)\<rparr>"

text \<open>The controllers of the operator, in the order of \<open>main\<close>.\<close>

definition controllers :: "nat \<Rightarrow> nat \<Rightarrow> registration list" where
  "controllers provider engine =
     [\<lparr>reg_For = ''KeycloakConnection'', reg_Named = ''keycloakconnection'', reg_Complete = KeycloakConnectionReconciler provider\<rparr>,
      \<lparr>reg_For = ''Realm'', reg_Named = ''realm'', reg_Complete = RealmReconciler engine\<rparr>,
      \<lparr>reg_For = ''Client'', reg_Named = ''client'', reg_Complete = ClientReconciler engine\<rparr>,
      \<lparr>reg_For = ''ClientScope'', reg_Named = ''clientscope'', reg_Complete = ClientScopeReconciler engine\<rparr>,
      \<lparr>reg_For = ''RealmRole'', reg_Named = ''realmrole'', reg_Complete = RealmRoleReconciler engine\<rparr>,
      \<lparr>reg_For = ''IdentityProvider'', reg_Named = ''identityprovider'', reg_Complete = IdentityProviderReconciler engine\<rparr>,
      \<lparr>reg_For = ''Group'', reg_Named = ''group'', reg_Complete = GroupReconciler engine\<rparr>]"

definition startup_calls :: "manager_call list" where
  "startup_calls = map Completed (controllers 0 0) @ [Healthz ''healthz'', Readyz ''readyz'', Started]"

text \<open>A start that follows the protocol: the calls are made in order, up to the first failure.\<close>

definition fail_stop :: "trace \<Rightarrow> status \<Rightarrow> bool" where
  "fail_stop tr st \<longleftrightarrow>
     prefix (map fst tr) startup_calls \<and> tr \<noteq> [] \<and> list_all (\<lambda>c. snd c = None) (butlast tr) \<and>
     (if snd (last tr) = None then st = Return \<and> map fst tr = startup_calls else st = Exit 1)"

type_synonym 'm setup_stmt = "manager_call \<times> string \<times> string option \<times> ('m \<Rightarrow> goerr option \<times> 'm)"

abbreviation watched_stmt :: "'m setup_stmt \<Rightarrow> ('m \<times> trace) stmt" where
  "watched_stmt \<equiv> \<lambda>(c, msg, ctl, act). Try msg ctl (noted c act)"

abbreviation made :: "'m setup_stmt list \<Rightarrow> trace" where
  "made cs \<equiv> map (\<lambda>x. (fst x, None)) cs"

lemma noted_at: "noted c act (m, tr) = (fst (act m), snd (act m), tr @ [(c, fst (act m))])"
  by (simp add: noted_def split_beta)

lemma map_sum_Inr: "map_sum id f r = Inr x \<longleftrightarrow> (\<exists>m. r = Inr m \<and> x = f m)"
  by (cases r) auto

lemma run_noted:
  assumes "run_stmts (map watched_stmt cs @ sts) lg (m, tr) = (st, lg', m', tr')"
  shows "(\<exists>k < length cs. \<exists>e. tr' = tr @ made (take k cs) @ [(fst (cs ! k), Some e)] \<and> st = Exit 1) \<or>
    (\<exists>m1. run_stmts sts lg (m1, tr @ made cs) = (st, lg', m', tr'))"
  using assms
proof (induction cs arbitrary: m tr)
  case (Cons x cs)
  obtain c msg ctl act where x: "x = (c, msg, ctl, act)" by (cases x)
  obtain e m1 where act: "act m = (e, m1)" by (cases "act m")
  show ?case
  proof (cases e)
    case (Some err)
    with Cons.prems act have "tr' = tr @ [(c, Some err)] \<and> st = Exit 1" by (auto simp: x noted_at)
    then show ?thesis by (auto simp: x intro!: exI [of _ 0])
  next
    case None
    with Cons.prems act have "run_stmts (map watched_stmt cs @ sts) lg (m1, tr @ [(c, None)]) = (st, lg', m', tr')"
      by (simp add: x noted_at)
    from Cons.IH [OF this] show ?thesis
    proof (elim disjE exE conjE)
      fix k err assume "k < length cs" "tr' = (tr @ [(c, None)]) @ made (take k cs) @ [(fst (cs ! k), Some err)]" "st = Exit 1"
      then show ?thesis by (intro disjI1 exI [of _ "Suc k"]) (auto simp: x)
    qed (auto simp: x)
  qed
qed auto

lemma watched_simps [simp]:
  "init_scheme (watched fw) = init_scheme fw"
  "fw_GetConfigOrDie (watched fw) = fw_GetConfigOrDie fw"
  "fw_NewManager (watched fw) conf opts = map_sum id (\<lambda>m. (m, [])) (fw_NewManager fw conf opts)"
  by (simp_all add: init_scheme_def watched_def split: prod.split option.split)

text \<open>The statements of \<open>main\<close> up to the \<open>Info\<close> line, with the call each of them makes.\<close>

definition setup_stmts :: "('s, 'c, 'm) framework \<Rightarrow> 'm setup_stmt list" where
  "setup_stmts fw =
     map (\<lambda>reg. (Completed reg, ''Failed to create controller'', Some (reg_Named reg), fw_Complete fw reg)) (controllers 0 0) @
     [(Healthz ''healthz'', ''Failed to set up health check'', None, fw_AddHealthzCheck fw ''healthz''),
      (Readyz ''readyz'', ''Failed to set up ready check'', None, fw_AddReadyzCheck fw ''readyz'')]"

lemma main_stmts_watched:
  "main_stmts (watched fw) 0 0 =
     map watched_stmt (setup_stmts fw) @
     [Log ''Starting manager'', Try ''Failed to run manager'' None (noted Started (fw_Start fw))]"
  by (simp add: main_stmts_def setup_stmts_def controllers_def watched_def Let_def
      KeycloakConnectionReconciler_SetupWithManager_def RealmReconciler_SetupWithManager_def
      ClientReconciler_SetupWithManager_def ClientScopeReconciler_SetupWithManager_def
      RealmRoleReconciler_SetupWithManager_def IdentityProviderReconciler_SetupWithManager_def
      GroupReconciler_SetupWithManager_def)

lemma setup_calls: "startup_calls = map fst (setup_stmts fw) @ [Started]"
  by (simp add: setup_stmts_def startup_calls_def)

lemma run_main_stmts:
  assumes "run_stmts (main_stmts (watched fw) 0 0) lg (m, []) = (st, lg', m', tr)"
  shows "fail_stop tr st"
  using run_noted [OF assms [unfolded main_stmts_watched]]
proof (elim disjE exE conjE)
  fix k e assume k: "k < length (setup_stmts fw)" "st = Exit 1"
    and tr: "tr = [] @ made (take k (setup_stmts fw)) @ [(fst (setup_stmts fw ! k), Some e)]"
  have "map fst tr = take (Suc k) (map fst (setup_stmts fw))"
    using k(1) tr by (simp add: take_Suc_conv_app_nth take_map)
  then have "prefix (map fst tr) startup_calls"
    by (simp add: setup_calls [of fw] take_is_prefix)
  with k tr show ?thesis by (simp add: fail_stop_def list_all_iff)
next
  fix m1 assume "run_stmts [Log ''Starting manager'', Try ''Failed to run manager'' None (noted Started (fw_Start fw))] lg
      (m1, [] @ made (setup_stmts fw)) = (st, lg', m', tr)"
  then show ?thesis
    by (auto simp: noted_at fail_stop_def list_all_iff setup_calls [of fw] split: prod.splits option.splits)
qed

text \<open>The list \<open>controllers\<close> is what the statements of \<open>main\<close> register, when every call succeeds.\<close>

definition accepting :: "(unit, unit, unit) framework" where
  "accepting = \<lparr>fw_NewScheme = (), fw_clientgo_AddToScheme = (\<lambda>s. (None, s)), fw_AddToScheme = (\<lambda>g ts s. (None, s)),
     fw_GetConfigOrDie = Inr (), fw_NewManager = (\<lambda>c opts. Inr ()), fw_Complete = (\<lambda>reg m. (None, m)),
     fw_AddHealthzCheck = (\<lambda>n m. (None, m)), fw_AddReadyzCheck = (\<lambda>n m. (None, m)), fw_Start = (\<lambda>m. (None, m))\<rparr>"

lemma controllers_registered:
  "map fst (snd (snd (snd (run_stmts (main_stmts (watched accepting) p e) [] ((), []))))) =
     map Completed (controllers p e) @ [Healthz ''healthz'', Readyz ''readyz'', Started]"
  by (simp add: main_stmts_def controllers_def accepting_def watched_def noted_def Let_def
      KeycloakConnectionReconciler_SetupWithManager_def RealmReconciler_SetupWithManager_def
      ClientReconciler_SetupWithManager_def ClientScopeReconciler_SetupWithManager_def
      RealmRoleReconciler_SetupWithManager_def IdentityProviderReconciler_SetupWithManager_def
      GroupReconciler_SetupWithManager_def)

text \<open>What the process decides before there is a manager: the flags it starts with.\<close>

definition starts_with :: "('s, 'c, 'm) framework \<Rightarrow> (string \<times> 'z flags formal) list \<Rightarrow> 'z \<Rightarrow> string list \<Rightarrow> 's \<Rightarrow> 'z flags \<Rightarrow> bool" where
  "starts_with fw zap z args scheme fl \<longleftrightarrow>
     init_scheme fw = Inr scheme \<and> distinct (map fst (main_flags @ zap)) \<and>
     (\<exists>rest. Parse (main_flags @ zap) args (default_flags z) = Parsed fl rest)"

lemma operator_main_started:
  "starts_with fw zap z args scheme fl \<Longrightarrow>
   operator_main fw b zap z args = (if showVersion fl then stopped Return [version_String b] [] else run_manager fw fl scheme)"
  by (auto simp: starts_with_def operator_main_def)

lemma operator_main_not_started:
  "\<nexists>scheme fl. starts_with fw zap z args scheme fl \<Longrightarrow>
   \<exists>st. operator_main fw b zap z args = stopped st [] [] \<and> st \<noteq> Return"
  by (auto simp: starts_with_def operator_main_def split: sum.split parsed.split)

lemma run_manager_watched:
  assumes "pr_manager (run_manager (watched fw) fl scheme) = Some (m, tr)"
  shows "fail_stop tr (pr_status (run_manager (watched fw) fl scheme))"
    and "pr_objects (run_manager (watched fw) fl scheme) = \<lparr>providers = [NewProvider],
      engines = [\<lparr>ea_provider = 0, ea_recorder = ''keycloak-operator'', ea_resync = resyncPeriod fl\<rparr>]\<rparr>"
    and "\<exists>conf mgr. fw_GetConfigOrDie fw = Inr conf \<and> fw_NewManager fw conf (managerOptions scheme fl) = Inr mgr"
proof -
  from assms obtain conf mgr where mgr: "fw_GetConfigOrDie fw = Inr conf" "fw_NewManager fw conf (managerOptions scheme fl) = Inr mgr"
    by (auto simp: run_manager_def stopped_def map_sum_Inr split: sum.splits)
  obtain st lg m' tr' where run: "run_stmts (main_stmts (watched fw) 0 0) (cert_logs fl) (mgr, []) = (st, lg, m', tr')"
    by (metis prod_cases3 surj_pair)
  have "run_manager (watched fw) fl scheme =
      \<lparr>pr_status = st, pr_stderr = [], pr_log = lg, pr_objects = \<lparr>providers = [NewProvider],
        engines = [\<lparr>ea_provider = 0, ea_recorder = ''keycloak-operator'', ea_resync = resyncPeriod fl\<rparr>]\<rparr>,
        pr_manager = Some (m', tr')\<rparr>"
    using mgr run by (simp add: run_manager_def)
  with run_main_stmts [OF run] assms mgr show "fail_stop tr (pr_status (run_manager (watched fw) fl scheme))"
    "pr_objects (run_manager (watched fw) fl scheme) = \<lparr>providers = [NewProvider],
      engines = [\<lparr>ea_provider = 0, ea_recorder = ''keycloak-operator'', ea_resync = resyncPeriod fl\<rparr>]\<rparr>"
    "\<exists>conf mgr. fw_GetConfigOrDie fw = Inr conf \<and> fw_NewManager fw conf (managerOptions scheme fl) = Inr mgr"
    by auto
qed

lemma run_manager_made:
  assumes "fw_GetConfigOrDie fw = Inr conf" and "fw_NewManager fw conf (managerOptions scheme fl) = Inr mgr"
  shows "pr_manager (run_manager (watched fw) fl scheme) \<noteq> None"
  using assms by (simp add: run_manager_def split: prod.split)

lemma run_manager_none:
  "pr_stderr (run_manager fw fl scheme) = [] \<and>
   (pr_manager (run_manager fw fl scheme) = None \<longrightarrow> pr_objects (run_manager fw fl scheme) = \<lparr>providers = [], engines = []\<rparr> \<and>
      pr_status (run_manager fw fl scheme) \<noteq> Return)"
  by (auto simp: run_manager_def stopped_def Let_def split: sum.split prod.split)

text \<open>
  C18: The start is fail-stop and complete. The version is printed, and nothing else is done,
  exactly when the types could be registered, the command line was accepted and asks for it. A
  manager is made exactly when the command line does not, a cluster configuration was found
  and the framework accepts the options of the flags. Then the calls on it are a prefix of: the seven
  controllers in order, the two probes, the start; every call before the last one succeeded, the process exits with 1 when
  the last one failed, and otherwise it has made them all and returns. All controllers use
  the one provider and the one engine that \<open>main\<close> created, and that engine has the same
  provider and the resync period of the flags. In every other case nothing was created, and
  the process does not end normally.
\<close>
theorem startup_fail_stop:
  "case operator_main (watched fw) b zap z args of pr \<Rightarrow>
    (pr_stderr pr = (if \<exists>scheme fl. starts_with fw zap z args scheme fl \<and> showVersion fl then [version_String b] else [])) \<and>
    (pr_manager pr \<noteq> None \<longleftrightarrow>
       (\<exists>scheme fl conf mgr. starts_with fw zap z args scheme fl \<and> \<not> showVersion fl \<and>
          fw_GetConfigOrDie fw = Inr conf \<and> fw_NewManager fw conf (managerOptions scheme fl) = Inr mgr)) \<and>
    (case pr_manager pr of
       None \<Rightarrow> pr_objects pr = \<lparr>providers = [], engines = []\<rparr> \<and> (pr_status pr = Return \<longleftrightarrow> pr_stderr pr \<noteq> [])
     | Some (m, tr) \<Rightarrow>
         fail_stop tr (pr_status pr) \<and>
         (\<exists>scheme fl. starts_with fw zap z args scheme fl \<and>
            pr_objects pr = \<lparr>providers = [NewProvider],
              engines = [\<lparr>ea_provider = 0, ea_recorder = ''keycloak-operator'', ea_resync = resyncPeriod fl\<rparr>]\<rparr>))"
proof (cases "\<exists>scheme fl. starts_with fw zap z args scheme fl")
  case False
  then have "\<nexists>scheme fl. starts_with (watched fw) zap z args scheme fl" by (simp add: starts_with_def)
  from operator_main_not_started [OF this, of b] False show ?thesis by (auto simp: stopped_def)
next
  case True
  then obtain scheme fl where start: "starts_with fw zap z args scheme fl" by blast
  then have only: "starts_with fw zap z args s f \<longleftrightarrow> s = scheme \<and> f = fl" for s f by (auto simp: starts_with_def)
  have run: "operator_main (watched fw) b zap z args =
      (if showVersion fl then stopped Return [version_String b] [] else run_manager (watched fw) fl scheme)"
    by (rule operator_main_started) (use start in \<open>simp add: starts_with_def\<close>)
  show ?thesis
  proof (cases "showVersion fl")
    case False
    let ?pr = "run_manager (watched fw) fl scheme"
    have made: "pr_manager ?pr \<noteq> None \<longleftrightarrow>
        (\<exists>conf mgr. fw_GetConfigOrDie fw = Inr conf \<and> fw_NewManager fw conf (managerOptions scheme fl) = Inr mgr)"
      using run_manager_watched(3) [of fw fl scheme] run_manager_made [of fw _ scheme fl] by force
    show ?thesis
    proof (cases "pr_manager ?pr")
      case None
      with made run_manager_none [of "watched fw" fl scheme] show ?thesis by (simp add: run False only)
    next
      case (Some mt)
      obtain m tr where mt: "mt = (m, tr)" by fastforce
      from run_manager_watched(1,2) [OF Some [unfolded mt]] made run_manager_none [of "watched fw" fl scheme] Some mt
      show ?thesis by (simp add: run False only)
    qed
  qed (simp add: run only stopped_def)
qed

theorem startup_fail_stop_witness:
  "case operator_main (watched accepting) (dev_build ''go1.26'') [] () [''--leader-elect''] of pr \<Rightarrow>
    \<exists>m tr. pr_manager pr = Some (m, tr) \<and> map fst tr = startup_calls \<and> pr_status pr = Return \<and> pr_stderr pr = [] \<and>
      pr_objects pr = \<lparr>providers = [NewProvider],
        engines = [\<lparr>ea_provider = 0, ea_recorder = ''keycloak-operator'', ea_resync = DefaultResync\<rparr>]\<rparr>"
proof -
  let ?args = "[''--leader-elect'']"
  let ?pr = "operator_main (watched accepting) (dev_build ''go1.26'') [] () ?args"
  have flags: "distinct (map fst (main_flags :: (string \<times> unit flags formal) list))" by code_simp
  have parse: "Parse (main_flags @ []) ?args (default_flags ()) =
      Parsed ((default_flags ())\<lparr>enableLeaderElection := True\<rparr>) []" by code_simp
  have init: "init_scheme accepting = Inr ()" by (simp add: init_scheme_def accepting_def)
  have start: "starts_with accepting [] () ?args s f \<longleftrightarrow>
      f = (default_flags ())\<lparr>enableLeaderElection := True\<rparr>" for s f
    using flags parse init by (auto simp: starts_with_def)
  have shown: "\<not> showVersion ((default_flags ())\<lparr>enableLeaderElection := True\<rparr>)"
    by (simp add: default_flags_def)
  have "fw_GetConfigOrDie accepting = Inr ()" "fw_NewManager accepting c opts = Inr ()" for c opts
    by (simp_all add: accepting_def)
  with startup_fail_stop [of accepting "dev_build ''go1.26''" "[]" "()" ?args] start shown
  obtain m tr where pr: "pr_manager ?pr = Some (m, tr)" "fail_stop tr (pr_status ?pr)" "pr_stderr ?pr = []"
    "pr_objects ?pr = \<lparr>providers = [NewProvider],
      engines = [\<lparr>ea_provider = 0, ea_recorder = ''keycloak-operator'', ea_resync = DefaultResync\<rparr>]\<rparr>"
    by (auto simp: default_flags_def split: option.splits)
  moreover have "pr_status ?pr = Return" by code_simp
  ultimately show ?thesis by (auto simp: fail_stop_def split: if_splits)
qed

text \<open>
  What the command line makes of the servers. HTTP/2 is negotiated only when it is enabled:
  otherwise the TLS options of both servers leave \<open>http/1.1\<close> as the only protocol, whatever
  the configuration was before. The metrics are served over HTTPS, and then only to requests that
  are authenticated and authorised, exactly when \<open>--metrics-secure\<close> is set. Each server reads certificates from a directory exactly when
  its own path is given, and then with its own file names. Every kind that a controller
  watches, with its list, is among the types registered for the scheme, and no two
  controllers share a name or a kind.
\<close>
lemma servers_follow_flags:
  "case managerOptions scheme fl of mo \<Rightarrow>
    (case (mo_Metrics mo, mo_WebhookServer mo) of (ms, wh) \<Rightarrow>
      NextProtos (fold (\<lambda>opt. opt) (ms_TLSOpts ms) c) = (if enableHTTP2 fl then NextProtos c else [''http/1.1'']) \<and>
      NextProtos (fold (\<lambda>opt. opt) (wh_TLSOpts wh) c) = (if enableHTTP2 fl then NextProtos c else [''http/1.1'']) \<and>
      ms_SecureServing ms = secureMetrics fl \<and>
      ms_FilterProvider ms = (if secureMetrics fl then Some WithAuthenticationAndAuthorization else None) \<and>
      (ms_CertDir ms, ms_CertName ms, ms_KeyName ms) =
        (if metricsCertPath fl = [] then ([], [], []) else (metricsCertPath fl, metricsCertName fl, metricsCertKey fl)) \<and>
      (wh_CertDir wh, wh_CertName wh, wh_KeyName wh) =
        (if webhookCertPath fl = [] then ([], [], []) else (webhookCertPath fl, webhookCertName fl, webhookCertKey fl))) \<and>
    set SchemeBuilder = (\<Union>reg \<in> set (controllers p e). {reg_For reg, reg_For reg @ ''List''}) \<and>
    distinct (map reg_For (controllers p e)) \<and> distinct (map reg_Named (controllers p e))"
proof -
  have kinds: "set SchemeBuilder = (\<Union>reg \<in> set (controllers p e). {reg_For reg, reg_For reg @ ''List''})"
    by (auto simp: SchemeBuilder_def client_types_init_def clientscope_types_init_def group_types_init_def
        identityprovider_types_init_def keycloakconnection_types_init_def realm_types_init_def realmrole_types_init_def
        controllers_def)
  have names: "distinct (map reg_For (controllers p e))" "distinct (map reg_Named (controllers p e))"
    by (simp_all add: controllers_def)
  show ?thesis
    by (simp add: kinds names managerOptions_def metricsServerOptions_def webhookServerOptions_def tlsOpts_def
        disableHTTP2_def Let_def)
qed

end
