(* ===== verification/Simulation.thy ===== *)
theory Simulation
  imports Realm_Driver Client_Driver Role_Driver Idp_Driver Group_Driver
begin

text \<open>
  What a reconciliation does depends on the server only through the calls of its client. The
  relation \<open>sim R\<close> says that two state transformers on different worlds give the same result
  and keep the worlds related by \<open>R\<close>; two clients are in simulation when each of their
  calls is. Every operation of \<open>resources.go\<close>, every helper and every driver maps clients in
  simulation to transformers in simulation (the locale \<open>driver_pair\<close>), and so does a whole
  pass of the engine. An invariant of the calls is therefore an invariant of the pass, and a
  pass that is observed through a recording client is the pass itself.
\<close>

named_theorems sims "simulation of the operations"

section \<open>Simulation of state transformers\<close>

definition sim :: "('w \<Rightarrow> 'v \<Rightarrow> bool) \<Rightarrow> ('w \<Rightarrow> 'a \<times> 'w) \<Rightarrow> ('v \<Rightarrow> 'a \<times> 'v) \<Rightarrow> bool" where
  "sim R f g \<longleftrightarrow> (\<forall>w v. R w v \<longrightarrow> fst (f w) = fst (g v) \<and> R (snd (f w)) (snd (g v)))"

definition kc_sim :: "('w \<Rightarrow> 'v \<Rightarrow> bool) \<Rightarrow> 'w kc \<Rightarrow> 'v kc \<Rightarrow> bool" where
  "kc_sim R kc kc' \<longleftrightarrow> (\<forall>meth path body target. sim R (kc meth path body target) (kc' meth path body target))"

lemma simD:
  assumes "sim R f g" and "R w v"
  shows "fst (f w) = fst (g v)" and "R (snd (f w)) (snd (g v))"
  using assms by (simp_all add: sim_def)

lemma simE:
  assumes "sim R f g" and "R w v" and "f w = (x, w')"
  obtains v' where "g v = (x, v')" and "R w' v'"
  using simD [OF assms(1,2)] assms(3) by (cases "g v") simp

lemma sim_return [sims]: "sim R (\<lambda>w. (x, w)) (\<lambda>w. (x, w))"
  by (simp add: sim_def)

lemma sim_kc:
  "kc_sim R kc kc' \<Longrightarrow> sim R (kc meth path body target) (kc' meth path body target)"
  "kc_sim R kc kc' \<Longrightarrow> sim R (\<lambda>w. kc meth path body target w) (\<lambda>w. kc' meth path body target w)"
  by (simp_all add: kc_sim_def)

lemma sim_map_result [sims]:
  "sim R f g \<Longrightarrow> sim R (\<lambda>w. map_result h (f w)) (\<lambda>w. map_result h (g w))"
  by (fastforce simp: sim_def map_result_def split: prod.splits sum.splits)

lemma sim_no_result [sims]:
  "sim R f g \<Longrightarrow> sim R (\<lambda>w. no_result (f w)) (\<lambda>w. no_result (g w))"
  by (fastforce simp: sim_def no_result_def split: prod.splits sum.splits)

lemma sim_bind [sims]:
  assumes "sim R f f'" and "\<And>r. sim R (g r) (g' r)"
  shows "sim R (\<lambda>w. case f w of (r, w1) \<Rightarrow> g r w1) (\<lambda>w. case f' w of (r, w1) \<Rightarrow> g' r w1)"
  using assms by (simp add: sim_def split_beta)

lemma sim_pair [sims]:
  "(\<And>a b. sim R (f a b) (g a b)) \<Longrightarrow> sim R (\<lambda>w. case p of (a, b) \<Rightarrow> f a b w) (\<lambda>w. case p of (a, b) \<Rightarrow> g a b w)"
  by (cases p) simp

lemma sim_sum [sims]:
  "(\<And>e. sim R (f e) (f' e)) \<Longrightarrow> (\<And>x. sim R (g x) (g' x)) \<Longrightarrow>
   sim R (\<lambda>w. case r of Inl e \<Rightarrow> f e w | Inr x \<Rightarrow> g x w) (\<lambda>w. case r of Inl e \<Rightarrow> f' e w | Inr x \<Rightarrow> g' x w)"
  by (cases r) simp_all

lemma sim_option [sims]:
  "sim R f f' \<Longrightarrow> (\<And>x. sim R (g x) (g' x)) \<Longrightarrow>
   sim R (\<lambda>w. case r of None \<Rightarrow> f w | Some x \<Rightarrow> g x w) (\<lambda>w. case r of None \<Rightarrow> f' w | Some x \<Rightarrow> g' x w)"
  by (cases r) simp_all

lemma sim_if [sims]:
  "sim R f f' \<Longrightarrow> sim R g g' \<Longrightarrow> sim R (\<lambda>w. if b then f w else g w) (\<lambda>w. if b then f' w else g' w)"
  by (cases b) simp_all

lemma sim_bool [sims]:
  "sim R f f' \<Longrightarrow> sim R g g' \<Longrightarrow>
   sim R (\<lambda>w. case b of True \<Rightarrow> f w | False \<Rightarrow> g w) (\<lambda>w. case b of True \<Rightarrow> f' w | False \<Rightarrow> g' w)"
  by (cases b) simp_all

lemma sim_Let [sims]: "(\<And>x. sim R (f x) (g x)) \<Longrightarrow> sim R (\<lambda>w. let x = v in f x w) (\<lambda>w. let x = v in g x w)"
  by simp

section \<open>The operations of two clients in simulation\<close>

lemmas resource_defs =
  GetRealm_def CreateRealm_def UpdateRealm_def DeleteRealm_def CreateClient_def UpdateClient_def DeleteClient_def
  GetClientSecret_def ListClientScopes_def CreateClientScope_def UpdateClientScope_def DeleteClientScope_def
  ClientDefaultScopeAssignments_def ClientOptionalScopeAssignments_def listClientScopeAssignments_def
  AssignClientDefaultScope_def AssignClientOptionalScope_def assignClientScope_def
  GetRole_def CreateRole_def UpdateRole_def DeleteRole_def GetRoleComposites_def AddRoleComposites_def
  RemoveRoleComposites_def GetClientRole_def GetIdentityProvider_def CreateIdentityProvider_def
  UpdateIdentityProvider_def DeleteIdentityProvider_def ListIdentityProviderMappers_def
  CreateIdentityProviderMapper_def UpdateIdentityProviderMapper_def DeleteIdentityProviderMapper_def
  GetGroup_def CreateGroup_def UpdateGroup_def DeleteGroup_def GetGroupRoleMappings_def AddGroupRealmRoles_def
  RemoveGroupRealmRoles_def AddGroupClientRoles_def RemoveGroupClientRoles_def

locale kc_pair =
  fixes R :: "'w \<Rightarrow> 'v \<Rightarrow> bool" and kc :: "'w kc" and kc' :: "'v kc"
  assumes calls: "kc_sim R kc kc'"
begin

lemmas call_sims = sim_kc [OF calls]

lemma resource_sims:
  "sim R (GetRealm kc realm) (GetRealm kc' realm)"
  "sim R (CreateRealm kc payload) (CreateRealm kc' payload)"
  "sim R (UpdateRealm kc realm payload) (UpdateRealm kc' realm payload)"
  "sim R (DeleteRealm kc realm) (DeleteRealm kc' realm)"
  "sim R (CreateClient kc realm payload) (CreateClient kc' realm payload)"
  "sim R (UpdateClient kc realm ident payload) (UpdateClient kc' realm ident payload)"
  "sim R (DeleteClient kc realm ident) (DeleteClient kc' realm ident)"
  "sim R (GetClientSecret kc realm ident) (GetClientSecret kc' realm ident)"
  "sim R (ListClientScopes kc realm) (ListClientScopes kc' realm)"
  "sim R (CreateClientScope kc realm payload) (CreateClientScope kc' realm payload)"
  "sim R (UpdateClientScope kc realm ident payload) (UpdateClientScope kc' realm ident payload)"
  "sim R (DeleteClientScope kc realm ident) (DeleteClientScope kc' realm ident)"
  "sim R (ClientDefaultScopeAssignments kc realm ident) (ClientDefaultScopeAssignments kc' realm ident)"
  "sim R (ClientOptionalScopeAssignments kc realm ident) (ClientOptionalScopeAssignments kc' realm ident)"
  "sim R (AssignClientDefaultScope kc realm ident scope add) (AssignClientDefaultScope kc' realm ident scope add)"
  "sim R (AssignClientOptionalScope kc realm ident scope add) (AssignClientOptionalScope kc' realm ident scope add)"
  "sim R (GetRole kc realm name) (GetRole kc' realm name)"
  "sim R (CreateRole kc realm payload) (CreateRole kc' realm payload)"
  "sim R (UpdateRole kc realm name payload) (UpdateRole kc' realm name payload)"
  "sim R (DeleteRole kc realm name) (DeleteRole kc' realm name)"
  "sim R (GetRoleComposites kc realm name) (GetRoleComposites kc' realm name)"
  "sim R (AddRoleComposites kc realm name roles) (AddRoleComposites kc' realm name roles)"
  "sim R (RemoveRoleComposites kc realm name roles) (RemoveRoleComposites kc' realm name roles)"
  "sim R (GetClientRole kc realm ident name) (GetClientRole kc' realm ident name)"
  "sim R (GetIdentityProvider kc realm name) (GetIdentityProvider kc' realm name)"
  "sim R (CreateIdentityProvider kc realm payload) (CreateIdentityProvider kc' realm payload)"
  "sim R (UpdateIdentityProvider kc realm name payload) (UpdateIdentityProvider kc' realm name payload)"
  "sim R (DeleteIdentityProvider kc realm name) (DeleteIdentityProvider kc' realm name)"
  "sim R (ListIdentityProviderMappers kc realm name) (ListIdentityProviderMappers kc' realm name)"
  "sim R (CreateIdentityProviderMapper kc realm name payload) (CreateIdentityProviderMapper kc' realm name payload)"
  "sim R (UpdateIdentityProviderMapper kc realm name ident payload) (UpdateIdentityProviderMapper kc' realm name ident payload)"
  "sim R (DeleteIdentityProviderMapper kc realm name ident) (DeleteIdentityProviderMapper kc' realm name ident)"
  "sim R (GetGroup kc realm ident) (GetGroup kc' realm ident)"
  "sim R (CreateGroup kc realm payload) (CreateGroup kc' realm payload)"
  "sim R (UpdateGroup kc realm ident payload) (UpdateGroup kc' realm ident payload)"
  "sim R (DeleteGroup kc realm ident) (DeleteGroup kc' realm ident)"
  "sim R (GetGroupRoleMappings kc realm ident) (GetGroupRoleMappings kc' realm ident)"
  "sim R (AddGroupRealmRoles kc realm ident roles) (AddGroupRealmRoles kc' realm ident roles)"
  "sim R (RemoveGroupRealmRoles kc realm ident roles) (RemoveGroupRealmRoles kc' realm ident roles)"
  "sim R (AddGroupClientRoles kc realm ident uuid roles) (AddGroupClientRoles kc' realm ident uuid roles)"
  "sim R (RemoveGroupClientRoles kc realm ident uuid roles) (RemoveGroupClientRoles kc' realm ident uuid roles)"
  unfolding resource_defs [abs_def] by (intro sims call_sims)+

lemma find_sims:
  "sim R (FindClient kc realm clientID) (FindClient kc' realm clientID)"
  "sim R (FindClientScope kc realm name) (FindClientScope kc' realm name)"
  "sim R (FindGroup kc realm name) (FindGroup kc' realm name)"
  unfolding FindClient_def [abs_def] FindClientScope_def [abs_def] FindGroup_def [abs_def]
  by (intro sims call_sims resource_sims)+

lemma resolve_sims:
  "sim R (resolveRealmRoles kc realm names) (resolveRealmRoles kc' realm names)"
  "sim R (clientRoleReps kc realm clientID uuid names) (clientRoleReps kc' realm clientID uuid names)"
proof -
  show "sim R (resolveRealmRoles kc realm names) (resolveRealmRoles kc' realm names)"
  proof (induction names)
    case (Cons n ns)
    have "sim R (\<lambda>w. resolveRealmRoles kc realm (n # ns) w) (\<lambda>w. resolveRealmRoles kc' realm (n # ns) w)"
      unfolding resolveRealmRoles.simps by (intro sims resource_sims Cons)
    then show ?case .
  qed (simp add: sim_def)
  show "sim R (clientRoleReps kc realm clientID uuid names) (clientRoleReps kc' realm clientID uuid names)"
  proof (induction names)
    case (Cons n ns)
    have "sim R (\<lambda>w. clientRoleReps kc realm clientID uuid (n # ns) w) (\<lambda>w. clientRoleReps kc' realm clientID uuid (n # ns) w)"
      unfolding clientRoleReps.simps by (intro sims resource_sims Cons)
    then show ?case .
  qed (simp add: sim_def)
qed

lemma client_roles_sim: "sim R (resolveClientRoles kc realm clientID names) (resolveClientRoles kc' realm clientID names)"
  unfolding resolveClientRoles_def [abs_def] by (intro sims find_sims resolve_sims)

lemma scope_loops:
  assumes "\<And>i b. sim R (assign i b) (assign' i b)"
  shows "sim R (addScopes assign realm ids names) (addScopes assign' realm ids names)"
    and "sim R (removeScopes assign ids names) (removeScopes assign' ids names)"
proof -
  show "sim R (addScopes assign realm ids names) (addScopes assign' realm ids names)"
  proof (induction names)
    case (Cons n ns)
    have "sim R (\<lambda>w. addScopes assign realm ids (n # ns) w) (\<lambda>w. addScopes assign' realm ids (n # ns) w)"
      unfolding addScopes.simps by (intro sims assms Cons)
    then show ?case .
  qed (simp add: sim_def)
  show "sim R (removeScopes assign ids names) (removeScopes assign' ids names)"
  proof (induction names)
    case (Cons n ns)
    have "sim R (\<lambda>w. removeScopes assign ids (n # ns) w) (\<lambda>w. removeScopes assign' ids (n # ns) w)"
      unfolding removeScopes.simps by (intro sims assms Cons)
    then show ?case .
  qed (simp add: sim_def)
qed

lemma scope_assignments_sim:
  "sim R (enforceScopeAssignments rng kc realm clientID names optional)
     (enforceScopeAssignments rng kc' realm clientID names optional)"
  unfolding enforceScopeAssignments_def [abs_def] Let_def
  by (cases optional; simp only: if_True if_False simp_thms)
    (intro sims resource_sims scope_loops)+

lemma client_post_sim: "sim R (ClientDriver_PostApply rng kc K obj remote k) (ClientDriver_PostApply rng kc' K obj remote k)"
proof -
  have scopes: "sim R (enforceScopes rng kc obj ident optional) (enforceScopes rng kc' obj ident optional)" for obj ident optional
    unfolding enforceScopes_def [abs_def] by (intro sims scope_assignments_sim)
  have export: "sim R (exportSecret kc K obj ident k) (exportSecret kc' K obj ident k)" for ident k
    unfolding exportSecret_def [abs_def] by (intro sims resource_sims)
  show ?thesis
    unfolding ClientDriver_PostApply_def [abs_def] by (intro sims scopes export)
qed

lemma delete_found_sim:
  assumes "sim R f f'" and "\<And>i. sim R (del i) (del' i)"
  shows "sim R (\<lambda>w. delete_found del (f w)) (\<lambda>w. delete_found del' (f' w))"
  unfolding delete_found_def by (intro sims assms)

lemma role_post_sim: "sim R (RealmRoleDriver_PostApply rng kc K obj remote k) (RealmRoleDriver_PostApply rng kc' K obj remote k)"
proof -
  have clients: "sim R (compositeClientRoles kc realm comps) (compositeClientRoles kc' realm comps)" for realm comps
  proof (induction comps)
    case (Cons p comps)
    obtain c roles where p: "p = (c, roles)" by (cases p)
    have "sim R (\<lambda>w. compositeClientRoles kc realm ((c, roles) # comps) w) (\<lambda>w. compositeClientRoles kc' realm ((c, roles) # comps) w)"
      unfolding compositeClientRoles.simps by (intro sims client_roles_sim Cons)
    then show ?case by (simp add: p)
  qed (simp add: sim_def)
  have desired: "sim R (desiredComposites rng kc s) (desiredComposites rng kc' s)" for s
    unfolding desiredComposites_def [abs_def]
    by (intro sims resolve_sims clients)
  have run: "sim R (applyComposites kc realm name add rem) (applyComposites kc' realm name add rem)" for realm name add rem
    unfolding applyComposites_def [abs_def] by (intro sims resource_sims)
  have enforce: "sim R (enforceComposites rng kc s) (enforceComposites rng kc' s)" for s
    unfolding enforceComposites_def [abs_def] by (intro sims resource_sims desired run)
  show ?thesis
    unfolding RealmRoleDriver_PostApply_def [abs_def] by (intro sims enforce)
qed

lemma idp_post_sim:
  "sim R (IdentityProviderDriver_PostApply rng kc K obj remote k) (IdentityProviderDriver_PostApply rng kc' K obj remote k)"
proof -
  have mapper: "sim R (applyMapper kc realm ia cur name m) (applyMapper kc' realm ia cur name m)" for realm ia cur name m
    unfolding applyMapper_def [abs_def] Let_def by (intro sims resource_sims)
  have apply_all: "sim R (applyMappers kc realm ia cur ms changed) (applyMappers kc' realm ia cur ms changed)"
    for realm ia cur ms changed
  proof (induction ms arbitrary: changed)
    case (Cons p ms)
    obtain n m where p: "p = (n, m)" by (cases p)
    have "sim R (\<lambda>w. applyMappers kc realm ia cur ((n, m) # ms) changed w) (\<lambda>w. applyMappers kc' realm ia cur ((n, m) # ms) changed w)"
      unfolding applyMappers.simps by (intro sims mapper Cons)
    then show ?case by (simp add: p)
  qed (simp add: sim_def)
  have delete_all: "sim R (deleteMappers kc realm ia des ms changed) (deleteMappers kc' realm ia des ms changed)"
    for realm ia des ms changed
  proof (induction ms arbitrary: changed)
    case (Cons p ms)
    obtain n m where p: "p = (n, m)" by (cases p)
    have "sim R (\<lambda>w. deleteMappers kc realm ia des ((n, m) # ms) changed w) (\<lambda>w. deleteMappers kc' realm ia des ((n, m) # ms) changed w)"
      unfolding deleteMappers.simps by (intro sims resource_sims Cons)
    then show ?case by (simp add: p)
  qed (simp add: sim_def)
  have enforce: "sim R (enforceMappers rng kc s) (enforceMappers rng kc' s)" for s
    unfolding enforceMappers_def [abs_def] Let_def by (intro sims resource_sims apply_all delete_all)
  show ?thesis
    unfolding IdentityProviderDriver_PostApply_def [abs_def] by (intro sims enforce)
qed

lemma role_diff_sim:
  assumes "\<And>rs. sim R (add rs) (add' rs)" and "\<And>rs. sim R (rem rs) (rem' rs)"
  shows "sim R (applyRoleDiff rng site desired current add rem) (applyRoleDiff rng site desired current add' rem')"
  unfolding applyRoleDiff_def [abs_def] by (intro sims assms)

lemma clientUUID_sim: "sim R (clientUUID kc realm clientID) (clientUUID kc' realm clientID)"
  unfolding clientUUID_def [abs_def] by (intro sims find_sims)

lemma client_mapping_loops:
  "sim R (dropClients kc realm gid desired ms changed) (dropClients kc' realm gid desired ms changed)"
  "sim R (applyClients rng kc realm gid cur cs changed) (applyClients rng kc' realm gid cur cs changed)"
proof -
  show "sim R (dropClients kc realm gid desired ms changed) (dropClients kc' realm gid desired ms changed)"
  proof (induction ms arbitrary: changed)
    case (Cons p ms)
    obtain n m where p: "p = (n, m)" by (cases p)
    have "sim R (\<lambda>w. dropClients kc realm gid desired ((n, m) # ms) changed w) (\<lambda>w. dropClients kc' realm gid desired ((n, m) # ms) changed w)"
      unfolding dropClients.simps by (intro sims resource_sims Cons)
    then show ?case by (simp add: p)
  qed (simp add: sim_def)
  show "sim R (applyClients rng kc realm gid cur cs changed) (applyClients rng kc' realm gid cur cs changed)"
  proof (induction cs arbitrary: changed)
    case (Cons p cs)
    obtain n m where p: "p = (n, m)" by (cases p)
    have "sim R (\<lambda>w. applyClients rng kc realm gid cur ((n, m) # cs) changed w) (\<lambda>w. applyClients rng kc' realm gid cur ((n, m) # cs) changed w)"
      unfolding applyClients.simps by (intro sims client_roles_sim clientUUID_sim role_diff_sim resource_sims Cons)
    then show ?case by (simp add: p)
  qed (simp add: sim_def)
qed

lemma group_post_sim: "sim R (GroupDriver_PostApply rng kc K obj remote k) (GroupDriver_PostApply rng kc' K obj remote k)"
proof -
  have realm: "sim R (enforceRealmMappings rng kc s gid m) (enforceRealmMappings rng kc' s gid m)" for s gid m
    unfolding enforceRealmMappings_def [abs_def] by (intro sims resolve_sims role_diff_sim resource_sims)
  have clients: "sim R (enforceClientMappings rng kc s gid m ch) (enforceClientMappings rng kc' s gid m ch)" for s gid m ch
    unfolding enforceClientMappings_def [abs_def] by (intro sims client_mapping_loops)
  have enforce: "sim R (enforceMappings rng kc s remote) (enforceMappings rng kc' s remote)" for s
    unfolding enforceMappings_def [abs_def] by (intro sims resource_sims realm clients)
  show ?thesis
    unfolding GroupDriver_PostApply_def [abs_def] by (intro sims enforce)
qed

end

section \<open>Drivers\<close>

text \<open>
  Two drivers of one kind on two worlds: the pure operations agree, and the operations that
  talk to the server are in simulation whenever the clients are.
\<close>

locale driver_pair =
  fixes drv :: "('w, 'k, 's) driver" and drv' :: "('v, 'k, 's) driver"
  assumes pure: "d_ID drv' = d_ID drv" "d_ManagedMarker drv' = d_ManagedMarker drv" "d_IsManaged drv' = d_IsManaged drv"
      "d_PreparePayload drv' = d_PreparePayload drv" "d_Protected drv' = d_Protected drv" "d_Spec drv' = d_Spec drv"
      "d_OperatorFields drv' = d_OperatorFields drv"
    and server: "\<And>R kc kc' obj. kc_pair R kc kc' \<Longrightarrow> sim R (d_Get drv kc obj) (d_Get drv' kc' obj)"
      "\<And>R kc kc' obj payload. kc_pair R kc kc' \<Longrightarrow> sim R (d_Create drv kc obj payload) (d_Create drv' kc' obj payload)"
      "\<And>R kc kc' obj ident payload. kc_pair R kc kc' \<Longrightarrow>
         sim R (d_Update drv kc obj ident payload) (d_Update drv' kc' obj ident payload)"
      "\<And>R kc kc' obj. kc_pair R kc kc' \<Longrightarrow> sim R (d_Delete drv kc obj) (d_Delete drv' kc' obj)"
      "\<And>R kc kc' K obj remote k. kc_pair R kc kc' \<Longrightarrow>
         sim R (d_PostApply drv kc K obj remote k) (d_PostApply drv' kc' K obj remote k)"

lemmas kc_pair_sims = kc_pair.resource_sims kc_pair.find_sims kc_pair.client_post_sim kc_pair.role_post_sim
  kc_pair.idp_post_sim kc_pair.group_post_sim

interpretation realm_pair: driver_pair "RealmDriver rng" "RealmDriver rng"
  by unfold_locales
    (simp_all add: RealmDriver_def RealmDriver_Get_def RealmDriver_Create_def RealmDriver_Update_def RealmDriver_Delete_def
      RealmDriver_PostApply_def [abs_def] kc_pair_sims sim_return)

interpretation client_pair: driver_pair "ClientDriver rng" "ClientDriver rng"
  by unfold_locales
    (simp_all add: ClientDriver_def ClientDriver_Get_def ClientDriver_Create_def ClientDriver_Update_def
      ClientDriver_Delete_def [abs_def] Let_def kc_pair_sims kc_pair.delete_found_sim)

interpretation scope_pair: driver_pair ClientScopeDriver ClientScopeDriver
  by unfold_locales
    (simp_all add: ClientScopeDriver_def ClientScopeDriver_Get_def ClientScopeDriver_Create_def ClientScopeDriver_Update_def
      ClientScopeDriver_Delete_def [abs_def] ClientScopeDriver_PostApply_def [abs_def] Let_def kc_pair_sims
      kc_pair.delete_found_sim sim_return)

interpretation role_pair: driver_pair "RealmRoleDriver rng" "RealmRoleDriver rng"
  by unfold_locales
    (simp_all add: RealmRoleDriver_def RealmRoleDriver_Get_def RealmRoleDriver_Create_def RealmRoleDriver_Update_def
      RealmRoleDriver_Delete_def Let_def kc_pair_sims)

interpretation idp_pair: driver_pair "IdentityProviderDriver rng" "IdentityProviderDriver rng"
  by unfold_locales
    (simp_all add: IdentityProviderDriver_def IdentityProviderDriver_Get_def IdentityProviderDriver_Create_def
      IdentityProviderDriver_Update_def IdentityProviderDriver_Delete_def Let_def kc_pair_sims)

interpretation group_pair: driver_pair "GroupDriver rng" "GroupDriver rng"
  by unfold_locales
    (simp_all add: GroupDriver_def GroupDriver_Get_def GroupDriver_Create_def GroupDriver_Update_def
      GroupDriver_Delete_def [abs_def] Let_def kc_pair_sims kc_pair.delete_found_sim)

text \<open>Recording the calls is transparent: the world beside the list of calls is the world.\<close>

interpretation recording_client: kc_pair "\<lambda>w v. w = fst v" kc "recorded kc"
  by unfold_locales (auto simp: kc_sim_def sim_def recorded_def split: prod.split)

end
