(* ===== verification/Engine_Simulation.thy ===== *)
theory Engine_Simulation
  imports Simulation Controllers
begin

text \<open>
  A whole pass of the engine is in simulation: two engines that differ only in the world their
  clients work on give the same result, the same object and the same cluster, events and
  metrics, and keep the worlds related. The last section reads this as a rule for invariants.
\<close>

section \<open>The state of a pass on another world\<close>

definition renet :: "'v \<Rightarrow> ('w, 'k) eng \<Rightarrow> ('v, 'k) eng" where
  "renet v st = \<lparr>net = v, cluster = cluster st, events = events st, emitted = emitted st\<rparr>"

lemma renet_simps [simp]:
  "net (renet v st) = v" "cluster (renet v st) = cluster st"
  "events (renet v st) = events st" "emitted (renet v st) = emitted st"
  "(renet v st)\<lparr>cluster := k\<rparr> = renet v (st\<lparr>cluster := k\<rparr>)"
  "emit m (renet v st) = renet v (emit m st)"
  by (simp_all add: renet_def emit_def)

lemma net_update_net: "net (st\<lparr>net := w\<rparr>) = w"
  by simp

lemma renet_move: "(renet v st)\<lparr>net := v'\<rparr> = renet v' (st\<lparr>net := w\<rparr>)"
  by (simp add: renet_def)

definition passes :: "('w \<Rightarrow> 'v \<Rightarrow> bool) \<Rightarrow> 'a \<times> 's object \<times> ('w, 'k) eng \<Rightarrow> 'a \<times> 's object \<times> ('v, 'k) eng \<Rightarrow> bool" where
  "passes R x y \<longleftrightarrow> (\<exists>v. R (net (snd (snd x))) v \<and> y = (fst x, fst (snd x), renet v (snd (snd x))))"

lemma passesI: "R (net st) v \<Longrightarrow> st' = renet v st \<Longrightarrow> passes R (res, obj, st) (res, obj, st')"
  by (auto simp: passes_def)

locale engine_pair = driver_pair drv drv'
  for drv :: "('w, 'k, 's) driver" and drv' :: "('v, 'k, 's) driver" +
  fixes E :: "('w, 'k, 's) engine" and E' :: "('v, 'k, 's) engine"
  assumes engine: "e_client E' = e_client E" "e_recorder E' = e_recorder E" "e_resync E' = e_resync E"
begin

lemma record_event_sim [simp]: "record_event E' ev (renet v st) = renet v (record_event E ev st)"
  by (simp add: record_event_def engine renet_def)

lemma bookkeeping [simp]:
  "patchStatus E' obj base (renet v st) = map_prod id (renet v) (patchStatus E obj base st)"
  "setCondition E' base t s r m obj (renet v st) = map_prod id (renet v) (setCondition E base t s r m obj st)"
  "set_both E' base s r m1 m2 obj (renet v st) = map_prod id (renet v) (set_both E base s r m1 m2 obj st)"
  "fail E' base r m obj (renet v st) = map_prod id (renet v) (fail E base r m obj st)"
  "finalize E' base specMap synced obj (renet v st) = map_prod id (map_prod id (renet v)) (finalize E base specMap synced obj st)"
proof -
  show patch: "patchStatus E' obj base (renet v st) = map_prod id (renet v) (patchStatus E obj base st)" for obj v st
    by (simp add: patchStatus_def engine split: prod.split sum.split)
  show cond: "setCondition E' base t s r m obj (renet v st) = map_prod id (renet v) (setCondition E base t s r m obj st)"
    for t s r m obj v st by (simp add: setCondition_def engine Let_def patch)
  show both: "set_both E' base s r m1 m2 obj (renet v st) = map_prod id (renet v) (set_both E base s r m1 m2 obj st)"
    for s r m1 m2 obj v st by (simp add: set_both_def cond split_beta)
  show "fail E' base r m obj (renet v st) = map_prod id (renet v) (fail E base r m obj st)"
    by (simp add: fail_def engine both split_beta Let_def)
  show "finalize E' base specMap synced obj (renet v st) = map_prod id (map_prod id (renet v)) (finalize E base specMap synced obj st)"
    by (simp add: finalize_def engine both split_beta Let_def split: prod.split sum.split)
qed

lemma passes_if:
  "passes R x y \<Longrightarrow> passes R x' y' \<Longrightarrow> passes R (if b then x else x') (if b then y else y')"
  by simp

lemma passes_frame: "R (net (snd x)) v \<Longrightarrow> passes R (res, x) (res, map_prod id (renet v) x)"
  by (cases x) (auto intro: passesI)

lemma passes_finalize:
  "R (net st) v \<Longrightarrow>
   passes R (finalize E base specMap synced obj st) (map_prod id (map_prod id (renet v)) (finalize E base specMap synced obj st))"
  by (auto simp: passes_def intro!: exI [of _ v] prod_eqI)

lemma handleDeletion_sim:
  assumes "kc_pair R kc kc'" and "R (net st) v"
  shows "passes R (handleDeletion E drv kc obj st) (handleDeletion E' drv' kc' obj (renet v st))"
proof -
  obtain err w where del: "d_Delete drv kc obj (net st) = (err, w)" by (cases "d_Delete drv kc obj (net st)")
  from simE [OF server(4) [OF assms(1)] assms(2) del]
  obtain v' where "d_Delete drv' kc' obj v = (err, v')" "R w v'" by blast
  with assms(2) del show ?thesis
    by (auto simp: handleDeletion_def engine pure Let_def record_event_def renet_def intro!: passesI
        split: option.split prod.split sum.split)
qed

lemma finishExisting_sim:
  assumes "kc_pair R kc kc'" and "R (net st) v"
  shows "passes R (finishExisting E drv kc base specMap remote changed obj st)
    (finishExisting E' drv' kc' base specMap remote changed obj (renet v st))"
proof -
  obtain c err obj2 k w where post: "d_PostApply drv kc (e_client E) obj remote (cluster st) (net st) = ((c, err, obj2, k), w)"
    by (metis prod_cases4 surj_pair)
  from simE [OF server(5) [OF assms(1)] assms(2) post]
  obtain v' where post': "d_PostApply drv' kc' (e_client E) obj remote (cluster st) v = ((c, err, obj2, k), v')" "R w v'"
    by blast
  then show ?thesis
    by (cases err) (simp_all add: finishExisting_def engine post Let_def passes_frame passes_finalize renet_move [of v' v st w])
qed

lemma updateExisting_sim:
  assumes "kc_pair R kc kc'" and "R (net st) v"
  shows "passes R (updateExisting E drv kc base specMap remote prepared obj st)
    (updateExisting E' drv' kc' base specMap remote prepared obj (renet v st))"
proof -
  let ?m = "MergePayload (cloneMap remote) prepared"
  obtain err w where upd: "d_Update drv kc obj (d_ID drv remote) ?m (net st) = (err, w)"
    by (cases "d_Update drv kc obj (d_ID drv remote) ?m (net st)")
  from simE [OF server(3) [OF assms(1)] assms(2) upd]
  obtain v' where "d_Update drv' kc' obj (d_ID drv remote) ?m v = (err, v')" and R: "R w v'" by blast
  with upd show ?thesis
    by (cases err) (simp_all add: updateExisting_def engine pure Let_def passes_frame finishExisting_sim [OF assms(1)] renet_move [of v' v _ w])
qed

lemma handleExisting_sim:
  assumes "kc_pair R kc kc'" and "R (net st) v"
  shows "passes R (handleExisting E drv kc base specMap payload remote obj st)
    (handleExisting E' drv' kc' base specMap payload remote obj (renet v st))"
proof -
  have fails: "passes R (res, fail E base r m obj st1) (res, fail E' base r m obj (renet v st1))"
    if "net st1 = net st" for r m st1 res
    using passes_frame [of R "fail E base r m obj st1" v] that assms(2) by simp
  have goes_on: "passes R (updateExisting E drv kc base specMap remote prepared obj st1)
      (updateExisting E' drv' kc' base specMap remote prepared obj (renet v st1))"
    "passes R (finishExisting E drv kc base specMap remote False obj st1)
      (finishExisting E' drv' kc' base specMap remote False obj (renet v st1))"
    if "net st1 = net st" for prepared st1
    using updateExisting_sim [OF assms(1)] finishExisting_sim [OF assms(1)] that assms(2) by simp_all
  have adopt: "(if b then record_event E' ev (renet v st) else renet v st) = renet v (if b then record_event E ev st else st)"
    for b ev by simp
  show ?thesis
    unfolding handleExisting_def Let_def adopt pure engine
    by (simp add: fails goes_on del: bookkeeping split: sum.split)
qed

lemma handleCreate_sim:
  assumes "kc_pair R kc kc'" and "R (net st) v"
  shows "passes R (handleCreate E drv kc base specMap payload obj st)
    (handleCreate E' drv' kc' base specMap payload obj (renet v st))"
proof (cases "d_PreparePayload drv (e_client E) obj (cluster st) payload")
  case (Inl e)
  with passes_frame [of R "fail E base ReasonSecretMissing (ErrMsg e) obj st" v] assms(2) show ?thesis
    by (simp add: handleCreate_def engine pure)
next
  case (Inr prepared)
  let ?m = "d_ManagedMarker drv prepared"
  obtain err w where create: "d_Create drv kc obj ?m (net st) = (err, w)"
    by (cases "d_Create drv kc obj ?m (net st)")
  from simE [OF server(2) [OF assms(1)] assms(2) create]
  obtain v' where create': "d_Create drv' kc' obj ?m v = (err, v')" and R: "R w v'" by blast
  show ?thesis
  proof (cases err)
    case (Some e)
    with Inr create create' R show ?thesis
      by (simp add: handleCreate_def engine pure Let_def passes_frame passes_finalize renet_move [of v' v _ w])
  next
    case None
    let ?st1 = "record_event E (Normal ''Created'' (Lit (''Created '' @ obj_kind obj @ '' on Keycloak server''))) (st\<lparr>net := w\<rparr>)"
    obtain r w2 where get: "d_Get drv kc obj w = (r, w2)" by (cases "d_Get drv kc obj w")
    from simE [OF server(1) [OF assms(1)] R get] obtain v2 where get': "d_Get drv' kc' obj v' = (r, v2)" and R2: "R w2 v2" by blast
    show ?thesis
    proof (cases r)
      case (Inl e)
      with Inr None create create' get get' R2 show ?thesis
        by (simp add: handleCreate_def engine pure Let_def passes_frame passes_finalize renet_move [of v' v _ w] renet_move [of v2 v' _ w2])
    next
      case (Inr remote)
      obtain c perr obj2 k w3 where post: "d_PostApply drv kc (e_client E) obj remote (cluster st) w2 = ((c, perr, obj2, k), w3)"
        by (metis prod_cases4 surj_pair)
      from simE [OF server(5) [OF assms(1)] R2 post]
      obtain v3 where post': "d_PostApply drv' kc' (e_client E) obj remote (cluster st) v2 = ((c, perr, obj2, k), v3)" and "R w3 v3"
        by blast
      then show ?thesis
        using Inr None create create' get get' post
          \<open>d_PreparePayload drv (e_client E) obj (cluster st) payload = Inr prepared\<close>
        by (cases perr) (simp_all add: handleCreate_def engine pure Let_def passes_frame passes_finalize renet_move [of v' v _ w] renet_move [of v3 v' _ w3])
    qed
  qed
qed

text \<open>A pass that uses the connection: only the worlds after the provider's answer need be related.\<close>

lemma reconcileBody_online:
  assumes F: "(obj_deletionTimestamp obj \<noteq> None \<and> sv_Deletion (d_Spec drv obj) = DeletionOrphan) = False"
    and prov: "e_provider E (cluster st) (obj_namespace obj) (sv_ConnectionName (d_Spec drv obj)) (net st) = (r, w)"
    and prov': "e_provider E' (cluster st) (obj_namespace obj) (sv_ConnectionName (d_Spec drv obj)) v = (r', v1)"
    and R: "R w v1" and kcs: "case (r, r') of (Inl e, Inl e') \<Rightarrow> e = e' | (Inr kc, Inr kc') \<Rightarrow> kc_pair R kc kc' | _ \<Rightarrow> False"
  shows "passes R (reconcileBody E drv obj st) (reconcileBody E' drv' obj (renet v st))"
proof (cases r)
  case (Inl e)
  with kcs have "r' = Inl e" by (cases r') auto
  with Inl R show ?thesis
    unfolding reconcileBody_def Let_def pure engine renet_simps F if_False prov prov'
    by (simp add: renet_move [of v1 v st w] passes_frame)
next
  case (Inr kc)
  with kcs obtain kc' where r': "r' = Inr kc'" and kcp: "kc_pair R kc kc'" by (cases r') auto
  let ?st = "st\<lparr>net := w\<rparr>"
  obtain g w2 where get: "d_Get drv kc obj w = (g, w2)" by (cases "d_Get drv kc obj w")
  from simE [OF server(1) [OF kcp] R get] obtain v2 where get': "d_Get drv' kc' obj v1 = (g, v2)" and R2: "R w2 v2" by blast
  have deletion: "passes R (handleDeletion E drv kc obj ?st) (handleDeletion E' drv' kc' obj (renet v1 ?st))"
    using handleDeletion_sim [OF kcp] R by simp
  have outcome: "passes R (case x of (None, obj', st') \<Rightarrow> (Done, obj', st') | (Some e, obj', st') \<Rightarrow> (Failed e, obj', st'))
      (case y of (None, obj', st') \<Rightarrow> (Done, obj', st') | (Some e, obj', st') \<Rightarrow> (Failed e, obj', st'))"
    if "passes R x y" for x :: "goerr option \<times> 's object \<times> ('w, 'k) eng" and y
    using that by (cases x; cases "fst x") (auto simp: passes_def)
  have stored: "passes R (case u of (Inl e, k) \<Rightarrow> (Failed e, obj', ?st\<lparr>cluster := k\<rparr>) | (Inr obj'', k) \<Rightarrow> (d, obj'', ?st\<lparr>cluster := k\<rparr>))
      (case u of (Inl e, k) \<Rightarrow> (Failed e, obj', renet v1 (?st\<lparr>cluster := k\<rparr>)) | (Inr obj'', k) \<Rightarrow> (d, obj'', renet v1 (?st\<lparr>cluster := k\<rparr>)))"
    for u :: "(goerr + 's object) \<times> 'k" and d obj'
    by (auto intro!: passesI simp: R split: prod.split sum.split)
  note subst = renet_move [of v1 v st w] renet_move [of v2 v1 ?st w2]
  have serve: "passes R (handleCreate E drv kc base specMap payload obj (st\<lparr>net := w2\<rparr>))
      (handleCreate E' drv' kc' base specMap payload obj (renet v2 (st\<lparr>net := w2\<rparr>)))"
    "passes R (handleExisting E drv kc base specMap payload remote obj (st\<lparr>net := w2\<rparr>))
      (handleExisting E' drv' kc' base specMap payload remote obj (renet v2 (st\<lparr>net := w2\<rparr>)))" for base specMap payload remote
    using handleCreate_sim [OF kcp, of _ v2] handleExisting_sim [OF kcp, of _ v2] R2 by simp_all
  show ?thesis
    unfolding reconcileBody_def Let_def pure engine renet_simps F if_False prov prov' Inr r' prod.case sum.case subst
      net_update_net get get'
    by (intro passes_if outcome [OF deletion] stored)
      (simp add: passes_frame R R2 serve split: option.split sum.split)
qed

lemma reconcileBody_orphan:
  assumes "obj_deletionTimestamp obj \<noteq> None \<and> sv_Deletion (d_Spec drv obj) = DeletionOrphan"
  shows "reconcileBody E' drv' obj (renet v st) = map_prod id (map_prod id (renet v)) (reconcileBody E drv obj st) \<and>
    net (snd (snd (reconcileBody E drv obj st))) = net st"
  using assms by (auto simp: reconcileBody_def engine pure Let_def split: prod.split sum.split)

text \<open>The pass: equal results, objects and records, and related worlds.\<close>

lemma Reconcile_sim:
  assumes "R (net st) v"
    and "\<And>r w. e_provider E (cluster st) (obj_namespace obj) (sv_ConnectionName (d_Spec drv obj)) (net st) = (r, w) \<Longrightarrow>
      \<exists>v1 r'. e_provider E' (cluster st) (obj_namespace obj) (sv_ConnectionName (d_Spec drv obj)) v = (r', v1) \<and> R w v1 \<and>
        (case (r, r') of (Inl e, Inl e') \<Rightarrow> e = e' | (Inr kc, Inr kc') \<Rightarrow> kc_pair R kc kc' | _ \<Rightarrow> False)"
  shows "\<exists>v'. R (net (snd (snd (Reconcile E drv obj st)))) v' \<and>
    Reconcile E' drv' obj (renet v st) = map_prod id (map_prod id (renet v')) (Reconcile E drv obj st)"
proof -
  have "passes R (reconcileBody E drv obj st) (reconcileBody E' drv' obj (renet v st))"
  proof (cases "obj_deletionTimestamp obj \<noteq> None \<and> sv_Deletion (d_Spec drv obj) = DeletionOrphan")
    case True
    from reconcileBody_orphan [OF this, of v st] assms(1) show ?thesis by (auto simp: passes_def map_prod_def split_beta)
  next
    case False
    then have F: "(obj_deletionTimestamp obj \<noteq> None \<and> sv_Deletion (d_Spec drv obj) = DeletionOrphan) = False" by simp
    obtain r w where prov: "e_provider E (cluster st) (obj_namespace obj) (sv_ConnectionName (d_Spec drv obj)) (net st) = (r, w)"
      by fastforce
    from assms(2) [OF this] reconcileBody_online [OF F prov] show ?thesis by blast
  qed
  then obtain v' where "R (net (snd (snd (reconcileBody E drv obj st)))) v'"
    "reconcileBody E' drv' obj (renet v st) = map_prod id (map_prod id (renet v')) (reconcileBody E drv obj st)"
    by (auto simp: passes_def map_prod_def split_beta)
  then show ?thesis
    by (intro exI [of _ v']) (simp add: Reconcile_simps Let_def outcome_of_def engine)
qed

end

section \<open>Observing a pass\<close>

text \<open>The engine on the world with the list of calls beside it. Nothing else changes, so what is
  shown of the recorded calls of a pass is shown of the pass.\<close>

definition observed :: "('w, 'k, 's) engine \<Rightarrow> ('w \<times> call list, 'k, 's) engine" where
  "observed E =
     \<lparr>e_client = e_client E,
      e_provider = (\<lambda>k ns name v. case e_provider E k ns name (fst v) of (r, w) \<Rightarrow> (map_sum id recorded r, (w, snd v))),
      e_recorder = e_recorder E, e_resync = e_resync E\<rparr>"

interpretation observed_realm: engine_pair "RealmDriver rng" "RealmDriver rng" E "observed E"
  by unfold_locales (simp_all add: observed_def)

interpretation observed_client: engine_pair "ClientDriver rng" "ClientDriver rng" E "observed E"
  by unfold_locales (simp_all add: observed_def)

interpretation observed_scope: engine_pair ClientScopeDriver ClientScopeDriver E "observed E"
  by unfold_locales (simp_all add: observed_def)

interpretation observed_role: engine_pair "RealmRoleDriver rng" "RealmRoleDriver rng" E "observed E"
  by unfold_locales (simp_all add: observed_def)

interpretation observed_idp: engine_pair "IdentityProviderDriver rng" "IdentityProviderDriver rng" E "observed E"
  by unfold_locales (simp_all add: observed_def)

interpretation observed_group: engine_pair "GroupDriver rng" "GroupDriver rng" E "observed E"
  by unfold_locales (simp_all add: observed_def)

lemma observed_pass:
  assumes "engine_pair drv drv' E (observed E)"
  shows "\<exists>cs. Reconcile (observed E) drv' obj (renet (net st, cs0) st) =
    map_prod id (map_prod id (\<lambda>st'. renet (net st', cs) st')) (Reconcile E drv obj st)"
proof -
  let ?R = "\<lambda>w v. w = fst v"
  have "\<exists>v'. ?R (net (snd (snd (Reconcile E drv obj st)))) v' \<and>
      Reconcile (observed E) drv' obj (renet (net st, cs0) st) = map_prod id (map_prod id (renet v')) (Reconcile E drv obj st)"
  proof (rule engine_pair.Reconcile_sim [OF assms])
    fix r w assume "e_provider E (cluster st) (obj_namespace obj) (sv_ConnectionName (d_Spec drv obj)) (net st) = (r, w)"
    then show "\<exists>v1 r'. e_provider (observed E) (cluster st) (obj_namespace obj) (sv_ConnectionName (d_Spec drv obj)) (net st, cs0) = (r', v1) \<and>
        ?R w v1 \<and> (case (r, r') of (Inl e, Inl e') \<Rightarrow> e = e' | (Inr kc, Inr kc') \<Rightarrow> kc_pair ?R kc kc' | _ \<Rightarrow> False)"
      by (cases r) (auto simp: observed_def recording_client.kc_pair_axioms)
  qed simp
  then obtain v' where v: "net (snd (snd (Reconcile E drv obj st))) = fst v'"
    "Reconcile (observed E) drv' obj (renet (net st, cs0) st) = map_prod id (map_prod id (renet v')) (Reconcile E drv obj st)"
    by blast
  then show ?thesis
    by (intro exI [of _ "snd v'"]) (simp add: map_prod_def split_beta)
qed

section \<open>Invariants of the calls\<close>

definition kc_keeps :: "('w \<Rightarrow> bool) \<Rightarrow> 'w kc \<Rightarrow> bool" where
  "kc_keeps I kc \<longleftrightarrow> (\<forall>meth path body target w. I w \<longrightarrow> I (snd (kc meth path body target w)))"

lemma kc_keeps_pair: "kc_keeps I kc \<Longrightarrow> kc_pair (\<lambda>w v. w = v \<and> I w) kc kc"
  by unfold_locales (auto simp: kc_keeps_def kc_sim_def sim_def)

text \<open>
  What the provider establishes and the calls of its client keep, a pass keeps; the invariant
  may be strengthened once the client is known.
\<close>

lemma Reconcile_keeps:
  assumes "driver_pair drv drv" and "I (net st)"
    and prov: "e_provider E (cluster st) (obj_namespace obj) (sv_ConnectionName (d_Spec drv obj)) (net st) = (r, w)"
    and "\<And>e. r = Inl e \<Longrightarrow> I w"
    and "\<And>kc. r = Inr kc \<Longrightarrow> J w \<and> kc_keeps J kc" and "\<And>w'. J w' \<Longrightarrow> I w'"
  shows "I (net (snd (snd (Reconcile E drv obj st))))"
proof -
  have pair: "engine_pair drv drv E E"
    by (intro engine_pair.intro assms(1) engine_pair_axioms.intro) simp_all
  let ?J = "\<lambda>w. case r of Inl e \<Rightarrow> I w | Inr kc \<Rightarrow> J w"
  have "I (net (snd (snd (reconcileBody E drv obj st))))"
  proof (cases "obj_deletionTimestamp obj \<noteq> None \<and> sv_Deletion (d_Spec drv obj) = DeletionOrphan")
    case True
    with engine_pair.reconcileBody_orphan [OF pair this, of _ st] assms(2) show ?thesis by simp
  next
    case False
    then have F: "(obj_deletionTimestamp obj \<noteq> None \<and> sv_Deletion (d_Spec drv obj) = DeletionOrphan) = False" by simp
    have "passes (\<lambda>w v. w = v \<and> ?J w) (reconcileBody E drv obj st) (reconcileBody E drv obj (renet (net st) st))"
      using assms(4,5)
      by (intro engine_pair.reconcileBody_online [OF pair F prov prov]) (auto simp: kc_keeps_pair split: sum.split)
    with assms(6) show ?thesis by (auto simp: passes_def split: sum.splits)
  qed
  then show ?thesis by (simp add: Reconcile_simps Let_def)
qed

end
