(* ===== verification/Metrics.thy ===== *)
theory Metrics
  imports Engine
begin

text \<open>
  The metric vectors of \<open>internal/metrics/metrics.go\<close> and what the endpoint exposes after the
  updates the operator logs (\<open>metric\<close> of \<open>Admin_Client\<close>).

  Prometheus is a parameter: the calls the operator makes of it, \<open>None\<close> when a call panics, and
  the series it exposes. What the operator relies on is \<open>prometheus_ok\<close>: a vector panics when the
  number of label values is not that of its labels, and otherwise the call changes the one series;
  registering panics when two collectors have one name. A series is a metric name with label
  values; a histogram is known by its count.
\<close>

section \<open>The vectors\<close>

datatype vec_kind = CounterVec | HistogramVec | GaugeVec

record vector =
  vec_kind :: vec_kind
  vec_name :: string
  vec_labels :: "string list"

definition ReconciliationsTotal_vec :: vector where
  "ReconciliationsTotal_vec =
     \<lparr>vec_kind = CounterVec, vec_name = ''keycloak_operator_reconciliations_total'', vec_labels = [''kind'', ''outcome'']\<rparr>"

definition ReconcileDuration_vec :: vector where
  "ReconcileDuration_vec =
     \<lparr>vec_kind = HistogramVec, vec_name = ''keycloak_operator_reconcile_duration_seconds'', vec_labels = [''kind'']\<rparr>"

definition DriftCorrectionsTotal_vec :: vector where
  "DriftCorrectionsTotal_vec =
     \<lparr>vec_kind = CounterVec, vec_name = ''keycloak_operator_drift_corrections_total'', vec_labels = [''kind'']\<rparr>"

definition ConnectionUp_vec :: vector where
  "ConnectionUp_vec =
     \<lparr>vec_kind = GaugeVec, vec_name = ''keycloak_operator_connection_up'', vec_labels = [''namespace'', ''connection'']\<rparr>"

definition ServerInfo_vec :: vector where
  "ServerInfo_vec =
     \<lparr>vec_kind = GaugeVec, vec_name = ''keycloak_operator_server_info'',
      vec_labels = [''namespace'', ''connection'', ''version'']\<rparr>"

definition AdminRequestsTotal_vec :: vector where
  "AdminRequestsTotal_vec =
     \<lparr>vec_kind = CounterVec, vec_name = ''keycloak_operator_admin_requests_total'',
      vec_labels = [''connection'', ''method'', ''code'']\<rparr>"

definition AdminRequestDuration_vec :: vector where
  "AdminRequestDuration_vec =
     \<lparr>vec_kind = HistogramVec, vec_name = ''keycloak_operator_admin_request_duration_seconds'',
      vec_labels = [''connection'', ''method'']\<rparr>"

lemmas vec_defs = ReconciliationsTotal_vec_def ReconcileDuration_vec_def DriftCorrectionsTotal_vec_def ConnectionUp_vec_def
  ServerInfo_vec_def AdminRequestsTotal_vec_def AdminRequestDuration_vec_def

section \<open>The client library\<close>

type_synonym series = "string \<times> string list"
type_synonym registry = "series \<Rightarrow> int option"

record 'p prometheus =
  pm_MustRegister :: "vector list \<Rightarrow> 'p option"
  pm_Inc :: "vector \<Rightarrow> string list \<Rightarrow> 'p \<Rightarrow> 'p option"
  pm_Observe :: "vector \<Rightarrow> string list \<Rightarrow> 'p \<Rightarrow> 'p option"
  pm_Set :: "vector \<Rightarrow> string list \<Rightarrow> int \<Rightarrow> 'p \<Rightarrow> 'p option"
  pm_DeletePartialMatch :: "vector \<Rightarrow> (string \<times> string) list \<Rightarrow> 'p \<Rightarrow> 'p"
  pm_series :: "'p \<Rightarrow> registry"

definition metrics_init :: "'p prometheus \<Rightarrow> 'p option" where
  "metrics_init P = pm_MustRegister P
     [ReconciliationsTotal_vec, ReconcileDuration_vec, DriftCorrectionsTotal_vec, ConnectionUp_vec, ServerInfo_vec,
      AdminRequestsTotal_vec, AdminRequestDuration_vec]"

text \<open>The calls behind one logged update; a counter of requests or reconciliations comes with an
  observation of the duration.\<close>

fun record_metric :: "'p prometheus \<Rightarrow> metric \<Rightarrow> 'p \<Rightarrow> 'p option" where
  "record_metric P (AdminRequestsTotal conn meth code) p =
     Option.bind (pm_Inc P AdminRequestsTotal_vec [conn, meth, code] p) (pm_Observe P AdminRequestDuration_vec [conn, meth])"
| "record_metric P (ReconciliationsTotal kind outcome) p =
     Option.bind (pm_Inc P ReconciliationsTotal_vec [kind, outcome] p) (pm_Observe P ReconcileDuration_vec [kind])"
| "record_metric P (DriftCorrectionsTotal kind) p = pm_Inc P DriftCorrectionsTotal_vec [kind] p"
| "record_metric P (ConnectionUp ns name up) p = pm_Set P ConnectionUp_vec [ns, name] up p"
| "record_metric P (ServerInfoDelete ns name) p =
     Some (pm_DeletePartialMatch P ServerInfo_vec [(''namespace'', ns), (''connection'', name)] p)"
| "record_metric P (ServerInfoSet ns name version) p = pm_Set P ServerInfo_vec [ns, name, version] 1 p"

fun record_metrics :: "'p prometheus \<Rightarrow> metric list \<Rightarrow> 'p \<Rightarrow> 'p option" where
  "record_metrics P [] p = Some p"
| "record_metrics P (m # ms) p = Option.bind (record_metric P m p) (record_metrics P ms)"

text \<open>The documented effect of the calls on the series.\<close>

definition WithLabelValues :: "vector \<Rightarrow> string list \<Rightarrow> (int option \<Rightarrow> int) \<Rightarrow> registry \<Rightarrow> registry option" where
  "WithLabelValues vec ls f reg =
     (if length ls = length (vec_labels vec)
      then Some (reg((vec_name vec, ls) \<mapsto> f (reg (vec_name vec, ls)))) else None)"

definition Inc :: "int option \<Rightarrow> int" where
  "Inc v = (case v of None \<Rightarrow> 1 | Some n \<Rightarrow> n + 1)"

definition has_labels :: "vector \<Rightarrow> (string \<times> string) list \<Rightarrow> string list \<Rightarrow> bool" where
  "has_labels vec labels ls \<longleftrightarrow> list_all (\<lambda>(l, v). map_of (zip (vec_labels vec) ls) l = Some v) labels"

definition DeletePartialMatch :: "vector \<Rightarrow> (string \<times> string) list \<Rightarrow> registry \<Rightarrow> registry" where
  "DeletePartialMatch vec labels reg = (\<lambda>s. if fst s = vec_name vec \<and> has_labels vec labels (snd s) then None else reg s)"

definition prometheus_ok :: "'p prometheus \<Rightarrow> bool" where
  "prometheus_ok P \<longleftrightarrow>
     (\<forall>vs. distinct (map vec_name vs) \<longrightarrow> (\<exists>p. pm_MustRegister P vs = Some p \<and> pm_series P p = (\<lambda>s. None))) \<and>
     (\<forall>vec ls p. map_option (pm_series P) (pm_Inc P vec ls p) = WithLabelValues vec ls Inc (pm_series P p)) \<and>
     (\<forall>vec ls p. map_option (pm_series P) (pm_Observe P vec ls p) = WithLabelValues vec ls Inc (pm_series P p)) \<and>
     (\<forall>vec ls x p. map_option (pm_series P) (pm_Set P vec ls x p) = WithLabelValues vec ls (\<lambda>_. x) (pm_series P p)) \<and>
     (\<forall>vec labels p. pm_series P (pm_DeletePartialMatch P vec labels p) = DeletePartialMatch vec labels (pm_series P p))"

text \<open>What a log of updates makes of the series.\<close>

fun apply_metric :: "metric \<Rightarrow> registry \<Rightarrow> registry option" where
  "apply_metric (AdminRequestsTotal conn meth code) reg =
     Option.bind (WithLabelValues AdminRequestsTotal_vec [conn, meth, code] Inc reg)
       (WithLabelValues AdminRequestDuration_vec [conn, meth] Inc)"
| "apply_metric (ReconciliationsTotal kind outcome) reg =
     Option.bind (WithLabelValues ReconciliationsTotal_vec [kind, outcome] Inc reg)
       (WithLabelValues ReconcileDuration_vec [kind] Inc)"
| "apply_metric (DriftCorrectionsTotal kind) reg = WithLabelValues DriftCorrectionsTotal_vec [kind] Inc reg"
| "apply_metric (ConnectionUp ns name up) reg = WithLabelValues ConnectionUp_vec [ns, name] (\<lambda>_. up) reg"
| "apply_metric (ServerInfoDelete ns name) reg =
     Some (DeletePartialMatch ServerInfo_vec [(''namespace'', ns), (''connection'', name)] reg)"
| "apply_metric (ServerInfoSet ns name version) reg = WithLabelValues ServerInfo_vec [ns, name, version] (\<lambda>_. 1) reg"

fun apply_metrics :: "metric list \<Rightarrow> registry \<Rightarrow> registry option" where
  "apply_metrics [] reg = Some reg"
| "apply_metrics (m # ms) reg = Option.bind (apply_metric m reg) (apply_metrics ms)"

lemma apply_metrics_append:
  "apply_metrics (ms @ ms') reg = Option.bind (apply_metrics ms reg) (apply_metrics ms')"
  by (induction ms arbitrary: reg) (simp_all add: bind_assoc split: bind_split)

lemma map_option_bind_commute:
  assumes "map_option f x = y" and "\<And>a. map_option f (g a) = h (f a)"
  shows "map_option f (Option.bind x g) = Option.bind y h"
  using assms by (cases x) auto

lemma record_metric_series:
  assumes "prometheus_ok P"
  shows "map_option (pm_series P) (record_metric P m p) = apply_metric m (pm_series P p)"
  using assms unfolding prometheus_ok_def by (cases m) (auto intro!: map_option_bind_commute)

lemma record_metrics_series:
  assumes "prometheus_ok P"
  shows "map_option (pm_series P) (record_metrics P ms p) = apply_metrics ms (pm_series P p)"
proof (induction ms arbitrary: p)
  case (Cons m ms)
  show ?case
    using map_option_bind_commute [OF record_metric_series [OF assms], of "record_metrics P ms" "apply_metrics ms" m p] Cons by simp
qed simp

section \<open>A well-formed registry\<close>

text \<open>Every series belongs to a registered vector and has one value per label; counts are
  positive and gauges are 0 or 1. A connection has at most one version, which is not empty,
  and only when it has a status.\<close>

definition vectors :: "vector list" where
  "vectors =
     [ReconciliationsTotal_vec, ReconcileDuration_vec, DriftCorrectionsTotal_vec, ConnectionUp_vec, ServerInfo_vec,
      AdminRequestsTotal_vec, AdminRequestDuration_vec]"

definition series_ok :: "string \<times> string list \<Rightarrow> int \<Rightarrow> bool" where
  "series_ok s v \<longleftrightarrow>
     list_ex (\<lambda>vec. vec_name vec = fst s \<and> length (vec_labels vec) = length (snd s) \<and>
       (if vec_kind vec = GaugeVec then v = 0 \<or> v = 1 else 1 \<le> v)) vectors"

definition info_ok :: "registry \<Rightarrow> bool" where
  "info_ok reg \<longleftrightarrow>
     (\<forall>ns c v. reg (vec_name ServerInfo_vec, [ns, c, v]) \<noteq> None \<longrightarrow>
        v \<noteq> [] \<and> reg (vec_name ConnectionUp_vec, [ns, c]) \<noteq> None \<and>
        (\<forall>v'. reg (vec_name ServerInfo_vec, [ns, c, v']) \<noteq> None \<longrightarrow> v' = v))"

definition registry_ok :: "registry \<Rightarrow> bool" where
  "registry_ok reg \<longleftrightarrow> (\<forall>s v. reg s = Some v \<longrightarrow> series_ok s v) \<and> info_ok reg"

text \<open>The updates of requests, of the engine, and of the connection controller.\<close>

fun request_metric :: "metric \<Rightarrow> bool" where
  "request_metric (AdminRequestsTotal conn meth code) \<longleftrightarrow> code \<in> {''2xx'', ''4xx'', ''5xx'', ''error''}"
| "request_metric _ \<longleftrightarrow> False"

fun engine_metric :: "metric \<Rightarrow> bool" where
  "engine_metric (ReconciliationsTotal kind outcome) \<longleftrightarrow> outcome \<in> {OutcomeSuccess, OutcomeTerminal}"
| "engine_metric (DriftCorrectionsTotal kind) \<longleftrightarrow> True"
| "engine_metric _ \<longleftrightarrow> False"

lemma registry_ok_empty: "registry_ok (\<lambda>s. None)"
  by (simp add: registry_ok_def info_ok_def)

lemma Inc_positive: "(\<forall>n. v = Some n \<longrightarrow> 1 \<le> n) \<Longrightarrow> 1 \<le> Inc v"
  by (auto simp: Inc_def split: option.split)

definition counted :: "vector list" where
  "counted = [ReconciliationsTotal_vec, ReconcileDuration_vec, DriftCorrectionsTotal_vec, AdminRequestsTotal_vec,
     AdminRequestDuration_vec]"

lemma counted_facts:
  assumes "vec \<in> set counted"
  shows "vec \<in> set vectors" "vec_kind vec \<noteq> GaugeVec"
    "vec_name vec \<noteq> vec_name ServerInfo_vec" "vec_name vec \<noteq> vec_name ConnectionUp_vec"
  using assms by (auto simp: counted_def vectors_def vec_defs)

lemma names_distinct: "distinct (map vec_name vectors)"
  by (simp add: vectors_def vec_defs)

lemma series_ok_vec:
  assumes "vec \<in> set vectors"
  shows "series_ok (vec_name vec, ls) v \<longleftrightarrow>
    length (vec_labels vec) = length ls \<and> (if vec_kind vec = GaugeVec then v = 0 \<or> v = 1 else 1 \<le> v)"
proof -
  have "vec' = vec" if "vec' \<in> set vectors" "vec_name vec' = vec_name vec" for vec'
    using that assms names_distinct by (simp add: distinct_map inj_on_def)
  with assms show ?thesis by (auto simp: series_ok_def list_ex_iff)
qed

lemma count_ok:
  assumes "registry_ok reg" and "vec \<in> set counted" and "length ls = length (vec_labels vec)"
  shows "\<exists>reg'. WithLabelValues vec ls Inc reg = Some reg' \<and> registry_ok reg'"
proof -
  note vec = counted_facts [OF assms(2)]
  have "1 \<le> n" if "reg (vec_name vec, ls) = Some n" for n
  proof -
    have "series_ok (vec_name vec, ls) n" using that assms(1) unfolding registry_ok_def by blast
    with vec(1,2) show ?thesis by (simp add: series_ok_vec)
  qed
  then have "series_ok (vec_name vec, ls) (Inc (reg (vec_name vec, ls)))"
    using assms(3) vec(1,2) Inc_positive by (simp add: series_ok_vec)
  with assms(1,3) vec(3,4) show ?thesis
    by (auto simp: WithLabelValues_def registry_ok_def info_ok_def)
qed

lemma plain_metric_ok:
  assumes "request_metric m \<or> engine_metric m" and "registry_ok reg"
  shows "\<exists>reg'. apply_metric m reg = Some reg' \<and> registry_ok reg'"
proof -
  have twice: "\<exists>reg'. Option.bind (WithLabelValues v1 l1 Inc reg) (WithLabelValues v2 l2 Inc) = Some reg' \<and> registry_ok reg'"
    if "v1 \<in> set counted" "v2 \<in> set counted" "length l1 = length (vec_labels v1)" "length l2 = length (vec_labels v2)" for v1 v2 l1 l2
    using count_ok [OF assms(2) that(1,3)] count_ok [OF _ that(2,4)] by fastforce
  from assms show ?thesis
    by (cases m) (auto intro!: twice count_ok simp: counted_def vec_defs)
qed

lemma plain_metrics_ok:
  assumes "list_all (\<lambda>m. request_metric m \<or> engine_metric m) ms" and "registry_ok reg"
  shows "\<exists>reg'. apply_metrics ms reg = Some reg' \<and> registry_ok reg'"
  using assms by (induction ms arbitrary: reg) (auto dest!: plain_metric_ok)

text \<open>The connection controller: the status, and for a reachable server its version alone.\<close>

lemma status_ok:
  assumes "registry_ok reg" and "up = 0 \<or> up = 1"
  shows "\<exists>reg'. apply_metric (ConnectionUp ns name up) reg = Some reg' \<and> registry_ok reg' \<and>
    reg' (vec_name ConnectionUp_vec, [ns, name]) = Some up"
proof -
  have vec: "ConnectionUp_vec \<in> set vectors" "vec_name ConnectionUp_vec \<noteq> vec_name ServerInfo_vec"
    "length (vec_labels ConnectionUp_vec) = 2" "vec_kind ConnectionUp_vec = GaugeVec"
    by (simp_all add: vectors_def vec_defs)
  have "series_ok (vec_name ConnectionUp_vec, [ns, name]) up"
    using assms(2) vec by (simp add: series_ok_vec)
  with assms(1) vec show ?thesis
    by (simp add: WithLabelValues_def registry_ok_def info_ok_def) blast
qed

lemma version_ok:
  assumes "registry_ok reg" and "reg (vec_name ConnectionUp_vec, [ns, name]) \<noteq> None"
  shows "\<exists>reg'. apply_metrics (ServerInfoDelete ns name # (if version \<noteq> [] then [ServerInfoSet ns name version] else [])) reg =
    Some reg' \<and> registry_ok reg'"
proof -
  let ?del = "DeletePartialMatch ServerInfo_vec [(''namespace'', ns), (''connection'', name)] reg"
  have vec: "ServerInfo_vec \<in> set vectors" "vec_name ConnectionUp_vec \<noteq> vec_name ServerInfo_vec"
    "length (vec_labels ServerInfo_vec) = 3" "vec_kind ServerInfo_vec = GaugeVec"
    by (simp_all add: vectors_def vec_defs)
  have "series_ok (vec_name ServerInfo_vec, [ns, name, version]) 1"
    using vec by (simp add: series_ok_vec)
  moreover have "registry_ok ?del"
    using assms(1) vec(2) by (auto simp: DeletePartialMatch_def registry_ok_def info_ok_def)
  moreover have "?del (vec_name ServerInfo_vec, [ns, name, v]) = None" for v
    by (simp add: DeletePartialMatch_def has_labels_def ServerInfo_vec_def)
  moreover have "?del (vec_name ConnectionUp_vec, [ns, name]) \<noteq> None"
    using assms(2) vec(2) by (simp add: DeletePartialMatch_def)
  ultimately show ?thesis
    using vec(2,3) by (auto simp: WithLabelValues_def registry_ok_def info_ok_def)
qed

text \<open>What the endpoint exposes after the package is initialised and the updates are recorded.\<close>

definition exposed :: "'p prometheus \<Rightarrow> metric list \<Rightarrow> registry option" where
  "exposed P ms = map_option (pm_series P) (Option.bind (metrics_init P) (record_metrics P ms))"

lemma exposed_series:
  assumes "prometheus_ok P"
  shows "exposed P ms = apply_metrics ms (\<lambda>s. None)"
proof -
  obtain p where "metrics_init P = Some p" "pm_series P p = (\<lambda>s. None)"
    using assms names_distinct unfolding prometheus_ok_def metrics_init_def vectors_def by blast
  with record_metrics_series [OF assms, of ms p] show ?thesis by (simp add: exposed_def)
qed

text \<open>A library that keeps just the series.\<close>

definition series_only :: "registry prometheus" where
  "series_only =
     \<lparr>pm_MustRegister = (\<lambda>vs. if distinct (map vec_name vs) then Some (\<lambda>s. None) else None),
      pm_Inc = (\<lambda>vec ls. WithLabelValues vec ls Inc), pm_Observe = (\<lambda>vec ls. WithLabelValues vec ls Inc),
      pm_Set = (\<lambda>vec ls x. WithLabelValues vec ls (\<lambda>_. x)), pm_DeletePartialMatch = DeletePartialMatch,
      pm_series = (\<lambda>reg. reg)\<rparr>"

lemma series_only_ok: "prometheus_ok series_only"
  by (simp add: prometheus_ok_def series_only_def option.map_ident)

end
