(* ===== verification/Operator.thy ===== *)
theory Operator
  imports Startup Engine_Simulation Metrics Instances
begin

text \<open>
  The running operator: the seven controllers that \<open>main\<close> registers, around the one provider
  they share, as a transition system. A step is a reconciliation that one of the controllers
  runs for some object, a change of the cluster by somebody else, or anything that happens on
  the other side of the wire (other administrators, time passing). Reconciliations are steps
  of their own; the interleaving inside the provider is the subject of \<open>Provider\<close>.

  The wire keeps the requests sent, and the relation keeps the clusters that reconciliations
  started from, so that a statement can say where a client's configuration came from.
\<close>

section \<open>The controllers around one provider\<close>

type_synonym ('k, 's) access = "('k, 's) kube \<times> ('k \<Rightarrow> string \<Rightarrow> string \<Rightarrow> goerr + 's object)"

record ('n, 'k) env =
  en_http :: "'n http"
  en_conn :: "'k conn_api"
  en_order :: order
  en_resync :: duration
  en_Realm :: "('k, RealmSpec) access"
  en_Client :: "('k, ClientSpec) access"
  en_ClientScope :: "('k, ClientScopeSpec) access"
  en_RealmRole :: "('k, RealmRoleSpec) access"
  en_IdentityProvider :: "('k, IdentityProviderSpec) access"
  en_Group :: "('k, GroupSpec) access"

type_synonym 'n wired = "('n \<times> request list) netw"

definition operator_engine :: "('n, 'k) env \<Rightarrow> ('k, 's) kube \<Rightarrow> ('n wired, 'k, 's) engine" where
  "operator_engine env K =
     NewEngine K (provider_For (traced (en_http env)) (ca_reader (en_conn env))) True (en_resync env)"

definition reconcile_connection :: "('n, 'k) env \<Rightarrow> string \<Rightarrow> string \<Rightarrow> ('n wired, 'k) eng \<Rightarrow>
    result \<times> ('n wired, 'k) eng" where
  "reconcile_connection env ns name st =
     (case KeycloakConnectionReconciler_Reconcile (traced (en_http env)) (en_conn env) ns name
             \<lparr>cs_net = net st, cs_cluster = cluster st, cs_metrics = emitted st\<rparr> of
        (res, conn, cs) \<Rightarrow> (res, st\<lparr>net := cs_net cs, cluster := cs_cluster cs, emitted := cs_metrics cs\<rparr>))"

definition operator_reconcile :: "('n, 'k) env \<Rightarrow> reconciler \<Rightarrow> string \<Rightarrow> string \<Rightarrow> ('n wired, 'k) eng \<Rightarrow>
    result \<times> ('n wired, 'k) eng" where
  "operator_reconcile env r =
     (case r of
        KeycloakConnectionReconciler p \<Rightarrow> reconcile_connection env
      | RealmReconciler e \<Rightarrow>
          RealmReconciler_Reconcile (en_order env) (operator_engine env (fst (en_Realm env))) (snd (en_Realm env))
      | ClientReconciler e \<Rightarrow>
          ClientReconciler_Reconcile (en_order env) (operator_engine env (fst (en_Client env))) (snd (en_Client env))
      | ClientScopeReconciler e \<Rightarrow>
          ClientScopeReconciler_Reconcile (operator_engine env (fst (en_ClientScope env))) (snd (en_ClientScope env))
      | RealmRoleReconciler e \<Rightarrow>
          RealmRoleReconciler_Reconcile (en_order env) (operator_engine env (fst (en_RealmRole env))) (snd (en_RealmRole env))
      | IdentityProviderReconciler e \<Rightarrow>
          IdentityProviderReconciler_Reconcile (en_order env) (operator_engine env (fst (en_IdentityProvider env)))
            (snd (en_IdentityProvider env))
      | GroupReconciler e \<Rightarrow>
          GroupReconciler_Reconcile (en_order env) (operator_engine env (fst (en_Group env))) (snd (en_Group env)))"

definition operator_start :: "'n \<Rightarrow> 'k \<Rightarrow> ('n wired, 'k) eng" where
  "operator_start n k =
     \<lparr>net = \<lparr>nw_provider = NewProvider, nw_wire = (n, []), nw_mlog = []\<rparr>, cluster = k, events = [], emitted = []\<rparr>"

text \<open>\<open>runs env h st\<close>: the operator can be in state \<open>st\<close> after reconciliations that started from
  the clusters \<open>h\<close>, the latest first.\<close>

inductive runs :: "('n, 'k) env \<Rightarrow> 'k list \<Rightarrow> ('n wired, 'k) eng \<Rightarrow> bool" for env where
  start: "runs env [] (operator_start n k)"
| reconcile: "runs env h st \<Longrightarrow> reg \<in> set (controllers 0 0) \<Longrightarrow>
    operator_reconcile env (reg_Complete reg) ns name st = (res, st') \<Longrightarrow> runs env (cluster st # h) st'"
| cluster: "runs env h st \<Longrightarrow> runs env h (st\<lparr>cluster := k\<rparr>)"
| server: "runs env h st \<Longrightarrow> runs env h (st\<lparr>net := (net st)\<lparr>nw_wire := (n, snd (nw_wire (net st)))\<rparr>\<rparr>)"

section \<open>Where requests come from\<close>

text \<open>The client was configured from a connection and its Secret, read together from one cluster.\<close>

definition origin :: "'k reader \<Rightarrow> 'k list \<Rightarrow> Client \<Rightarrow> bool" where
  "origin rdr h c \<longleftrightarrow>
     (\<exists>k \<in> set h. \<exists>ns name conn sec. r_conn rdr k ns name = Inr conn \<and>
        r_secret rdr k ns (conn_credentialsSecretRef (conn_spec conn)) = Inr sec \<and> built_from ns name conn sec c)"

definition authored :: "Client \<Rightarrow> request \<Rightarrow> bool" where
  "authored c q \<longleftrightarrow> q = token_request (cfg c) \<or>
     (\<exists>t meth path body. t \<noteq> [] \<and> q = api_request (cfg c) t meth path body)"

definition net_inv :: "'k reader \<Rightarrow> 'k list \<Rightarrow> 'n wired \<Rightarrow> bool" where
  "net_inv rdr h w \<longleftrightarrow>
     (\<forall>c \<in> set (clients (nw_provider w)). origin rdr h c) \<and>
     (\<forall>key cc. map_of (byName (nw_provider w)) key = Some cc \<longrightarrow> cc_kc cc < length (clients (nw_provider w))) \<and>
     (\<forall>q \<in> set (snd (nw_wire w)). \<exists>c \<in> set (clients (nw_provider w)). authored c q) \<and>
     list_all request_metric (nw_mlog w)"

lemma origin_cfg: "cfg c = cfg c' \<Longrightarrow> origin rdr h c \<longleftrightarrow> origin rdr h c'"
  by (simp add: origin_def built_from_def)

lemma authored_cfg: "cfg c = cfg c' \<Longrightarrow> authored c q \<longleftrightarrow> authored c' q"
  by (simp add: authored_def)

lemma origin_mono: "origin rdr h c \<Longrightarrow> set h \<subseteq> set h' \<Longrightarrow> origin rdr h' c"
  unfolding origin_def by blast

lemma net_inv_mono: "net_inv rdr h w \<Longrightarrow> set h \<subseteq> set h' \<Longrightarrow> net_inv rdr h' w"
  using origin_mono unfolding net_inv_def by blast

text \<open>What one call on a client may do to the client, the wire and the metrics.\<close>

definition client_step :: "('n \<times> request list) kcstate \<Rightarrow> ('n \<times> request list) kcstate \<Rightarrow> bool" where
  "client_step s s' \<longleftrightarrow> cfg (cli s') = cfg (cli s) \<and>
     (\<exists>qs. snd (wire s') = snd (wire s) @ qs \<and> list_all (authored (cli s)) qs) \<and>
     (\<exists>ms. mlog s' = mlog s @ ms \<and> list_all request_metric ms)"

lemma Token_step: "client_step s (snd (Token (traced H) s))"
proof (cases "Token (traced H) s")
  case (Pair r s')
  show ?thesis
    by (rule Token_trace [OF Pair]) (auto simp: client_step_def Pair authored_def)
qed

lemma status_class_known: "status_class err \<in> {''2xx'', ''4xx'', ''5xx'', ''error''}"
  by (auto simp: status_class_def split: option.split)

lemma Do_mlog: "\<exists>ms. mlog (snd (Do (traced H) meth path body target s)) = mlog s @ ms \<and> list_all request_metric ms"
proof -
  have once: "mlog (snd (doOnce (traced H) meth path body target s)) = mlog s" for s
    by (cases "doOnce (traced H) meth path body target s") (metis doOnce_trace snd_conv)
  have obs: "\<exists>ms. mlog (observeRequest meth e s) = mlog s @ ms \<and> list_all request_metric ms" for e s
    using status_class_known [of e] by (auto simp: observeRequest_def)
  obtain r s1 where one: "doOnce (traced H) meth path body target s = (r, s1)" by fastforce
  obtain r' s2 where two: "doOnce (traced H) meth path body target (invalidate s1) = (r', s2)" by fastforce
  have "mlog s1 = mlog s" "mlog s2 = mlog s"
    using once [of s] once [of "invalidate s1"] by (simp_all add: one two)
  moreover have "snd (Do (traced H) meth path body target s) \<in> {observeRequest meth (err_of r) s1, observeRequest meth (err_of r') s2}"
    using one two by (simp add: Do_def)
  ultimately show ?thesis using obs by (metis empty_iff insert_iff)
qed

lemma Do_step: "client_step s (snd (Do (traced H) meth path body target s))"
proof (cases "Do (traced H) meth path body target s")
  case (Pair r s')
  show ?thesis
  proof (rule Do_trace [OF Pair])
    fix qs as qs' as'
    assume "snd (wire s') = snd (wire s) @ (qs @ as) @ qs' @ as'" "cfg (cli s') = cfg (cli s)"
      "qs = [] \<or> qs = [token_request (cfg (cli s))]" "qs' = [] \<or> qs' = [token_request (cfg (cli s))]"
      "as = [] \<or> (\<exists>a. as = [a] \<and> api_shape (cfg (cli s)) meth path body a)"
      "as' = [] \<or> (\<exists>a. as' = [a] \<and> api_shape (cfg (cli s)) meth path body a)"
    moreover have "authored (cli s) q" if "api_shape (cfg (cli s)) meth path body q \<or> q = token_request (cfg (cli s))" for q
      using that unfolding authored_def api_shape_def by blast
    ultimately have "list_all (authored (cli s)) ((qs @ as) @ qs' @ as')" by fastforce
    with \<open>snd (wire s') = _\<close> \<open>cfg (cli s') = _\<close> show ?thesis
      using Do_mlog [of H meth path body target s] unfolding client_step_def Pair by auto
  qed
qed

lemma net_inv_clients:
  assumes "net_inv rdr h w" and "kc < length (clients (nw_provider w))"
    and "client_step \<lparr>cli = clients (nw_provider w) ! kc, wire = nw_wire w, mlog = nw_mlog w\<rparr> s"
  shows "net_inv rdr h (w\<lparr>nw_provider := (nw_provider w)\<lparr>clients := (clients (nw_provider w))[kc := cli s]\<rparr>,
    nw_wire := wire s, nw_mlog := mlog s\<rparr>)"
proof -
  let ?cs = "clients (nw_provider w)"
  from assms(3) obtain qs ms where step: "cfg (cli s) = cfg (?cs ! kc)" "snd (wire s) = snd (nw_wire w) @ qs"
    "list_all (authored (?cs ! kc)) qs" "mlog s = nw_mlog w @ ms" "list_all request_metric ms"
    by (auto simp: client_step_def)
  have same: "map cfg (?cs[kc := cli s]) = map cfg ?cs"
    using step(1) assms(2) by (auto intro: nth_equalityI simp: nth_list_update)
  have lift: "\<exists>c \<in> set (?cs[kc := cli s]). authored c q" if "c \<in> set ?cs" "authored c q" for c q
  proof -
    have "cfg c \<in> cfg ` set (?cs[kc := cli s])" using that(1) same by (metis image_eqI image_set)
    then obtain c' where "c' \<in> set (?cs[kc := cli s])" "cfg c = cfg c'" by blast
    with that(2) authored_cfg [OF this(2)] show ?thesis by blast
  qed
  have "origin rdr h c" if "c \<in> set (?cs[kc := cli s])" for c
  proof -
    have "cfg c \<in> cfg ` set ?cs" using that same by (metis image_eqI image_set)
    then obtain c' where "c' \<in> set ?cs" "cfg c = cfg c'" by blast
    with assms(1) origin_cfg [of c c' rdr h] show ?thesis by (simp add: net_inv_def)
  qed
  moreover have "\<exists>c \<in> set (?cs[kc := cli s]). authored c q" if "q \<in> set (snd (wire s))" for q
  proof (cases "q \<in> set qs")
    case True
    with step(3) have "authored (?cs ! kc) q" by (simp add: list_all_iff)
    then show ?thesis by (rule lift [OF nth_mem [OF assms(2)]])
  next
    case False
    with that step(2) assms(1) obtain c where "c \<in> set ?cs" "authored c q" by (auto simp: net_inv_def)
    then show ?thesis by (rule lift)
  qed
  ultimately show ?thesis
    using assms(1) step(4,5) by (auto simp: net_inv_def)
qed

lemma client_run_inv:
  assumes "net_inv rdr h w" and "kc < length (clients (nw_provider w))" and "\<And>s. client_step s (snd (f s))"
  shows "net_inv rdr h (snd (client_run f kc w)) \<and> length (clients (nw_provider (snd (client_run f kc w)))) = length (clients (nw_provider w))"
  using net_inv_clients [OF assms(1,2,3)] by (simp add: client_run_def Let_def split_beta)

text \<open>The provider adds clients configured from the cluster it reads.\<close>

lemma For_inv:
  assumes "net_inv rdr h w" and "For rdr k ns name (nw_provider w) = (r, p)"
  shows "net_inv rdr (k # h) (w\<lparr>nw_provider := p\<rparr>) \<and> (\<forall>kc. r = Inr kc \<longrightarrow> kc < length (clients p))"
proof -
  have inv: "net_inv rdr (k # h) w" by (rule net_inv_mono [OF assms(1)]) auto
  have new: "origin rdr (k # h) (New (c\<lparr>ConnectionName := cache_key ns name\<rparr>))"
    if "r_conn rdr k ns name = Inr conn" "r_secret rdr k ns (conn_credentialsSecretRef (conn_spec conn)) = Inr sec"
      "clientConfig conn sec = Inr c" for conn sec c
    unfolding origin_def built_from_def using that by (intro bexI [of _ k] exI conjI) auto
  have cached: "cc_kc cc < length (clients (nw_provider w))" if "map_of (byName (nw_provider w)) key = Some cc" for key cc
    using inv that by (simp add: net_inv_def)
  consider (same) "p = nw_provider w" "\<And>kc. r = Inr kc \<Longrightarrow> kc < length (clients p)"
    | (drop) e where "p = (nw_provider w)\<lparr>byName := mdel (cache_key ns name) (byName (nw_provider w))\<rparr>" "r = Inl e"
    | (build) conn sec c where "r_conn rdr k ns name = Inr conn"
        "r_secret rdr k ns (conn_credentialsSecretRef (conn_spec conn)) = Inr sec" "clientConfig conn sec = Inr c"
        "r = Inr (length (clients (nw_provider w)))"
        "p = (nw_provider w)\<lparr>clients := clients (nw_provider w) @ [New (c\<lparr>ConnectionName := cache_key ns name\<rparr>)],
           byName := mput (cache_key ns name) \<lparr>cc_kc = length (clients (nw_provider w)),
             cc_connVersion = conn_resourceVersion conn, cc_secretVer = sec_resourceVersion sec\<rparr> (byName (nw_provider w))\<rparr>"
  proof (cases "r_conn rdr k ns name")
    case (Inl e)
    with assms(2) that(1,2) show thesis by (auto simp: For_def split: if_splits)
  next
    case conn: (Inr conn)
    show thesis
    proof (cases "r_secret rdr k ns (conn_credentialsSecretRef (conn_spec conn))")
      case (Inl e)
      with assms(2) conn that(1) show thesis by (auto simp: For_def)
    next
      case (Inr sec)
      let ?hit = "\<lambda>cc. map_of (byName (nw_provider w)) (cache_key ns name) = Some cc \<and>
        cc_connVersion cc = conn_resourceVersion conn \<and> cc_secretVer cc = sec_resourceVersion sec"
      show thesis
      proof (cases "\<exists>cc. ?hit cc")
        case True
        then obtain cc where cc: "?hit cc" by blast
        then have "p = nw_provider w" "r = Inr (cc_kc cc)" using assms(2) conn Inr by (simp_all add: For_def)
        with cc cached that(1) show thesis by blast
      next
        case False
        then have miss: "(case map_of (byName (nw_provider w)) (cache_key ns name) of None \<Rightarrow> x
            | Some cc \<Rightarrow> if cc_connVersion cc = conn_resourceVersion conn \<and> cc_secretVer cc = sec_resourceVersion sec then y cc else x) = x"
          for x :: "(goerr + nat) \<times> Provider" and y by (auto split: option.split)
        show thesis
        proof (cases "clientConfig conn sec")
          case (Inl e)
          with assms(2) conn \<open>r_secret _ _ _ _ = Inr sec\<close> miss have "p = nw_provider w" "r = Inl e" by (simp_all add: For_def)
          then show thesis using that(1) by simp
        next
          case config: (Inr c)
          with assms(2) conn \<open>r_secret _ _ _ _ = Inr sec\<close> miss show thesis
            by (intro that(3) [OF conn Inr config]) (simp_all add: For_def Let_def)
        qed
      qed
    qed
  qed
  then show ?thesis
  proof cases
    case same
    with inv show ?thesis by auto
  next
    case drop
    with inv show ?thesis by (auto simp: net_inv_def)
  next
    case build
    with inv new [OF build(1-3)] show ?thesis
      by (auto simp: net_inv_def less_Suc_eq)
  qed
qed

section \<open>What a reconciliation keeps\<close>

lemma client_at_keeps:
  "kc_keeps (\<lambda>w. net_inv rdr h w \<and> kc < length (clients (nw_provider w))) (client_at (traced H) kc)"
proof -
  have "net_inv rdr h (snd (client_run (Do (traced H) meth path body target) kc w)) \<and>
      kc < length (clients (nw_provider (snd (client_run (Do (traced H) meth path body target) kc w))))"
    if "net_inv rdr h w" "kc < length (clients (nw_provider w))" for meth path body target w
    using client_run_inv [OF that, of "Do (traced H) meth path body target"] Do_step that(2) by fastforce
  then show ?thesis by (simp add: kc_keeps_def client_at_def)
qed

lemma pass_net_inv:
  assumes "driver_pair drv drv" and "net_inv rdr h (net st)" and "rdr = ca_reader (en_conn env)"
  shows "net_inv rdr (cluster st # h) (net (snd (snd (Reconcile (operator_engine env K) drv obj st))))"
proof -
  let ?E = "operator_engine env K" and ?ns = "obj_namespace obj" and ?name = "sv_ConnectionName (d_Spec drv obj)"
  obtain r p where For: "For rdr (cluster st) ?ns ?name (nw_provider (net st)) = (r, p)" by fastforce
  let ?w = "(net st)\<lparr>nw_provider := p\<rparr>"
  let ?r = "map_sum id (client_at (traced (en_http env))) r"
  have prov: "e_provider ?E (cluster st) ?ns ?name (net st) = (?r, ?w)"
    using For assms(3) by (cases r) (simp_all add: operator_engine_def NewEngine_def provider_For_def)
  note inv = For_inv [OF assms(2) For]
  let ?J = "\<lambda>w. net_inv rdr (cluster st # h) w \<and> (case r of Inr kc \<Rightarrow> kc < length (clients (nw_provider w)) | Inl e \<Rightarrow> True)"
  have keeps: "kc_keeps ?J kc" if "?r = Inr kc" for kc
    using that client_at_keeps [of rdr "cluster st # h" _ "en_http env"] by (cases r) auto
  have here: "net_inv rdr (cluster st # h) (net st)" by (rule net_inv_mono [OF assms(2)]) auto
  show ?thesis
    by (rule Reconcile_keeps [where I = "net_inv rdr (cluster st # h)" and J = ?J, OF assms(1) here prov])
      (use inv keeps in \<open>auto split: sum.splits\<close>)
qed

lemma reconcile_request_cases:
  assumes "reconcile_request E drv get ns name st = (res, st')"
  obtains "st' = st" | obj where "st' = snd (snd (Reconcile E drv obj st))"
proof (cases "get (cluster st) ns name")
  case (Inl e)
  with assms that(1) show thesis by (simp add: reconcile_request_def)
next
  case (Inr obj)
  with assms that(2) [of obj] show thesis by (simp add: reconcile_request_def split_beta)
qed

lemma finish_emits:
  "\<exists>ds. emitted (snd (snd (finishExisting E drv kc base specMap remote changed obj st))) = emitted st @ ds \<and> list_all engine_metric ds"
  by (auto simp: finishExisting_def Let_def emit_def split_beta split: option.split)

lemma existing_emits:
  "\<exists>ds. emitted (snd (snd (handleExisting E drv kc base specMap payload remote obj st))) = emitted st @ ds \<and> list_all engine_metric ds"
proof -
  have update: "\<exists>ds. emitted (snd (snd (updateExisting E drv kc base specMap remote prepared obj st1))) = emitted st1 @ ds \<and>
      list_all engine_metric ds" for prepared st1
  proof -
    let ?st = "emit (DriftCorrectionsTotal (obj_kind obj)) st1"
    obtain err w where upd: "d_Update drv kc obj (d_ID drv remote) (MergePayload (cloneMap remote) prepared) (net st1) = (err, w)"
      by fastforce
    show ?thesis
    proof (cases err)
      case (Some e)
      with upd show ?thesis by (auto simp: updateExisting_def Let_def split_beta emit_def)
    next
      case None
      with upd finish_emits [of E drv kc base specMap remote True obj
          "record_event E (Normal ''Updated'' (Lit (''Updated '' @ obj_kind obj @ '' on Keycloak server''))) (?st\<lparr>net := w\<rparr>)"]
      show ?thesis by (auto simp: updateExisting_def Let_def emit_def)
    qed
  qed
  have goes_on:
    "\<exists>ds. emitted (snd (snd (updateExisting E drv kc base specMap remote prepared obj st1))) = emitted st @ ds \<and> list_all engine_metric ds"
    "\<exists>ds. emitted (snd (snd (finishExisting E drv kc base specMap remote changed obj st1))) = emitted st @ ds \<and> list_all engine_metric ds"
    if "emitted st1 = emitted st" for prepared changed st1
    using update [of prepared st1] finish_emits [of E drv kc base specMap remote changed obj st1] by (simp_all add: that)
  show ?thesis
    by (auto simp: handleExisting_def Let_def split_beta intro: goes_on split: sum.split)
qed

lemma Reconcile_emits:
  "\<exists>ds. emitted (snd (snd (Reconcile E drv obj st))) = emitted st @ ds \<and> list_all engine_metric ds"
proof -
  have create: "emitted (snd (snd (handleCreate E drv kc base specMap payload obj st1))) = emitted st1" for kc base specMap payload st1
    by (simp add: handleCreate_def Let_def split_beta split: sum.split option.split prod.split)
  have delete: "emitted (snd (snd (handleDeletion E drv kc obj st1))) = emitted st1" for kc st1
    by (auto simp: handleDeletion_def Let_def split_beta split: sum.split option.split prod.split)
  have existing: "\<exists>ds. emitted (snd (snd (handleExisting E drv kc base specMap payload remote obj (st\<lparr>net := w\<rparr>)))) = emitted st @ ds \<and>
      list_all engine_metric ds" for kc base specMap payload remote w
    using existing_emits [of E drv kc base specMap payload remote obj "st\<lparr>net := w\<rparr>"] by simp
  have "\<exists>ds. emitted (snd (snd (reconcileBody E drv obj st))) = emitted st @ ds \<and> list_all engine_metric ds"
    by (simp add: reconcileBody_def Let_def split_beta create delete existing split: sum.split option.split prod.split)
  then show ?thesis
    by (auto simp: Reconcile_simps Let_def emit_def outcome_of_def split: option.split)
qed

section \<open>The connection controller\<close>

text \<open>Either nothing is recorded, or the connection is reported down, or up with its version.\<close>

definition status_metrics :: "string \<Rightarrow> string \<Rightarrow> metric list \<Rightarrow> bool" where
  "status_metrics ns name ms \<longleftrightarrow>
     ms = [] \<or> ms = [ConnectionUp ns name 0] \<or>
     (\<exists>version. ms = ConnectionUp ns name 1 # ServerInfoDelete ns name #
        (if version \<noteq> [] then [ServerInfoSet ns name version] else []))"

lemma connection_step:
  assumes "net_inv rdr h (net st)" and "rdr = ca_reader (en_conn env)"
    and "reconcile_connection env ns name st = (res, st')"
  shows "net_inv rdr (cluster st # h) (net st') \<and> (\<exists>ms. emitted st' = emitted st @ ms \<and> status_metrics ns name ms)"
proof -
  let ?H = "traced (en_http env)" and ?A = "en_conn env"
  let ?cs = "\<lparr>cs_net = net st, cs_cluster = cluster st, cs_metrics = emitted st\<rparr>"
  have mono: "net_inv rdr (cluster st # h) (net st)" by (rule net_inv_mono [OF assms(1)]) auto
  show ?thesis
  proof (cases "r_conn rdr (cluster st) ns name")
    case (Inl e)
    with assms(2,3) mono show ?thesis
      by (auto simp: reconcile_connection_def KeycloakConnectionReconciler_Reconcile_def status_metrics_def)
  next
    case (Inr conn)
    obtain r p where For: "For rdr (cluster st) ns name (nw_provider (net st)) = (r, p)" by fastforce
    note inv = For_inv [OF assms(1) For]
    show ?thesis
    proof (cases r)
      case (Inl e)
      with assms(2,3) Inr For inv show ?thesis
        by (auto simp: reconcile_connection_def KeycloakConnectionReconciler_Reconcile_def unavailable_def Let_def
            status_metrics_def split_beta)
    next
      case kc: (Inr kc)
      let ?w = "(net st)\<lparr>nw_provider := p\<rparr>"
      obtain tok w1 where tok: "client_run (Token ?H) kc ?w = (tok, w1)" by fastforce
      have inv1: "net_inv rdr (cluster st # h) w1 \<and> kc < length (clients (nw_provider w1))"
        using client_run_inv [of rdr "cluster st # h" ?w kc "Token ?H"] inv kc tok Token_step by fastforce
      obtain info w2 where info: "ServerInfo (client_at ?H kc) w1 = (info, w2)" by fastforce
      have "snd (ServerInfo (client_at ?H kc) w1) = snd (client_at ?H kc ''GET'' ''/admin/serverinfo'' None OutMap w1)"
        by (simp add: ServerInfo_def)
      then have inv2: "net_inv rdr (cluster st # h) w2"
        using client_at_keeps [of rdr "cluster st # h" kc "en_http env"] inv1 info by (simp add: kc_keeps_def)
      show ?thesis
      proof (cases tok)
        case (Inl e)
        with assms(2,3) Inr For kc tok inv1 show ?thesis
          by (auto simp: reconcile_connection_def KeycloakConnectionReconciler_Reconcile_def unavailable_def Let_def
              status_metrics_def split_beta)
      next
        case (Inr t)
        with assms(2,3) \<open>r_conn _ _ _ _ = Inr conn\<close> For kc tok info inv2 show ?thesis
          by (fastforce simp: reconcile_connection_def KeycloakConnectionReconciler_Reconcile_def available_def Let_def
              status_metrics_def split_beta split: option.splits prod.splits)
      qed
    qed
  qed
qed

section \<open>Properties of every run\<close>

definition operator_inv :: "('n, 'k) env \<Rightarrow> 'k list \<Rightarrow> ('n wired, 'k) eng \<Rightarrow> bool" where
  "operator_inv env h st \<longleftrightarrow> net_inv (ca_reader (en_conn env)) h (net st) \<and>
     (\<exists>reg. apply_metrics (emitted st) (\<lambda>s. None) = Some reg \<and> registry_ok reg)"

lemma status_metrics_ok:
  assumes "status_metrics ns name ms" and "registry_ok reg"
  shows "\<exists>reg'. apply_metrics ms reg = Some reg' \<and> registry_ok reg'"
proof -
  consider "ms = []" | "ms = [ConnectionUp ns name 0]"
    | version where "ms = [ConnectionUp ns name 1] @ ServerInfoDelete ns name #
        (if version \<noteq> [] then [ServerInfoSet ns name version] else [])"
    using assms(1) by (auto simp: status_metrics_def)
  then show ?thesis
  proof cases
    case 2
    with status_ok [OF assms(2), of 0 ns name] show ?thesis by (auto simp del: apply_metric.simps)
  next
    case 3
    obtain reg1 where "apply_metric (ConnectionUp ns name 1) reg = Some reg1" "registry_ok reg1"
      "reg1 (vec_name ConnectionUp_vec, [ns, name]) = Some 1"
      using status_ok [OF assms(2), of 1 ns name] by blast
    with 3 version_ok [of reg1 ns name version] show ?thesis by (simp del: apply_metric.simps)
  qed (use assms(2) in simp)
qed

lemma pass_inv:
  assumes "driver_pair drv drv" and "operator_inv env h st"
    and "reconcile_request (operator_engine env K) drv get ns name st = (res, st')"
  shows "operator_inv env (cluster st # h) st'"
proof (rule reconcile_request_cases [OF assms(3)])
  assume "st' = st"
  with assms(2) net_inv_mono [of _ h _ "cluster st # h"] show ?thesis
    by (fastforce simp: operator_inv_def)
next
  fix obj assume st': "st' = snd (snd (Reconcile (operator_engine env K) drv obj st))"
  obtain ds where ds: "emitted st' = emitted st @ ds" "list_all engine_metric ds"
    using Reconcile_emits [of "operator_engine env K" drv obj st] st' by blast
  obtain reg where reg: "apply_metrics (emitted st) (\<lambda>s. None) = Some reg" "registry_ok reg"
    using assms(2) by (auto simp: operator_inv_def)
  have "\<exists>reg'. apply_metrics ds reg = Some reg' \<and> registry_ok reg'"
    using plain_metrics_ok [of ds reg] ds(2) reg(2) by (simp add: list_all_iff)
  with reg(1) ds(1) assms(2) pass_net_inv [OF assms(1), of _ h st env K obj] st' show ?thesis
    by (auto simp: operator_inv_def apply_metrics_append)
qed

lemma runs_inv: "runs env h st \<Longrightarrow> operator_inv env h st"
proof (induction rule: runs.induct)
  case (start n k)
  show ?case by (simp add: operator_inv_def operator_start_def net_inv_def NewProvider_def registry_ok_empty)
next
  case (reconcile h st reg ns name res st')
  show ?case
  proof (cases "reg_Complete reg")
    case (KeycloakConnectionReconciler p)
    with reconcile(3) have run: "reconcile_connection env ns name st = (res, st')" by (simp add: operator_reconcile_def)
    obtain r where r: "apply_metrics (emitted st) (\<lambda>s. None) = Some r" "registry_ok r"
      using reconcile.IH by (auto simp: operator_inv_def)
    have "net_inv (ca_reader (en_conn env)) h (net st)" using reconcile.IH by (simp add: operator_inv_def)
    from connection_step [OF this refl run] obtain ms where
      "net_inv (ca_reader (en_conn env)) (cluster st # h) (net st')" "emitted st' = emitted st @ ms" "status_metrics ns name ms" by blast
    with r status_metrics_ok [of ns name ms r] show ?thesis by (auto simp: operator_inv_def apply_metrics_append)
  qed (use reconcile in \<open>auto simp: operator_reconcile_def RealmReconciler_Reconcile_def ClientReconciler_Reconcile_def
      ClientScopeReconciler_Reconcile_def RealmRoleReconciler_Reconcile_def IdentityProviderReconciler_Reconcile_def
      GroupReconciler_Reconcile_def intro: pass_inv realm_pair.driver_pair_axioms client_pair.driver_pair_axioms
      scope_pair.driver_pair_axioms role_pair.driver_pair_axioms idp_pair.driver_pair_axioms group_pair.driver_pair_axioms\<close>)
qed (auto simp: operator_inv_def net_inv_def)

text \<open>
  C6: Every request of a run can be traced to the cluster. Whatever the controllers reconcile,
  in any order, and whatever happens to the cluster and to the servers in between, a request
  that leaves the operator goes to the URL of a connection that the cluster held when some
  reconciliation started. It is either the token request for that connection, with exactly
  the credentials of the Secret the cluster held for it at that moment, or an Admin API
  request with a bearer token and no credentials.
\<close>
theorem requests_traceable:
  assumes "runs env h st" and "q \<in> set (snd (nw_wire (net st)))"
  shows "\<exists>k \<in> set h. \<exists>ns name conn sec c. r_conn (ca_reader (en_conn env)) k ns name = Inr conn \<and>
    r_secret (ca_reader (en_conn env)) k ns (conn_credentialsSecretRef (conn_spec conn)) = Inr sec \<and>
    clientConfig conn sec = Inr c \<and> prefix (conn_url (conn_spec conn)) (req_url q) \<and>
    (req_authorization q = [] \<and> req_method q = ''POST'' \<and> req_body q = FormBody (token_form c) \<or>
     (\<exists>t. t \<noteq> [] \<and> req_authorization q = ''Bearer '' @ t) \<and> (\<forall>form. req_body q \<noteq> FormBody form))"
proof -
  from runs_inv [OF assms(1)] have "net_inv (ca_reader (en_conn env)) h (net st)" by (simp add: operator_inv_def)
  with assms(2) obtain cl where "authored cl q" "origin (ca_reader (en_conn env)) h cl" unfolding net_inv_def by blast
  then obtain k ns name conn sec c where k: "k \<in> set h" "r_conn (ca_reader (en_conn env)) k ns name = Inr conn"
    "r_secret (ca_reader (en_conn env)) k ns (conn_credentialsSecretRef (conn_spec conn)) = Inr sec"
    "clientConfig conn sec = Inr c" and cl: "cfg cl = cfg (New (c\<lparr>ConnectionName := cache_key ns name\<rparr>))"
    unfolding origin_def built_from_def by blast
  have c: "URL c = conn_url (conn_spec conn)" "Auth c \<noteq> []"
    using k(4) by (auto simp: clientConfig_def Let_def AuthClient_def AuthPassword_def split: if_splits)
  then have "URL (cfg cl) = conn_url (conn_spec conn)" "token_form (cfg cl) = token_form c"
    by (simp_all add: cl New_def Let_def token_form_def)
  with \<open>authored cl q\<close> k show ?thesis
    by (intro bexI [of _ k] exI [of _ ns] exI [of _ name] exI [of _ conn] exI [of _ sec] exI [of _ c])
      (auto simp: authored_def token_request_def token_endpoint_def api_request_def split: option.splits)
qed

text \<open>
  C16: The metrics endpoint is always well formed. In every state a run can reach, with a metrics
  library that behaves as documented, neither the registration nor an update made so far
  panicked (for a name taken twice or a wrong number of labels), and of what is exposed: each
  series belongs to a registered vector and has one value per label, counters are positive,
  gauges are 0 or 1, and a connection has at most one server version, not empty, and only
  beside a status. (The counters of requests and the other updates concern different vectors,
  so that the order between the two logs does not matter.)
\<close>
theorem metrics_well_formed:
  assumes "runs env h st" and "prometheus_ok P"
  shows "\<exists>reg. exposed P (emitted st @ nw_mlog (net st)) = Some reg \<and> registry_ok reg"
proof -
  from runs_inv [OF assms(1)] obtain reg where reg: "apply_metrics (emitted st) (\<lambda>s. None) = Some reg" "registry_ok reg"
    and "list_all request_metric (nw_mlog (net st))" by (auto simp: operator_inv_def net_inv_def)
  then have "list_all (\<lambda>m. request_metric m \<or> engine_metric m) (nw_mlog (net st))" by (simp add: list_all_iff)
  from plain_metrics_ok [OF this reg(2)] reg(1) show ?thesis
    by (auto simp: apply_metrics_append exposed_series [OF assms(2)])
qed

text \<open>The status of a connection on the endpoint, and what can change it.\<close>

definition shown_status :: "'p prometheus \<Rightarrow> string \<Rightarrow> string \<Rightarrow> ('n wired, 'k) eng \<Rightarrow> int option" where
  "shown_status P ns name st =
     Option.bind (exposed P (emitted st)) (\<lambda>reg. reg (vec_name ConnectionUp_vec, [ns, name]))"

lemma engine_metrics_keep:
  "list_all engine_metric ds \<Longrightarrow> apply_metrics ds reg = Some reg' \<Longrightarrow>
   reg' (vec_name ConnectionUp_vec, ls) = reg (vec_name ConnectionUp_vec, ls)"
proof (induction ds arbitrary: reg)
  case (Cons d ds)
  then obtain reg1 where "apply_metric d reg = Some reg1" "apply_metrics ds reg1 = Some reg'"
    by (auto split: bind_splits)
  moreover from this(1) Cons.prems(1) have "reg1 (vec_name ConnectionUp_vec, ls) = reg (vec_name ConnectionUp_vec, ls)"
    by (cases d) (auto simp: WithLabelValues_def vec_defs split: bind_splits if_splits)
  ultimately show ?case using Cons by simp
qed simp

lemma status_metrics_keep:
  assumes "status_metrics ns' name' ms" and "(ns', name') \<noteq> (ns, name)" and "apply_metrics ms reg = Some reg'"
  shows "reg' (vec_name ConnectionUp_vec, [ns, name]) = reg (vec_name ConnectionUp_vec, [ns, name])"
  using assms
  by (auto simp: status_metrics_def WithLabelValues_def DeletePartialMatch_def vec_defs split: if_splits)

lemma request_emits:
  assumes "reconcile_request E drv get ns name st = (res, st')"
  shows "\<exists>ds. emitted st' = emitted st @ ds \<and> list_all engine_metric ds"
  by (rule reconcile_request_cases [OF assms]) (use Reconcile_emits in auto)

lemma reconcile_emits_cases:
  assumes "operator_reconcile env r ns name st = (res, st')"
  obtains (connection) p where "r = KeycloakConnectionReconciler p" "reconcile_connection env ns name st = (res, st')"
    | (engine) ds where "emitted st' = emitted st @ ds" "list_all engine_metric ds"
  using assms that
  by (cases r) (auto simp: operator_reconcile_def RealmReconciler_Reconcile_def ClientReconciler_Reconcile_def
      ClientScopeReconciler_Reconcile_def RealmRoleReconciler_Reconcile_def IdentityProviderReconciler_Reconcile_def
      GroupReconciler_Reconcile_def dest!: request_emits)

text \<open>
  C40: A deleted connection stays on the metrics endpoint. Once the cluster no longer has the
  connection, no reconciliation of any controller, for whatever object, changes the status
  shown for it, the one that its own deletion triggers included: the gauge keeps its last
  value. (The metrics library behaves as documented.)
\<close>
theorem deleted_connection_status_stays:
  assumes "runs env h st" and "r_conn (ca_reader (en_conn env)) (cluster st) ns name = Inl e"
    and "r_isNotFound (ca_reader (en_conn env)) e" and "operator_reconcile env r ns' name' st = (res, st')"
    and "prometheus_ok P"
  shows "shown_status P ns name st' = shown_status P ns name st"
proof -
  from runs_inv [OF assms(1)] obtain reg where inv: "net_inv (ca_reader (en_conn env)) h (net st)"
    and reg: "apply_metrics (emitted st) (\<lambda>s. None) = Some reg" "registry_ok reg" by (auto simp: operator_inv_def)
  have step: "shown_status P ns name st' = shown_status P ns name st"
    if "emitted st' = emitted st @ ms" "\<exists>reg'. apply_metrics ms reg = Some reg' \<and> registry_ok reg'"
      "\<And>reg'. apply_metrics ms reg = Some reg' \<Longrightarrow> reg' (vec_name ConnectionUp_vec, [ns, name]) = reg (vec_name ConnectionUp_vec, [ns, name])" for ms
    using that reg(1) by (auto simp: shown_status_def exposed_series [OF assms(5)] apply_metrics_append)
  from assms(4) show ?thesis
  proof (cases rule: reconcile_emits_cases)
    case (engine ds)
    with step [of ds] plain_metrics_ok [of ds reg] reg(2) engine_metrics_keep [of ds reg] show ?thesis
      by (simp add: list_all_iff)
  next
    case (connection p)
    show ?thesis
    proof (cases "(ns', name') = (ns, name)")
      case True
      with connection(2) assms(2,3) have "st' = st"
        by (simp add: reconcile_connection_def KeycloakConnectionReconciler_Reconcile_def)
      then show ?thesis by simp
    next
      case False
      from connection_step [OF inv refl connection(2)] obtain ms where ms: "emitted st' = emitted st @ ms" "status_metrics ns' name' ms" by blast
      with step [OF ms(1) status_metrics_ok [OF ms(2) reg(2)]] status_metrics_keep [OF ms(2) False] show ?thesis by blast
    qed
  qed
qed

section \<open>A concrete run\<close>

definition absent :: "('k, 's) access" where
  "absent = (plain_kube, \<lambda>k ns name. Inl (KubeErr ''NotFound''))"

definition demo_env :: "(nat, unit) env" where
  "demo_env =
     \<lparr>en_http = granting, en_conn = demo_api, en_order = (\<lambda>site ks. ks), en_resync = 0, en_Realm = absent, en_Client = absent,
      en_ClientScope = absent, en_RealmRole = absent, en_IdentityProvider = absent, en_Group = absent\<rparr>"

definition demo_run :: "(nat wired, unit) eng" where
  "demo_run = snd (operator_reconcile demo_env (KeycloakConnectionReconciler 0) ''ns'' ''kc'' (operator_start 0 ()))"

lemma demo_runs: "runs demo_env [()] demo_run"
proof -
  have "hd (controllers 0 0) \<in> set (controllers 0 0)" "reg_Complete (hd (controllers 0 0)) = KeycloakConnectionReconciler 0"
    by (simp_all add: controllers_def)
  from runs.reconcile [OF runs.start [of demo_env 0 "()"] this(1), unfolded this(2), of "''ns''" "''kc''" _ demo_run] show ?thesis
    by (simp add: demo_run_def prod_eq_iff)
qed

theorem requests_traceable_witness:
  "\<exists>q. q \<in> set (snd (nw_wire (net demo_run))) \<and> prefix ''https://kc'' (req_url q)"
proof -
  let ?q = "token_request \<lparr>ConnectionName = ''ns/kc'', URL = ''https://kc'', AdminRealm = ''master'', Auth = ''password'',
    Username = ''admin'', Password = ''pw'', ClientID = [], ClientSecret = [], InsecureSkipVerify = False\<rparr>"
  have "?q \<in> set (snd (nw_wire (net demo_run)))" by code_simp
  moreover from requests_traceable [OF demo_runs this] have "prefix ''https://kc'' (req_url ?q)"
    by (auto simp: demo_env_def demo_api_def demo_reader_def demo_connection_def)
  ultimately show ?thesis by blast
qed

theorem metrics_well_formed_witness:
  "\<exists>reg. exposed series_only (emitted demo_run @ nw_mlog (net demo_run)) = Some reg \<and> registry_ok reg"
  by (rule metrics_well_formed [OF demo_runs series_only_ok])

text \<open>The same operator after the connection was deleted: the gauge still shows 1.\<close>

definition deleting_env :: "(nat, bool) env" where
  "deleting_env =
     (let rdr = \<lparr>r_conn = (\<lambda>k ns n. if k then Inr demo_connection else Inl (KubeErr ''NotFound'')),
                 r_secret = (\<lambda>k ns n. Inr demo_credentials), r_isNotFound = (\<lambda>e. e = KubeErr ''NotFound'')\<rparr>
      in \<lparr>en_http = granting,
          en_conn = \<lparr>ca_reader = rdr, ca_statusPatch = (\<lambda>k base conn. (None, k)), ca_setCondition = set_type\<rparr>,
          en_order = (\<lambda>site ks. ks), en_resync = 0, en_Realm = absent, en_Client = absent,
          en_ClientScope = absent, en_RealmRole = absent, en_IdentityProvider = absent, en_Group = absent\<rparr>)"

definition reported_run :: "(nat wired, bool) eng" where
  "reported_run = snd (operator_reconcile deleting_env (KeycloakConnectionReconciler 0) ''ns'' ''kc'' (operator_start 0 True))"

lemma reported_runs: "runs deleting_env [True] (reported_run\<lparr>cluster := False\<rparr>)"
proof -
  have "hd (controllers 0 0) \<in> set (controllers 0 0)" "reg_Complete (hd (controllers 0 0)) = KeycloakConnectionReconciler 0"
    by (simp_all add: controllers_def)
  from runs.reconcile [OF runs.start [of deleting_env 0 True] this(1), unfolded this(2), of "''ns''" "''kc''" _ reported_run]
  have "runs deleting_env [True] reported_run"
    by (simp add: reported_run_def prod_eq_iff operator_start_def)
  then show ?thesis by (rule runs.cluster)
qed

theorem deleted_connection_status_stays_witness:
  "shown_status series_only ''ns'' ''kc'' (snd (operator_reconcile deleting_env (KeycloakConnectionReconciler 0) ''ns'' ''kc''
     (reported_run\<lparr>cluster := False\<rparr>))) = Some 1"
proof -
  have gone: "r_conn (ca_reader (en_conn deleting_env)) (cluster (reported_run\<lparr>cluster := False\<rparr>)) ''ns'' ''kc'' =
      Inl (KubeErr ''NotFound'')" "r_isNotFound (ca_reader (en_conn deleting_env)) (KubeErr ''NotFound'')"
    by (simp_all add: deleting_env_def Let_def)
  have "shown_status series_only ''ns'' ''kc'' (reported_run\<lparr>cluster := False\<rparr>) = Some 1" by code_simp
  with deleted_connection_status_stays [OF reported_runs gone prod.collapse [symmetric] series_only_ok, of "KeycloakConnectionReconciler 0" "''ns''" "''kc''"]
  show ?thesis by simp
qed

end
