(* ===== verification/Go_Memory.thy ===== *)
theory Go_Memory
  imports Prelude
begin

text \<open>
  Go values in memory, for code whose effect depends on aliasing: pointers, slices and maps are
  addresses of cells, structs are values. A copy function returns the value it stores and the
  memory after its allocations; \<open>deep\<close> says that it copies everything reachable and shares
  nothing. A slice is its whole backing array, and only the addresses of new cells depend on
  the order of allocations.
\<close>

section \<open>Values and memory\<close>

type_synonym addr = nat

datatype prim = PStr string | PInt int | PBool bool

datatype gval = Basic prim | Ptr "addr option" | Slice "addr option" | Map "addr option" | Struct "(string \<times> gval) list"

datatype cell = Var gval | Arr "gval list" | Tab "(string \<times> gval) list"

record memory =
  cells :: "addr \<Rightarrow> cell option"
  limit :: addr

definition memory_ok :: "memory \<Rightarrow> bool" where
  "memory_ok h \<longleftrightarrow> (\<forall>a. cells h a \<noteq> None \<longrightarrow> a < limit h)"

definition alloc :: "cell \<Rightarrow> memory \<Rightarrow> addr \<times> memory" where
  "alloc c h = (limit h, h\<lparr>cells := (cells h)(limit h \<mapsto> c), limit := Suc (limit h)\<rparr>)"

text \<open>Nothing that was allocated is written.\<close>

definition extends :: "memory \<Rightarrow> memory \<Rightarrow> bool" where
  "extends h h' \<longleftrightarrow> limit h \<le> limit h' \<and> (\<forall>a < limit h. cells h' a = cells h a)"

lemma extends_refl [simp]: "extends h h"
  by (simp add: extends_def)

lemma extends_trans: "extends h h' \<Longrightarrow> extends h' h'' \<Longrightarrow> extends h h''"
  by (auto simp: extends_def)

lemma alloc_facts:
  assumes "alloc c h = (a, h')" and "memory_ok h"
  shows "memory_ok h'" "extends h h'" "a = limit h" "limit h' = Suc (limit h)" "cells h' a = Some c"
  using assms by (auto simp: alloc_def memory_ok_def extends_def less_Suc_eq)

section \<open>Types\<close>

datatype gotype = TBasic | TPtr gotype | TSlice gotype | TMap gotype | TStruct "(string \<times> gotype) list"

fun typed :: "memory \<Rightarrow> gotype \<Rightarrow> gval \<Rightarrow> bool"
  and fields_typed :: "memory \<Rightarrow> (string \<times> gotype) list \<Rightarrow> (string \<times> gval) list \<Rightarrow> bool" where
  "typed h TBasic v \<longleftrightarrow> (case v of Basic p \<Rightarrow> True | _ \<Rightarrow> False)"
| "typed h (TPtr T) v \<longleftrightarrow>
     (case v of Ptr None \<Rightarrow> True
      | Ptr (Some a) \<Rightarrow> (case cells h a of Some (Var x) \<Rightarrow> typed h T x | _ \<Rightarrow> False) | _ \<Rightarrow> False)"
| "typed h (TSlice T) v \<longleftrightarrow>
     (case v of Slice None \<Rightarrow> True
      | Slice (Some a) \<Rightarrow> (case cells h a of Some (Arr xs) \<Rightarrow> list_all (typed h T) xs | _ \<Rightarrow> False) | _ \<Rightarrow> False)"
| "typed h (TMap T) v \<longleftrightarrow>
     (case v of Map None \<Rightarrow> True
      | Map (Some a) \<Rightarrow> (case cells h a of Some (Tab m) \<Rightarrow> mwf m \<and> list_all (typed h T) (map snd m) | _ \<Rightarrow> False) | _ \<Rightarrow> False)"
| "typed h (TStruct fs) v \<longleftrightarrow> (case v of Struct vs \<Rightarrow> fields_typed h fs vs | _ \<Rightarrow> False)"
| "fields_typed h [] vs \<longleftrightarrow> vs = []"
| "fields_typed h (f # fs) vs \<longleftrightarrow>
     (case vs of [] \<Rightarrow> False | x # xs \<Rightarrow> fst x = fst f \<and> typed h (snd f) (snd x) \<and> fields_typed h fs xs)"

text \<open>The contents of a value, and the cells it reaches.\<close>

datatype tree = Leaf prim | Nil_ref | Node tree | Elems "tree list" | Entries "(string \<times> tree) list"

fun contents :: "memory \<Rightarrow> gotype \<Rightarrow> gval \<Rightarrow> tree"
  and field_contents :: "memory \<Rightarrow> (string \<times> gotype) list \<Rightarrow> (string \<times> gval) list \<Rightarrow> (string \<times> tree) list" where
  "contents h TBasic v = (case v of Basic p \<Rightarrow> Leaf p | _ \<Rightarrow> Nil_ref)"
| "contents h (TPtr T) v =
     (case v of Ptr (Some a) \<Rightarrow> (case cells h a of Some (Var x) \<Rightarrow> Node (contents h T x) | _ \<Rightarrow> Nil_ref) | _ \<Rightarrow> Nil_ref)"
| "contents h (TSlice T) v =
     (case v of Slice (Some a) \<Rightarrow> (case cells h a of Some (Arr xs) \<Rightarrow> Elems (map (contents h T) xs) | _ \<Rightarrow> Nil_ref) | _ \<Rightarrow> Nil_ref)"
| "contents h (TMap T) v =
     (case v of Map (Some a) \<Rightarrow>
        (case cells h a of Some (Tab m) \<Rightarrow> Entries (zip (map fst m) (map (contents h T) (map snd m))) | _ \<Rightarrow> Nil_ref) | _ \<Rightarrow> Nil_ref)"
| "contents h (TStruct fs) v = (case v of Struct vs \<Rightarrow> Entries (field_contents h fs vs) | _ \<Rightarrow> Nil_ref)"
| "field_contents h [] vs = []"
| "field_contents h (f # fs) vs =
     (case vs of [] \<Rightarrow> [] | x # xs \<Rightarrow> (fst f, contents h (snd f) (snd x)) # field_contents h fs xs)"

fun reach :: "memory \<Rightarrow> gotype \<Rightarrow> gval \<Rightarrow> addr set"
  and fields_reach :: "memory \<Rightarrow> (string \<times> gotype) list \<Rightarrow> (string \<times> gval) list \<Rightarrow> addr set" where
  "reach h TBasic v = {}"
| "reach h (TPtr T) v =
     (case v of Ptr (Some a) \<Rightarrow> insert a (case cells h a of Some (Var x) \<Rightarrow> reach h T x | _ \<Rightarrow> {}) | _ \<Rightarrow> {})"
| "reach h (TSlice T) v =
     (case v of Slice (Some a) \<Rightarrow> insert a (case cells h a of Some (Arr xs) \<Rightarrow> \<Union>(reach h T ` set xs) | _ \<Rightarrow> {}) | _ \<Rightarrow> {})"
| "reach h (TMap T) v =
     (case v of Map (Some a) \<Rightarrow>
        insert a (case cells h a of Some (Tab m) \<Rightarrow> \<Union>(reach h T ` set (map snd m)) | _ \<Rightarrow> {}) | _ \<Rightarrow> {})"
| "reach h (TStruct fs) v = (case v of Struct vs \<Rightarrow> fields_reach h fs vs | _ \<Rightarrow> {})"
| "fields_reach h [] vs = {}"
| "fields_reach h (f # fs) vs =
     (case vs of [] \<Rightarrow> {} | x # xs \<Rightarrow> reach h (snd f) (snd x) \<union> fields_reach h fs xs)"

text \<open>Only the cells that are reached matter.\<close>

definition same_at :: "memory \<Rightarrow> memory \<Rightarrow> gotype \<Rightarrow> gval \<Rightarrow> bool" where
  "same_at h h' T v \<longleftrightarrow> typed h' T v \<and> contents h' T v = contents h T v \<and> reach h' T v = reach h T v"

lemma fields_agreement:
  assumes "\<And>f v. f \<in> set fs \<Longrightarrow> typed h (snd f) v \<Longrightarrow> \<forall>a \<in> reach h (snd f) v. cells h' a = cells h a \<Longrightarrow> same_at h h' (snd f) v"
    and "fields_typed h fs vs" and "\<forall>a \<in> fields_reach h fs vs. cells h' a = cells h a"
  shows "fields_typed h' fs vs \<and> field_contents h' fs vs = field_contents h fs vs \<and> fields_reach h' fs vs = fields_reach h fs vs"
  using assms
proof (induction fs arbitrary: vs)
  case (Cons f fs)
  from Cons.prems(2) obtain x xs where vs: "vs = x # xs" "fst x = fst f" "typed h (snd f) (snd x)" "fields_typed h fs xs"
    by (auto split: list.splits)
  have "same_at h h' (snd f) (snd x)" using Cons.prems(1) [of f "snd x"] Cons.prems(3) vs by simp
  moreover note Cons.IH [of xs]
  ultimately show ?case using Cons.prems(1,3) vs by (simp add: same_at_def)
qed simp

lemma agreement:
  assumes "typed h T v" and "\<forall>a \<in> reach h T v. cells h' a = cells h a"
  shows "same_at h h' T v"
  using assms
proof (induction T arbitrary: v)
  case TBasic
  then show ?case by (simp add: same_at_def)
next
  case (TPtr T)
  then show ?case by (auto simp: same_at_def split: gval.splits option.splits cell.splits)
next
  case (TSlice T)
  show ?case
  proof (cases "v = Slice None")
    case False
    with TSlice.prems obtain a xs where v: "v = Slice (Some a)" "cells h a = Some (Arr xs)" "\<forall>x \<in> set xs. typed h T x"
      by (auto simp: list_all_iff split: gval.splits option.splits cell.splits)
    with TSlice have "\<forall>x \<in> set xs. same_at h h' T x" by auto
    with v TSlice.prems(2) show ?thesis by (auto simp: same_at_def list_all_iff)
  qed (simp add: same_at_def)
next
  case (TMap T)
  show ?case
  proof (cases "v = Map None")
    case False
    with TMap.prems obtain a m where v: "v = Map (Some a)" "cells h a = Some (Tab m)" "mwf m" "\<forall>x \<in> set (map snd m). typed h T x"
      by (auto simp: list_all_iff split: gval.splits option.splits cell.splits)
    with TMap have "\<forall>x \<in> set (map snd m). same_at h h' T x" by auto
    with v TMap.prems(2) show ?thesis by (auto simp: same_at_def list_all_iff cong: map_cong)
  qed (simp add: same_at_def)
next
  case (TStruct fs)
  then obtain vs where "v = Struct vs" by (auto split: gval.splits)
  with TStruct fields_agreement [of fs h h' vs] show ?case by (force simp: same_at_def)
qed

lemma typed_reach:
  assumes "memory_ok h" and "typed h T v"
  shows "reach h T v \<subseteq> {..<limit h}"
  using assms(2)
proof (induction T arbitrary: v)
  case (TStruct fs)
  have "fields_typed h gs vs \<Longrightarrow> set gs \<subseteq> set fs \<Longrightarrow> fields_reach h gs vs \<subseteq> {..<limit h}" for gs vs
    using TStruct.IH by (induction gs arbitrary: vs) (fastforce split: list.splits)+
  with TStruct.prems show ?case by (auto split: gval.splits)
qed (use assms(1) in \<open>fastforce simp: memory_ok_def list_all_iff split: gval.splits option.splits cell.splits\<close>)+

lemma extends_same:
  assumes "memory_ok h" and "extends h h'" and "typed h T v"
  shows "same_at h h' T v"
  using agreement [OF assms(3)] typed_reach [OF assms(1,3)] assms(2) by (auto simp: extends_def)

section \<open>Copies\<close>

type_synonym copy = "gval \<Rightarrow> memory \<Rightarrow> gval \<times> memory"

text \<open>\<open>*out = *in\<close>.\<close>

definition assign :: copy where
  "assign v h = (v, h)"

text \<open>A nil reference stays nil; otherwise a new cell is filled from the old one.\<close>

definition copy_ptr :: "copy \<Rightarrow> copy" where
  "copy_ptr c v h =
     (case v of
        Ptr (Some a) \<Rightarrow>
          (case cells h a of
             Some (Var x) \<Rightarrow> (case c x h of (y, h1) \<Rightarrow> case alloc (Var y) h1 of (b, h2) \<Rightarrow> (Ptr (Some b), h2))
           | _ \<Rightarrow> (v, h))
      | _ \<Rightarrow> (v, h))"

fun copy_elems :: "copy \<Rightarrow> gval list \<Rightarrow> memory \<Rightarrow> gval list \<times> memory" where
  "copy_elems c [] h = ([], h)"
| "copy_elems c (x # xs) h =
     (case c x h of (y, h1) \<Rightarrow> case copy_elems c xs h1 of (ys, h2) \<Rightarrow> (y # ys, h2))"

definition copy_slice :: "copy \<Rightarrow> copy" where
  "copy_slice c v h =
     (case v of
        Slice (Some a) \<Rightarrow>
          (case cells h a of
             Some (Arr xs) \<Rightarrow>
               (case copy_elems c xs h of (ys, h1) \<Rightarrow> case alloc (Arr ys) h1 of (b, h2) \<Rightarrow> (Slice (Some b), h2))
           | _ \<Rightarrow> (v, h))
      | _ \<Rightarrow> (v, h))"

definition copy_map :: "copy \<Rightarrow> copy" where
  "copy_map c v h =
     (case v of
        Map (Some a) \<Rightarrow>
          (case cells h a of
             Some (Tab m) \<Rightarrow>
               (case copy_elems c (map snd m) h of (ys, h1) \<Rightarrow>
                  case alloc (Tab (zip (map fst m) ys)) h1 of (b, h2) \<Rightarrow> (Map (Some b), h2))
           | _ \<Rightarrow> (v, h))
      | _ \<Rightarrow> (v, h))"

text \<open>The statements of a \<open>DeepCopyInto\<close> after \<open>*out = *in\<close>: each assigns one field of \<open>out\<close>
  from the same field of \<open>in\<close>.\<close>

definition put_field :: "string \<Rightarrow> gval \<Rightarrow> (string \<times> gval) list \<Rightarrow> (string \<times> gval) list" where
  "put_field f y vs = map (\<lambda>p. if fst p = f then (f, y) else p) vs"

fun copy_fields :: "(string \<times> copy) list \<Rightarrow> (string \<times> gval) list \<Rightarrow> (string \<times> gval) list \<Rightarrow> memory \<Rightarrow>
    (string \<times> gval) list \<times> memory" where
  "copy_fields [] inp out h = (out, h)"
| "copy_fields ((f, c) # ss) inp out h =
     (case map_of inp f of
        None \<Rightarrow> copy_fields ss inp out h
      | Some x \<Rightarrow> (case c x h of (y, h1) \<Rightarrow> copy_fields ss inp (put_field f y out) h1))"

definition copy_struct :: "(string \<times> copy) list \<Rightarrow> copy" where
  "copy_struct ss v h =
     (case v of
        Struct vs \<Rightarrow> (case copy_fields ss vs vs h of (out, h1) \<Rightarrow> (Struct out, h1))
      | _ \<Rightarrow> (v, h))"

section \<open>Deep copies\<close>

text \<open>The copy has the same contents and only new cells, and nothing else is written.\<close>

definition copied :: "gotype \<Rightarrow> memory \<Rightarrow> gval \<Rightarrow> memory \<Rightarrow> gval \<Rightarrow> bool" where
  "copied T h v h' v' \<longleftrightarrow> memory_ok h' \<and> extends h h' \<and> typed h' T v' \<and> contents h' T v' = contents h T v \<and>
     reach h' T v' \<subseteq> {limit h..<limit h'}"

definition deep :: "gotype \<Rightarrow> copy \<Rightarrow> bool" where
  "deep T c \<longleftrightarrow> (\<forall>h v v' h'. memory_ok h \<longrightarrow> typed h T v \<longrightarrow> c v h = (v', h') \<longrightarrow> copied T h v h' v')"

lemma deepD: "deep T c \<Longrightarrow> memory_ok h \<Longrightarrow> typed h T v \<Longrightarrow> c v h = (v', h') \<Longrightarrow> copied T h v h' v'"
  unfolding deep_def by blast

lemma copied_later:
  assumes "copied T h v h1 v'" and "extends h1 h2"
  shows "typed h2 T v' \<and> contents h2 T v' = contents h T v \<and> reach h2 T v' \<subseteq> {limit h..<limit h2} \<and> extends h h2"
proof -
  have "same_at h1 h2 T v'" using extends_same [OF _ assms(2)] assms(1) by (simp add: copied_def)
  with assms extends_trans show ?thesis by (fastforce simp: copied_def same_at_def extends_def)
qed

lemma typed_later:
  assumes "memory_ok h" and "extends h h1" and "typed h T v" and "copied T h1 v h2 v'"
  shows "contents h2 T v' = contents h T v \<and> reach h2 T v' \<subseteq> {limit h..<limit h2}"
  using extends_same [OF assms(1-3)] assms(2,4) by (fastforce simp: copied_def same_at_def extends_def)

fun flat :: "gotype \<Rightarrow> bool" where
  "flat TBasic \<longleftrightarrow> True"
| "flat (TStruct fs) \<longleftrightarrow> list_all (\<lambda>f. flat (snd f)) fs"
| "flat T \<longleftrightarrow> False"

lemma flat_reach: "flat T \<Longrightarrow> reach h T v = {}"
proof (induction T arbitrary: v)
  case (TStruct fs)
  have "set gs \<subseteq> set fs \<Longrightarrow> fields_reach h gs vs = {}" for gs vs
    using TStruct by (induction gs arbitrary: vs) (auto simp: list_all_iff split: list.splits)
  then show ?case by (simp split: gval.splits)
qed simp_all

lemma deep_assign: "flat T \<Longrightarrow> deep T assign"
  by (auto simp: deep_def copied_def assign_def flat_reach)

lemma deep_ptr:
  assumes "deep T c"
  shows "deep (TPtr T) (copy_ptr c)"
  unfolding deep_def
proof (intro allI impI)
  fix h v v' h'
  assume h: "memory_ok h" and v: "typed h (TPtr T) v" and run: "copy_ptr c v h = (v', h')"
  show "copied (TPtr T) h v h' v'"
  proof (cases "v = Ptr None")
    case False
    with v obtain a x where a: "v = Ptr (Some a)" "cells h a = Some (Var x)" "typed h T x"
      by (auto split: gval.splits option.splits cell.splits)
    obtain y h1 where y: "c x h = (y, h1)" by fastforce
    obtain b h2 where b: "alloc (Var y) h1 = (b, h2)" by fastforce
    have c: "copied T h x h1 y" by (rule deepD [OF assms h a(3) y])
    note new = alloc_facts [OF b]
    have ok: "memory_ok h1" "extends h h1" using c by (simp_all add: copied_def)
    note later = copied_later [OF c new(2) [OF ok(1)]]
    show ?thesis
      using run a y b new [OF ok(1)] later ok(2) by (auto simp: copy_ptr_def copied_def extends_def)
  qed (use h run in \<open>auto simp: copy_ptr_def copied_def\<close>)
qed

text \<open>Elements one by one.\<close>

definition elems_reach :: "memory \<Rightarrow> gotype \<Rightarrow> gval list \<Rightarrow> addr set" where
  "elems_reach h T xs = \<Union>(reach h T ` set xs)"

lemma elems_reach_simps [simp]: "elems_reach h T [] = {}" "elems_reach h T (x # xs) = reach h T x \<union> elems_reach h T xs"
  by (simp_all add: elems_reach_def)

lemma extends_limit: "extends h h' \<Longrightarrow> limit h \<le> limit h'"
  by (simp add: extends_def)

lemma interval_mono: "A \<subseteq> {l..<m} \<Longrightarrow> (m::nat) \<le> n \<Longrightarrow> k \<le> l \<Longrightarrow> A \<subseteq> {k..<n}"
  by auto

definition copied_elems :: "gotype \<Rightarrow> memory \<Rightarrow> gval list \<Rightarrow> memory \<Rightarrow> gval list \<Rightarrow> bool" where
  "copied_elems T h xs h' ys \<longleftrightarrow> memory_ok h' \<and> extends h h' \<and> list_all (typed h' T) ys \<and>
     map (contents h' T) ys = map (contents h T) xs \<and> elems_reach h' T ys \<subseteq> {limit h..<limit h'}"

lemma elems_later:
  assumes "copied_elems T h xs h1 ys" and "extends h1 h2"
  shows "list_all (typed h2 T) ys \<and> map (contents h2 T) ys = map (contents h T) xs \<and>
    elems_reach h2 T ys \<subseteq> {limit h..<limit h2} \<and> extends h h2"
proof -
  have "same_at h1 h2 T y" if "y \<in> set ys" for y
    using extends_same [OF _ assms(2)] assms(1) that by (simp add: copied_elems_def list_all_iff)
  then have "list_all (typed h2 T) ys" "map (contents h2 T) ys = map (contents h1 T) ys" "elems_reach h2 T ys = elems_reach h1 T ys"
    by (simp_all add: same_at_def list_all_iff elems_reach_def)
  with assms extends_trans [OF _ assms(2)] interval_mono [OF _ extends_limit [OF assms(2)] order_refl] show ?thesis
    by (simp add: copied_elems_def)
qed

lemma copy_elems_deep:
  assumes "deep T c" and "memory_ok h" and "list_all (typed h T) xs" and "copy_elems c xs h = (ys, h')"
  shows "copied_elems T h xs h' ys"
  using assms(2-4)
proof (induction xs arbitrary: h ys h')
  case (Cons x xs)
  obtain y h1 where y: "c x h = (y, h1)" by fastforce
  obtain zs h2 where zs: "copy_elems c xs h1 = (zs, h2)" by fastforce
  have c: "copied T h x h1 y" using deepD [OF assms(1) Cons.prems(1) _ y] Cons.prems(2) by simp
  then have h1: "memory_ok h1" "extends h h1" by (simp_all add: copied_def)
  have old: "same_at h h1 T z" if "z \<in> set xs" for z
    using extends_same [OF Cons.prems(1) h1(2)] Cons.prems(2) that by (simp add: list_all_iff)
  then have "list_all (typed h1 T) xs" "map (contents h1 T) xs = map (contents h T) xs" by (simp_all add: same_at_def list_all_iff)
  with Cons.IH [OF h1(1) _ zs] have rest: "copied_elems T h1 xs h2 zs" "map (contents h2 T) zs = map (contents h T) xs"
    by (simp_all add: copied_elems_def)
  then have h2: "extends h1 h2" by (simp add: copied_elems_def)
  have "elems_reach h2 T zs \<subseteq> {limit h..<limit h2}"
    using rest(1) interval_mono [OF _ order_refl extends_limit [OF h1(2)]] by (simp add: copied_elems_def)
  moreover have "ys = y # zs" "h' = h2" using Cons.prems(3) y zs by simp_all
  ultimately show ?case using copied_later [OF c h2] rest by (simp add: copied_elems_def)
qed (simp add: copied_elems_def)

lemma deep_slice:
  assumes "deep T c"
  shows "deep (TSlice T) (copy_slice c)"
  unfolding deep_def
proof (intro allI impI)
  fix h v v' h'
  assume h: "memory_ok h" and v: "typed h (TSlice T) v" and run: "copy_slice c v h = (v', h')"
  show "copied (TSlice T) h v h' v'"
  proof (cases "v = Slice None")
    case False
    with v obtain a xs where a: "v = Slice (Some a)" "cells h a = Some (Arr xs)" "list_all (typed h T) xs"
      by (auto split: gval.splits option.splits cell.splits)
    obtain ys h1 where ys: "copy_elems c xs h = (ys, h1)" by fastforce
    obtain b h2 where b: "alloc (Arr ys) h1 = (b, h2)" by fastforce
    have c: "copied_elems T h xs h1 ys" by (rule copy_elems_deep [OF assms h a(3) ys])
    then have ok: "memory_ok h1" "extends h h1" by (simp_all add: copied_elems_def)
    note new = alloc_facts [OF b ok(1)]
    note later = elems_later [OF c new(2)]
    have v': "v' = Slice (Some b)" "h' = h2" using run a ys b by (simp_all add: copy_slice_def)
    have "reach h2 (TSlice T) (Slice (Some b)) = insert b (elems_reach h2 T ys)" using new(5) by (simp add: elems_reach_def)
    moreover have "b \<in> {limit h..<limit h2}" using new(3,4) extends_limit [OF ok(2)] by simp
    moreover have "contents h2 (TSlice T) (Slice (Some b)) = contents h (TSlice T) v" "typed h2 (TSlice T) (Slice (Some b))"
      using new(5) later a by simp_all
    ultimately show ?thesis using v' new(1) later by (simp add: copied_def)
  qed (use h run in \<open>auto simp: copy_slice_def copied_def\<close>)
qed

lemma deep_map:
  assumes "deep T c"
  shows "deep (TMap T) (copy_map c)"
  unfolding deep_def
proof (intro allI impI)
  fix h v v' h'
  assume h: "memory_ok h" and v: "typed h (TMap T) v" and run: "copy_map c v h = (v', h')"
  show "copied (TMap T) h v h' v'"
  proof (cases "v = Map None")
    case False
    with v obtain a m where a: "v = Map (Some a)" "cells h a = Some (Tab m)" "mwf m" "list_all (typed h T) (map snd m)"
      by (auto split: gval.splits option.splits cell.splits)
    obtain ys h1 where ys: "copy_elems c (map snd m) h = (ys, h1)" by fastforce
    let ?m = "zip (map fst m) ys"
    obtain b h2 where b: "alloc (Tab ?m) h1 = (b, h2)" by fastforce
    have c: "copied_elems T h (map snd m) h1 ys" by (rule copy_elems_deep [OF assms h a(4) ys])
    then have ok: "memory_ok h1" "extends h h1" by (simp_all add: copied_elems_def)
    note new = alloc_facts [OF b ok(1)]
    note later = elems_later [OF c new(2)]
    have "length ys = length m" using later by (metis length_map)
    then have m: "map fst ?m = map fst m" "map snd ?m = ys" "mwf ?m" using a(3) by (simp_all add: mwf_def)
    have v': "v' = Map (Some b)" "h' = h2" using run a ys b by (simp_all add: copy_map_def)
    have "typed h2 (TMap T) (Map (Some b))" using new(5) m later by simp
    moreover have "contents h2 (TMap T) (Map (Some b)) = contents h (TMap T) v" using new(5) m later a by simp
    moreover have "reach h2 (TMap T) (Map (Some b)) = insert b (elems_reach h2 T ys)"
      using new(5) m(2) by (simp add: elems_reach_def del: set_map)
    moreover have "b \<in> {limit h..<limit h2}" using new(3,4) extends_limit [OF ok(2)] by simp
    ultimately show ?thesis using v' new(1) later by (simp add: copied_def)
  qed (use h run in \<open>auto simp: copy_map_def copied_def\<close>)
qed

section \<open>Structs\<close>

lemma fields_typed_iff:
  assumes "distinct (map fst fs)"
  shows "fields_typed h fs vs \<longleftrightarrow> map fst vs = map fst fs \<and>
    (\<forall>f T. map_of fs f = Some T \<longrightarrow> (\<exists>x. map_of vs f = Some x \<and> typed h T x))"
  using assms
proof (induction fs arbitrary: vs)
  case (Cons p fs)
  obtain f T where p: "p = (f, T)" by fastforce
  have new: "map_of fs g = Some U \<Longrightarrow> g \<noteq> f" for g U using Cons.prems p by (metis distinct.simps(2) domI dom_map_of_conv_image_fst fst_conv list.set_map list.simps(9))
  show ?case
  proof (cases vs)
    case (Cons q xs)
    obtain g x where q: "q = (g, x)" by fastforce
    show ?thesis
      unfolding p Cons q using Cons.IH [of xs] Cons.prems p new by (auto split: if_splits)
  qed (use p in auto)
qed auto

lemma fields_view:
  assumes "distinct (map fst fs)" and "map fst vs = map fst fs"
  shows "field_contents h fs vs = map (\<lambda>p. (fst p, contents h (snd p) (the (map_of vs (fst p))))) fs"
    and "fields_reach h fs vs = (\<Union>p \<in> set fs. reach h (snd p) (the (map_of vs (fst p))))"
proof -
  have "field_contents h fs vs = map (\<lambda>p. (fst p, contents h (snd p) (the (map_of vs (fst p))))) fs \<and>
      fields_reach h fs vs = (\<Union>p \<in> set fs. reach h (snd p) (the (map_of vs (fst p))))"
    using assms
  proof (induction fs arbitrary: vs)
    case (Cons f fs)
    from Cons.prems(2) obtain x xs where vs: "vs = x # xs" "fst x = fst f" "map fst xs = map fst fs" by auto
    have "map_of vs (fst p) = map_of xs (fst p)" if "p \<in> set fs" for p
    proof -
      have "fst p \<in> fst ` set fs" "fst f \<notin> fst ` set fs" using that Cons.prems(1) by simp_all
      then have "fst p \<noteq> fst f" by metis
      with vs show ?thesis by (cases x) simp
    qed
    moreover have "map_of vs (fst f) = Some (snd x)" using vs by (cases x) simp
    ultimately show ?case using Cons.IH [of xs] Cons.prems(1) vs by simp
  qed simp
  then show "field_contents h fs vs = map (\<lambda>p. (fst p, contents h (snd p) (the (map_of vs (fst p))))) fs"
    and "fields_reach h fs vs = (\<Union>p \<in> set fs. reach h (snd p) (the (map_of vs (fst p))))" by blast+
qed

lemma map_of_put_field: "map_of (put_field f y vs) g = (if g = f \<and> map_of vs f \<noteq> None then Some y else map_of vs g)"
  by (induction vs) (auto simp: put_field_def)

lemma put_field_names [simp]: "map fst (put_field f y vs) = map fst vs"
  by (simp add: put_field_def comp_def if_distrib cong: if_cong)

text \<open>Between two statements: the fields that were assigned are copies, the others still alias.\<close>

definition field_state :: "(string \<times> gotype) list \<Rightarrow> (string \<times> gval) list \<Rightarrow> memory \<Rightarrow> string set \<Rightarrow>
    (string \<times> gval) list \<Rightarrow> memory \<Rightarrow> bool" where
  "field_state fs inp h0 ds out h \<longleftrightarrow> memory_ok h \<and> extends h0 h \<and> map fst out = map fst fs \<and>
     (\<forall>f T. map_of fs f = Some T \<longrightarrow>
        (\<exists>x y. map_of inp f = Some x \<and> map_of out f = Some y \<and> typed h0 T x \<and>
           (if f \<in> ds then copied T h0 x h y else y = x)))"

lemma field_step:
  assumes "field_state fs inp h0 ds out h" and "memory_ok h0" and "map_of fs f = Some T" and "f \<notin> ds" and "deep T c"
    and "map_of inp f = Some x" and "c x h = (y, h1)"
  shows "field_state fs inp h0 (insert f ds) (put_field f y out) h1"
proof -
  have st: "memory_ok h" "extends h0 h" "map fst out = map fst fs" using assms(1) by (simp_all add: field_state_def)
  have x: "typed h0 T x" "map_of out f = Some x" using assms(1,3,4,6) unfolding field_state_def by fastforce+
  have "typed h T x" using extends_same [OF assms(2) st(2) x(1)] by (simp add: same_at_def)
  from deepD [OF assms(5) st(1) this assms(7)] have c: "copied T h x h1 y" .
  then have h1: "memory_ok h1" "extends h h1" "extends h0 h1" using extends_trans [OF st(2)] by (auto simp: copied_def)
  have own: "copied T h0 x h1 y"
    using typed_later [OF assms(2) st(2) x(1) c] c h1(3) by (simp add: copied_def)
  have before: "copied U h0 z h1 w" if "copied U h0 z h w" for U z w
    using copied_later [OF that h1(2)] h1 by (simp add: copied_def)
  have "\<exists>z w. map_of inp g = Some z \<and> map_of (put_field f y out) g = Some w \<and> typed h0 U z \<and>
      (if g \<in> insert f ds then copied U h0 z h1 w else w = z)" if U: "map_of fs g = Some U" for g U
  proof (cases "g = f")
    case True
    with U assms(3,6) x own show ?thesis by (simp add: map_of_put_field)
  next
    case False
    from U assms(1) obtain z w where zw: "map_of inp g = Some z" "map_of out g = Some w" "typed h0 U z"
      "if g \<in> ds then copied U h0 z h w else w = z" unfolding field_state_def by blast
    with False before [of U z w] show ?thesis by (simp add: map_of_put_field split: if_splits)
  qed
  with h1 st(3) show ?thesis unfolding field_state_def put_field_names by blast
qed

lemma copy_fields_state:
  assumes "field_state fs inp h0 ds out h" and "memory_ok h0" and "distinct (map fst ss)" and "fst ` set ss \<inter> ds = {}"
    and "\<And>f c. (f, c) \<in> set ss \<Longrightarrow> \<exists>T. map_of fs f = Some T \<and> deep T c" and "copy_fields ss inp out h = (out', h')"
  shows "field_state fs inp h0 (ds \<union> fst ` set ss) out' h'"
  using assms
proof (induction ss arbitrary: ds out h)
  case (Cons s ss)
  obtain f c where s: "s = (f, c)" by fastforce
  then have "(f, c) \<in> set (s # ss)" by simp
  with Cons.prems(5) obtain T where T: "map_of fs f = Some T" "deep T c" by blast
  with Cons.prems(1) obtain x where x: "map_of inp f = Some x" unfolding field_state_def by blast
  obtain y h1 where y: "c x h = (y, h1)" by fastforce
  have "f \<notin> ds" using Cons.prems(4) s by auto
  from field_step [OF Cons.prems(1,2) T(1) this T(2) x y]
  have "field_state fs inp h0 (insert f ds \<union> fst ` set ss) out' h'"
    using Cons.prems(2-6) s x y by (intro Cons.IH) auto
  then show ?case using s by simp
qed simp

lemma deep_struct:
  assumes "distinct (map fst fs)" and "distinct (map fst ss)"
    and "\<And>f c. (f, c) \<in> set ss \<Longrightarrow> \<exists>T. map_of fs f = Some T \<and> deep T c"
    and "\<And>f T. (f, T) \<in> set fs \<Longrightarrow> f \<in> fst ` set ss \<or> flat T"
  shows "deep (TStruct fs) (copy_struct ss)"
  unfolding deep_def
proof (intro allI impI)
  fix h v v' h'
  assume h: "memory_ok h" and v: "typed h (TStruct fs) v" and run: "copy_struct ss v h = (v', h')"
  then obtain vs where vs: "v = Struct vs" "fields_typed h fs vs" by (auto split: gval.splits)
  obtain out h1 where out: "copy_fields ss vs vs h = (out, h1)" by fastforce
  then have v': "v' = Struct out" "h' = h1" using run vs by (simp_all add: copy_struct_def)
  have "field_state fs vs h {} vs h" using vs(2) h unfolding field_state_def fields_typed_iff [OF assms(1)] by auto
  from copy_fields_state [OF this h assms(2) _ assms(3) out] have st: "field_state fs vs h (fst ` set ss) out h1" by simp
  then have base: "memory_ok h1" "extends h h1" "map fst out = map fst fs" by (simp_all add: field_state_def)
  have each: "\<exists>x y. map_of vs f = Some x \<and> map_of out f = Some y \<and> copied T h x h1 y" if T: "map_of fs f = Some T" for f T
  proof -
    from st T obtain x y where xy: "map_of vs f = Some x" "map_of out f = Some y" "typed h T x"
      "if f \<in> fst ` set ss then copied T h x h1 y else y = x" unfolding field_state_def by blast
    show ?thesis
    proof (cases "f \<in> fst ` set ss")
      case False
      then have "flat T" using assms(4) T map_of_SomeD by fastforce
      moreover have "same_at h h1 T x" by (rule extends_same [OF h base(2) xy(3)])
      ultimately show ?thesis using xy False base by (auto simp: copied_def same_at_def flat_reach)
    qed (use xy in auto)
  qed
  have typed: "fields_typed h1 fs out" using each base(3) unfolding fields_typed_iff [OF assms(1)] copied_def by blast
  have field: "contents h1 (snd p) (the (map_of out (fst p))) = contents h (snd p) (the (map_of vs (fst p)))"
    "reach h1 (snd p) (the (map_of out (fst p))) \<subseteq> {limit h..<limit h1}" if "p \<in> set fs" for p
    using each [of "fst p" "snd p"] that assms(1) by (auto simp: copied_def)
  have names: "map fst vs = map fst fs" using vs(2) fields_typed_iff [OF assms(1)] by blast
  have "field_contents h1 fs out = field_contents h fs vs"
    unfolding fields_view(1) [OF assms(1) base(3)] fields_view(1) [OF assms(1) names] using field(1) by simp
  moreover have "fields_reach h1 fs out \<subseteq> {limit h..<limit h1}"
    unfolding fields_view(2) [OF assms(1) base(3)] using field(2) by (intro UN_least)
  ultimately show "copied (TStruct fs) h v h' v'" using base v' vs typed by (simp add: copied_def)
qed

text \<open>The statements follow the order of the fields and skip only plain ones.\<close>

inductive covers :: "(string \<times> gotype) list \<Rightarrow> (string \<times> copy) list \<Rightarrow> bool" where
  covers_none: "covers [] []"
| covers_copied: "deep T c \<Longrightarrow> covers fs ss \<Longrightarrow> covers ((f, T) # fs) ((f, c) # ss)"
| covers_plain: "covers fs ss \<Longrightarrow> covers ((f, TBasic) # fs) ss"

lemmas covers_rules = covers_copied covers_plain covers_none

lemma covers_names: "covers fs ss \<Longrightarrow> fst ` set ss \<subseteq> fst ` set fs"
  by (induction rule: covers.induct) auto

lemma deep_struct_covers:
  assumes "distinct (map fst fs)" and "covers fs ss"
  shows "deep (TStruct fs) (copy_struct ss)"
proof (rule deep_struct [OF assms(1)])
  from assms(2,1) show "distinct (map fst ss)"
  proof (induction rule: covers.induct)
    case (covers_copied T d fs ss g)
    then show ?case using covers_names [of fs ss] by auto
  qed simp_all
  from assms(2,1) show "\<exists>T. map_of fs f = Some T \<and> deep T c" if "(f, c) \<in> set ss" for f c
    using that
  proof (induction rule: covers.induct)
    case (covers_plain fs ss g)
    then have "f \<in> fst ` set fs" using covers_names [of fs ss] by force
    with covers_plain show ?case by auto
  next
    case (covers_copied T d fs ss g)
    then have "g \<notin> fst ` set ss" using covers_names [of fs ss] by auto
    with covers_copied.prems covers_copied.hyps covers_copied.IH show ?case
      by (cases "f = g") (auto intro: rev_image_eqI)
  qed simp
  show "f \<in> fst ` set ss \<or> flat T" if "(f, T) \<in> set fs" for f T
    using assms(2) that by (induction rule: covers.induct) auto
qed

lemma flat_basic: "flat TBasic"
  by simp

end
