(* ===== verification/Deepcopy.thy ===== *)
theory Deepcopy
  imports Go_Memory
begin

text \<open>
  The generated deep copies (\<open>api/v1alpha1/zz_generated.deepcopy.go\<close>): for every API type its
  memory layout, the statements of its \<open>DeepCopyInto\<close> after \<open>*out = *in\<close>, its \<open>DeepCopy\<close> and, for
  the registered kinds, its \<open>DeepCopyObject\<close>. The engine and the connection controller take such
  a copy as the base of their patches before they write to the object. The embedded types of
  \<open>apimachinery\<close> and their copies are a parameter.
\<close>

named_theorems deep_rules

section \<open>The types and their copies\<close>

record metav1 =
  TypeMeta_type :: gotype
  ObjectMeta_type :: gotype
  ListMeta_type :: gotype
  Condition_type :: gotype
  ObjectMeta_DeepCopyInto :: copy
  ListMeta_DeepCopyInto :: copy
  Condition_DeepCopyInto :: copy

text \<open>What the generated code relies on: \<open>TypeMeta\<close> holds two strings, and the copies of the
  package are deep for its own types.\<close>

definition metav1_ok :: "metav1 \<Rightarrow> bool" where
  "metav1_ok m \<longleftrightarrow> flat (TypeMeta_type m) \<and> deep (ObjectMeta_type m) (ObjectMeta_DeepCopyInto m) \<and>
     deep (ListMeta_type m) (ListMeta_DeepCopyInto m) \<and> deep (Condition_type m) (Condition_DeepCopyInto m)"

text \<open>The result of a \<open>DeepCopyObject\<close> is a \<open>runtime.Object\<close>: an interface that is nil, or holds a
  pointer. A nil pointer becomes the nil interface.\<close>

type_synonym object_copy = "gval \<Rightarrow> memory \<Rightarrow> gval option \<times> memory"

definition as_object :: "copy \<Rightarrow> object_copy" where
  "as_object c v h = (case c v h of (p, h1) \<Rightarrow> (if p \<noteq> Ptr None then Some p else None, h1))"

definition KeycloakRef_type :: "gotype" where
  "KeycloakRef_type = TStruct
    [(''Name'', TBasic)]"

definition KeycloakRef_DeepCopyInto :: "copy" where
  "KeycloakRef_DeepCopyInto = copy_struct
    []"

definition KeycloakRef_DeepCopy :: "copy" where
  "KeycloakRef_DeepCopy = copy_ptr KeycloakRef_DeepCopyInto"

definition SecretKeySelector_type :: "gotype" where
  "SecretKeySelector_type = TStruct
    [(''Name'', TBasic), (''Key'', TBasic)]"

definition SecretKeySelector_DeepCopyInto :: "copy" where
  "SecretKeySelector_DeepCopyInto = copy_struct
    []"

definition SecretKeySelector_DeepCopy :: "copy" where
  "SecretKeySelector_DeepCopy = copy_ptr SecretKeySelector_DeepCopyInto"

definition ProtocolMapper_type :: "gotype" where
  "ProtocolMapper_type = TStruct
    [(''Name'', TPtr TBasic), (''Protocol'', TPtr TBasic), (''ProtocolMapper'', TPtr TBasic),
     (''ConsentRequired'', TPtr TBasic), (''Config'', TMap TBasic)]"

definition ProtocolMapper_DeepCopyInto :: "copy" where
  "ProtocolMapper_DeepCopyInto = copy_struct
    [(''Name'', copy_ptr assign), (''Protocol'', copy_ptr assign), (''ProtocolMapper'', copy_ptr assign),
     (''ConsentRequired'', copy_ptr assign), (''Config'', copy_map assign)]"

definition ProtocolMapper_DeepCopy :: "copy" where
  "ProtocolMapper_DeepCopy = copy_ptr ProtocolMapper_DeepCopyInto"

definition ClientSpec_type :: "gotype" where
  "ClientSpec_type = TStruct
    [(''KeycloakRef'', KeycloakRef_type), (''Realm'', TBasic), (''ClientID'', TBasic),
     (''AdoptionPolicy'', TPtr TBasic), (''DeletionPolicy'', TPtr TBasic),
     (''SecretRef'', TPtr SecretKeySelector_type), (''SecretOutput'', TPtr SecretKeySelector_type),
     (''Name'', TPtr TBasic), (''Description'', TPtr TBasic), (''Enabled'', TPtr TBasic),
     (''Protocol'', TPtr TBasic), (''PublicClient'', TPtr TBasic), (''BearerOnly'', TPtr TBasic),
     (''StandardFlowEnabled'', TPtr TBasic), (''ImplicitFlowEnabled'', TPtr TBasic),
     (''DirectAccessGrantsEnabled'', TPtr TBasic), (''ServiceAccountsEnabled'', TPtr TBasic),
     (''AuthorizationServicesEnabled'', TPtr TBasic), (''FrontchannelLogout'', TPtr TBasic),
     (''FullScopeAllowed'', TPtr TBasic), (''ConsentRequired'', TPtr TBasic),
     (''DisplayOnConsentScreen'', TPtr TBasic), (''ConsentScreenText'', TPtr TBasic),
     (''AlwaysDisplayInConsole'', TPtr TBasic), (''SurrogateAuthRequired'', TPtr TBasic),
     (''RootURL'', TPtr TBasic), (''BaseURL'', TPtr TBasic), (''AdminURL'', TPtr TBasic),
     (''RedirectUris'', TSlice TBasic), (''WebOrigins'', TSlice TBasic),
     (''NodeReRegistrationTimeout'', TPtr TBasic), (''ClientAuthenticatorType'', TPtr TBasic),
     (''ProtocolMappers'', TSlice ProtocolMapper_type), (''DefaultClientScopes'', TPtr (TSlice TBasic)),
     (''OptionalClientScopes'', TPtr (TSlice TBasic)), (''Attributes'', TMap TBasic),
     (''AuthenticationFlowBindingOverrides'', TMap TBasic)]"

definition ClientSpec_statements1 :: "(string \<times> copy) list" where
  "ClientSpec_statements1 =
    [(''KeycloakRef'', assign), (''AdoptionPolicy'', copy_ptr assign), (''DeletionPolicy'', copy_ptr assign),
     (''SecretRef'', copy_ptr assign), (''SecretOutput'', copy_ptr assign), (''Name'', copy_ptr assign),
     (''Description'', copy_ptr assign), (''Enabled'', copy_ptr assign), (''Protocol'', copy_ptr assign),
     (''PublicClient'', copy_ptr assign), (''BearerOnly'', copy_ptr assign),
     (''StandardFlowEnabled'', copy_ptr assign), (''ImplicitFlowEnabled'', copy_ptr assign),
     (''DirectAccessGrantsEnabled'', copy_ptr assign), (''ServiceAccountsEnabled'', copy_ptr assign),
     (''AuthorizationServicesEnabled'', copy_ptr assign), (''FrontchannelLogout'', copy_ptr assign),
     (''FullScopeAllowed'', copy_ptr assign), (''ConsentRequired'', copy_ptr assign),
     (''DisplayOnConsentScreen'', copy_ptr assign), (''ConsentScreenText'', copy_ptr assign),
     (''AlwaysDisplayInConsole'', copy_ptr assign), (''SurrogateAuthRequired'', copy_ptr assign),
     (''RootURL'', copy_ptr assign), (''BaseURL'', copy_ptr assign), (''AdminURL'', copy_ptr assign),
     (''RedirectUris'', copy_slice assign), (''WebOrigins'', copy_slice assign)]"

definition ClientSpec_statements2 :: "(string \<times> copy) list" where
  "ClientSpec_statements2 =
    [(''NodeReRegistrationTimeout'', copy_ptr assign), (''ClientAuthenticatorType'', copy_ptr assign),
     (''ProtocolMappers'', copy_slice ProtocolMapper_DeepCopyInto),
     (''DefaultClientScopes'', copy_ptr (copy_slice assign)),
     (''OptionalClientScopes'', copy_ptr (copy_slice assign)), (''Attributes'', copy_map assign),
     (''AuthenticationFlowBindingOverrides'', copy_map assign)]"

definition ClientSpec_DeepCopyInto :: "copy" where
  "ClientSpec_DeepCopyInto = copy_struct
    (ClientSpec_statements1 @ ClientSpec_statements2)"

definition ClientSpec_DeepCopy :: "copy" where
  "ClientSpec_DeepCopy = copy_ptr ClientSpec_DeepCopyInto"

definition ResourceStatus_type :: "metav1 \<Rightarrow> gotype" where
  "ResourceStatus_type m = TStruct
    [(''Conditions'', TSlice (Condition_type m)), (''ObservedGeneration'', TBasic)]"

definition ResourceStatus_DeepCopyInto :: "metav1 \<Rightarrow> copy" where
  "ResourceStatus_DeepCopyInto m = copy_struct
    [(''Conditions'', copy_slice (Condition_DeepCopyInto m))]"

definition ResourceStatus_DeepCopy :: "metav1 \<Rightarrow> copy" where
  "ResourceStatus_DeepCopy m = copy_ptr (ResourceStatus_DeepCopyInto m)"

definition ClientStatus_type :: "metav1 \<Rightarrow> gotype" where
  "ClientStatus_type m = TStruct
    [(''ResourceStatus'', ResourceStatus_type m), (''SecretName'', TBasic)]"

definition ClientStatus_DeepCopyInto :: "metav1 \<Rightarrow> copy" where
  "ClientStatus_DeepCopyInto m = copy_struct
    [(''ResourceStatus'', ResourceStatus_DeepCopyInto m)]"

definition ClientStatus_DeepCopy :: "metav1 \<Rightarrow> copy" where
  "ClientStatus_DeepCopy m = copy_ptr (ClientStatus_DeepCopyInto m)"

definition Client_type :: "metav1 \<Rightarrow> gotype" where
  "Client_type m = TStruct
    [(''TypeMeta'', TypeMeta_type m), (''ObjectMeta'', ObjectMeta_type m), (''Spec'', ClientSpec_type),
     (''Status'', ClientStatus_type m)]"

definition Client_DeepCopyInto :: "metav1 \<Rightarrow> copy" where
  "Client_DeepCopyInto m = copy_struct
    [(''TypeMeta'', assign), (''ObjectMeta'', ObjectMeta_DeepCopyInto m), (''Spec'', ClientSpec_DeepCopyInto),
     (''Status'', ClientStatus_DeepCopyInto m)]"

definition Client_DeepCopy :: "metav1 \<Rightarrow> copy" where
  "Client_DeepCopy m = copy_ptr (Client_DeepCopyInto m)"

definition Client_DeepCopyObject :: "metav1 \<Rightarrow> object_copy" where
  "Client_DeepCopyObject m = as_object (Client_DeepCopy m)"

definition ClientList_type :: "metav1 \<Rightarrow> gotype" where
  "ClientList_type m = TStruct
    [(''TypeMeta'', TypeMeta_type m), (''ListMeta'', ListMeta_type m), (''Items'', TSlice (Client_type m))]"

definition ClientList_DeepCopyInto :: "metav1 \<Rightarrow> copy" where
  "ClientList_DeepCopyInto m = copy_struct
    [(''TypeMeta'', assign), (''ListMeta'', ListMeta_DeepCopyInto m), (''Items'', copy_slice (Client_DeepCopyInto m))]"

definition ClientList_DeepCopy :: "metav1 \<Rightarrow> copy" where
  "ClientList_DeepCopy m = copy_ptr (ClientList_DeepCopyInto m)"

definition ClientList_DeepCopyObject :: "metav1 \<Rightarrow> object_copy" where
  "ClientList_DeepCopyObject m = as_object (ClientList_DeepCopy m)"

definition ClientScopeSpec_type :: "gotype" where
  "ClientScopeSpec_type = TStruct
    [(''KeycloakRef'', KeycloakRef_type), (''Realm'', TBasic), (''Name'', TBasic),
     (''AdoptionPolicy'', TPtr TBasic), (''DeletionPolicy'', TPtr TBasic), (''Description'', TPtr TBasic),
     (''Protocol'', TPtr TBasic), (''Attributes'', TMap TBasic), (''ProtocolMappers'', TSlice ProtocolMapper_type),
     (''DisplayOnConsentScreen'', TPtr TBasic), (''ConsentScreenText'', TPtr TBasic)]"

definition ClientScopeSpec_DeepCopyInto :: "copy" where
  "ClientScopeSpec_DeepCopyInto = copy_struct
    [(''KeycloakRef'', assign), (''AdoptionPolicy'', copy_ptr assign), (''DeletionPolicy'', copy_ptr assign),
     (''Description'', copy_ptr assign), (''Protocol'', copy_ptr assign), (''Attributes'', copy_map assign),
     (''ProtocolMappers'', copy_slice ProtocolMapper_DeepCopyInto), (''DisplayOnConsentScreen'', copy_ptr assign),
     (''ConsentScreenText'', copy_ptr assign)]"

definition ClientScopeSpec_DeepCopy :: "copy" where
  "ClientScopeSpec_DeepCopy = copy_ptr ClientScopeSpec_DeepCopyInto"

definition ClientScope_type :: "metav1 \<Rightarrow> gotype" where
  "ClientScope_type m = TStruct
    [(''TypeMeta'', TypeMeta_type m), (''ObjectMeta'', ObjectMeta_type m), (''Spec'', ClientScopeSpec_type),
     (''Status'', ResourceStatus_type m)]"

definition ClientScope_DeepCopyInto :: "metav1 \<Rightarrow> copy" where
  "ClientScope_DeepCopyInto m = copy_struct
    [(''TypeMeta'', assign), (''ObjectMeta'', ObjectMeta_DeepCopyInto m), (''Spec'', ClientScopeSpec_DeepCopyInto),
     (''Status'', ResourceStatus_DeepCopyInto m)]"

definition ClientScope_DeepCopy :: "metav1 \<Rightarrow> copy" where
  "ClientScope_DeepCopy m = copy_ptr (ClientScope_DeepCopyInto m)"

definition ClientScope_DeepCopyObject :: "metav1 \<Rightarrow> object_copy" where
  "ClientScope_DeepCopyObject m = as_object (ClientScope_DeepCopy m)"

definition ClientScopeList_type :: "metav1 \<Rightarrow> gotype" where
  "ClientScopeList_type m = TStruct
    [(''TypeMeta'', TypeMeta_type m), (''ListMeta'', ListMeta_type m), (''Items'', TSlice (ClientScope_type m))]"

definition ClientScopeList_DeepCopyInto :: "metav1 \<Rightarrow> copy" where
  "ClientScopeList_DeepCopyInto m = copy_struct
    [(''TypeMeta'', assign), (''ListMeta'', ListMeta_DeepCopyInto m),
     (''Items'', copy_slice (ClientScope_DeepCopyInto m))]"

definition ClientScopeList_DeepCopy :: "metav1 \<Rightarrow> copy" where
  "ClientScopeList_DeepCopy m = copy_ptr (ClientScopeList_DeepCopyInto m)"

definition ClientScopeList_DeepCopyObject :: "metav1 \<Rightarrow> object_copy" where
  "ClientScopeList_DeepCopyObject m = as_object (ClientScopeList_DeepCopy m)"

definition GroupSpec_type :: "gotype" where
  "GroupSpec_type = TStruct
    [(''KeycloakRef'', KeycloakRef_type), (''Realm'', TBasic), (''Name'', TBasic),
     (''AdoptionPolicy'', TPtr TBasic), (''DeletionPolicy'', TPtr TBasic), (''Attributes'', TMap (TSlice TBasic)),
     (''RealmRoles'', TPtr (TSlice TBasic)), (''ClientRoles'', TPtr (TMap (TSlice TBasic)))]"

definition GroupSpec_DeepCopyInto :: "copy" where
  "GroupSpec_DeepCopyInto = copy_struct
    [(''KeycloakRef'', assign), (''AdoptionPolicy'', copy_ptr assign), (''DeletionPolicy'', copy_ptr assign),
     (''Attributes'', copy_map (copy_slice assign)), (''RealmRoles'', copy_ptr (copy_slice assign)),
     (''ClientRoles'', copy_ptr (copy_map (copy_slice assign)))]"

definition GroupSpec_DeepCopy :: "copy" where
  "GroupSpec_DeepCopy = copy_ptr GroupSpec_DeepCopyInto"

definition Group_type :: "metav1 \<Rightarrow> gotype" where
  "Group_type m = TStruct
    [(''TypeMeta'', TypeMeta_type m), (''ObjectMeta'', ObjectMeta_type m), (''Spec'', GroupSpec_type),
     (''Status'', ResourceStatus_type m)]"

definition Group_DeepCopyInto :: "metav1 \<Rightarrow> copy" where
  "Group_DeepCopyInto m = copy_struct
    [(''TypeMeta'', assign), (''ObjectMeta'', ObjectMeta_DeepCopyInto m), (''Spec'', GroupSpec_DeepCopyInto),
     (''Status'', ResourceStatus_DeepCopyInto m)]"

definition Group_DeepCopy :: "metav1 \<Rightarrow> copy" where
  "Group_DeepCopy m = copy_ptr (Group_DeepCopyInto m)"

definition Group_DeepCopyObject :: "metav1 \<Rightarrow> object_copy" where
  "Group_DeepCopyObject m = as_object (Group_DeepCopy m)"

definition GroupList_type :: "metav1 \<Rightarrow> gotype" where
  "GroupList_type m = TStruct
    [(''TypeMeta'', TypeMeta_type m), (''ListMeta'', ListMeta_type m), (''Items'', TSlice (Group_type m))]"

definition GroupList_DeepCopyInto :: "metav1 \<Rightarrow> copy" where
  "GroupList_DeepCopyInto m = copy_struct
    [(''TypeMeta'', assign), (''ListMeta'', ListMeta_DeepCopyInto m), (''Items'', copy_slice (Group_DeepCopyInto m))]"

definition GroupList_DeepCopy :: "metav1 \<Rightarrow> copy" where
  "GroupList_DeepCopy m = copy_ptr (GroupList_DeepCopyInto m)"

definition GroupList_DeepCopyObject :: "metav1 \<Rightarrow> object_copy" where
  "GroupList_DeepCopyObject m = as_object (GroupList_DeepCopy m)"

definition SecretKeysSelector_type :: "gotype" where
  "SecretKeysSelector_type = TStruct
    [(''Name'', TBasic), (''Keys'', TMap TBasic)]"

definition SecretKeysSelector_DeepCopyInto :: "copy" where
  "SecretKeysSelector_DeepCopyInto = copy_struct
    [(''Keys'', copy_map assign)]"

definition SecretKeysSelector_DeepCopy :: "copy" where
  "SecretKeysSelector_DeepCopy = copy_ptr SecretKeysSelector_DeepCopyInto"

definition IdentityProviderMapper_type :: "gotype" where
  "IdentityProviderMapper_type = TStruct
    [(''Name'', TBasic), (''IdentityProviderMapper'', TPtr TBasic), (''Config'', TMap TBasic)]"

definition IdentityProviderMapper_DeepCopyInto :: "copy" where
  "IdentityProviderMapper_DeepCopyInto = copy_struct
    [(''IdentityProviderMapper'', copy_ptr assign), (''Config'', copy_map assign)]"

definition IdentityProviderMapper_DeepCopy :: "copy" where
  "IdentityProviderMapper_DeepCopy = copy_ptr IdentityProviderMapper_DeepCopyInto"

definition IdentityProviderSpec_type :: "gotype" where
  "IdentityProviderSpec_type = TStruct
    [(''KeycloakRef'', KeycloakRef_type), (''Realm'', TBasic), (''Alias'', TBasic), (''ProviderID'', TBasic),
     (''AdoptionPolicy'', TPtr TBasic), (''DeletionPolicy'', TPtr TBasic), (''DisplayName'', TPtr TBasic),
     (''Enabled'', TPtr TBasic), (''TrustEmail'', TPtr TBasic), (''StoreToken'', TPtr TBasic),
     (''AddReadTokenRoleOnCreate'', TPtr TBasic), (''LinkOnly'', TPtr TBasic),
     (''FirstBrokerLoginFlowAlias'', TPtr TBasic), (''PostBrokerLoginFlowAlias'', TPtr TBasic),
     (''Config'', TMap TBasic), (''ConfigSecretRef'', TPtr SecretKeysSelector_type),
     (''Mappers'', TSlice IdentityProviderMapper_type)]"

definition IdentityProviderSpec_DeepCopyInto :: "copy" where
  "IdentityProviderSpec_DeepCopyInto = copy_struct
    [(''KeycloakRef'', assign), (''AdoptionPolicy'', copy_ptr assign), (''DeletionPolicy'', copy_ptr assign),
     (''DisplayName'', copy_ptr assign), (''Enabled'', copy_ptr assign), (''TrustEmail'', copy_ptr assign),
     (''StoreToken'', copy_ptr assign), (''AddReadTokenRoleOnCreate'', copy_ptr assign),
     (''LinkOnly'', copy_ptr assign), (''FirstBrokerLoginFlowAlias'', copy_ptr assign),
     (''PostBrokerLoginFlowAlias'', copy_ptr assign), (''Config'', copy_map assign),
     (''ConfigSecretRef'', copy_ptr SecretKeysSelector_DeepCopyInto),
     (''Mappers'', copy_slice IdentityProviderMapper_DeepCopyInto)]"

definition IdentityProviderSpec_DeepCopy :: "copy" where
  "IdentityProviderSpec_DeepCopy = copy_ptr IdentityProviderSpec_DeepCopyInto"

definition IdentityProvider_type :: "metav1 \<Rightarrow> gotype" where
  "IdentityProvider_type m = TStruct
    [(''TypeMeta'', TypeMeta_type m), (''ObjectMeta'', ObjectMeta_type m), (''Spec'', IdentityProviderSpec_type),
     (''Status'', ResourceStatus_type m)]"

definition IdentityProvider_DeepCopyInto :: "metav1 \<Rightarrow> copy" where
  "IdentityProvider_DeepCopyInto m = copy_struct
    [(''TypeMeta'', assign), (''ObjectMeta'', ObjectMeta_DeepCopyInto m),
     (''Spec'', IdentityProviderSpec_DeepCopyInto), (''Status'', ResourceStatus_DeepCopyInto m)]"

definition IdentityProvider_DeepCopy :: "metav1 \<Rightarrow> copy" where
  "IdentityProvider_DeepCopy m = copy_ptr (IdentityProvider_DeepCopyInto m)"

definition IdentityProvider_DeepCopyObject :: "metav1 \<Rightarrow> object_copy" where
  "IdentityProvider_DeepCopyObject m = as_object (IdentityProvider_DeepCopy m)"

definition IdentityProviderList_type :: "metav1 \<Rightarrow> gotype" where
  "IdentityProviderList_type m = TStruct
    [(''TypeMeta'', TypeMeta_type m), (''ListMeta'', ListMeta_type m), (''Items'', TSlice (IdentityProvider_type m))]"

definition IdentityProviderList_DeepCopyInto :: "metav1 \<Rightarrow> copy" where
  "IdentityProviderList_DeepCopyInto m = copy_struct
    [(''TypeMeta'', assign), (''ListMeta'', ListMeta_DeepCopyInto m),
     (''Items'', copy_slice (IdentityProvider_DeepCopyInto m))]"

definition IdentityProviderList_DeepCopy :: "metav1 \<Rightarrow> copy" where
  "IdentityProviderList_DeepCopy m = copy_ptr (IdentityProviderList_DeepCopyInto m)"

definition IdentityProviderList_DeepCopyObject :: "metav1 \<Rightarrow> object_copy" where
  "IdentityProviderList_DeepCopyObject m = as_object (IdentityProviderList_DeepCopy m)"

definition TLSConfig_type :: "gotype" where
  "TLSConfig_type = TStruct
    [(''InsecureSkipVerify'', TPtr TBasic)]"

definition TLSConfig_DeepCopyInto :: "copy" where
  "TLSConfig_DeepCopyInto = copy_struct
    [(''InsecureSkipVerify'', copy_ptr assign)]"

definition TLSConfig_DeepCopy :: "copy" where
  "TLSConfig_DeepCopy = copy_ptr TLSConfig_DeepCopyInto"

definition KeycloakConnectionSpec_type :: "gotype" where
  "KeycloakConnectionSpec_type = TStruct
    [(''URL'', TBasic), (''CredentialsSecretRef'', TBasic), (''Auth'', TPtr TBasic), (''AdminRealm'', TPtr TBasic),
     (''TLS'', TPtr TLSConfig_type)]"

definition KeycloakConnectionSpec_DeepCopyInto :: "copy" where
  "KeycloakConnectionSpec_DeepCopyInto = copy_struct
    [(''Auth'', copy_ptr assign), (''AdminRealm'', copy_ptr assign), (''TLS'', copy_ptr TLSConfig_DeepCopyInto)]"

definition KeycloakConnectionSpec_DeepCopy :: "copy" where
  "KeycloakConnectionSpec_DeepCopy = copy_ptr KeycloakConnectionSpec_DeepCopyInto"

definition KeycloakConnectionStatus_type :: "metav1 \<Rightarrow> gotype" where
  "KeycloakConnectionStatus_type m = TStruct
    [(''Conditions'', TSlice (Condition_type m)), (''ObservedGeneration'', TBasic), (''ServerVersion'', TBasic)]"

definition KeycloakConnectionStatus_DeepCopyInto :: "metav1 \<Rightarrow> copy" where
  "KeycloakConnectionStatus_DeepCopyInto m = copy_struct
    [(''Conditions'', copy_slice (Condition_DeepCopyInto m))]"

definition KeycloakConnectionStatus_DeepCopy :: "metav1 \<Rightarrow> copy" where
  "KeycloakConnectionStatus_DeepCopy m = copy_ptr (KeycloakConnectionStatus_DeepCopyInto m)"

definition KeycloakConnection_type :: "metav1 \<Rightarrow> gotype" where
  "KeycloakConnection_type m = TStruct
    [(''TypeMeta'', TypeMeta_type m), (''ObjectMeta'', ObjectMeta_type m), (''Spec'', KeycloakConnectionSpec_type),
     (''Status'', KeycloakConnectionStatus_type m)]"

definition KeycloakConnection_DeepCopyInto :: "metav1 \<Rightarrow> copy" where
  "KeycloakConnection_DeepCopyInto m = copy_struct
    [(''TypeMeta'', assign), (''ObjectMeta'', ObjectMeta_DeepCopyInto m),
     (''Spec'', KeycloakConnectionSpec_DeepCopyInto), (''Status'', KeycloakConnectionStatus_DeepCopyInto m)]"

definition KeycloakConnection_DeepCopy :: "metav1 \<Rightarrow> copy" where
  "KeycloakConnection_DeepCopy m = copy_ptr (KeycloakConnection_DeepCopyInto m)"

definition KeycloakConnection_DeepCopyObject :: "metav1 \<Rightarrow> object_copy" where
  "KeycloakConnection_DeepCopyObject m = as_object (KeycloakConnection_DeepCopy m)"

definition KeycloakConnectionList_type :: "metav1 \<Rightarrow> gotype" where
  "KeycloakConnectionList_type m = TStruct
    [(''TypeMeta'', TypeMeta_type m), (''ListMeta'', ListMeta_type m),
     (''Items'', TSlice (KeycloakConnection_type m))]"

definition KeycloakConnectionList_DeepCopyInto :: "metav1 \<Rightarrow> copy" where
  "KeycloakConnectionList_DeepCopyInto m = copy_struct
    [(''TypeMeta'', assign), (''ListMeta'', ListMeta_DeepCopyInto m),
     (''Items'', copy_slice (KeycloakConnection_DeepCopyInto m))]"

definition KeycloakConnectionList_DeepCopy :: "metav1 \<Rightarrow> copy" where
  "KeycloakConnectionList_DeepCopy m = copy_ptr (KeycloakConnectionList_DeepCopyInto m)"

definition KeycloakConnectionList_DeepCopyObject :: "metav1 \<Rightarrow> object_copy" where
  "KeycloakConnectionList_DeepCopyObject m = as_object (KeycloakConnectionList_DeepCopy m)"

definition RealmSpec_type :: "gotype" where
  "RealmSpec_type = TStruct
    [(''KeycloakRef'', KeycloakRef_type), (''Realm'', TBasic), (''AdoptionPolicy'', TPtr TBasic),
     (''DeletionPolicy'', TPtr TBasic), (''Enabled'', TPtr TBasic), (''DisplayName'', TPtr TBasic),
     (''DisplayNameHTML'', TPtr TBasic), (''SSLRequired'', TPtr TBasic), (''NotBefore'', TPtr TBasic),
     (''RegistrationAllowed'', TPtr TBasic), (''RegistrationEmailAsUsername'', TPtr TBasic),
     (''LoginWithEmailAllowed'', TPtr TBasic), (''DuplicateEmailsAllowed'', TPtr TBasic),
     (''ResetPasswordAllowed'', TPtr TBasic), (''RememberMe'', TPtr TBasic), (''VerifyEmail'', TPtr TBasic),
     (''UserManagedAccessAllowed'', TPtr TBasic), (''SSOSessionIdleTimeout'', TPtr TBasic),
     (''SSOSessionMaxLifespan'', TPtr TBasic), (''SSOSessionIdleTimeoutRememberMe'', TPtr TBasic),
     (''SSOSessionMaxLifespanRememberMe'', TPtr TBasic), (''ClientSessionIdleTimeout'', TPtr TBasic),
     (''ClientSessionMaxLifespan'', TPtr TBasic), (''ClientOfflineSessionIdleTimeout'', TPtr TBasic),
     (''ClientOfflineSessionMaxLifespan'', TPtr TBasic), (''AccessTokenLifespan'', TPtr TBasic),
     (''AccessTokenLifespanForImplicitFlow'', TPtr TBasic), (''OfflineSessionIdleTimeout'', TPtr TBasic),
     (''OfflineSessionMaxLifespanEnabled'', TPtr TBasic), (''OfflineSessionMaxLifespan'', TPtr TBasic),
     (''AccessCodeLifespan'', TPtr TBasic), (''AccessCodeLifespanUserAction'', TPtr TBasic),
     (''AccessCodeLifespanLogin'', TPtr TBasic), (''ActionTokenGeneratedByAdminLifespan'', TPtr TBasic),
     (''ActionTokenGeneratedByUserLifespan'', TPtr TBasic), (''OAuth2DeviceCodeLifespan'', TPtr TBasic),
     (''OAuth2DevicePollingInterval'', TPtr TBasic), (''RevokeRefreshToken'', TPtr TBasic),
     (''RefreshTokenMaxReuse'', TPtr TBasic), (''LoginTheme'', TPtr TBasic), (''AccountTheme'', TPtr TBasic),
     (''AdminTheme'', TPtr TBasic), (''EmailTheme'', TPtr TBasic), (''SMTPServer'', TMap TBasic),
     (''SMTPServerSecretRef'', TPtr SecretKeysSelector_type), (''EventsEnabled'', TPtr TBasic),
     (''EventsExpiration'', TPtr TBasic), (''EventsListeners'', TSlice TBasic),
     (''EnabledEventTypes'', TSlice TBasic), (''AdminEventsEnabled'', TPtr TBasic),
     (''AdminEventsDetailsEnabled'', TPtr TBasic), (''PasswordPolicy'', TPtr TBasic),
     (''BruteForceProtected'', TPtr TBasic), (''PermanentLockout'', TPtr TBasic),
     (''MaxFailureWaitSeconds'', TPtr TBasic), (''MinimumQuickLoginWaitSeconds'', TPtr TBasic),
     (''WaitIncrementSeconds'', TPtr TBasic), (''QuickLoginCheckMilliSeconds'', TPtr TBasic),
     (''MaxDeltaTimeSeconds'', TPtr TBasic), (''FailureFactor'', TPtr TBasic), (''OTPPolicyType'', TPtr TBasic),
     (''OTPPolicyAlgorithm'', TPtr TBasic), (''OTPPolicyInitialCounter'', TPtr TBasic),
     (''OTPPolicyDigits'', TPtr TBasic), (''OTPPolicyLookAheadWindow'', TPtr TBasic),
     (''OTPPolicyPeriod'', TPtr TBasic), (''OTPPolicyCodeReusable'', TPtr TBasic),
     (''WebAuthnPolicyRpEntityName'', TPtr TBasic), (''WebAuthnPolicySignatureAlgorithms'', TSlice TBasic),
     (''WebAuthnPolicyRpID'', TPtr TBasic), (''WebAuthnPolicyAttestationConveyancePreference'', TPtr TBasic),
     (''WebAuthnPolicyAuthenticatorAttachment'', TPtr TBasic), (''WebAuthnPolicyRequireResidentKey'', TPtr TBasic),
     (''WebAuthnPolicyUserVerificationRequirement'', TPtr TBasic), (''WebAuthnPolicyCreateTimeout'', TPtr TBasic),
     (''WebAuthnPolicyAvoidSameAuthenticatorRegister'', TPtr TBasic),
     (''WebAuthnPolicyAcceptableAaguids'', TSlice TBasic),
     (''WebAuthnPolicyPasswordlessRpEntityName'', TPtr TBasic),
     (''WebAuthnPolicyPasswordlessSignatureAlgorithms'', TSlice TBasic),
     (''WebAuthnPolicyPasswordlessRpID'', TPtr TBasic),
     (''WebAuthnPolicyPasswordlessAttestationConveyancePreference'', TPtr TBasic),
     (''WebAuthnPolicyPasswordlessAuthenticatorAttachment'', TPtr TBasic),
     (''WebAuthnPolicyPasswordlessRequireResidentKey'', TPtr TBasic),
     (''WebAuthnPolicyPasswordlessUserVerificationRequirement'', TPtr TBasic),
     (''WebAuthnPolicyPasswordlessCreateTimeout'', TPtr TBasic),
     (''WebAuthnPolicyPasswordlessAvoidSameAuthenticatorRegister'', TPtr TBasic),
     (''WebAuthnPolicyPasswordlessAcceptableAaguids'', TSlice TBasic),
     (''InternationalizationEnabled'', TPtr TBasic), (''SupportedLocales'', TSlice TBasic),
     (''DefaultLocale'', TPtr TBasic), (''DefaultDefaultClientScopes'', TSlice TBasic),
     (''DefaultOptionalClientScopes'', TSlice TBasic), (''DefaultSignatureAlgorithm'', TPtr TBasic),
     (''Attributes'', TMap TBasic), (''BrowserSecurityHeaders'', TMap TBasic),
     (''OrganizationsEnabled'', TPtr TBasic)]"

definition RealmSpec_statements1 :: "(string \<times> copy) list" where
  "RealmSpec_statements1 =
    [(''KeycloakRef'', assign), (''AdoptionPolicy'', copy_ptr assign), (''DeletionPolicy'', copy_ptr assign),
     (''Enabled'', copy_ptr assign), (''DisplayName'', copy_ptr assign), (''DisplayNameHTML'', copy_ptr assign),
     (''SSLRequired'', copy_ptr assign), (''NotBefore'', copy_ptr assign),
     (''RegistrationAllowed'', copy_ptr assign), (''RegistrationEmailAsUsername'', copy_ptr assign),
     (''LoginWithEmailAllowed'', copy_ptr assign), (''DuplicateEmailsAllowed'', copy_ptr assign),
     (''ResetPasswordAllowed'', copy_ptr assign), (''RememberMe'', copy_ptr assign),
     (''VerifyEmail'', copy_ptr assign), (''UserManagedAccessAllowed'', copy_ptr assign),
     (''SSOSessionIdleTimeout'', copy_ptr assign), (''SSOSessionMaxLifespan'', copy_ptr assign),
     (''SSOSessionIdleTimeoutRememberMe'', copy_ptr assign), (''SSOSessionMaxLifespanRememberMe'', copy_ptr assign),
     (''ClientSessionIdleTimeout'', copy_ptr assign), (''ClientSessionMaxLifespan'', copy_ptr assign),
     (''ClientOfflineSessionIdleTimeout'', copy_ptr assign), (''ClientOfflineSessionMaxLifespan'', copy_ptr assign),
     (''AccessTokenLifespan'', copy_ptr assign), (''AccessTokenLifespanForImplicitFlow'', copy_ptr assign),
     (''OfflineSessionIdleTimeout'', copy_ptr assign), (''OfflineSessionMaxLifespanEnabled'', copy_ptr assign)]"

definition RealmSpec_statements2 :: "(string \<times> copy) list" where
  "RealmSpec_statements2 =
    [(''OfflineSessionMaxLifespan'', copy_ptr assign), (''AccessCodeLifespan'', copy_ptr assign),
     (''AccessCodeLifespanUserAction'', copy_ptr assign), (''AccessCodeLifespanLogin'', copy_ptr assign),
     (''ActionTokenGeneratedByAdminLifespan'', copy_ptr assign),
     (''ActionTokenGeneratedByUserLifespan'', copy_ptr assign), (''OAuth2DeviceCodeLifespan'', copy_ptr assign),
     (''OAuth2DevicePollingInterval'', copy_ptr assign), (''RevokeRefreshToken'', copy_ptr assign),
     (''RefreshTokenMaxReuse'', copy_ptr assign), (''LoginTheme'', copy_ptr assign),
     (''AccountTheme'', copy_ptr assign), (''AdminTheme'', copy_ptr assign), (''EmailTheme'', copy_ptr assign),
     (''SMTPServer'', copy_map assign), (''SMTPServerSecretRef'', copy_ptr SecretKeysSelector_DeepCopyInto),
     (''EventsEnabled'', copy_ptr assign), (''EventsExpiration'', copy_ptr assign),
     (''EventsListeners'', copy_slice assign), (''EnabledEventTypes'', copy_slice assign),
     (''AdminEventsEnabled'', copy_ptr assign), (''AdminEventsDetailsEnabled'', copy_ptr assign),
     (''PasswordPolicy'', copy_ptr assign), (''BruteForceProtected'', copy_ptr assign),
     (''PermanentLockout'', copy_ptr assign), (''MaxFailureWaitSeconds'', copy_ptr assign),
     (''MinimumQuickLoginWaitSeconds'', copy_ptr assign)]"

definition RealmSpec_statements3 :: "(string \<times> copy) list" where
  "RealmSpec_statements3 =
    [(''WaitIncrementSeconds'', copy_ptr assign), (''QuickLoginCheckMilliSeconds'', copy_ptr assign),
     (''MaxDeltaTimeSeconds'', copy_ptr assign), (''FailureFactor'', copy_ptr assign),
     (''OTPPolicyType'', copy_ptr assign), (''OTPPolicyAlgorithm'', copy_ptr assign),
     (''OTPPolicyInitialCounter'', copy_ptr assign), (''OTPPolicyDigits'', copy_ptr assign),
     (''OTPPolicyLookAheadWindow'', copy_ptr assign), (''OTPPolicyPeriod'', copy_ptr assign),
     (''OTPPolicyCodeReusable'', copy_ptr assign), (''WebAuthnPolicyRpEntityName'', copy_ptr assign),
     (''WebAuthnPolicySignatureAlgorithms'', copy_slice assign), (''WebAuthnPolicyRpID'', copy_ptr assign),
     (''WebAuthnPolicyAttestationConveyancePreference'', copy_ptr assign),
     (''WebAuthnPolicyAuthenticatorAttachment'', copy_ptr assign),
     (''WebAuthnPolicyRequireResidentKey'', copy_ptr assign),
     (''WebAuthnPolicyUserVerificationRequirement'', copy_ptr assign),
     (''WebAuthnPolicyCreateTimeout'', copy_ptr assign),
     (''WebAuthnPolicyAvoidSameAuthenticatorRegister'', copy_ptr assign),
     (''WebAuthnPolicyAcceptableAaguids'', copy_slice assign),
     (''WebAuthnPolicyPasswordlessRpEntityName'', copy_ptr assign),
     (''WebAuthnPolicyPasswordlessSignatureAlgorithms'', copy_slice assign),
     (''WebAuthnPolicyPasswordlessRpID'', copy_ptr assign),
     (''WebAuthnPolicyPasswordlessAttestationConveyancePreference'', copy_ptr assign),
     (''WebAuthnPolicyPasswordlessAuthenticatorAttachment'', copy_ptr assign),
     (''WebAuthnPolicyPasswordlessRequireResidentKey'', copy_ptr assign),
     (''WebAuthnPolicyPasswordlessUserVerificationRequirement'', copy_ptr assign)]"

definition RealmSpec_statements4 :: "(string \<times> copy) list" where
  "RealmSpec_statements4 =
    [(''WebAuthnPolicyPasswordlessCreateTimeout'', copy_ptr assign),
     (''WebAuthnPolicyPasswordlessAvoidSameAuthenticatorRegister'', copy_ptr assign),
     (''WebAuthnPolicyPasswordlessAcceptableAaguids'', copy_slice assign),
     (''InternationalizationEnabled'', copy_ptr assign), (''SupportedLocales'', copy_slice assign),
     (''DefaultLocale'', copy_ptr assign), (''DefaultDefaultClientScopes'', copy_slice assign),
     (''DefaultOptionalClientScopes'', copy_slice assign), (''DefaultSignatureAlgorithm'', copy_ptr assign),
     (''Attributes'', copy_map assign), (''BrowserSecurityHeaders'', copy_map assign),
     (''OrganizationsEnabled'', copy_ptr assign)]"

definition RealmSpec_DeepCopyInto :: "copy" where
  "RealmSpec_DeepCopyInto = copy_struct
    (RealmSpec_statements1 @ RealmSpec_statements2 @ RealmSpec_statements3 @ RealmSpec_statements4)"

definition RealmSpec_DeepCopy :: "copy" where
  "RealmSpec_DeepCopy = copy_ptr RealmSpec_DeepCopyInto"

definition Realm_type :: "metav1 \<Rightarrow> gotype" where
  "Realm_type m = TStruct
    [(''TypeMeta'', TypeMeta_type m), (''ObjectMeta'', ObjectMeta_type m), (''Spec'', RealmSpec_type),
     (''Status'', ResourceStatus_type m)]"

definition Realm_DeepCopyInto :: "metav1 \<Rightarrow> copy" where
  "Realm_DeepCopyInto m = copy_struct
    [(''TypeMeta'', assign), (''ObjectMeta'', ObjectMeta_DeepCopyInto m), (''Spec'', RealmSpec_DeepCopyInto),
     (''Status'', ResourceStatus_DeepCopyInto m)]"

definition Realm_DeepCopy :: "metav1 \<Rightarrow> copy" where
  "Realm_DeepCopy m = copy_ptr (Realm_DeepCopyInto m)"

definition Realm_DeepCopyObject :: "metav1 \<Rightarrow> object_copy" where
  "Realm_DeepCopyObject m = as_object (Realm_DeepCopy m)"

definition RealmList_type :: "metav1 \<Rightarrow> gotype" where
  "RealmList_type m = TStruct
    [(''TypeMeta'', TypeMeta_type m), (''ListMeta'', ListMeta_type m), (''Items'', TSlice (Realm_type m))]"

definition RealmList_DeepCopyInto :: "metav1 \<Rightarrow> copy" where
  "RealmList_DeepCopyInto m = copy_struct
    [(''TypeMeta'', assign), (''ListMeta'', ListMeta_DeepCopyInto m), (''Items'', copy_slice (Realm_DeepCopyInto m))]"

definition RealmList_DeepCopy :: "metav1 \<Rightarrow> copy" where
  "RealmList_DeepCopy m = copy_ptr (RealmList_DeepCopyInto m)"

definition RealmList_DeepCopyObject :: "metav1 \<Rightarrow> object_copy" where
  "RealmList_DeepCopyObject m = as_object (RealmList_DeepCopy m)"

definition RoleComposites_type :: "gotype" where
  "RoleComposites_type = TStruct
    [(''RealmRoles'', TSlice TBasic), (''ClientRoles'', TMap (TSlice TBasic))]"

definition RoleComposites_DeepCopyInto :: "copy" where
  "RoleComposites_DeepCopyInto = copy_struct
    [(''RealmRoles'', copy_slice assign), (''ClientRoles'', copy_map (copy_slice assign))]"

definition RoleComposites_DeepCopy :: "copy" where
  "RoleComposites_DeepCopy = copy_ptr RoleComposites_DeepCopyInto"

definition RealmRoleSpec_type :: "gotype" where
  "RealmRoleSpec_type = TStruct
    [(''KeycloakRef'', KeycloakRef_type), (''Realm'', TBasic), (''Name'', TBasic),
     (''AdoptionPolicy'', TPtr TBasic), (''DeletionPolicy'', TPtr TBasic), (''Description'', TPtr TBasic),
     (''Composite'', TPtr TBasic), (''Composites'', TPtr RoleComposites_type), (''Attributes'', TMap (TSlice TBasic))]"

definition RealmRoleSpec_DeepCopyInto :: "copy" where
  "RealmRoleSpec_DeepCopyInto = copy_struct
    [(''KeycloakRef'', assign), (''AdoptionPolicy'', copy_ptr assign), (''DeletionPolicy'', copy_ptr assign),
     (''Description'', copy_ptr assign), (''Composite'', copy_ptr assign),
     (''Composites'', copy_ptr RoleComposites_DeepCopyInto), (''Attributes'', copy_map (copy_slice assign))]"

definition RealmRoleSpec_DeepCopy :: "copy" where
  "RealmRoleSpec_DeepCopy = copy_ptr RealmRoleSpec_DeepCopyInto"

definition RealmRole_type :: "metav1 \<Rightarrow> gotype" where
  "RealmRole_type m = TStruct
    [(''TypeMeta'', TypeMeta_type m), (''ObjectMeta'', ObjectMeta_type m), (''Spec'', RealmRoleSpec_type),
     (''Status'', ResourceStatus_type m)]"

definition RealmRole_DeepCopyInto :: "metav1 \<Rightarrow> copy" where
  "RealmRole_DeepCopyInto m = copy_struct
    [(''TypeMeta'', assign), (''ObjectMeta'', ObjectMeta_DeepCopyInto m), (''Spec'', RealmRoleSpec_DeepCopyInto),
     (''Status'', ResourceStatus_DeepCopyInto m)]"

definition RealmRole_DeepCopy :: "metav1 \<Rightarrow> copy" where
  "RealmRole_DeepCopy m = copy_ptr (RealmRole_DeepCopyInto m)"

definition RealmRole_DeepCopyObject :: "metav1 \<Rightarrow> object_copy" where
  "RealmRole_DeepCopyObject m = as_object (RealmRole_DeepCopy m)"

definition RealmRoleList_type :: "metav1 \<Rightarrow> gotype" where
  "RealmRoleList_type m = TStruct
    [(''TypeMeta'', TypeMeta_type m), (''ListMeta'', ListMeta_type m), (''Items'', TSlice (RealmRole_type m))]"

definition RealmRoleList_DeepCopyInto :: "metav1 \<Rightarrow> copy" where
  "RealmRoleList_DeepCopyInto m = copy_struct
    [(''TypeMeta'', assign), (''ListMeta'', ListMeta_DeepCopyInto m),
     (''Items'', copy_slice (RealmRole_DeepCopyInto m))]"

definition RealmRoleList_DeepCopy :: "metav1 \<Rightarrow> copy" where
  "RealmRoleList_DeepCopy m = copy_ptr (RealmRoleList_DeepCopyInto m)"

definition RealmRoleList_DeepCopyObject :: "metav1 \<Rightarrow> object_copy" where
  "RealmRoleList_DeepCopyObject m = as_object (RealmRoleList_DeepCopy m)"

definition runtime_objects :: "metav1 \<Rightarrow> (gotype \<times> object_copy) list" where
  "runtime_objects m =
    [(Client_type m, Client_DeepCopyObject m), (ClientList_type m, ClientList_DeepCopyObject m),
     (ClientScope_type m, ClientScope_DeepCopyObject m), (ClientScopeList_type m, ClientScopeList_DeepCopyObject m),
     (Group_type m, Group_DeepCopyObject m), (GroupList_type m, GroupList_DeepCopyObject m),
     (IdentityProvider_type m, IdentityProvider_DeepCopyObject m),
     (IdentityProviderList_type m, IdentityProviderList_DeepCopyObject m),
     (KeycloakConnection_type m, KeycloakConnection_DeepCopyObject m),
     (KeycloakConnectionList_type m, KeycloakConnectionList_DeepCopyObject m),
     (Realm_type m, Realm_DeepCopyObject m), (RealmList_type m, RealmList_DeepCopyObject m),
     (RealmRole_type m, RealmRole_DeepCopyObject m), (RealmRoleList_type m, RealmRoleList_DeepCopyObject m)]"

section \<open>Every copy is deep\<close>

lemmas metav1_rules = metav1_ok_def [THEN iffD1, THEN conjunct1]
  metav1_ok_def [THEN iffD1, THEN conjunct2, THEN conjunct1]
  metav1_ok_def [THEN iffD1, THEN conjunct2, THEN conjunct2, THEN conjunct1]
  metav1_ok_def [THEN iffD1, THEN conjunct2, THEN conjunct2, THEN conjunct2]

declare deep_assign [deep_rules] deep_ptr [deep_rules] deep_slice [deep_rules] deep_map [deep_rules] flat_basic [deep_rules]

lemma object_deepI: "deep T f \<Longrightarrow> \<exists>g. deep T g \<and> as_object (copy_ptr f) = as_object (copy_ptr g)"
  by blast

lemma KeycloakRef_flat [deep_rules]: "flat KeycloakRef_type"
  by (simp add: KeycloakRef_type_def)

lemma KeycloakRef_deep [deep_rules]:
  "deep KeycloakRef_type KeycloakRef_DeepCopyInto"
  unfolding KeycloakRef_type_def KeycloakRef_DeepCopyInto_def
  by (rule deep_struct_covers, simp, (rule covers_rules deep_rules)+)

lemma SecretKeySelector_flat [deep_rules]: "flat SecretKeySelector_type"
  by (simp add: SecretKeySelector_type_def)

lemma SecretKeySelector_deep [deep_rules]:
  "deep SecretKeySelector_type SecretKeySelector_DeepCopyInto"
  unfolding SecretKeySelector_type_def SecretKeySelector_DeepCopyInto_def
  by (rule deep_struct_covers, simp, (rule covers_rules deep_rules)+)

lemma ProtocolMapper_deep [deep_rules]:
  "deep ProtocolMapper_type ProtocolMapper_DeepCopyInto"
  unfolding ProtocolMapper_type_def ProtocolMapper_DeepCopyInto_def
  by (rule deep_struct_covers, simp, (rule covers_rules deep_rules)+)

lemma ClientSpec_deep [deep_rules]:
  "deep ClientSpec_type ClientSpec_DeepCopyInto"
  unfolding ClientSpec_type_def ClientSpec_DeepCopyInto_def ClientSpec_statements1_def ClientSpec_statements2_def append.simps
  by (rule deep_struct_covers, simp, (rule covers_rules deep_rules)+)

lemma ResourceStatus_deep:
  assumes "metav1_ok m"
  shows "deep (ResourceStatus_type m) (ResourceStatus_DeepCopyInto m)"
  unfolding ResourceStatus_type_def ResourceStatus_DeepCopyInto_def
  by (rule deep_struct_covers, simp, (rule covers_rules deep_rules metav1_rules [OF assms])+)

lemma ClientStatus_deep:
  assumes "metav1_ok m"
  shows "deep (ClientStatus_type m) (ClientStatus_DeepCopyInto m)"
  unfolding ClientStatus_type_def ClientStatus_DeepCopyInto_def
  by (rule deep_struct_covers, simp, (rule covers_rules deep_rules metav1_rules [OF assms] ResourceStatus_deep [OF assms])+)

lemma Client_deep:
  assumes "metav1_ok m"
  shows "deep (Client_type m) (Client_DeepCopyInto m)"
  unfolding Client_type_def Client_DeepCopyInto_def
  by (rule deep_struct_covers, simp, (rule covers_rules deep_rules metav1_rules [OF assms] ClientStatus_deep [OF assms])+)

lemma ClientList_deep:
  assumes "metav1_ok m"
  shows "deep (ClientList_type m) (ClientList_DeepCopyInto m)"
  unfolding ClientList_type_def ClientList_DeepCopyInto_def
  by (rule deep_struct_covers, simp, (rule covers_rules deep_rules metav1_rules [OF assms] Client_deep [OF assms])+)

lemma ClientScopeSpec_deep [deep_rules]:
  "deep ClientScopeSpec_type ClientScopeSpec_DeepCopyInto"
  unfolding ClientScopeSpec_type_def ClientScopeSpec_DeepCopyInto_def
  by (rule deep_struct_covers, simp, (rule covers_rules deep_rules)+)

lemma ClientScope_deep:
  assumes "metav1_ok m"
  shows "deep (ClientScope_type m) (ClientScope_DeepCopyInto m)"
  unfolding ClientScope_type_def ClientScope_DeepCopyInto_def
  by (rule deep_struct_covers, simp, (rule covers_rules deep_rules metav1_rules [OF assms] ResourceStatus_deep [OF assms])+)

lemma ClientScopeList_deep:
  assumes "metav1_ok m"
  shows "deep (ClientScopeList_type m) (ClientScopeList_DeepCopyInto m)"
  unfolding ClientScopeList_type_def ClientScopeList_DeepCopyInto_def
  by (rule deep_struct_covers, simp, (rule covers_rules deep_rules metav1_rules [OF assms] ClientScope_deep [OF assms])+)

lemma GroupSpec_deep [deep_rules]:
  "deep GroupSpec_type GroupSpec_DeepCopyInto"
  unfolding GroupSpec_type_def GroupSpec_DeepCopyInto_def
  by (rule deep_struct_covers, simp, (rule covers_rules deep_rules)+)

lemma Group_deep:
  assumes "metav1_ok m"
  shows "deep (Group_type m) (Group_DeepCopyInto m)"
  unfolding Group_type_def Group_DeepCopyInto_def
  by (rule deep_struct_covers, simp, (rule covers_rules deep_rules metav1_rules [OF assms] ResourceStatus_deep [OF assms])+)

lemma GroupList_deep:
  assumes "metav1_ok m"
  shows "deep (GroupList_type m) (GroupList_DeepCopyInto m)"
  unfolding GroupList_type_def GroupList_DeepCopyInto_def
  by (rule deep_struct_covers, simp, (rule covers_rules deep_rules metav1_rules [OF assms] Group_deep [OF assms])+)

lemma SecretKeysSelector_deep [deep_rules]:
  "deep SecretKeysSelector_type SecretKeysSelector_DeepCopyInto"
  unfolding SecretKeysSelector_type_def SecretKeysSelector_DeepCopyInto_def
  by (rule deep_struct_covers, simp, (rule covers_rules deep_rules)+)

lemma IdentityProviderMapper_deep [deep_rules]:
  "deep IdentityProviderMapper_type IdentityProviderMapper_DeepCopyInto"
  unfolding IdentityProviderMapper_type_def IdentityProviderMapper_DeepCopyInto_def
  by (rule deep_struct_covers, simp, (rule covers_rules deep_rules)+)

lemma IdentityProviderSpec_deep [deep_rules]:
  "deep IdentityProviderSpec_type IdentityProviderSpec_DeepCopyInto"
  unfolding IdentityProviderSpec_type_def IdentityProviderSpec_DeepCopyInto_def
  by (rule deep_struct_covers, simp, (rule covers_rules deep_rules)+)

lemma IdentityProvider_deep:
  assumes "metav1_ok m"
  shows "deep (IdentityProvider_type m) (IdentityProvider_DeepCopyInto m)"
  unfolding IdentityProvider_type_def IdentityProvider_DeepCopyInto_def
  by (rule deep_struct_covers, simp, (rule covers_rules deep_rules metav1_rules [OF assms] ResourceStatus_deep [OF assms])+)

lemma IdentityProviderList_deep:
  assumes "metav1_ok m"
  shows "deep (IdentityProviderList_type m) (IdentityProviderList_DeepCopyInto m)"
  unfolding IdentityProviderList_type_def IdentityProviderList_DeepCopyInto_def
  by (rule deep_struct_covers, simp, (rule covers_rules deep_rules metav1_rules [OF assms] IdentityProvider_deep [OF assms])+)

lemma TLSConfig_deep [deep_rules]:
  "deep TLSConfig_type TLSConfig_DeepCopyInto"
  unfolding TLSConfig_type_def TLSConfig_DeepCopyInto_def
  by (rule deep_struct_covers, simp, (rule covers_rules deep_rules)+)

lemma KeycloakConnectionSpec_deep [deep_rules]:
  "deep KeycloakConnectionSpec_type KeycloakConnectionSpec_DeepCopyInto"
  unfolding KeycloakConnectionSpec_type_def KeycloakConnectionSpec_DeepCopyInto_def
  by (rule deep_struct_covers, simp, (rule covers_rules deep_rules)+)

lemma KeycloakConnectionStatus_deep:
  assumes "metav1_ok m"
  shows "deep (KeycloakConnectionStatus_type m) (KeycloakConnectionStatus_DeepCopyInto m)"
  unfolding KeycloakConnectionStatus_type_def KeycloakConnectionStatus_DeepCopyInto_def
  by (rule deep_struct_covers, simp, (rule covers_rules deep_rules metav1_rules [OF assms])+)

lemma KeycloakConnection_deep:
  assumes "metav1_ok m"
  shows "deep (KeycloakConnection_type m) (KeycloakConnection_DeepCopyInto m)"
  unfolding KeycloakConnection_type_def KeycloakConnection_DeepCopyInto_def
  by (rule deep_struct_covers, simp, (rule covers_rules deep_rules metav1_rules [OF assms] KeycloakConnectionStatus_deep [OF assms])+)

lemma KeycloakConnectionList_deep:
  assumes "metav1_ok m"
  shows "deep (KeycloakConnectionList_type m) (KeycloakConnectionList_DeepCopyInto m)"
  unfolding KeycloakConnectionList_type_def KeycloakConnectionList_DeepCopyInto_def
  by (rule deep_struct_covers, simp, (rule covers_rules deep_rules metav1_rules [OF assms] KeycloakConnection_deep [OF assms])+)

lemma RealmSpec_deep [deep_rules]:
  "deep RealmSpec_type RealmSpec_DeepCopyInto"
  unfolding RealmSpec_type_def RealmSpec_DeepCopyInto_def RealmSpec_statements1_def RealmSpec_statements2_def RealmSpec_statements3_def RealmSpec_statements4_def append.simps
  by (rule deep_struct_covers, simp, (rule covers_rules deep_rules)+)

lemma Realm_deep:
  assumes "metav1_ok m"
  shows "deep (Realm_type m) (Realm_DeepCopyInto m)"
  unfolding Realm_type_def Realm_DeepCopyInto_def
  by (rule deep_struct_covers, simp, (rule covers_rules deep_rules metav1_rules [OF assms] ResourceStatus_deep [OF assms])+)

lemma RealmList_deep:
  assumes "metav1_ok m"
  shows "deep (RealmList_type m) (RealmList_DeepCopyInto m)"
  unfolding RealmList_type_def RealmList_DeepCopyInto_def
  by (rule deep_struct_covers, simp, (rule covers_rules deep_rules metav1_rules [OF assms] Realm_deep [OF assms])+)

lemma RoleComposites_deep [deep_rules]:
  "deep RoleComposites_type RoleComposites_DeepCopyInto"
  unfolding RoleComposites_type_def RoleComposites_DeepCopyInto_def
  by (rule deep_struct_covers, simp, (rule covers_rules deep_rules)+)

lemma RealmRoleSpec_deep [deep_rules]:
  "deep RealmRoleSpec_type RealmRoleSpec_DeepCopyInto"
  unfolding RealmRoleSpec_type_def RealmRoleSpec_DeepCopyInto_def
  by (rule deep_struct_covers, simp, (rule covers_rules deep_rules)+)

lemma RealmRole_deep:
  assumes "metav1_ok m"
  shows "deep (RealmRole_type m) (RealmRole_DeepCopyInto m)"
  unfolding RealmRole_type_def RealmRole_DeepCopyInto_def
  by (rule deep_struct_covers, simp, (rule covers_rules deep_rules metav1_rules [OF assms] ResourceStatus_deep [OF assms])+)

lemma RealmRoleList_deep:
  assumes "metav1_ok m"
  shows "deep (RealmRoleList_type m) (RealmRoleList_DeepCopyInto m)"
  unfolding RealmRoleList_type_def RealmRoleList_DeepCopyInto_def
  by (rule deep_struct_covers, simp, (rule covers_rules deep_rules metav1_rules [OF assms] RealmRole_deep [OF assms])+)

lemma runtime_objects_deep:
  assumes "metav1_ok m" and "(T, c) \<in> set (runtime_objects m)"
  shows "\<exists>f. deep T f \<and> c = as_object (copy_ptr f)"
proof -
  have "list_all (\<lambda>(T, c). \<exists>f. deep T f \<and> c = as_object (copy_ptr f)) (runtime_objects m)"
    unfolding runtime_objects_def list.pred_inject prod.case
      Client_DeepCopyObject_def ClientList_DeepCopyObject_def ClientScope_DeepCopyObject_def ClientScopeList_DeepCopyObject_def
      Group_DeepCopyObject_def GroupList_DeepCopyObject_def IdentityProvider_DeepCopyObject_def IdentityProviderList_DeepCopyObject_def
      KeycloakConnection_DeepCopyObject_def KeycloakConnectionList_DeepCopyObject_def Realm_DeepCopyObject_def RealmList_DeepCopyObject_def
      RealmRole_DeepCopyObject_def RealmRoleList_DeepCopyObject_def Client_DeepCopy_def ClientList_DeepCopy_def
      ClientScope_DeepCopy_def ClientScopeList_DeepCopy_def Group_DeepCopy_def GroupList_DeepCopy_def
      IdentityProvider_DeepCopy_def IdentityProviderList_DeepCopy_def KeycloakConnection_DeepCopy_def KeycloakConnectionList_DeepCopy_def
      Realm_DeepCopy_def RealmList_DeepCopy_def RealmRole_DeepCopy_def RealmRoleList_DeepCopy_def
    by (intro conjI list.pred_inject(1) object_deepI Client_deep [OF assms(1)] ClientList_deep [OF assms(1)] ClientScope_deep [OF assms(1)] ClientScopeList_deep [OF assms(1)]
        Group_deep [OF assms(1)] GroupList_deep [OF assms(1)] IdentityProvider_deep [OF assms(1)] IdentityProviderList_deep [OF assms(1)]
        KeycloakConnection_deep [OF assms(1)] KeycloakConnectionList_deep [OF assms(1)] Realm_deep [OF assms(1)] RealmList_deep [OF assms(1)]
        RealmRole_deep [OF assms(1)] RealmRoleList_deep [OF assms(1)])
  with assms(2) show ?thesis by (auto simp: list_all_iff)
qed

section \<open>Isolation\<close>

text \<open>A pointer and its deep copy: the writes through one are never seen through the other.\<close>

lemma deep_isolated:
  assumes "deep T c" and "memory_ok h" and "typed h T v" and "c v h = (w, h')"
  shows "typed h' T w" "contents h' T w = contents h T v" "same_at h h' T v" "reach h' T w \<inter> reach h' T v = {}"
    and "\<forall>h2 :: memory. (\<forall>a \<in> {limit h..<limit h'}. cells h2 a = cells h' a) \<longrightarrow> contents h2 T w = contents h T v"
    and "\<forall>h2 :: memory. (\<forall>a < limit h. cells h2 a = cells h' a) \<longrightarrow> contents h2 T v = contents h T v"
proof -
  from deepD [OF assms] have c: "extends h h'" "typed h' T w" "contents h' T w = contents h T v"
    "reach h' T w \<subseteq> {limit h..<limit h'}" by (simp_all add: copied_def)
  note old = extends_same [OF assms(2) c(1) assms(3)] and low = typed_reach [OF assms(2,3)]
  show "typed h' T w" "contents h' T w = contents h T v" "same_at h h' T v" using c old by simp_all
  have v: "typed h' T v" "reach h' T v = reach h T v" "contents h' T v = contents h T v" using old by (simp_all add: same_at_def)
  have "{limit h..<limit h'} \<inter> {..<limit h} = {}" by auto
  with Int_mono [OF c(4) low] show "reach h' T w \<inter> reach h' T v = {}" by (simp add: v(2))
  show "\<forall>h2 :: memory. (\<forall>a \<in> {limit h..<limit h'}. cells h2 a = cells h' a) \<longrightarrow> contents h2 T w = contents h T v"
  proof (intro allI impI)
    fix h2 :: memory assume "\<forall>a \<in> {limit h..<limit h'}. cells h2 a = cells h' a"
    with c(4) have "\<forall>a \<in> reach h' T w. cells h2 a = cells h' a" by blast
    from agreement [OF c(2) this] show "contents h2 T w = contents h T v" by (simp add: same_at_def c(3))
  qed
  show "\<forall>h2 :: memory. (\<forall>a < limit h. cells h2 a = cells h' a) \<longrightarrow> contents h2 T v = contents h T v"
  proof (intro allI impI)
    fix h2 :: memory assume "\<forall>a < limit h. cells h2 a = cells h' a"
    with low have "\<forall>a \<in> reach h' T v. cells h2 a = cells h' a" unfolding v(2) by blast
    from agreement [OF v(1) this] show "contents h2 T v = contents h T v" by (simp add: same_at_def v(3))
  qed
qed

lemma as_object_run:
  assumes "as_object (copy_ptr f) p h = (q, h')" and "typed h (TPtr T) p"
  obtains "p = Ptr None" "q = None" "h' = h"
  | w where "p \<noteq> Ptr None" "q = Some w" "copy_ptr f p h = (w, h')"
proof (cases "p = Ptr None")
  case True
  with assms(1) that(1) show thesis by (simp add: as_object_def copy_ptr_def)
next
  case False
  obtain w where w: "copy_ptr f p h = (w, h')" using assms(1) by (auto simp: as_object_def split: prod.splits)
  with False assms(2) have "w \<noteq> Ptr None"
    by (auto simp: copy_ptr_def alloc_def split: gval.splits option.splits cell.splits prod.splits)
  with w assms(1) have "q = Some w" by (auto simp: as_object_def)
  with False w that(2) show thesis by blast
qed

text \<open>A sample: the metadata with an annotation map and a list of finalizers, and a \<open>Group\<close> whose
  client roles are a pointer to a map of slices.\<close>

definition sample_metav1 :: metav1 where
  "sample_metav1 = \<lparr>
     TypeMeta_type = TStruct [(''Kind'', TBasic), (''APIVersion'', TBasic)],
     ObjectMeta_type = TStruct [(''Name'', TBasic), (''Annotations'', TMap TBasic), (''Finalizers'', TSlice TBasic)],
     ListMeta_type = TStruct [(''ResourceVersion'', TBasic), (''RemainingItemCount'', TPtr TBasic)],
     Condition_type = TStruct [(''Type'', TBasic), (''Status'', TBasic)],
     ObjectMeta_DeepCopyInto = copy_struct [(''Annotations'', copy_map assign), (''Finalizers'', copy_slice assign)],
     ListMeta_DeepCopyInto = copy_struct [(''RemainingItemCount'', copy_ptr assign)],
     Condition_DeepCopyInto = copy_struct []\<rparr>"

definition sample_group :: gval where
  "sample_group = Struct
     [(''TypeMeta'', Struct [(''Kind'', Basic (PStr ''Group'')), (''APIVersion'', Basic (PStr ''v1alpha1''))]),
      (''ObjectMeta'', Struct [(''Name'', Basic (PStr ''staff'')), (''Annotations'', Map (Some 0)), (''Finalizers'', Slice (Some 1))]),
      (''Spec'', Struct
         [(''KeycloakRef'', Struct [(''Name'', Basic (PStr ''kc''))]), (''Realm'', Basic (PStr ''demo'')),
          (''Name'', Basic (PStr ''staff'')), (''AdoptionPolicy'', Ptr None), (''DeletionPolicy'', Ptr None),
          (''Attributes'', Map None), (''RealmRoles'', Ptr None), (''ClientRoles'', Ptr (Some 3))]),
      (''Status'', Struct [(''Conditions'', Slice None), (''ObservedGeneration'', Basic (PInt 1))])]"

definition sample_memory :: memory where
  "sample_memory = \<lparr>cells = map_of
     [(0, Tab [(''keycloak.ctn-solutions.io/managed'', Basic (PStr ''true''))]),
      (1, Arr [Basic (PStr ''finalizer'')]),
      (2, Tab [(''portal'', Slice (Some 4)), (''wiki'', Slice None)]),
      (3, Var (Map (Some 2))),
      (4, Arr [Basic (PStr ''reader''), Basic (PStr ''editor'')]),
      (5, Var sample_group)], limit = 6\<rparr>"

lemma sample_metav1_ok: "metav1_ok sample_metav1"
proof -
  have "deep (ObjectMeta_type sample_metav1) (ObjectMeta_DeepCopyInto sample_metav1)"
    "deep (ListMeta_type sample_metav1) (ListMeta_DeepCopyInto sample_metav1)"
    "deep (Condition_type sample_metav1) (Condition_DeepCopyInto sample_metav1)"
    unfolding sample_metav1_def metav1.simps
    by (rule deep_struct_covers, simp, (rule covers_rules deep_rules)+)+
  then show ?thesis by (simp add: metav1_ok_def) (simp add: sample_metav1_def)
qed

lemma sample_memory_ok: "memory_ok sample_memory"
  by (simp add: memory_ok_def sample_memory_def)

lemma sample_group_typed: "typed sample_memory (TPtr (Group_type sample_metav1)) (Ptr (Some 5))"
  by (simp add: sample_memory_def sample_group_def Group_type_def GroupSpec_type_def ResourceStatus_type_def
      KeycloakRef_type_def sample_metav1_def mwf_def)

lemma group_registered: "(Group_type m, Group_DeepCopyObject m) \<in> set (runtime_objects m)"
  by (simp add: runtime_objects_def)

text \<open>
  C13: the base of a patch is a snapshot. For every kind that is registered, \<open>DeepCopyObject\<close> of a
  nil pointer is the nil interface and allocates nothing; of any other object it is a new object
  of the same type and contents, which shares no pointer, slice or map with the original at any depth. The
  copy writes to no cell that existed before. Afterwards no write outside the new cells, so none
  through the original, changes what the copy holds, and no write to the new cells changes what
  the original holds.
\<close>

theorem deep_copies_isolated:
  assumes "metav1_ok m" and "memory_ok h" and "(T, copy) \<in> set (runtime_objects m)" and "typed h (TPtr T) p"
    and "copy p h = (q, h')"
  shows "case q of
      None \<Rightarrow> p = Ptr None \<and> h' = h
    | Some w \<Rightarrow> p \<noteq> Ptr None \<and> w \<noteq> Ptr None \<and> typed h' (TPtr T) w \<and> contents h' (TPtr T) w = contents h (TPtr T) p \<and>
        reach h' (TPtr T) w \<inter> reach h' (TPtr T) p = {} \<and> extends h h' \<and>
        (\<forall>h2 :: memory. (\<forall>a. limit h \<le> a \<and> a < limit h' \<longrightarrow> cells h2 a = cells h' a) \<longrightarrow> contents h2 (TPtr T) w = contents h (TPtr T) p) \<and>
        (\<forall>h2 :: memory. (\<forall>a < limit h. cells h2 a = cells h' a) \<longrightarrow> contents h2 (TPtr T) p = contents h (TPtr T) p)"
proof -
  obtain f where f: "deep T f" "copy = as_object (copy_ptr f)" using runtime_objects_deep [OF assms(1,3)] by blast
  from assms(5) have run: "as_object (copy_ptr f) p h = (q, h')" unfolding f(2) .
  from run assms(4) show ?thesis
  proof (cases rule: as_object_run)
    case (2 w)
    note deep = deep_ptr [OF f(1)]
    have "copied (TPtr T) h p h' w" by (rule deepD [OF deep assms(2,4) 2(3)])
    moreover have "w \<noteq> Ptr None" using run 2 by (auto simp: as_object_def)
    ultimately show ?thesis
      using deep_isolated [OF deep assms(2,4) 2(3)] 2(1,2) by (simp add: copied_def)
  qed simp
qed

theorem deep_copies_isolated_witness:
  "metav1_ok sample_metav1 \<and> memory_ok sample_memory \<and>
   typed sample_memory (TPtr (Group_type sample_metav1)) (Ptr (Some 5)) \<and>
   (\<exists>w h'. Group_DeepCopyObject sample_metav1 (Ptr (Some 5)) sample_memory = (Some w, h') \<and>
      contents h' (TPtr (Group_type sample_metav1)) w = contents sample_memory (TPtr (Group_type sample_metav1)) (Ptr (Some 5)) \<and>
      reach h' (TPtr (Group_type sample_metav1)) w \<inter> reach h' (TPtr (Group_type sample_metav1)) (Ptr (Some 5)) = {})"
proof -
  obtain q h' where run: "Group_DeepCopyObject sample_metav1 (Ptr (Some 5)) sample_memory = (q, h')" by fastforce
  from deep_copies_isolated [OF sample_metav1_ok sample_memory_ok group_registered sample_group_typed run]
  show ?thesis
    using run sample_metav1_ok sample_memory_ok sample_group_typed
    by (cases q) (simp_all del: typed.simps contents.simps reach.simps)
qed

end
