(* ===== verification/E2e_Utils.thy ===== *)
theory E2e_Utils
  imports Prelude "HOL-Library.Sublist"
begin

text \<open>
  The helpers of the end-to-end tests (\<open>test/utils/utils.go\<close>): running a command from the
  project's directory, the steps around the cert-manager bundle, and the edit of a file that
  takes a comment prefix away. The operating system is a parameter (\<open>os\<close>); the commands run
  and the lines written to the test log are part of the state.
\<close>

section \<open>Strings\<close>

text \<open>\<open>strings.Index\<close>, \<open>strings.Contains\<close>, \<open>strings.Join\<close>, and \<open>strings.ReplaceAll\<close> of a non-empty
  string.\<close>

fun Index :: "string \<Rightarrow> string \<Rightarrow> nat option" where
  "Index [] t = (if t = [] then Some 0 else None)"
| "Index (c # s) t = (if HasPrefix (c # s) t then Some 0 else map_option Suc (Index s t))"

definition Contains :: "string \<Rightarrow> string \<Rightarrow> bool" where
  "Contains s t \<longleftrightarrow> Index s t \<noteq> None"

fun Join :: "string \<Rightarrow> string list \<Rightarrow> string" where
  "Join sep [] = []"
| "Join sep [s] = s"
| "Join sep (s # t # ss) = s @ sep @ Join sep (t # ss)"

function ReplaceAll :: "string \<Rightarrow> string \<Rightarrow> string \<Rightarrow> string" where
  "ReplaceAll s old new =
     (case s of
        [] \<Rightarrow> []
      | c # cs \<Rightarrow>
          if old \<noteq> [] \<and> HasPrefix s old then new @ ReplaceAll (drop (length old) s) old new
          else c # ReplaceAll cs old new)"
  by auto
termination by (relation "measure (\<lambda>(s, _, _). length s)") auto

declare ReplaceAll.simps [simp del]

text \<open>\<open>bufio.Scanner\<close> by lines: the newline and a carriage return before it are dropped, an empty
  last line is none, and the scan stops at a line that does not fit the buffer.\<close>

abbreviation newline :: char where "newline \<equiv> CHR 0x0A"

abbreviation MaxScanTokenSize :: nat where "MaxScanTokenSize \<equiv> 65536"

definition dropCR :: "string \<Rightarrow> string" where
  "dropCR l = (if l \<noteq> [] \<and> last l = CHR 0x0D then butlast l else l)"

definition scan_lines :: "string \<Rightarrow> string list" where
  "scan_lines s =
     (let raw = Split newline s
      in map dropCR (takeWhile (\<lambda>l. length l < MaxScanTokenSize) (if last raw = [] then butlast raw else raw)))"

section \<open>Running commands\<close>

record cmd =
  Args :: "string list"
  Dir :: string
  Env :: "string list"

record 'w os =
  Getwd :: "'w \<Rightarrow> string \<times> string option"
  Chdir :: "string \<Rightarrow> 'w \<Rightarrow> string option \<times> 'w"
  Environ :: "'w \<Rightarrow> string list"
  LookupEnv :: "string \<Rightarrow> 'w \<Rightarrow> string option"
  CombinedOutput :: "cmd \<Rightarrow> 'w \<Rightarrow> (string \<times> string option) \<times> 'w"
  ReadFile :: "string \<Rightarrow> 'w \<Rightarrow> string + string"
  WriteFile :: "string \<Rightarrow> string \<Rightarrow> 'w \<Rightarrow> string option \<times> 'w"

datatype util_error =
    GetwdFailed string
  | CommandFailed string string string
  | ReadFailed string string
  | TargetNotFound string
  | WriteFailed string string

datatype ginkgo_line = Warned util_error | ChdirFailed string | Running string

record 'w harness =
  system :: 'w
  commands :: "cmd list"
  ginkgo :: "ginkgo_line list"

definition warnError :: "util_error \<Rightarrow> 'w harness \<Rightarrow> 'w harness" where
  "warnError e H = H\<lparr>ginkgo := ginkgo H @ [Warned e]\<rparr>"

definition GetProjectDir :: "'w os \<Rightarrow> 'w harness \<Rightarrow> string \<times> util_error option" where
  "GetProjectDir os H =
     (case Getwd os (system H) of
        (wd, Some e) \<Rightarrow> (wd, Some (GetwdFailed e))
      | (wd, None) \<Rightarrow> (ReplaceAll wd ''/test/e2e'' [], None))"

definition Run :: "'w os \<Rightarrow> string list \<Rightarrow> 'w harness \<Rightarrow> (string \<times> util_error option) \<times> 'w harness" where
  "Run os args H =
     (let dir = fst (GetProjectDir os H);
          H1 = (case Chdir os dir (system H) of
                  (Some e, w) \<Rightarrow> H\<lparr>system := w, ginkgo := ginkgo H @ [ChdirFailed e]\<rparr>
                | (None, w) \<Rightarrow> H\<lparr>system := w\<rparr>);
          cmd = \<lparr>Args = args, Dir = dir, Env = Environ os (system H1) @ [''GO111MODULE=on'']\<rparr>;
          command = Join '' '' args;
          H2 = H1\<lparr>ginkgo := ginkgo H1 @ [Running command], commands := commands H1 @ [cmd]\<rparr>
      in case CombinedOutput os cmd (system H2) of
           ((output, Some e), w) \<Rightarrow> ((output, Some (CommandFailed command output e)), H2\<lparr>system := w\<rparr>)
         | ((output, None), w) \<Rightarrow> ((output, None), H2\<lparr>system := w\<rparr>))"

section \<open>The cert-manager bundle\<close>

definition certmanagerVersion :: string where
  "certmanagerVersion = ''v1.20.2''"

definition certmanagerURLTmpl :: string where
  "certmanagerURLTmpl = ''https://github.com/cert-manager/cert-manager/releases/download/%s/cert-manager.yaml''"

definition certmanagerURL :: string where
  "certmanagerURL = ReplaceAll certmanagerURLTmpl ''%s'' certmanagerVersion"

definition run_or_warn :: "'w os \<Rightarrow> string list \<Rightarrow> 'w harness \<Rightarrow> 'w harness" where
  "run_or_warn os args H =
     (case Run os args H of
        ((_, Some e), H1) \<Rightarrow> warnError e H1
      | ((_, None), H1) \<Rightarrow> H1)"

definition kubeSystemLeases :: "string list" where
  "kubeSystemLeases = [''cert-manager-cainjector-leader-election'', ''cert-manager-controller'']"

definition delete_lease :: "string \<Rightarrow> string list" where
  "delete_lease lease =
     [''kubectl'', ''delete'', ''lease'', lease, ''-n'', ''kube-system'', ''--ignore-not-found'', ''--force'',
      ''--grace-period=0'']"

definition UninstallCertManager :: "'w os \<Rightarrow> 'w harness \<Rightarrow> 'w harness" where
  "UninstallCertManager os H =
     fold (\<lambda>lease. run_or_warn os (delete_lease lease)) kubeSystemLeases
       (run_or_warn os [''kubectl'', ''delete'', ''-f'', certmanagerURL] H)"

definition InstallCertManager :: "'w os \<Rightarrow> 'w harness \<Rightarrow> util_error option \<times> 'w harness" where
  "InstallCertManager os H =
     (case Run os [''kubectl'', ''apply'', ''-f'', certmanagerURL] H of
        ((_, Some e), H1) \<Rightarrow> (Some e, H1)
      | ((_, None), H1) \<Rightarrow>
          (case Run os [''kubectl'', ''wait'', ''deployment.apps/cert-manager-webhook'', ''--for'',
               ''condition=Available'', ''--namespace'', ''cert-manager'', ''--timeout'', ''5m''] H1 of
             ((_, err), H2) \<Rightarrow> (err, H2)))"

definition GetNonEmptyLines :: "string \<Rightarrow> string list" where
  "GetNonEmptyLines output = filter (\<lambda>element. element \<noteq> []) (Split newline output)"

definition certManagerCRDs :: "string list" where
  "certManagerCRDs =
     [''certificates.cert-manager.io'', ''issuers.cert-manager.io'', ''clusterissuers.cert-manager.io'',
      ''certificaterequests.cert-manager.io'', ''orders.acme.cert-manager.io'', ''challenges.acme.cert-manager.io'']"

definition IsCertManagerCRDsInstalled :: "'w os \<Rightarrow> 'w harness \<Rightarrow> bool \<times> 'w harness" where
  "IsCertManagerCRDsInstalled os H =
     (case Run os [''kubectl'', ''get'', ''crds''] H of
        ((_, Some e), H1) \<Rightarrow> (False, H1)
      | ((output, None), H1) \<Rightarrow>
          (list_ex (\<lambda>crd. list_ex (\<lambda>line. Contains line crd) (GetNonEmptyLines output)) certManagerCRDs, H1))"

definition defaultKindBinary :: string where
  "defaultKindBinary = ''kind''"

definition defaultKindCluster :: string where
  "defaultKindCluster = ''kind''"

definition LoadImageToKindClusterWithName :: "'w os \<Rightarrow> string \<Rightarrow> 'w harness \<Rightarrow> util_error option \<times> 'w harness" where
  "LoadImageToKindClusterWithName os name H =
     (let cluster = (case LookupEnv os ''KIND_CLUSTER'' (system H) of Some v \<Rightarrow> v | None \<Rightarrow> defaultKindCluster);
          kindOptions = [''load'', ''docker-image'', name, ''--name'', cluster];
          kindBinary = (case LookupEnv os ''KIND'' (system H) of Some v \<Rightarrow> v | None \<Rightarrow> defaultKindBinary)
      in case Run os (kindBinary # kindOptions) H of ((_, err), H1) \<Rightarrow> (err, H1))"

section \<open>Editing a file\<close>

text \<open>The loop over the lines of the target: a newline is written before every line but the first.\<close>

fun uncomment_lines :: "string \<Rightarrow> string list \<Rightarrow> string \<Rightarrow> string" where
  "uncomment_lines pfx [] out = out"
| "uncomment_lines pfx (l # ls) out =
     (let out1 = out @ TrimPrefix l pfx
      in if ls = [] then out1 else uncomment_lines pfx ls (out1 @ [newline]))"

definition UncommentCode :: "'w os \<Rightarrow> string \<Rightarrow> string \<Rightarrow> string \<Rightarrow> 'w harness \<Rightarrow> util_error option \<times> 'w harness" where
  "UncommentCode os filename target pfx H =
     (case ReadFile os filename (system H) of
        Inl e \<Rightarrow> (Some (ReadFailed filename e), H)
      | Inr content \<Rightarrow>
          (case Index content target of
             None \<Rightarrow> (Some (TargetNotFound target), H)
           | Some idx \<Rightarrow>
               if scan_lines target = [] then (None, H)
               else
                 let out = uncomment_lines pfx (scan_lines target) (take idx content) @ drop (idx + length target) content
                 in case WriteFile os filename out (system H) of
                      (Some e, w) \<Rightarrow> (Some (WriteFailed filename e), H\<lparr>system := w\<rparr>)
                    | (None, w) \<Rightarrow> (None, H\<lparr>system := w\<rparr>)))"

section \<open>Searching\<close>

lemma HasPrefix_iff: "HasPrefix s p \<longleftrightarrow> prefix p s"
  unfolding HasPrefix_def by (metis append_eq_conv_conj prefix_def)

lemma Contains_iff: "Contains s t \<longleftrightarrow> sublist t s"
  unfolding Contains_def by (induction s t rule: Index.induct) (auto simp: HasPrefix_iff sublist_Cons_right)

lemma Index_Some:
  assumes "Index s t = Some i"
  shows "HasPrefix (drop i s) t" and "j < i \<Longrightarrow> \<not> HasPrefix (drop j s) t"
proof -
  have "HasPrefix (drop i s) t \<and> (\<forall>j < i. \<not> HasPrefix (drop j s) t)" using assms
  proof (induction s t arbitrary: i rule: Index.induct)
    case (2 c s t)
    then show ?case by (auto simp: less_Suc_eq_0_disj split: if_splits)
  qed (auto simp: HasPrefix_def split: if_splits)
  then show "HasPrefix (drop i s) t" "j < i \<Longrightarrow> \<not> HasPrefix (drop j s) t" by blast+
qed

lemma sublist_around:
  assumes "sep \<notin> set t"
  shows "sublist t (a @ sep # b) \<longleftrightarrow> sublist t a \<or> sublist t b"
proof -
  have "sublist t b" if "t = xs @ ys" "suffix xs a" "prefix ys (sep # b)" "\<not> sublist t a" for xs ys
    using that assms by (cases ys) auto
  moreover have "sublist t (sep # b) \<longleftrightarrow> sublist t b" using assms by (cases t) (auto simp: sublist_Cons_right)
  ultimately show ?thesis by (auto simp: sublist_append)
qed

lemma Split_sublist: "sep \<notin> set t \<Longrightarrow> sublist t s \<longleftrightarrow> (\<exists>l \<in> set (Split sep s). sublist t l)"
proof (induction "length s" arbitrary: s rule: less_induct)
  case less
  show ?case
  proof (cases "sep \<in> set s")
    case True
    then obtain a b where s: "s = a @ sep # b" "sep \<notin> set a" by (meson split_list_first)
    with less.hyps [of b] less.prems show ?thesis by (simp add: sublist_around Split_append)
  qed (simp add: Split_plain)
qed

text \<open>The check for the custom resource definitions looks at single lines, but no name spans two of
  them: it is the search in the whole output.\<close>

lemma crds_found_in_output:
  "fst (IsCertManagerCRDsInstalled os H) \<longleftrightarrow>
     (case fst (Run os [''kubectl'', ''get'', ''crds''] H) of
        (output, err) \<Rightarrow> err = None \<and> (\<exists>crd \<in> set certManagerCRDs. sublist crd output))"
proof -
  have names: "newline \<notin> set crd \<and> crd \<noteq> []" if "crd \<in> set certManagerCRDs" for crd
    using that by (auto simp: certManagerCRDs_def)
  have "(\<exists>line \<in> set (GetNonEmptyLines listing). Contains line crd) \<longleftrightarrow> sublist crd listing"
    if "crd \<in> set certManagerCRDs" for crd listing
    using names [OF that] Split_sublist [of newline crd listing] by (auto simp: GetNonEmptyLines_def Contains_iff)
  then show ?thesis
    by (simp add: IsCertManagerCRDsInstalled_def list_ex_iff split: prod.split option.split)
qed

section \<open>The commands\<close>

lemma Run_commands: "map Args (commands (snd (Run os args H))) = map Args (commands H) @ [args]"
  by (simp add: Run_def Let_def split: prod.split option.split)

lemma Run_length: "Run os args H = (r, H') \<Longrightarrow> length (commands H') = length (commands H) + 1"
  using arg_cong [OF Run_commands [of os args H], of length] by simp

lemma run_or_warn_commands: "map Args (commands (run_or_warn os args H)) = map Args (commands H) @ [args]"
  using Run_commands [of os args H]
  by (auto simp: run_or_warn_def warnError_def split: prod.splits option.splits)

text \<open>Every step of the clean-up runs, whether the ones before succeeded or not; the installation
  waits only for what was applied.\<close>

lemma uninstall_runs_all:
  "map Args (commands (UninstallCertManager os H)) =
     map Args (commands H) @ [''kubectl'', ''delete'', ''-f'', certmanagerURL] # map delete_lease kubeSystemLeases"
  by (simp add: UninstallCertManager_def kubeSystemLeases_def run_or_warn_commands)

lemma install_stops_at_failure:
  assumes "InstallCertManager os H = (err, H')"
  shows "length (commands H') \<le> length (commands H) + 2"
    and "snd (fst (Run os [''kubectl'', ''apply'', ''-f'', certmanagerURL] H)) = Some e \<Longrightarrow>
      err = Some e \<and> length (commands H') = length (commands H) + 1"
  using assms by (auto simp: InstallCertManager_def dest!: Run_length split: prod.splits option.splits)

section \<open>The edit\<close>

definition uncommented :: "string \<Rightarrow> string \<Rightarrow> string" where
  "uncommented pfx target = Join [newline] (map (\<lambda>l. TrimPrefix l pfx) (Split newline target))"

definition plain_target :: "string \<Rightarrow> bool" where
  "plain_target t \<longleftrightarrow> last (Split newline t) \<noteq> [] \<and>
     list_all (\<lambda>l. length l < MaxScanTokenSize \<and> dropCR l = l) (Split newline t)"

lemma Split_nonempty [simp]: "Split sep s \<noteq> []"
  by (induction sep s rule: Split.induct) (auto split: list.splits)

lemma uncomment_lines_eq: "uncomment_lines pfx ls out = out @ Join [newline] (map (\<lambda>l. TrimPrefix l pfx) ls)"
  by (induction pfx ls out rule: uncomment_lines.induct) (auto simp: Let_def neq_Nil_conv)

lemma scan_lines_plain:
  assumes "plain_target t"
  shows "scan_lines t = Split newline t" and "scan_lines (t @ [newline]) = Split newline t"
proof -
  have scan: "map dropCR (takeWhile (\<lambda>l. length l < MaxScanTokenSize) (Split newline t)) = Split newline t"
    using assms by (simp add: plain_target_def list_all_iff takeWhile_eq_all_conv [THEN iffD2] map_idI)
  have end_line: "Split newline (s @ [newline]) = Split newline s @ [[]]" for s
    by (induction s) (auto split: list.splits)
  show "scan_lines t = Split newline t" using assms scan by (simp add: scan_lines_def plain_target_def)
  show "scan_lines (t @ [newline]) = Split newline t" using scan by (simp add: scan_lines_def end_line)
qed

lemma UncommentCode_written:
  assumes "ReadFile os filename (system H) = Inr (a @ target @ b)" and "Index (a @ target @ b) target = Some (length a)"
    and "scan_lines target = ls" and "ls \<noteq> []"
    and "WriteFile os filename (a @ Join [newline] (map (\<lambda>l. TrimPrefix l pfx) ls) @ b) (system H) = (None, w)"
  shows "UncommentCode os filename target pfx H = (None, H\<lparr>system := w\<rparr>)"
  using assms by (simp add: UncommentCode_def uncomment_lines_eq)

text \<open>Of a target without carriage returns and overlong lines that does not end in a newline, the
  first occurrence loses the prefix in each of its lines, and the rest of the file stays.\<close>

lemma uncomment_exact:
  assumes "ReadFile os filename (system H) = Inr (a @ target @ b)" and "Index (a @ target @ b) target = Some (length a)"
    and "plain_target target" and "WriteFile os filename (a @ uncommented pfx target @ b) (system H) = (None, w)"
  shows "UncommentCode os filename target pfx H = (None, H\<lparr>system := w\<rparr>)"
  using UncommentCode_written [OF assms(1,2) scan_lines_plain(1) [OF assms(3)]] assms(4) by (simp add: uncommented_def)

text \<open>When the target ends in a newline, that newline is lost: what follows is glued to the last
  line.\<close>

lemma uncomment_glues:
  assumes "ReadFile os filename (system H) = Inr (a @ (t @ [newline]) @ b)"
    and "Index (a @ (t @ [newline]) @ b) (t @ [newline]) = Some (length a)"
    and "plain_target t" and "WriteFile os filename (a @ uncommented pfx t @ b) (system H) = (None, w)"
  shows "UncommentCode os filename (t @ [newline]) pfx H = (None, H\<lparr>system := w\<rparr>)"
  using UncommentCode_written [OF assms(1,2) scan_lines_plain(2) [OF assms(3)]] assms(4) by (simp add: uncommented_def)

definition single_file :: "string os" where
  "single_file = \<lparr>Getwd = (\<lambda>w. (''/repo/test/e2e'', None)), Chdir = (\<lambda>d w. (None, w)), Environ = (\<lambda>w. []),
     LookupEnv = (\<lambda>k w. None), CombinedOutput = (\<lambda>c w. (([], None), w)), ReadFile = (\<lambda>f w. Inr w),
     WriteFile = (\<lambda>f c w. (None, c))\<rparr>"

lemma uncomment_glues_instance:
  "UncommentCode single_file ''f'' (''# a'' @ [newline]) ''# '' \<lparr>system = ''# a'' @ [newline] @ ''b'', commands = [], ginkgo = []\<rparr> =
     (None, \<lparr>system = ''ab'', commands = [], ginkgo = []\<rparr>)"
  by (simp add: UncommentCode_def single_file_def HasPrefix_def TrimPrefix_def scan_lines_def dropCR_def)

text \<open>A file that cannot be read and a target that is not found leave everything as it was.\<close>

lemma uncomment_refused:
  assumes "UncommentCode os filename target pfx H = (Some e, H')" and "\<nexists>f x. e = WriteFailed f x"
  shows "H' = H"
  using assms by (auto simp: UncommentCode_def Let_def split: sum.splits option.splits if_splits prod.splits)

end
