(* ===== verification/Provider_Lock.thy ===== *)
theory Provider_Lock
  imports Provider
begin

text \<open>
  \<open>Provider.For\<close> statement by statement, with its mutex: a call can block at \<open>mu.Lock\<close>, other
  calls run between any two of its statements, and \<open>mu.Unlock\<close> of a free mutex is fatal. The
  coarser steps of \<open>Provider\<close>, one per critical section, are what these steps implement.
\<close>

section \<open>The statements\<close>

text \<open>The statement a call executes next, with its local variables. A client that was built is
  published, and so gets its place in the store, when it is put into the map.\<close>

datatype stmt_pc =
    AtGetConn
  | AtDropLock goerr
  | AtDrop goerr
  | AtDropUnlock goerr
  | AtGetSecret connection
  | AtLookupLock connection secret
  | AtLookup connection secret
  | AtHitUnlock connection secret nat
  | AtMissUnlock connection secret
  | AtConfig connection secret
  | AtStoreLock connection secret Client
  | AtStore connection secret Client
  | AtStoreUnlock connection secret nat
  | Gave connection secret nat
  | Failed_with goerr
  | Fatal

text \<open>The mutex is free or held; the number is that of the call that took it.\<close>

definition Lock :: "nat \<Rightarrow> stmt_pc \<Rightarrow> nat option \<Rightarrow> Provider \<Rightarrow> (stmt_pc \<times> nat option \<times> Provider) option" where
  "Lock i next mu p = (case mu of None \<Rightarrow> Some (next, Some i, p) | Some _ \<Rightarrow> None)"

definition Unlock :: "stmt_pc \<Rightarrow> nat option \<Rightarrow> Provider \<Rightarrow> (stmt_pc \<times> nat option \<times> Provider) option" where
  "Unlock next mu p = (case mu of None \<Rightarrow> Some (Fatal, None, p) | Some _ \<Rightarrow> Some (next, None, p))"

fun For_stmt :: "'k reader \<Rightarrow> 'k \<Rightarrow> string \<Rightarrow> string \<Rightarrow> nat \<Rightarrow> stmt_pc \<Rightarrow> nat option \<Rightarrow> Provider \<Rightarrow>
    (stmt_pc \<times> nat option \<times> Provider) option" where
  "For_stmt rdr k ns name i AtGetConn mu p =
     (case r_conn rdr k ns name of
        Inl e \<Rightarrow>
          Some (if r_isNotFound rdr e then AtDropLock e
                else Failed_with (Wrapf [''get keycloak connection %s/%s: %w'', ns, name] e), mu, p)
      | Inr conn \<Rightarrow> Some (AtGetSecret conn, mu, p))"
| "For_stmt rdr k ns name i (AtDropLock e) mu p = Lock i (AtDrop e) mu p"
| "For_stmt rdr k ns name i (AtDrop e) mu p =
     Some (AtDropUnlock e, mu, p\<lparr>byName := mdel (cache_key ns name) (byName p)\<rparr>)"
| "For_stmt rdr k ns name i (AtDropUnlock e) mu p =
     Unlock (Failed_with (Wrapf [''get keycloak connection %s/%s: %w'', ns, name] e)) mu p"
| "For_stmt rdr k ns name i (AtGetSecret conn) mu p =
     (case r_secret rdr k ns (conn_credentialsSecretRef (conn_spec conn)) of
        Inl e \<Rightarrow>
          Some (Failed_with (Wrapf [''get credentials secret %s/%s: %w'', ns,
                                    conn_credentialsSecretRef (conn_spec conn)] e), mu, p)
      | Inr sec \<Rightarrow> Some (AtLookupLock conn sec, mu, p))"
| "For_stmt rdr k ns name i (AtLookupLock conn sec) mu p = Lock i (AtLookup conn sec) mu p"
| "For_stmt rdr k ns name i (AtLookup conn sec) mu p =
     (case map_of (byName p) (cache_key ns name) of
        Some cached \<Rightarrow>
          Some (if cc_connVersion cached = conn_resourceVersion conn \<and> cc_secretVer cached = sec_resourceVersion sec
                then AtHitUnlock conn sec (cc_kc cached) else AtMissUnlock conn sec, mu, p)
      | None \<Rightarrow> Some (AtMissUnlock conn sec, mu, p))"
| "For_stmt rdr k ns name i (AtHitUnlock conn sec kc) mu p = Unlock (Gave conn sec kc) mu p"
| "For_stmt rdr k ns name i (AtMissUnlock conn sec) mu p = Unlock (AtConfig conn sec) mu p"
| "For_stmt rdr k ns name i (AtConfig conn sec) mu p =
     (case clientConfig conn sec of
        Inl e \<Rightarrow> Some (Failed_with e, mu, p)
      | Inr c \<Rightarrow> Some (AtStoreLock conn sec (New (c\<lparr>ConnectionName := cache_key ns name\<rparr>)), mu, p))"
| "For_stmt rdr k ns name i (AtStoreLock conn sec kc) mu p = Lock i (AtStore conn sec kc) mu p"
| "For_stmt rdr k ns name i (AtStore conn sec kc) mu p =
     Some (AtStoreUnlock conn sec (length (clients p)), mu,
       p\<lparr>clients := clients p @ [kc],
         byName := mput (cache_key ns name) \<lparr>cc_kc = length (clients p), cc_connVersion = conn_resourceVersion conn,
                        cc_secretVer = sec_resourceVersion sec\<rparr> (byName p)\<rparr>)"
| "For_stmt rdr k ns name i (AtStoreUnlock conn sec kc) mu p = Unlock (Gave conn sec kc) mu p"
| "For_stmt rdr k ns name i c mu p = None"

text \<open>The process: the calls in flight, the provider they share and its mutex.\<close>

record 'k lsys =
  ls_cluster :: 'k
  ls_provider :: Provider
  ls_mu :: "nat option"
  ls_calls :: "(string \<times> string \<times> stmt_pc) list"

definition ls_pc :: "'k lsys \<Rightarrow> nat \<Rightarrow> stmt_pc" where
  "ls_pc s i = snd (snd (ls_calls s ! i))"

definition proceed :: "'k reader \<Rightarrow> nat \<Rightarrow> 'k lsys \<Rightarrow> 'k lsys option" where
  "proceed rdr i s =
     (if length (ls_calls s) \<le> i then None
      else case ls_calls s ! i of (ns, name, c) \<Rightarrow>
        (case For_stmt rdr (ls_cluster s) ns name i c (ls_mu s) (ls_provider s) of
           None \<Rightarrow> None
         | Some (c', mu', p') \<Rightarrow>
             Some (s\<lparr>ls_provider := p', ls_mu := mu', ls_calls := (ls_calls s)[i := (ns, name, c')]\<rparr>)))"

text \<open>A run, with the number of statements the calls have executed.\<close>

inductive lrun :: "'k reader \<Rightarrow> (string \<Rightarrow> string \<Rightarrow> string \<Rightarrow> connection) \<Rightarrow> (string \<Rightarrow> string \<Rightarrow> string \<Rightarrow> secret) \<Rightarrow>
    nat \<Rightarrow> 'k lsys \<Rightarrow> 'k lsys \<Rightarrow> bool"
  for rdr conn_at sec_at where
  start: "lrun rdr conn_at sec_at 0 s s"
| stmt: "lrun rdr conn_at sec_at n s0 s \<Longrightarrow> proceed rdr i s = Some s' \<Longrightarrow> lrun rdr conn_at sec_at (Suc n) s0 s'"
| change: "lrun rdr conn_at sec_at n s0 s \<Longrightarrow> versioned rdr conn_at sec_at k \<Longrightarrow>
    lrun rdr conn_at sec_at n s0 (s\<lparr>ls_cluster := k\<rparr>)"

definition linit :: "'k reader \<Rightarrow> (string \<Rightarrow> string \<Rightarrow> string \<Rightarrow> connection) \<Rightarrow>
    (string \<Rightarrow> string \<Rightarrow> string \<Rightarrow> secret) \<Rightarrow> 'k lsys \<Rightarrow> bool" where
  "linit rdr conn_at sec_at s \<longleftrightarrow>
     versioned rdr conn_at sec_at (ls_cluster s) \<and> ls_provider s = NewProvider \<and> ls_mu s = None \<and>
     list_all (\<lambda>(ns, name, c). CHR ''/'' \<notin> set ns \<and> c = AtGetConn) (ls_calls s)"

lemma proceedE:
  assumes "proceed rdr i s = Some s'"
  obtains ns name c c' mu' p' where "i < length (ls_calls s)" "ls_calls s ! i = (ns, name, c)"
    "For_stmt rdr (ls_cluster s) ns name i c (ls_mu s) (ls_provider s) = Some (c', mu', p')"
    "s' = s\<lparr>ls_provider := p', ls_mu := mu', ls_calls := (ls_calls s)[i := (ns, name, c')]\<rparr>"
  using assms by (auto simp: proceed_def split: if_splits prod.splits option.splits)

section \<open>Statements left\<close>

fun left :: "stmt_pc \<Rightarrow> nat" where
  "left AtGetConn = 9"
| "left (AtGetSecret conn) = 8"
| "left (AtLookupLock conn sec) = 7"
| "left (AtLookup conn sec) = 6"
| "left (AtMissUnlock conn sec) = 5"
| "left (AtConfig conn sec) = 4"
| "left (AtStoreLock conn sec kc) = 3"
| "left (AtStore conn sec kc) = 2"
| "left (AtStoreUnlock conn sec kc) = 1"
| "left (AtHitUnlock conn sec kc) = 1"
| "left (AtDropLock e) = 3"
| "left (AtDrop e) = 2"
| "left (AtDropUnlock e) = 1"
| "left c = 0"

lemmas lock_defs = Lock_def Unlock_def

lemma For_stmt_left: "For_stmt rdr k ns name i c mu p = Some (c', mu', p') \<Longrightarrow> left c' < left c"
  by (cases c) (auto simp: lock_defs split: sum.splits option.splits if_splits)

definition work :: "'k lsys \<Rightarrow> nat" where
  "work s = sum_list (map (\<lambda>c. left (snd (snd c))) (ls_calls s))"

lemma proceed_work: "proceed rdr i s = Some s' \<Longrightarrow> work s' < work s"
proof (elim proceedE)
  fix ns name c c' mu' p'
  assume i: "i < length (ls_calls s)" "ls_calls s ! i = (ns, name, c)"
    and step: "For_stmt rdr (ls_cluster s) ns name i c (ls_mu s) (ls_provider s) = Some (c', mu', p')"
    and s': "s' = s\<lparr>ls_provider := p', ls_mu := mu', ls_calls := (ls_calls s)[i := (ns, name, c')]\<rparr>"
  let ?l = "map (\<lambda>c. left (snd (snd c))) (ls_calls s)"
  have "work s' = sum_list (?l[i := left c'])" by (simp add: work_def s' map_update)
  also have "\<dots> = sum_list ?l + left c' - left c" using i by (simp add: sum_list_update)
  moreover have "left c \<le> sum_list ?l" using i elem_le_sum_list [of i ?l] by simp
  ultimately show ?thesis using For_stmt_left [OF step] by (simp add: work_def)
qed

lemma lrun_work: "lrun rdr conn_at sec_at n s0 s \<Longrightarrow> n + work s \<le> work s0"
proof (induction rule: lrun.induct)
  case (stmt n s0 s i s')
  then show ?case using proceed_work by fastforce
qed (simp_all add: work_def)

section \<open>The mutex\<close>

fun critical :: "stmt_pc \<Rightarrow> bool" where
  "critical (AtDrop e) \<longleftrightarrow> True"
| "critical (AtDropUnlock e) \<longleftrightarrow> True"
| "critical (AtLookup conn sec) \<longleftrightarrow> True"
| "critical (AtHitUnlock conn sec kc) \<longleftrightarrow> True"
| "critical (AtMissUnlock conn sec) \<longleftrightarrow> True"
| "critical (AtStore conn sec kc) \<longleftrightarrow> True"
| "critical (AtStoreUnlock conn sec kc) \<longleftrightarrow> True"
| "critical c \<longleftrightarrow> False"

fun finished :: "stmt_pc \<Rightarrow> bool" where
  "finished (Gave conn sec kc) \<longleftrightarrow> True"
| "finished (Failed_with e) \<longleftrightarrow> True"
| "finished c \<longleftrightarrow> False"

definition lock_ok :: "'k lsys \<Rightarrow> bool" where
  "lock_ok s \<longleftrightarrow> (\<forall>i < length (ls_calls s). ls_pc s i \<noteq> Fatal \<and> (critical (ls_pc s i) \<longleftrightarrow> ls_mu s = Some i)) \<and>
     (\<forall>j. ls_mu s = Some j \<longrightarrow> j < length (ls_calls s))"

lemma For_stmt_lock:
  assumes "For_stmt rdr k ns name i c mu p = Some (c', mu', p')" and "critical c \<longleftrightarrow> mu = Some i"
  shows "c' \<noteq> Fatal" and "critical c' \<longleftrightarrow> mu' = Some i" and "mu' = mu \<or> (mu = None \<and> mu' = Some i) \<or> (mu = Some i \<and> mu' = None)"
  using assms by (cases c; auto simp: lock_defs split: sum.splits option.splits if_splits)+

lemma proceed_lock:
  assumes "lock_ok s" and "proceed rdr i s = Some s'"
  shows "lock_ok s'"
  using assms(2)
proof (cases rule: proceedE)
  case (1 ns name c c' mu' p')
  then have c: "critical c \<longleftrightarrow> ls_mu s = Some i" using assms(1) by (auto simp: lock_ok_def ls_pc_def)
  note lock = For_stmt_lock [OF 1(3) c]
  have pc: "ls_pc s' j = (if j = i then c' else ls_pc s j)" if "j < length (ls_calls s)" for j
    using 1 that by (simp add: ls_pc_def)
  show ?thesis
    unfolding lock_ok_def
  proof (intro conjI allI impI)
    fix j assume "j < length (ls_calls s')"
    then have j: "j < length (ls_calls s)" using 1(4) by simp
    show "ls_pc s' j \<noteq> Fatal" using assms(1) lock(1) pc [OF j] j by (simp add: lock_ok_def)
    show "critical (ls_pc s' j) \<longleftrightarrow> ls_mu s' = Some j"
      using assms(1) lock(2,3) pc [OF j] j 1(1,4) by (auto simp: lock_ok_def)
  next
    fix j assume "ls_mu s' = Some j"
    then show "j < length (ls_calls s')" using lock(3) assms(1) 1(1,4) by (auto simp: lock_ok_def)
  qed
qed

lemma linit_lock: "linit rdr conn_at sec_at s \<Longrightarrow> lock_ok s"
  by (simp add: linit_def lock_ok_def ls_pc_def list_all_length split_beta)

lemma lrun_lock: "lrun rdr conn_at sec_at n s0 s \<Longrightarrow> lock_ok s0 \<Longrightarrow> lock_ok s"
proof (induction rule: lrun.induct)
  case (change n s0 s k)
  then show ?case by (simp add: lock_ok_def ls_pc_def)
qed (auto intro: proceed_lock)

text \<open>A call that cannot go on waits for the mutex, has returned, or was stopped by the runtime.\<close>

lemma For_stmt_stuck:
  "For_stmt rdr k ns name i c mu p = None \<Longrightarrow> finished c \<or> c = Fatal \<or> (mu \<noteq> None \<and> \<not> critical c)"
  by (cases c) (auto simp: lock_defs split: sum.splits option.splits)

lemma no_deadlock:
  assumes "lock_ok s" and "\<And>i. proceed rdr i s = None"
  shows "ls_mu s = None" and "i < length (ls_calls s) \<Longrightarrow> finished (ls_pc s i)"
proof -
  have stuck: "finished (ls_pc s i) \<or> (ls_mu s \<noteq> None \<and> \<not> critical (ls_pc s i))" if "i < length (ls_calls s)" for i
  proof -
    obtain ns name c where c: "ls_calls s ! i = (ns, name, c)" by (metis prod_cases3)
    have "For_stmt rdr (ls_cluster s) ns name i c (ls_mu s) (ls_provider s) = None"
      using assms(2) [of i] that c by (auto simp: proceed_def split: option.splits)
    from For_stmt_stuck [OF this] show ?thesis using assms(1) that c by (auto simp: lock_ok_def ls_pc_def)
  qed
  show free: "ls_mu s = None"
  proof (rule ccontr)
    assume "ls_mu s \<noteq> None"
    then obtain j where j: "ls_mu s = Some j" by blast
    with assms(1) have "j < length (ls_calls s)" "critical (ls_pc s j)" by (auto simp: lock_ok_def)
    with stuck [of j] show False by (cases "ls_pc s j") auto
  qed
  show "i < length (ls_calls s) \<Longrightarrow> finished (ls_pc s i)" using stuck [of i] free by simp
qed

section \<open>The steps of the provider\<close>

fun coarse :: "string \<Rightarrow> string \<Rightarrow> stmt_pc \<Rightarrow> pc" where
  "coarse ns name AtGetConn = Start"
| "coarse ns name (AtDropLock e) = Dropping e"
| "coarse ns name (AtDrop e) = Dropping e"
| "coarse ns name (AtDropUnlock e) = Stopped (Wrapf [''get keycloak connection %s/%s: %w'', ns, name] e)"
| "coarse ns name (AtGetSecret conn) = HasConn conn"
| "coarse ns name (AtLookupLock conn sec) = HasBoth conn sec"
| "coarse ns name (AtLookup conn sec) = HasBoth conn sec"
| "coarse ns name (AtHitUnlock conn sec kc) = Returned conn sec kc"
| "coarse ns name (AtMissUnlock conn sec) = Missed conn sec"
| "coarse ns name (AtConfig conn sec) = Missed conn sec"
| "coarse ns name (AtStoreLock conn sec kc) = Missed conn sec"
| "coarse ns name (AtStore conn sec kc) = Missed conn sec"
| "coarse ns name (AtStoreUnlock conn sec kc) = Returned conn sec kc"
| "coarse ns name (Gave conn sec kc) = Returned conn sec kc"
| "coarse ns name (Failed_with e) = Stopped e"
| "coarse ns name Fatal = Start"

fun built :: "string \<Rightarrow> string \<Rightarrow> stmt_pc \<Rightarrow> bool" where
  "built ns name (AtStoreLock conn sec kc) \<longleftrightarrow>
     (\<exists>c. clientConfig conn sec = Inr c \<and> kc = New (c\<lparr>ConnectionName := cache_key ns name\<rparr>))"
| "built ns name (AtStore conn sec kc) \<longleftrightarrow>
     (\<exists>c. clientConfig conn sec = Inr c \<and> kc = New (c\<lparr>ConnectionName := cache_key ns name\<rparr>))"
| "built ns name c \<longleftrightarrow> True"

definition coarse_sys :: "'k lsys \<Rightarrow> 'k psys" where
  "coarse_sys s = \<lparr>ps_cluster = ls_cluster s, ps_provider = ls_provider s,
     ps_calls = (\<lambda>i. if i < length (ls_calls s) then case ls_calls s ! i of (ns, name, c) \<Rightarrow> (ns, name, coarse ns name c)
                     else ([], [], Start))\<rparr>"

definition all_built :: "'k lsys \<Rightarrow> bool" where
  "all_built s \<longleftrightarrow> list_all (\<lambda>(ns, name, c). built ns name c) (ls_calls s)"

lemma For_stmt_coarse:
  assumes "For_stmt rdr k ns name i c mu p = Some (c', mu', p')" and "c' \<noteq> Fatal" and "built ns name c"
  shows "built ns name c'" and "(coarse ns name c', p') = (coarse ns name c, p) \<or>
    For_step rdr k ns name (coarse ns name c) p = (coarse ns name c', p')"
  using assms by (cases c; auto simp: lock_defs Let_def split: sum.splits option.splits if_splits)+

lemma proceed_coarse:
  assumes "lock_ok s" and "all_built s" and "proceed rdr i s = Some s'"
  shows "all_built s' \<and> (coarse_sys s' = coarse_sys s \<or> pstep rdr conn_at sec_at (coarse_sys s) (coarse_sys s'))"
  using assms(3)
proof (cases rule: proceedE)
  case (1 ns name c c' mu' p')
  have "lock_ok s'" by (rule proceed_lock [OF assms(1,3)])
  then have "ls_pc s' i \<noteq> Fatal" using 1(1,4) by (simp add: lock_ok_def)
  then have fine: "c' \<noteq> Fatal" using 1(1,4) by (simp add: ls_pc_def)
  have "built ns name c" using assms(2) 1(1,2) by (force simp: all_built_def list_all_length)
  note step = For_stmt_coarse [OF 1(3) fine this]
  have "all_built s'" using assms(2) step(1) 1(4) set_update_subset_insert [of "ls_calls s" i "(ns, name, c')"]
    by (fastforce simp: all_built_def list_all_iff)
  moreover have calls: "ps_calls (coarse_sys s') = (ps_calls (coarse_sys s))(i := (ns, name, coarse ns name c'))"
    using 1(1,4) by (auto simp: coarse_sys_def fun_eq_iff nth_list_update)
  moreover have at: "ps_calls (coarse_sys s) i = (ns, name, coarse ns name c)" using 1(1,2) by (simp add: coarse_sys_def)
  moreover have rest: "ps_cluster (coarse_sys s') = ps_cluster (coarse_sys s)" "ps_provider (coarse_sys s') = p'"
    "ps_provider (coarse_sys s) = ls_provider s" "ps_cluster (coarse_sys s) = ls_cluster s"
    using 1(4) by (simp_all add: coarse_sys_def)
  moreover have "coarse_sys s' = (coarse_sys s)\<lparr>ps_provider := p',
      ps_calls := (ps_calls (coarse_sys s))(i := (ns, name, coarse ns name c'))\<rparr>"
    using calls rest by (intro psys.equality) simp_all
  ultimately show ?thesis using step(2)
  proof (elim disjE)
    assume "For_step rdr (ls_cluster s) ns name (coarse ns name c) (ls_provider s) = (coarse ns name c', p')"
    with \<open>all_built s'\<close> \<open>coarse_sys s' = _\<close> pstep.call [of "coarse_sys s" i ns name, OF at] rest show ?thesis by metis
  qed (auto simp: fun_upd_idem)
qed

lemma lrun_coarse:
  "lrun rdr conn_at sec_at n s0 s \<Longrightarrow> lock_ok s0 \<Longrightarrow> all_built s0 \<Longrightarrow>
   all_built s \<and> (pstep rdr conn_at sec_at)\<^sup>*\<^sup>* (coarse_sys s0) (coarse_sys s)"
proof (induction rule: lrun.induct)
  case (stmt n s0 s i s')
  then have "lock_ok s" using lrun_lock by blast
  from proceed_coarse [OF this _ stmt.hyps(2), of conn_at sec_at] stmt show ?case by (metis rtranclp.rtrancl_into_rtrancl)
next
  case (change n s0 s k)
  then have "pstep rdr conn_at sec_at (coarse_sys s) ((coarse_sys s)\<lparr>ps_cluster := k\<rparr>)" by (intro pstep.change)
  moreover have "(coarse_sys s)\<lparr>ps_cluster := k\<rparr> = coarse_sys (s\<lparr>ls_cluster := k\<rparr>)"
    by (simp add: coarse_sys_def cong: if_cong)
  ultimately show ?case using change by (auto simp: all_built_def intro: rtranclp.rtrancl_into_rtrancl)
qed simp

section \<open>Every call returns\<close>

text \<open>
  C17: Every call of \<open>For\<close> returns. However the statements of the calls are interleaved with one
  another and with changes of the cluster, the calls execute at most nine statements each, so a run cannot
  go on for ever; and when no call can go on, all of them have returned and the mutex is free: no
  call is left waiting for a mutex that nobody releases. On the way at most one call at a
  time is between \<open>Lock\<close> and \<open>Unlock\<close>, where the map is used, and no \<open>Unlock\<close> meets a free
  mutex. Every such run is one of the runs of the coarser steps of \<open>Provider\<close>.
\<close>
theorem For_returns:
  assumes "linit rdr conn_at sec_at s0" and "lrun rdr conn_at sec_at n s0 s"
  shows "n \<le> 9 * length (ls_calls s0) \<and>
    ((\<forall>i. proceed rdr i s = None) \<longrightarrow>
       ls_mu s = None \<and> (\<forall>i < length (ls_calls s). finished (ls_pc s i))) \<and>
    (\<forall>i j. i < length (ls_calls s) \<longrightarrow> j < length (ls_calls s) \<longrightarrow>
       critical (ls_pc s i) \<longrightarrow> critical (ls_pc s j) \<longrightarrow> i = j) \<and>
    (\<forall>i < length (ls_calls s). ls_pc s i \<noteq> Fatal) \<and>
    (pstep rdr conn_at sec_at)\<^sup>*\<^sup>* (coarse_sys s0) (coarse_sys s)"
proof -
  have ok: "lock_ok s0" "lock_ok s" using linit_lock [OF assms(1)] lrun_lock [OF assms(2)] by auto
  have "map (\<lambda>c. left (snd (snd c))) (ls_calls s0) = replicate (length (ls_calls s0)) 9"
    using assms(1) by (intro replicate_eqI) (auto simp: linit_def list_all_iff)
  then have "work s0 = 9 * length (ls_calls s0)" by (simp add: work_def sum_list_replicate)
  moreover have "all_built s0" using assms(1) by (auto simp: linit_def all_built_def list_all_iff)
  ultimately show ?thesis
    using lrun_work [OF assms(2)] no_deadlock [OF ok(2)] ok lrun_coarse [OF assms(2)] by (auto simp: lock_ok_def)
qed

text \<open>Two calls at once: both miss the cache and store a client, the second first.\<close>

fun proceed_all :: "'k reader \<Rightarrow> nat list \<Rightarrow> 'k lsys \<Rightarrow> 'k lsys option" where
  "proceed_all rdr [] s = Some s"
| "proceed_all rdr (i # is) s = (case proceed rdr i s of None \<Rightarrow> None | Some s' \<Rightarrow> proceed_all rdr is s')"

lemma proceed_all_run:
  "proceed_all rdr is s = Some s' \<Longrightarrow> lrun rdr conn_at sec_at n s0 s \<Longrightarrow> lrun rdr conn_at sec_at (length is + n) s0 s'"
proof (induction "is" arbitrary: s n)
  case (Cons i "is")
  from Cons.prems(1) obtain t where t: "proceed rdr i s = Some t" "proceed_all rdr is t = Some s'" by (auto split: option.splits)
  from Cons.IH [OF t(2) lrun.stmt [OF Cons.prems(2) t(1)]] show ?case by simp
qed simp

definition two_calls :: "unit lsys" where
  "two_calls = \<lparr>ls_cluster = (), ls_provider = NewProvider, ls_mu = None,
     ls_calls = replicate 2 (''ns'', ''kc'', AtGetConn)\<rparr>"

theorem For_returns_witness:
  "\<exists>s. proceed_all demo_reader [0, 0, 0, 1, 1, 0, 0, 1, 1, 1, 1, 1, 0, 1, 1, 0, 0, 0] two_calls = Some s \<and>
     ls_mu s = None \<and> (\<forall>i < 2. finished (ls_pc s i))"
proof -
  let ?is = "[0, 0, 0, 1, 1, 0, 0, 1, 1, 1, 1, 1, 0, 1, 1, 0, 0, 0]"
  have "case proceed_all demo_reader ?is two_calls of None \<Rightarrow> False
    | Some s \<Rightarrow> length (ls_calls s) = 2 \<and> Option.is_none (proceed demo_reader 0 s) \<and> Option.is_none (proceed demo_reader 1 s)"
    by code_simp
  then obtain s where s: "proceed_all demo_reader ?is two_calls = Some s" "length (ls_calls s) = 2"
    "proceed demo_reader 0 s = None" "proceed demo_reader 1 s = None" by (auto simp: Option.is_none_def split: option.splits)
  have init: "linit demo_reader (\<lambda>ns n v. demo_connection) (\<lambda>ns n v. demo_credentials) two_calls"
    by (simp add: linit_def two_calls_def versioned_def demo_reader_def numeral_2_eq_2)
  have "proceed demo_reader i s = None" for i using s(2-4) by (cases "i < 2") (auto simp: less_2_cases_iff proceed_def)
  with For_returns [OF init proceed_all_run [OF s(1) lrun.start]] s(1,2) show ?thesis by auto
qed

end
