(* ===== verification/Json_Memory.thy ===== *)
theory Json_Memory
  imports Go_Memory Lastapplied
begin

text \<open>
  JSON values in memory. The operator edits the payload in place, maps inside maps included, while
  the spec it was copied from is kept for the annotation; the other theories pass such values
  on as values. Here a \<open>map[string]any\<close> is a reference to a cell, and the functions of
  \<open>lastapplied.go\<close> that copy and fill the payload are given with their effect on the memory.
\<close>

section \<open>Values and the cells they own\<close>

fun holds :: "memory \<Rightarrow> json \<Rightarrow> gval \<Rightarrow> bool"
  and holds_list :: "memory \<Rightarrow> json list \<Rightarrow> gval list \<Rightarrow> bool"
  and holds_map :: "memory \<Rightarrow> json gomap \<Rightarrow> (string \<times> gval) list \<Rightarrow> bool" where
  "holds h JNull v \<longleftrightarrow> v = Ptr None"
| "holds h (JBool b) v \<longleftrightarrow> v = Basic (PBool b)"
| "holds h (JNum n) v \<longleftrightarrow> v = Basic (PInt n)"
| "holds h (JStr s) v \<longleftrightarrow> v = Basic (PStr s)"
| "holds h (JArr js) v \<longleftrightarrow>
     (case v of Slice (Some a) \<Rightarrow> (case cells h a of Some (Arr vs) \<Rightarrow> holds_list h js vs | _ \<Rightarrow> False) | _ \<Rightarrow> False)"
| "holds h (JObj m) v \<longleftrightarrow>
     (case v of Map (Some a) \<Rightarrow> (case cells h a of Some (Tab t) \<Rightarrow> holds_map h m t | _ \<Rightarrow> False) | _ \<Rightarrow> False)"
| "holds_list h [] vs \<longleftrightarrow> vs = []"
| "holds_list h (j # js) vs \<longleftrightarrow> (case vs of [] \<Rightarrow> False | v # vs' \<Rightarrow> holds h j v \<and> holds_list h js vs')"
| "holds_map h [] t \<longleftrightarrow> t = []"
| "holds_map h (e # m) t \<longleftrightarrow>
     (case t of [] \<Rightarrow> False | x # t' \<Rightarrow> fst x = fst e \<and> holds h (snd e) (snd x) \<and> holds_map h m t')"

fun foot :: "memory \<Rightarrow> json \<Rightarrow> gval \<Rightarrow> addr list"
  and foot_list :: "memory \<Rightarrow> json list \<Rightarrow> gval list \<Rightarrow> addr list"
  and foot_map :: "memory \<Rightarrow> json gomap \<Rightarrow> (string \<times> gval) list \<Rightarrow> addr list" where
  "foot h (JArr js) v =
     (case v of Slice (Some a) \<Rightarrow> a # (case cells h a of Some (Arr vs) \<Rightarrow> foot_list h js vs | _ \<Rightarrow> []) | _ \<Rightarrow> [])"
| "foot h (JObj m) v =
     (case v of Map (Some a) \<Rightarrow> a # (case cells h a of Some (Tab t) \<Rightarrow> foot_map h m t | _ \<Rightarrow> []) | _ \<Rightarrow> [])"
| "foot h j v = []"
| "foot_list h [] vs = []"
| "foot_list h (j # js) vs = (case vs of [] \<Rightarrow> [] | v # vs' \<Rightarrow> foot h j v @ foot_list h js vs')"
| "foot_map h [] t = []"
| "foot_map h (e # m) t = (case t of [] \<Rightarrow> [] | x # t' \<Rightarrow> foot h (snd e) (snd x) @ foot_map h m t')"

lemma holds_Arr: "holds h (JArr js) v \<longleftrightarrow> (\<exists>a vs. v = Slice (Some a) \<and> cells h a = Some (Arr vs) \<and> holds_list h js vs)"
  by (auto split: gval.splits option.splits cell.splits)

lemma holds_Obj: "holds h (JObj m) v \<longleftrightarrow> (\<exists>a t. v = Map (Some a) \<and> cells h a = Some (Tab t) \<and> holds_map h m t)"
  by (auto split: gval.splits option.splits cell.splits)

declare holds.simps(5,6) [simp del]

lemma holds_agree:
  "holds h j v \<Longrightarrow> \<forall>a \<in> set (foot h j v). cells h' a = cells h a \<Longrightarrow> holds h' j v \<and> foot h' j v = foot h j v"
  "holds_list h js vs \<Longrightarrow> \<forall>a \<in> set (foot_list h js vs). cells h' a = cells h a \<Longrightarrow>
    holds_list h' js vs \<and> foot_list h' js vs = foot_list h js vs"
  "holds_map h m t \<Longrightarrow> \<forall>a \<in> set (foot_map h m t). cells h' a = cells h a \<Longrightarrow>
    holds_map h' m t \<and> foot_map h' m t = foot_map h m t"
proof (induction h j v and h js vs and h m t rule: holds_holds_list_holds_map.induct)
  case (8 h j js vs)
  then show ?case by (cases vs) auto
next
  case (10 h e m t)
  then show ?case by (cases t) auto
qed (auto simp: holds_Arr holds_Obj)

lemma holds_foot:
  assumes "memory_ok h"
  shows "holds h j v \<Longrightarrow> set (foot h j v) \<subseteq> {..<limit h}"
    and "holds_list h js vs \<Longrightarrow> set (foot_list h js vs) \<subseteq> {..<limit h}"
    and "holds_map h m t \<Longrightarrow> set (foot_map h m t) \<subseteq> {..<limit h}"
  using assms
proof (induction h j v and h js vs and h m t rule: holds_holds_list_holds_map.induct)
  case (8 h j js vs)
  then show ?case by (cases vs) auto
next
  case (10 h e m t)
  then show ?case by (cases t) auto
next
  case (5 h js v)
  from 5(2) obtain a vs where "v = Slice (Some a)" "cells h a = Some (Arr vs)" "holds_list h js vs" by (auto simp: holds_Arr)
  with 5(1) [of "Some a" a "Arr vs" vs] 5(3) show ?case by (auto simp: memory_ok_def)
next
  case (6 h m v)
  from 6(2) obtain a t where "v = Map (Some a)" "cells h a = Some (Tab t)" "holds_map h m t" by (auto simp: holds_Obj)
  with 6(1) [of "Some a" a "Tab t" t] 6(3) show ?case by (auto simp: memory_ok_def)
qed auto

lemma holds_extends:
  assumes "memory_ok h" and "extends h h'"
  shows "holds h j v \<Longrightarrow> holds h' j v \<and> foot h' j v = foot h j v"
    and "holds_list h js vs \<Longrightarrow> holds_list h' js vs \<and> foot_list h' js vs = foot_list h js vs"
proof -
  have same: "cells h' a = cells h a" if "a \<in> A" "A \<subseteq> {..<limit h}" for a A using that assms(2) by (auto simp: extends_def)
  show "holds h j v \<Longrightarrow> holds h' j v \<and> foot h' j v = foot h j v"
    using holds_agree(1) [of h j v h'] holds_foot(1) [OF assms(1), of j v] same by blast
  show "holds_list h js vs \<Longrightarrow> holds_list h' js vs \<and> foot_list h' js vs = foot_list h js vs"
    using holds_agree(2) [of h js vs h'] holds_foot(2) [OF assms(1), of js vs] same by blast
qed

lemma holds_map_list: "holds_map h m t \<longleftrightarrow> map fst t = map fst m \<and> holds_list h (map snd m) (map snd t)"
proof (induction m arbitrary: t)
  case (Cons e m)
  then show ?case by (cases t) auto
qed auto

lemma foot_map_list: "foot_map h m t = foot_list h (map snd m) (map snd t)"
proof (induction m arbitrary: t)
  case (Cons e m)
  then show ?case by (cases t) auto
qed auto

lemma holds_list_length: "holds_list h js vs \<Longrightarrow> length vs = length js"
proof (induction js arbitrary: vs)
  case (Cons j js)
  then show ?case by (cases vs) auto
qed auto

section \<open>The deep copy\<close>

text \<open>\<open>deepCopyValue\<close> and \<open>deepCopyMap\<close>. The recursion follows references, so it has fuel: the depth of
  the value is enough.\<close>

fun deepCopyValue_mem :: "nat \<Rightarrow> copy" where
  "deepCopyValue_mem 0 v h = (v, h)"
| "deepCopyValue_mem (Suc n) v h =
     (case v of
        Map _ \<Rightarrow> copy_map (deepCopyValue_mem n) v h
      | Slice _ \<Rightarrow> copy_slice (deepCopyValue_mem n) v h
      | _ \<Rightarrow> (v, h))"

definition deepCopyMap_mem :: "nat \<Rightarrow> copy" where
  "deepCopyMap_mem n = copy_map (deepCopyValue_mem n)"

fun jdepth :: "json \<Rightarrow> nat" where
  "jdepth (JArr js) = Suc (foldr max (map jdepth js) 0)"
| "jdepth (JObj m) = Suc (foldr max (map (\<lambda>p. jdepth (snd p)) m) 0)"
| "jdepth j = 0"

lemma foldr_max_le: "foldr max xs 0 \<le> n \<longleftrightarrow> (\<forall>x \<in> set xs. x \<le> (n :: nat))"
  by (induction xs) auto

text \<open>The copy holds the same value in new cells, none of them shared.\<close>

definition fresh :: "json \<Rightarrow> memory \<Rightarrow> memory \<Rightarrow> gval \<Rightarrow> bool" where
  "fresh j h h' w \<longleftrightarrow> memory_ok h' \<and> extends h h' \<and> holds h' j w \<and> distinct (foot h' j w) \<and>
     set (foot h' j w) \<subseteq> {limit h..<limit h'}"

definition fresh_list :: "json list \<Rightarrow> memory \<Rightarrow> memory \<Rightarrow> gval list \<Rightarrow> bool" where
  "fresh_list js h h' ws \<longleftrightarrow> memory_ok h' \<and> extends h h' \<and> holds_list h' js ws \<and> distinct (foot_list h' js ws) \<and>
     set (foot_list h' js ws) \<subseteq> {limit h..<limit h'}"

lemma fresh_Cons:
  assumes "fresh j h h1 w" and "fresh_list js h1 h2 zs"
  shows "fresh_list (j # js) h h2 (w # zs)"
proof -
  have h1: "memory_ok h1" "extends h h1" and h2: "extends h1 h2"
    using assms by (simp_all add: fresh_def fresh_list_def)
  have keep: "holds h2 j w" "foot h2 j w = foot h1 j w"
    using holds_extends(1) [OF h1(1) h2, of j w] assms(1) by (simp_all add: fresh_def)
  have low: "set (foot h1 j w) \<subseteq> {limit h..<limit h1}" "set (foot_list h2 js zs) \<subseteq> {limit h1..<limit h2}"
    using assms by (simp_all add: fresh_def fresh_list_def)
  then have "set (foot h1 j w) \<inter> set (foot_list h2 js zs) = {}" by fastforce
  moreover have "set (foot h1 j w) \<union> set (foot_list h2 js zs) \<subseteq> {limit h..<limit h2}"
    using low extends_limit [OF h1(2)] extends_limit [OF h2] by fastforce
  ultimately show ?thesis using assms keep extends_trans [OF h1(2) h2] by (simp add: fresh_def fresh_list_def)
qed

lemma copy_elems_fresh:
  assumes "\<And>h j v w h'. memory_ok h \<Longrightarrow> holds h j v \<Longrightarrow> j \<in> set js \<Longrightarrow> c v h = (w, h') \<Longrightarrow> fresh j h h' w"
    and "memory_ok h" and "holds_list h js vs" and "copy_elems c vs h = (ws, h')"
  shows "fresh_list js h h' ws"
  using assms
proof (induction js arbitrary: h vs ws h')
  case (Cons j js)
  from Cons.prems(3) obtain v us where vs: "vs = v # us" "holds h j v" "holds_list h js us" by (auto split: list.splits)
  obtain w h1 where w: "c v h = (w, h1)" by fastforce
  obtain zs h2 where zs: "copy_elems c us h1 = (zs, h2)" by fastforce
  have f: "fresh j h h1 w" by (rule Cons.prems(1) [OF Cons.prems(2) vs(2) _ w]) simp
  then have h1: "memory_ok h1" "extends h h1" by (simp_all add: fresh_def)
  have "holds_list h1 js us" using holds_extends(2) [OF Cons.prems(2) h1(2) vs(3)] by simp
  then have "fresh_list js h1 h2 zs"
    using Cons.prems(1) by (intro Cons.IH [OF _ h1(1) _ zs]) auto
  moreover have "ws = w # zs" "h' = h2" using Cons.prems(4) vs w zs by simp_all
  ultimately show ?case using fresh_Cons [OF f] by simp
qed (auto simp: fresh_list_def)

lemma alloc_fresh:
  assumes "fresh_list js h h1 ws" and "alloc c h1 = (a, h2)"
  shows "memory_ok h2" "extends h h2" "cells h2 a = Some c" "holds_list h2 js ws"
    "distinct (a # foot_list h2 js ws)" "set (a # foot_list h2 js ws) \<subseteq> {limit h..<limit h2}"
proof -
  have h1: "memory_ok h1" "extends h h1" "holds_list h1 js ws" using assms(1) by (simp_all add: fresh_list_def)
  note new = alloc_facts [OF assms(2) h1(1)]
  show "memory_ok h2" "extends h h2" "cells h2 a = Some c" using new extends_trans [OF h1(2)] by auto
  have same: "holds_list h2 js ws" "foot_list h2 js ws = foot_list h1 js ws" using holds_extends(2) [OF h1(1) new(2) h1(3)] by auto
  then show "holds_list h2 js ws" by simp
  have "set (foot_list h1 js ws) \<subseteq> {limit h..<limit h1}" "distinct (foot_list h1 js ws)" using assms(1) by (simp_all add: fresh_list_def)
  then show "distinct (a # foot_list h2 js ws)" "set (a # foot_list h2 js ws) \<subseteq> {limit h..<limit h2}"
    using new(3,4) extends_limit [OF h1(2)] same(2) by (auto simp: subset_iff)
qed

lemma copy_map_fresh:
  assumes c: "\<And>h j v w h'. memory_ok h \<Longrightarrow> holds h j v \<Longrightarrow> j \<in> snd ` set m \<Longrightarrow> c v h = (w, h') \<Longrightarrow> fresh j h h' w"
    and "memory_ok h" and "holds h (JObj m) v" and "copy_map c v h = (w, h')"
  shows "fresh (JObj m) h h' w"
proof -
  from assms(3) obtain a t where v: "v = Map (Some a)" "cells h a = Some (Tab t)" "holds_map h m t" by (auto simp: holds_Obj)
  then have t: "map fst t = map fst m" "holds_list h (map snd m) (map snd t)" by (simp_all add: holds_map_list)
  obtain ys h1 where ys: "copy_elems c (map snd t) h = (ys, h1)" by fastforce
  let ?t = "zip (map fst t) ys"
  obtain b h2 where b: "alloc (Tab ?t) h1 = (b, h2)" by fastforce
  have "fresh_list (map snd m) h h1 ys" by (rule copy_elems_fresh [OF _ assms(2) t(2) ys]) (use c in auto)
  note new = alloc_fresh [OF this b]
  have "length ys = length t" using holds_list_length [OF new(4)] t(1) by (metis length_map)
  then have "map fst ?t = map fst t" "map snd ?t = ys" by simp_all
  then have keys: "map fst ?t = map fst m" "map snd ?t = ys" unfolding t(1) .
  have "w = Map (Some b)" "h' = h2" using assms(4) v ys b by (simp_all add: copy_map_def)
  then show ?thesis using new keys by (auto simp: fresh_def holds_Obj holds_map_list foot_map_list)
qed

lemma copy_slice_fresh:
  assumes c: "\<And>h j v w h'. memory_ok h \<Longrightarrow> holds h j v \<Longrightarrow> j \<in> set js \<Longrightarrow> c v h = (w, h') \<Longrightarrow> fresh j h h' w"
    and "memory_ok h" and "holds h (JArr js) v" and "copy_slice c v h = (w, h')"
  shows "fresh (JArr js) h h' w"
proof -
  from assms(3) obtain a vs where v: "v = Slice (Some a)" "cells h a = Some (Arr vs)" "holds_list h js vs" by (auto simp: holds_Arr)
  obtain ys h1 where ys: "copy_elems c vs h = (ys, h1)" by fastforce
  obtain b h2 where b: "alloc (Arr ys) h1 = (b, h2)" by fastforce
  have "fresh_list js h h1 ys" by (rule copy_elems_fresh [OF _ assms(2) v(3) ys]) (use c in auto)
  note new = alloc_fresh [OF this b]
  have "w = Slice (Some b)" "h' = h2" using assms(4) v ys b by (simp_all add: copy_slice_def)
  then show ?thesis using new by (auto simp: fresh_def holds_Arr)
qed

lemma deepCopyValue_fresh:
  "jdepth j \<le> n \<Longrightarrow> memory_ok h \<Longrightarrow> holds h j v \<Longrightarrow> deepCopyValue_mem n v h = (w, h') \<Longrightarrow> fresh j h h' w"
proof (induction n arbitrary: j h v w h')
  case 0
  then show ?case by (cases j) (auto simp: fresh_def)
next
  case (Suc n)
  show ?case
  proof (cases j)
    case (JArr js)
    have "fresh x g g' u" if "memory_ok g" "holds g x y" "x \<in> set js" "deepCopyValue_mem n y g = (u, g')" for g x y u g'
      using that Suc.prems(1) JArr by (intro Suc.IH) (auto simp: foldr_max_le)
    moreover have "copy_slice (deepCopyValue_mem n) v h = (w, h')" using Suc.prems(3,4) JArr by (auto simp: holds_Arr)
    ultimately show ?thesis using copy_slice_fresh [of js "deepCopyValue_mem n" h v w h'] Suc.prems(2,3) JArr by blast
  next
    case (JObj m)
    have "fresh x g g' u" if "memory_ok g" "holds g x y" "x \<in> snd ` set m" "deepCopyValue_mem n y g = (u, g')" for g x y u g'
      using that Suc.prems(1) JObj by (intro Suc.IH) (auto simp: foldr_max_le)
    moreover have "copy_map (deepCopyValue_mem n) v h = (w, h')" using Suc.prems(3,4) JObj by (auto simp: holds_Obj)
    ultimately show ?thesis using copy_map_fresh [of m "deepCopyValue_mem n" h v w h'] Suc.prems(2,3) JObj by blast
  qed (use Suc.prems in \<open>auto simp: fresh_def\<close>)
qed

lemma deepCopyMap_fresh:
  "jdepth (JObj m) \<le> Suc n \<Longrightarrow> memory_ok h \<Longrightarrow> holds h (JObj m) v \<Longrightarrow> deepCopyMap_mem n v h = (w, h') \<Longrightarrow>
   fresh (JObj m) h h' w"
  unfolding deepCopyMap_mem_def
  by (rule copy_map_fresh) (auto simp: foldr_max_le intro: deepCopyValue_fresh)

section \<open>In-place edits\<close>

definition entries :: "memory \<Rightarrow> gval \<Rightarrow> (string \<times> gval) list" where
  "entries h v = (case v of Map (Some a) \<Rightarrow> (case cells h a of Some (Tab t) \<Rightarrow> t | _ \<Rightarrow> []) | _ \<Rightarrow> [])"

text \<open>\<open>m[k] = x\<close>.\<close>

definition map_put :: "gval \<Rightarrow> string \<Rightarrow> gval \<Rightarrow> memory \<Rightarrow> memory" where
  "map_put v k x h =
     (case v of
        Map (Some a) \<Rightarrow> h\<lparr>cells := (cells h)(a \<mapsto> Tab (mput k x (entries h v)))\<rparr>
      | _ \<Rightarrow> h)"

text \<open>A map that nothing else refers to, with all it contains.\<close>

definition owns :: "memory \<Rightarrow> json gomap \<Rightarrow> gval \<Rightarrow> bool" where
  "owns h m v \<longleftrightarrow> memory_ok h \<and> mjwf m \<and> holds h (JObj m) v \<and> distinct (foot h (JObj m) v)"

text \<open>The cells outside \<open>A\<close> that existed are as before.\<close>

definition changes :: "addr set \<Rightarrow> memory \<Rightarrow> memory \<Rightarrow> bool" where
  "changes A h h' \<longleftrightarrow> limit h \<le> limit h' \<and> (\<forall>a < limit h. a \<notin> A \<longrightarrow> cells h' a = cells h a)"

definition old_foot :: "memory \<Rightarrow> string \<Rightarrow> json gomap \<Rightarrow> (string \<times> gval) list \<Rightarrow> addr list" where
  "old_foot h k m t = (case map_of m k of None \<Rightarrow> [] | Some j \<Rightarrow> foot h j (the (map_of t k)))"

lemma old_foot_subset: "holds_map h m t \<Longrightarrow> set (old_foot h k m t) \<subseteq> set (foot_map h m t)"
proof (induction m arbitrary: t)
  case (Cons e m)
  then obtain x t' where "t = x # t'" "fst x = fst e" "holds_map h m t'" by (cases t) auto
  with Cons.IH [of t'] show ?case by (cases e; cases x) (auto simp: old_foot_def split: option.splits)
qed (simp add: old_foot_def)

lemma map_entry: "holds_map h m t \<Longrightarrow> map_of m k = Some j \<Longrightarrow> \<exists>v. map_of t k = Some v \<and> holds h j v"
proof (induction m arbitrary: t)
  case (Cons e m)
  then obtain x t' where "t = x # t'" "fst x = fst e" "holds h (snd e) (snd x)" "holds_map h m t'" by (cases t) auto
  with Cons show ?case by (cases e; cases x) (auto split: if_splits)
qed simp

lemma map_entry_none: "holds_map h m t \<Longrightarrow> map_of m k = None \<longleftrightarrow> map_of t k = None"
  by (metis holds_map_list map_of_eq_None_iff list.set_map)

text \<open>Replacing one entry of a map: the other entries keep their cells.\<close>

lemma entry_update:
  assumes "holds_map h m t" and "distinct (foot_map h m t)" and "mwf m"
    and "\<forall>a \<in> set (foot_map h m t) - set (old_foot h k m t). cells h' a = cells h a"
    and "holds h' j x" and "distinct (foot h' j x)"
    and "set (foot h' j x) \<inter> (set (foot_map h m t) - set (old_foot h k m t)) = {}"
  shows "holds_map h' (mput k j m) (mput k x t) \<and> distinct (foot_map h' (mput k j m) (mput k x t)) \<and>
    set (foot_map h' (mput k j m) (mput k x t)) = (set (foot_map h m t) - set (old_foot h k m t)) \<union> set (foot h' j x)"
  using assms
proof (induction m arbitrary: t)
  case Nil
  then show ?case by (simp add: old_foot_def)
next
  case (Cons e m)
  obtain f i where e: "e = (f, i)" by fastforce
  from Cons.prems(1) e obtain y t' where t: "t = (f, y) # t'" "holds h i y" "holds_map h m t'"
    by (cases t) auto
  have wf: "mwf m" "\<forall>f' \<in> fst ` set m. f < f'" using Cons.prems(3) e by (auto simp: mwf_Cons)
  have d: "distinct (foot h i y)" "distinct (foot_map h m t')" "set (foot h i y) \<inter> set (foot_map h m t') = {}"
    using Cons.prems(2) e t(1) by auto
  consider "k < f" | "k = f" | "f < k" by fastforce
  then show ?case
  proof cases
    case 1
    then have "map_of m k = None" using wf(2) by (force simp: map_of_eq_None_iff)
    moreover have "k \<noteq> f" using 1 by simp
    ultimately have old: "old_foot h k (e # m) t = []" using e by (simp add: old_foot_def)
    have same: "holds_map h' (e # m) t" "foot_map h' (e # m) t = foot_map h (e # m) t"
      using holds_agree(3) [OF Cons.prems(1), of h'] Cons.prems(4) by (simp_all add: old)
    have "mput k j (e # m) = (k, j) # e # m" "mput k x t = (k, x) # t" using 1 e t(1) by simp_all
    then show ?thesis using same Cons.prems(2,5-7) by (auto simp: old simp del: holds_map.simps(2) foot_map.simps(2))
        (auto)
  next
    case 2
    then have old: "old_foot h k (e # m) t = foot h i y" using e t(1) by (simp add: old_foot_def)
    have rest: "set (foot_map h (e # m) t) - set (foot h i y) = set (foot_map h m t')" using e t(1) d(3) by auto
    then have same: "holds_map h' m t'" "foot_map h' m t' = foot_map h m t'"
      using holds_agree(3) [OF t(3), of h'] Cons.prems(4) by (simp_all add: old)
    have "mput k j (e # m) = (k, j) # m" "mput k x t = (k, x) # t'" using 2 e t(1) by simp_all
    then show ?thesis using same Cons.prems(5-7) d(2) unfolding old rest by auto
  next
    case 3
    then have "k \<noteq> f" by simp
    then have old: "old_foot h k (e # m) t = old_foot h k m t'"
      using e t(1) by (auto simp: old_foot_def split: option.split)
    have sub: "set (old_foot h k m t') \<subseteq> set (foot_map h m t')" by (rule old_foot_subset [OF t(3)])
    have all: "set (foot_map h (e # m) t) = set (foot h i y) \<union> set (foot_map h m t')" using e t(1) by simp
    have head: "holds h' i y" "foot h' i y = foot h i y"
      using holds_agree(1) [OF t(2), of h'] Cons.prems(4) sub d(3) unfolding old all by blast+
    have IH: "holds_map h' (mput k j m) (mput k x t') \<and> distinct (foot_map h' (mput k j m) (mput k x t')) \<and>
        set (foot_map h' (mput k j m) (mput k x t')) = (set (foot_map h m t') - set (old_foot h k m t')) \<union> set (foot h' j x)"
      by (rule Cons.IH [OF t(3) d(2) wf(1)]) (use Cons.prems(4-7) in \<open>unfold old all, blast+\<close>)
    have apart: "set (foot h' j x) \<inter> set (foot h i y) = {}" using Cons.prems(7) sub d(3) unfolding old all by blast
    have "mput k j (e # m) = e # mput k j m" "mput k x t = (f, y) # mput k x t'" using 3 e t(1) by auto
    then show ?thesis using IH head apart d sub unfolding old all by (auto simp: e)
  qed
qed

lemma ownsE:
  assumes "owns h m v"
  obtains a t where "v = Map (Some a)" "cells h a = Some (Tab t)" "holds_map h m t" "distinct (foot_map h m t)"
    "a \<notin> set (foot_map h m t)" "foot h (JObj m) v = a # foot_map h m t" "mjwf m" "memory_ok h" "a < limit h"
  using assms by (auto simp: owns_def holds_Obj memory_ok_def)

lemma owns_entries: "owns h m v \<Longrightarrow> holds_map h m (entries h v)"
  by (erule ownsE) (simp add: entries_def)

text \<open>An assignment to an entry, after cells of the old entry were changed: the new value may take
  over cells of the entry it replaces.\<close>

lemma map_put_owns:
  assumes "owns h m v" and "memory_ok h1" and "changes (set (old_foot h k m (entries h v))) h h1" and "jwf j"
    and "holds h1 j x" and "distinct (foot h1 j x)"
    and "set (foot h1 j x) \<subseteq> set (old_foot h k m (entries h v)) \<union> {limit h..<limit h1}"
  shows "owns (map_put v k x h1) (mput k j m) v" and "changes (set (foot h (JObj m) v)) h (map_put v k x h1)"
    and "set (foot (map_put v k x h1) (JObj (mput k j m)) v) \<subseteq> set (foot h (JObj m) v) \<union> {limit h..<limit (map_put v k x h1)}"
proof -
  obtain a t where o: "v = Map (Some a)" "cells h a = Some (Tab t)" "holds_map h m t" "distinct (foot_map h m t)"
    "a \<notin> set (foot_map h m t)" "foot h (JObj m) v = a # foot_map h m t" "mjwf m" "memory_ok h" "a < limit h"
    using assms(1) by (rule ownsE)
  let ?h = "map_put v k x h1"
  have sub: "set (old_foot h k m t) \<subseteq> set (foot_map h m t)" by (rule old_foot_subset [OF o(3)])
  have now: "entries h v = t" using o(1,2) by (simp add: entries_def)
  have ch: "limit h \<le> limit h1" "\<And>b. b < limit h \<Longrightarrow> b \<notin> set (old_foot h k m t) \<Longrightarrow> cells h1 b = cells h b"
    using assms(3) by (auto simp: changes_def now)
  have "cells h1 a = Some (Tab t)" using ch(2) [OF o(9)] sub o(2,5) by auto
  then have at1: "cells h1 a = Some (Tab t)" "entries h1 v = t" "entries h v = t"
    using o(1) now by (simp_all add: entries_def)
  have h: "?h = h1\<lparr>cells := (cells h1)(a \<mapsto> Tab (mput k x t))\<rparr>" using o(1) at1 by (simp add: map_put_def)
  have low: "set (foot_map h m t) \<subseteq> {..<limit h}" by (rule holds_foot(3) [OF o(8,3)])
  have x: "a \<notin> set (foot h1 j x)" using assms(7) sub o(5,9) unfolding at1 by auto
  have keep: "holds ?h j x" "foot ?h j x = foot h1 j x"
    using holds_agree(1) [OF assms(5), of ?h] x by (auto simp: h)
  have "\<forall>b \<in> set (foot_map h m t) - set (old_foot h k m t). cells ?h b = cells h b"
    using low o(5) ch(2) by (auto simp: h)
  moreover have "set (foot ?h j x) \<inter> (set (foot_map h m t) - set (old_foot h k m t)) = {}"
    using assms(7) low unfolding keep(2) at1 by fastforce
  ultimately have upd: "holds_map ?h (mput k j m) (mput k x t)" "distinct (foot_map ?h (mput k j m) (mput k x t))"
    "set (foot_map ?h (mput k j m) (mput k x t)) = (set (foot_map h m t) - set (old_foot h k m t)) \<union> set (foot h1 j x)"
    using entry_update [OF o(3,4) mjwf_mwf [OF o(7)] _ keep(1)] assms(6) keep(2) by simp_all
  have cell: "cells ?h a = Some (Tab (mput k x t))" "limit ?h = limit h1" by (simp_all add: h)
  have "memory_ok ?h" using assms(2) at1(1) by (auto simp: memory_ok_def h)
  moreover have "mjwf (mput k j m)" using o(7) assms(4) by simp
  moreover have "a \<notin> set (foot_map ?h (mput k j m) (mput k x t))" unfolding upd(3) using o(5) x by blast
  ultimately show "owns ?h (mput k j m) v"
    using upd(1,2) cell o(1) by (simp add: owns_def holds_Obj)
  show "changes (set (foot h (JObj m) v)) h ?h"
    using ch sub o(6) by (auto simp: changes_def h)
  have "foot ?h (JObj (mput k j m)) v = a # foot_map ?h (mput k j m) (mput k x t)" using cell o(1) by simp
  then show "set (foot ?h (JObj (mput k j m)) v) \<subseteq> set (foot h (JObj m) v) \<union> {limit h..<limit ?h}"
    using assms(7) sub unfolding o(6) cell(2) at1 by (auto simp: upd(3))
qed

text \<open>What an edit of an owned map leaves: the map with its new contents, still owned, and every
  other cell as before.\<close>

definition edit :: "memory \<Rightarrow> json gomap \<Rightarrow> gval \<Rightarrow> memory \<Rightarrow> json gomap \<Rightarrow> bool" where
  "edit h m v h' m' \<longleftrightarrow> owns h' m' v \<and> changes (set (foot h (JObj m) v)) h h' \<and>
     set (foot h' (JObj m') v) \<subseteq> set (foot h (JObj m) v) \<union> {limit h..<limit h'}"

declare foot.simps(1,2) [simp del]

lemma edit_owns: "edit h m v h' m' \<Longrightarrow> owns h' m' v"
  by (simp add: edit_def)

lemma edit_refl: "owns h m v \<Longrightarrow> edit h m v h m"
  by (auto simp: edit_def changes_def)

lemma changes_trans:
  assumes "changes A h h1" and "changes B h1 h2" and "B \<subseteq> A \<union> {limit h..<limit h1}"
  shows "changes A h h2"
proof -
  have "cells h2 a = cells h a" if "a < limit h" "a \<notin> A" for a
  proof -
    have "a < limit h1" "a \<notin> B" using that assms(1,3) by (auto simp: changes_def)
    then show ?thesis using that assms(1,2) by (simp add: changes_def)
  qed
  then show ?thesis using assms(1,2) by (simp add: changes_def)
qed

lemma edit_trans:
  assumes "edit h m v h1 m1" and "edit h1 m1 v h2 m2"
  shows "edit h m v h2 m2"
proof -
  have "limit h \<le> limit h1" "limit h1 \<le> limit h2" using assms by (simp_all add: edit_def changes_def)
  then have "{limit h..<limit h1} \<union> {limit h1..<limit h2} = {limit h..<limit h2}" by (rule ivl_disj_un)
  moreover have "changes (set (foot h (JObj m) v)) h h2"
    using assms unfolding edit_def by (blast intro: changes_trans)
  ultimately show ?thesis using assms unfolding edit_def by blast
qed

lemma put_edit:
  assumes "owns h m v" and "memory_ok h1" and "changes (set (old_foot h k m (entries h v))) h h1" and "jwf j"
    and "holds h1 j x" and "distinct (foot h1 j x)"
    and "set (foot h1 j x) \<subseteq> set (old_foot h k m (entries h v)) \<union> {limit h..<limit h1}"
  shows "edit h m v (map_put v k x h1) (mput k j m)"
  using map_put_owns [OF assms] by (simp add: edit_def)

lemma extends_changes: "extends h h' \<Longrightarrow> changes A h h'"
  by (simp add: extends_def changes_def)

lemma put_fresh:
  assumes "owns h m v" and "fresh j h h1 x" and "jwf j"
  shows "edit h m v (map_put v k x h1) (mput k j m)"
  using assms(2) by (intro put_edit [OF assms(1) _ _ assms(3)]) (auto simp: fresh_def extends_changes)

lemma fresh_basic: "memory_ok h \<Longrightarrow> fresh (JStr s) h h (Basic (PStr s))"
  by (simp add: fresh_def)

lemma put_string: "owns h m v \<Longrightarrow> edit h m v (map_put v k (Basic (PStr s)) h) (mput k (JStr s) m)"
  by (rule put_fresh) (auto simp: owns_def intro: fresh_basic)

text \<open>What an owned map has under a key is owned too.\<close>

lemma owned_entry:
  assumes "owns h m v" and "map_of m k = Some j"
  obtains x where "map_of (entries h v) k = Some x" "holds h j x" "distinct (foot h j x)"
    "set (old_foot h k m (entries h v)) = set (foot h j x)" "jwf j"
proof -
  obtain a t where o: "v = Map (Some a)" "cells h a = Some (Tab t)" "holds_map h m t" "distinct (foot_map h m t)" "mjwf m"
    using ownsE [OF assms(1)] by metis
  have "holds_map h n u \<Longrightarrow> map_of n k = Some j \<Longrightarrow> distinct (foot_map h n u) \<Longrightarrow> distinct (old_foot h k n u)" for n u
  proof (induction n arbitrary: u)
    case (Cons e n)
    then obtain x u' where "u = x # u'" "fst x = fst e" "holds_map h n u'" by (cases u) auto
    with Cons show ?case by (cases e; cases x) (auto simp: old_foot_def split: if_splits)
  qed simp
  then have "distinct (old_foot h k m t)" using o(3,4) assms(2) by blast
  moreover obtain x where "map_of t k = Some x" "holds h j x" using map_entry [OF o(3) assms(2)] by blast
  moreover have "jwf j" using o(5) assms(2) by (rule mjwf_lookup)
  ultimately show thesis using that o(1,2) assms(2) by (simp add: entries_def old_foot_def)
qed

section \<open>Maps inside the map\<close>

text \<open>\<open>m, _ := v[key].(map[string]any); if m == nil \{ m = map[string]any\{\}; v[key] = m \}\<close>.\<close>

definition nested_map :: "gval \<Rightarrow> string \<Rightarrow> memory \<Rightarrow> gval \<times> memory" where
  "nested_map v key h =
     (case map_of (entries h v) key of
        Some (Map (Some a)) \<Rightarrow> (Map (Some a), h)
      | _ \<Rightarrow> (case alloc (Tab []) h of (a, h1) \<Rightarrow> (Map (Some a), map_put v key (Map (Some a)) h1)))"

definition inner :: "string \<Rightarrow> json gomap \<Rightarrow> json gomap" where
  "inner key m = (case any_map (map_of m key) of None \<Rightarrow> [] | Some n \<Rightarrow> n)"

lemma inner_edit:
  assumes "owns h m v" and "map_of m k = Some (JObj n)" and "map_of (entries h v) k = Some x" and "edit h n x h' n'"
  shows "edit h m v h' (mput k (JObj n') m)"
proof -
  obtain x' where x': "map_of (entries h v) k = Some x'" "holds h (JObj n) x'"
    "set (old_foot h k m (entries h v)) = set (foot h (JObj n) x')"
    using owned_entry [OF assms(1,2)] by metis
  then have [simp]: "x' = x" using assms(3) by simp
  obtain a t where o: "v = Map (Some a)" "cells h a = Some (Tab t)" "holds_map h m t" "a \<notin> set (foot_map h m t)"
    "mjwf m" "a < limit h"
    using ownsE [OF assms(1)] by metis
  have now: "entries h v = t" using o(1,2) by (simp add: entries_def)
  have t: "mwf t" using o(3,5) by (auto simp: holds_map_list mwf_def mjwf_def)
  have "a \<notin> set (foot h (JObj n) x)"
    using x'(3) old_foot_subset [OF o(3), of k] o(4) unfolding now by auto
  then have "cells h' a = Some (Tab t)" using assms(4) o(2,6) by (auto simp: edit_def changes_def)
  moreover have "mput k x t = t" using t assms(3) by (simp add: now)
  ultimately have "map_put v k x h' = h'" using o(1) by (simp add: map_put_def entries_def fun_upd_idem)
  moreover have "edit h m v (map_put v k x h') (mput k (JObj n') m)"
    using assms(4) x'(3) by (intro put_edit [OF assms(1)]) (auto simp: edit_def owns_def)
  ultimately show ?thesis by simp
qed

lemma fresh_map: "memory_ok h \<Longrightarrow> alloc (Tab []) h = (a, h1) \<Longrightarrow> fresh (JObj []) h h1 (Map (Some a))"
  using alloc_facts [of "Tab []" h a h1] by (simp add: fresh_def holds_Obj foot.simps)

lemma holds_Map: "holds h j (Map r) \<Longrightarrow> \<exists>m. j = JObj m"
  by (cases j) (auto simp: holds_Arr)

definition in_nested :: "string \<Rightarrow> (gval \<Rightarrow> memory \<Rightarrow> memory) \<Rightarrow> gval \<Rightarrow> memory \<Rightarrow> memory" where
  "in_nested key f v h = (case nested_map v key h of (x, h1) \<Rightarrow> f x h1)"

lemma nested_edit:
  assumes f: "\<And>h n x. owns h n x \<Longrightarrow> edit h n x (f x h) (g n)" and v: "owns h m v"
  shows "edit h m v (in_nested key f v h) (mput key (JObj (g (inner key m))) m)"
proof -
  have there: "\<exists>x. map_of (entries h v) key = Some x \<and> (\<exists>a. x = Map (Some a)) \<and> edit h m v (f x h) (mput key (JObj (g n)) m)"
    if o: "owns h m v" "map_of m key = Some (JObj n)" for h m n
  proof -
    obtain x where x: "map_of (entries h v) key = Some x" "holds h (JObj n) x" "distinct (foot h (JObj n) x)" "jwf (JObj n)"
      using owned_entry [OF o] by metis
    then have "owns h n x" using o(1) by (simp add: owns_def)
    then show ?thesis using inner_edit [OF o x(1) f] x(1,2) by (auto simp: holds_Obj)
  qed
  show ?thesis
  proof (cases "any_map (map_of m key)")
    case (Some n)
    then have "map_of m key = Some (JObj n)" by (cases "map_of m key" rule: any_map.cases) auto
    with there [OF v this] Some show ?thesis by (auto simp: in_nested_def nested_map_def inner_def)
  next
    case None
    obtain a h1 where a: "alloc (Tab []) h = (a, h1)" by fastforce
    let ?h = "map_put v key (Map (Some a)) h1" and ?m = "mput key (JObj []) m"
    have "map_of (entries h v) key \<noteq> Some (Map r)" for r
    proof
      assume e: "map_of (entries h v) key = Some (Map r)"
      have "holds_map h m (entries h v)" by (rule owns_entries [OF v])
      then obtain j where "map_of m key = Some j" "holds h j (Map r)"
        using map_entry [of h m "entries h v" key] map_entry_none [of h m "entries h v" key] e by (cases "map_of m key") auto
      then show False using None holds_Map [of h j r] by auto
    qed
    then have n: "nested_map v key h = (Map (Some a), ?h)"
      using a by (auto simp: nested_map_def split: option.split gval.split)
    have e: "edit h m v ?h ?m" using v a by (intro put_fresh) (auto simp: owns_def intro: fresh_map)
    have o: "owns ?h ?m v" by (rule edit_owns [OF e])
    have "map_of (entries ?h v) key = Some (Map (Some a))"
      using v by (rule ownsE) (simp add: entries_def map_put_def)
    with there [OF o, of "[]"] have "edit ?h ?m v (f (Map (Some a)) ?h) (mput key (JObj (g [])) ?m)" by simp
    moreover have "mput key (JObj (g [])) ?m = mput key (JObj (g [])) m"
      by simp
    ultimately show ?thesis using edit_trans [OF e] None n by (simp add: in_nested_def inner_def)
  qed
qed

text \<open>\<open>list, _ := v[key].([]any); v[key] = append(list, s)\<close>. The lists of a payload were made with
  their length as capacity, so the elements are copied to a new array.\<close>

definition elems :: "memory \<Rightarrow> gval option \<Rightarrow> gval list" where
  "elems h x = (case x of Some (Slice (Some a)) \<Rightarrow> (case cells h a of Some (Arr vs) \<Rightarrow> vs | _ \<Rightarrow> []) | _ \<Rightarrow> [])"

definition append_string :: "string \<Rightarrow> string \<Rightarrow> gval \<Rightarrow> memory \<Rightarrow> memory" where
  "append_string key s v h =
     (case alloc (Arr (elems h (map_of (entries h v) key) @ [Basic (PStr s)])) h of
        (b, h1) \<Rightarrow> map_put v key (Slice (Some b)) h1)"

lemma holds_list_append:
  "holds_list h js vs \<Longrightarrow> holds_list h ks us \<Longrightarrow>
   holds_list h (js @ ks) (vs @ us) \<and> foot_list h (js @ ks) (vs @ us) = foot_list h js vs @ foot_list h ks us"
proof (induction js arbitrary: vs)
  case (Cons j js)
  then show ?case by (cases vs) auto
qed simp

lemma append_edit:
  assumes "owns h m v"
  shows "edit h m v (append_string key s v h)
    (mput key (JArr ((case any_list (map_of m key) of None \<Rightarrow> [] | Some l \<Rightarrow> l) @ [JStr s])) m)"
proof -
  let ?l = "case any_list (map_of m key) of None \<Rightarrow> [] | Some l \<Rightarrow> l"
  let ?vs = "elems h (map_of (entries h v) key)" and ?old = "set (old_foot h key m (entries h v))"
  have ok: "memory_ok h" "mjwf m" using assms by (simp_all add: owns_def)
  have "holds_list h ?l ?vs \<and> distinct (foot_list h ?l ?vs) \<and> set (foot_list h ?l ?vs) \<subseteq> ?old \<and> list_all jwf ?l"
  proof (cases "any_list (map_of m key)")
    case (Some l)
    then have "map_of m key = Some (JArr l)" by (cases "map_of m key" rule: any_list.cases) auto
    then obtain x where x: "map_of (entries h v) key = Some x" "holds h (JArr l) x" "distinct (foot h (JArr l) x)"
      "?old = set (foot h (JArr l) x)" "jwf (JArr l)"
      using owned_entry [OF assms] by metis
    then show ?thesis using Some by (auto simp: holds_Arr elems_def foot.simps)
  next
    case None
    have "map_of (entries h v) key \<noteq> Some (Slice (Some a))" if "cells h a = Some (Arr vs)" for a vs
    proof
      assume e: "map_of (entries h v) key = Some (Slice (Some a))"
      note hm = owns_entries [OF assms]
      obtain j where j: "map_of m key = Some j" using map_entry_none [OF hm, of key] e by fastforce
      then have "holds h j (Slice (Some a))" using map_entry [OF hm j] e by simp
      then show False using None j by (cases j) (auto simp: holds_Obj)
    qed
    then have "?vs = []" by (auto simp: elems_def split: option.split gval.split cell.split)
    then show ?thesis using None by simp
  qed
  then have l: "holds_list h ?l ?vs" "distinct (foot_list h ?l ?vs)" "set (foot_list h ?l ?vs) \<subseteq> ?old" "list_all jwf ?l"
    by blast+
  obtain b h1 where b: "alloc (Arr (?vs @ [Basic (PStr s)])) h = (b, h1)" by fastforce
  note new = alloc_facts [OF b ok(1)]
  have same: "holds_list h1 ?l ?vs" "foot_list h1 ?l ?vs = foot_list h ?l ?vs"
    using holds_extends(2) [OF ok(1) new(2) l(1)] by auto
  have "holds_list h1 [JStr s] [Basic (PStr s)]" by simp
  note app = holds_list_append [OF same(1) this]
  have arr: "holds h1 (JArr (?l @ [JStr s])) (Slice (Some b))"
    "foot h1 (JArr (?l @ [JStr s])) (Slice (Some b)) = b # foot_list h ?l ?vs"
    using app new(5) same(2) by (simp_all add: holds_Arr foot.simps)
  have "b \<notin> set (foot_list h ?l ?vs)" using holds_foot(2) [OF ok(1) l(1)] new(3) by auto
  then have "edit h m v (map_put v key (Slice (Some b)) h1) (mput key (JArr (?l @ [JStr s])) m)"
    using l new arr by (intro put_edit [OF assms new(1)]) (auto simp: extends_changes)
  then show ?thesis by (simp add: append_string_def b)
qed

text \<open>\<open>delete(v, k)\<close>.\<close>

definition map_delete :: "gval \<Rightarrow> string \<Rightarrow> memory \<Rightarrow> memory" where
  "map_delete v k h =
     (case v of
        Map (Some a) \<Rightarrow> h\<lparr>cells := (cells h)(a \<mapsto> Tab (mdel k (entries h v)))\<rparr>
      | _ \<Rightarrow> h)"

lemma holds_mdel:
  "holds_map h m t \<Longrightarrow> distinct (foot_map h m t) \<Longrightarrow>
   holds_map h (mdel k m) (mdel k t) \<and> distinct (foot_map h (mdel k m) (mdel k t)) \<and>
   set (foot_map h (mdel k m) (mdel k t)) \<subseteq> set (foot_map h m t)"
proof (induction m arbitrary: t)
  case (Cons e m)
  then obtain x t' where t: "t = x # t'" "fst x = fst e" "holds_map h m t'" by (cases t) auto
  have "distinct (foot_map h m t')" using Cons.prems(2) t(1) by simp
  note IH = Cons.IH [OF t(3) this]
  show ?case
  proof (cases "fst e = k")
    case True
    then have "mdel k (e # m) = mdel k m" "mdel k t = mdel k t'" using t by (simp_all add: mdel_def)
    with IH t(1) show ?thesis by auto
  next
    case False
    then have "mdel k (e # m) = e # mdel k m" "mdel k t = x # mdel k t'" using t by (simp_all add: mdel_def)
    with IH t(1) Cons.prems show ?thesis by auto
  qed
qed (simp add: mdel_def)

lemma delete_edit:
  assumes "owns h m v"
  shows "edit h m v (map_delete v k h) (mdel k m)"
proof -
  obtain a t where o: "v = Map (Some a)" "cells h a = Some (Tab t)" "holds_map h m t" "distinct (foot_map h m t)"
    "a \<notin> set (foot_map h m t)" "foot h (JObj m) v = a # foot_map h m t" "mjwf m" "memory_ok h" "a < limit h"
    using assms by (rule ownsE)
  let ?h = "map_delete v k h"
  have h: "?h = h\<lparr>cells := (cells h)(a \<mapsto> Tab (mdel k t))\<rparr>" using o(1,2) by (simp add: map_delete_def entries_def)
  note d = holds_mdel [OF o(3,4), of k]
  have "\<forall>b \<in> set (foot_map h (mdel k m) (mdel k t)). cells ?h b = cells h b" using d o(5) by (auto simp: h)
  then have "holds_map ?h (mdel k m) (mdel k t)" "foot_map ?h (mdel k m) (mdel k t) = foot_map h (mdel k m) (mdel k t)"
    using holds_agree(3) [OF conjunct1 [OF d], of ?h] by blast+
  moreover have "memory_ok ?h" using o(8,9) by (auto simp: memory_ok_def h)
  moreover have cell: "cells ?h a = Some (Tab (mdel k t))" "limit ?h = limit h" by (simp_all add: h)
  moreover have "foot ?h (JObj (mdel k m)) v = a # foot_map ?h (mdel k m) (mdel k t)" using o(1) cell by (simp add: foot.simps)
  moreover have "changes (set (foot h (JObj m) v)) h ?h" using o(6) by (auto simp: changes_def h)
  ultimately show ?thesis using d o(1,5,6,7) by (auto simp: edit_def owns_def holds_Obj)
qed

section \<open>Decoding into memory and reading back\<close>

text \<open>\<open>json.Unmarshal\<close> and the literals \<open>[]any\{\}\<close> and \<open>map[string]any\{\}\<close> make new maps and lists.\<close>

fun store :: "json \<Rightarrow> memory \<Rightarrow> gval \<times> memory"
  and store_list :: "json list \<Rightarrow> memory \<Rightarrow> gval list \<times> memory"
  and store_map :: "json gomap \<Rightarrow> memory \<Rightarrow> (string \<times> gval) list \<times> memory" where
  "store JNull h = (Ptr None, h)"
| "store (JBool b) h = (Basic (PBool b), h)"
| "store (JNum n) h = (Basic (PInt n), h)"
| "store (JStr s) h = (Basic (PStr s), h)"
| "store (JArr js) h = (case store_list js h of (vs, h1) \<Rightarrow> case alloc (Arr vs) h1 of (a, h2) \<Rightarrow> (Slice (Some a), h2))"
| "store (JObj m) h = (case store_map m h of (t, h1) \<Rightarrow> case alloc (Tab t) h1 of (a, h2) \<Rightarrow> (Map (Some a), h2))"
| "store_list [] h = ([], h)"
| "store_list (j # js) h = (case store j h of (v, h1) \<Rightarrow> case store_list js h1 of (vs, h2) \<Rightarrow> (v # vs, h2))"
| "store_map [] h = ([], h)"
| "store_map (e # m) h =
     (case store (snd e) h of (v, h1) \<Rightarrow> case store_map m h1 of (t, h2) \<Rightarrow> ((fst e, v) # t, h2))"

lemma store_fresh:
  "memory_ok h \<Longrightarrow> store j h = (v, h') \<Longrightarrow> fresh j h h' v"
  "memory_ok h \<Longrightarrow> store_list js h = (vs, h') \<Longrightarrow> fresh_list js h h' vs"
  "memory_ok h \<Longrightarrow> store_map m h = (t, h') \<Longrightarrow> fresh_list (map snd m) h h' (map snd t) \<and> map fst t = map fst m"
proof (induction j h and js h and m h arbitrary: v h' and vs h' and t h' rule: store_store_list_store_map.induct)
  case (5 js h)
  obtain vs h1 where s: "store_list js h = (vs, h1)" by fastforce
  obtain a h2 where a: "alloc (Arr vs) h1 = (a, h2)" by fastforce
  note new = alloc_fresh [OF "5.IH" [OF "5.prems"(1) s] a]
  then show ?case using "5.prems"(2) s a by (auto simp: fresh_def holds_Arr foot.simps)
next
  case (6 m h)
  obtain t h1 where s: "store_map m h = (t, h1)" by fastforce
  obtain a h2 where a: "alloc (Tab t) h1 = (a, h2)" by fastforce
  have t: "fresh_list (map snd m) h h1 (map snd t)" "map fst t = map fst m" using "6.IH" [OF "6.prems"(1) s] by auto
  note new = alloc_fresh [OF t(1) a]
  then show ?case using "6.prems"(2) s a t(2) by (auto simp: fresh_def holds_Obj holds_map_list foot_map_list foot.simps)
next
  case (8 j js h)
  obtain w h1 where s: "store j h = (w, h1)" by fastforce
  obtain ws h2 where l: "store_list js h1 = (ws, h2)" by fastforce
  have f: "fresh j h h1 w" by (rule "8.IH"(1) [OF "8.prems"(1) s])
  then have "memory_ok h1" by (simp add: fresh_def)
  from fresh_Cons [OF f "8.IH"(2) [OF s [symmetric] this l]] show ?case using "8.prems"(2) s l by auto
next
  case (10 e m h)
  obtain w h1 where s: "store (snd e) h = (w, h1)" by fastforce
  obtain u h2 where l: "store_map m h1 = (u, h2)" by fastforce
  have f: "fresh (snd e) h h1 w" by (rule "10.IH"(1) [OF "10.prems"(1) s])
  then have "memory_ok h1" by (simp add: fresh_def)
  from "10.IH"(2) [OF s [symmetric] this l] fresh_Cons [OF f] show ?case using "10.prems"(2) s l by auto
qed (auto simp: fresh_def fresh_list_def)

text \<open>Reading a value, as \<open>json.Marshal\<close> and the comparisons do. A value that shares no cell is at
  most as deep as the memory has cells, which is the fuel.\<close>

fun read_json :: "nat \<Rightarrow> memory \<Rightarrow> gval \<Rightarrow> json" where
  "read_json n h (Basic (PStr s)) = JStr s"
| "read_json n h (Basic (PInt i)) = JNum i"
| "read_json n h (Basic (PBool b)) = JBool b"
| "read_json (Suc n) h (Slice (Some a)) =
     (case cells h a of Some (Arr vs) \<Rightarrow> JArr (map (read_json n h) vs) | _ \<Rightarrow> JNull)"
| "read_json (Suc n) h (Map (Some a)) =
     (case cells h a of Some (Tab t) \<Rightarrow> JObj (map (\<lambda>p. (fst p, read_json n h (snd p))) t) | _ \<Rightarrow> JNull)"
| "read_json n h v = JNull"

definition read_map :: "memory \<Rightarrow> gval \<Rightarrow> json gomap" where
  "read_map h v = (case read_json (limit h) h v of JObj m \<Rightarrow> m | _ \<Rightarrow> [])"

lemma holds_list_all2: "holds_list h js vs \<longleftrightarrow> list_all2 (holds h) js vs"
proof (induction js arbitrary: vs)
  case (Cons j js)
  then show ?case by (cases vs) auto
qed simp

lemma read_holds: "holds h j v \<Longrightarrow> jdepth j \<le> n \<Longrightarrow> read_json n h v = j"
proof (induction n arbitrary: j v)
  case 0
  then show ?case by (cases j) auto
next
  case (Suc n)
  have each: "map (read_json n h) vs = js" if "list_all2 (holds h) js vs" "\<forall>j \<in> set js. jdepth j \<le> n" for js vs
    using that Suc.IH by (induction rule: list_all2_induct) auto
  show ?case
  proof (cases j)
    case (JArr js)
    with Suc.prems each [of js] show ?thesis by (auto simp: holds_Arr holds_list_all2 foldr_max_le)
  next
    case (JObj m)
    then obtain a t where t: "v = Map (Some a)" "cells h a = Some (Tab t)" "map fst t = map fst m"
      "list_all2 (holds h) (map snd m) (map snd t)"
      using Suc.prems(1) by (auto simp: holds_Obj holds_map_list holds_list_all2)
    have "map (read_json n h) (map snd t) = map snd m" using each [OF t(4)] Suc.prems(2) JObj by (simp add: foldr_max_le)
    then have "map (\<lambda>p. (fst p, read_json n h (snd p))) t = m"
      using t(3) by (simp add: list_eq_iff_nth_eq prod_eq_iff)
    then show ?thesis using t JObj by simp
  qed (use Suc.prems in auto)
qed

lemma jdepth_foot:
  "holds h j v \<Longrightarrow> jdepth j \<le> length (foot h j v)"
  "holds_list h js vs \<Longrightarrow> foldr max (map jdepth js) 0 \<le> length (foot_list h js vs)"
  "holds_map h m t \<Longrightarrow> foldr max (map (\<lambda>p. jdepth (snd p)) m) 0 \<le> length (foot_map h m t)"
proof (induction h j v and h js vs and h m t rule: holds_holds_list_holds_map.induct)
  case (8 h j js vs)
  then show ?case by (cases vs) auto
next
  case (10 h e m t)
  then show ?case by (cases t) auto
qed (auto simp: holds_Arr holds_Obj foot.simps)

lemma owned_depth:
  assumes "owns h m v"
  shows "jdepth (JObj m) \<le> limit h"
proof -
  have "set (foot h (JObj m) v) \<subseteq> {..<limit h}" using assms holds_foot(1) by (simp add: owns_def)
  then have "card (set (foot h (JObj m) v)) \<le> limit h" by (metis card_lessThan card_mono finite_lessThan)
  moreover have "length (foot h (JObj m) v) = card (set (foot h (JObj m) v))"
    using assms by (simp add: owns_def distinct_card)
  moreover have "jdepth (JObj m) \<le> length (foot h (JObj m) v)" using assms by (intro jdepth_foot) (simp add: owns_def)
  ultimately show ?thesis by linarith
qed

lemma read_owned: "owns h m v \<Longrightarrow> read_map h v = m"
  using read_holds [of h "JObj m" v "limit h"] owned_depth [of h m v] by (simp add: read_map_def owns_def del: jdepth.simps)

section \<open>The effective payload in memory\<close>

text \<open>The loop over the last applied values, and \<open>EffectivePayload\<close>: it returns a reference to the
  new payload.\<close>

fun resetRemoved_mem :: "gval \<Rightarrow> json gomap \<Rightarrow> memory \<Rightarrow> memory" where
  "resetRemoved_mem payload [] h = h"
| "resetRemoved_mem payload ((k, previous) # prev) h =
     (case map_of (entries h payload) k of
        Some _ \<Rightarrow> resetRemoved_mem payload prev h
      | None \<Rightarrow>
          (case zeroFor previous of
             Some zero \<Rightarrow> (case store zero h of (x, h1) \<Rightarrow> resetRemoved_mem payload prev (map_put payload k x h1))
           | None \<Rightarrow> resetRemoved_mem payload prev h))"

definition EffectivePayload_mem :: "gval \<Rightarrow> text \<Rightarrow> memory \<Rightarrow> (gval \<times> memory) option" where
  "EffectivePayload_mem specMap lastApplied h =
     (case deepCopyMap_mem (limit h) specMap h of
        (payload, h1) \<Rightarrow>
          if lastApplied = Raw [] then Some (payload, h1)
          else case Unmarshal_map lastApplied of
                 None \<Rightarrow> None
               | Some prev \<Rightarrow> Some (payload, resetRemoved_mem payload prev h1))"

lemma resetRemoved_edit: "owns h m v \<Longrightarrow> edit h m v (resetRemoved_mem v prev h) (resetRemoved m prev)"
proof (induction m prev arbitrary: h rule: resetRemoved.induct)
  case (2 m k previous prev)
  note none = map_entry_none [OF owns_entries [OF "2.prems"], of k]
  show ?case
  proof (cases "map_of m k")
    case None
    show ?thesis
    proof (cases "zeroFor previous")
      case (Some zero)
      obtain x h1 where s: "store zero h = (x, h1)" by fastforce
      have "jwf zero" using Some by (cases previous) auto
      with "2.prems" s have e: "edit h m v (map_put v k x h1) (mput k zero m)"
        by (intro put_fresh) (auto simp: owns_def intro: store_fresh)
      from edit_trans [OF e "2.IH"(2) [OF None Some edit_owns [OF e]]] show ?thesis using None Some none s by simp
    qed (use 2 none None in simp)
  qed (use 2 none in auto)
qed (auto intro: edit_refl)

text \<open>A map made after \<open>h\<close>, with nothing written that \<open>h\<close> had.\<close>

definition apart :: "memory \<Rightarrow> memory \<Rightarrow> json gomap \<Rightarrow> gval \<Rightarrow> bool" where
  "apart h h' m p \<longleftrightarrow> owns h' m p \<and> extends h h' \<and> set (foot h' (JObj m) p) \<subseteq> {limit h..<limit h'}"

lemma apart_owns: "apart h h' m p \<Longrightarrow> owns h' m p"
  by (simp add: apart_def)

lemma apart_edit:
  assumes "apart h h1 m p" and "edit h1 m p h2 m2"
  shows "apart h h2 m2 p"
proof -
  have le: "limit h \<le> limit h1" "limit h1 \<le> limit h2" using assms by (auto simp: apart_def extends_def edit_def changes_def)
  have "cells h2 a = cells h a" if "a < limit h" for a
  proof -
    have "a \<notin> set (foot h1 (JObj m) p)" using assms(1) that by (auto simp: apart_def)
    then have "cells h2 a = cells h1 a" using assms(2) that le by (simp add: edit_def changes_def)
    also have "\<dots> = cells h a" using assms(1) that by (simp add: apart_def extends_def)
    finally show ?thesis .
  qed
  then have "extends h h2" using le by (simp add: extends_def)
  moreover have "set (foot h2 (JObj m2) p) \<subseteq> {limit h..<limit h2}"
    using assms le by (fastforce simp: apart_def edit_def)
  ultimately show ?thesis using assms(2) by (simp add: apart_def edit_def)
qed

lemma apart_keeps:
  assumes "owns h s v" and "apart h h' m p"
  shows "read_map h' v = s"
proof -
  have "owns h' s v"
    using assms holds_extends(1) [of h h' "JObj s" v] by (simp add: owns_def apart_def)
  then show ?thesis by (rule read_owned)
qed

text \<open>The payload is the one of the value model, in cells of its own.\<close>

lemma EffectivePayload_memory:
  assumes "owns h specMap s"
  shows "case EffectivePayload_mem s la h of
      None \<Rightarrow> EffectivePayload specMap la = None
    | Some (p, h') \<Rightarrow> \<exists>payload. EffectivePayload specMap la = Some payload \<and> apart h h' payload p"
proof -
  obtain p h1 where c: "deepCopyMap_mem (limit h) s h = (p, h1)" by fastforce
  have wf: "mjwf specMap" using assms by (simp add: owns_def)
  have "jdepth (JObj specMap) \<le> Suc (limit h)" using owned_depth [OF assms] by simp
  then have "fresh (JObj specMap) h h1 p" using assms c by (intro deepCopyMap_fresh) (auto simp: owns_def)
  then have p: "apart h h1 specMap p" using wf by (simp add: fresh_def owns_def apart_def)
  from apart_edit [OF p resetRemoved_edit [OF apart_owns [OF p]]] p wf show ?thesis
    by (auto simp: EffectivePayload_mem_def EffectivePayload_def c deepCopyMap_id split: option.split)
qed

end
