(* ===== verification/Payload_Memory.thy ===== *)
theory Payload_Memory
  imports Json_Memory Realm_Driver Client_Driver Role_Driver Idp_Driver Group_Driver Lifecycle
begin

text \<open>
  A pass of the engine over memory. The engine keeps two references: \<open>specMap\<close>, encoded at the end of the
  pass as the last-applied annotation, and \<open>payload\<close>, into which the driver stamps the marker and
  injects values read from Secrets, in place. The definitions repeat \<open>Reconcile\<close> of
  \<open>Engine\<close> with the references and the memory in place of the values; every read of a map
  goes to the memory as it then is. The result is the pass of the value model, because
  \<open>EffectivePayload\<close> copies the spec: no write to the payload reaches \<open>specMap\<close>.
\<close>

section \<open>Drivers\<close>

text \<open>\<open>ManagedMarker\<close> and \<open>PreparePayload\<close> write the map they are given; the other methods only read
  theirs and stay as they are.\<close>

record ('w, 'k, 's) mem_driver =
  md_driver :: "('w, 'k, 's) driver"
  md_ManagedMarker :: "gval \<Rightarrow> memory \<Rightarrow> memory"
  md_PreparePayload :: "('k, 's) kube \<Rightarrow> 's object \<Rightarrow> 'k \<Rightarrow> gval \<Rightarrow> memory \<Rightarrow> goerr + memory"

definition stampStringAttribute_mem :: "gval \<Rightarrow> string \<Rightarrow> string \<Rightarrow> memory \<Rightarrow> memory" where
  "stampStringAttribute_mem payload key val =
     in_nested ''attributes'' (\<lambda>attrs. map_put attrs key (Basic (PStr val))) payload"

definition stampSliceAttribute_mem :: "gval \<Rightarrow> string \<Rightarrow> string \<Rightarrow> memory \<Rightarrow> memory" where
  "stampSliceAttribute_mem payload key val =
     in_nested ''attributes'' (\<lambda>attrs. append_string key val attrs) payload"

fun put_strings :: "string gomap \<Rightarrow> gval \<Rightarrow> memory \<Rightarrow> memory" where
  "put_strings [] m h = h"
| "put_strings ((key, val) # vals) m h = put_strings vals m (map_put m key (Basic (PStr val)) h)"

definition RealmDriver_PreparePayload_mem ::
    "order \<Rightarrow> ('k, RealmSpec) kube \<Rightarrow> RealmSpec object \<Rightarrow> 'k \<Rightarrow> gval \<Rightarrow> memory \<Rightarrow> goerr + memory" where
  "RealmDriver_PreparePayload_mem rng K obj k payload h =
     (case smtpServerSecretRef (obj_spec obj) of
        None \<Rightarrow> Inr h
      | Some ref \<Rightarrow>
          (case readSecretValues rng K k (obj_namespace obj) ref of
             Inl e \<Rightarrow> Inl e
           | Inr vals \<Rightarrow> Inr (in_nested ''smtpServer'' (put_strings vals) payload h)))"

definition ClientDriver_PreparePayload_mem ::
    "('k, ClientSpec) kube \<Rightarrow> ClientSpec object \<Rightarrow> 'k \<Rightarrow> gval \<Rightarrow> memory \<Rightarrow> goerr + memory" where
  "ClientDriver_PreparePayload_mem K obj k payload h =
     (case secretRef (obj_spec obj) of
        None \<Rightarrow> Inr h
      | Some ref \<Rightarrow>
          (case readSecretValue K k (obj_namespace obj) ref ClientSecretKey of
             Inl e \<Rightarrow> Inl e
           | Inr val \<Rightarrow> Inr (map_put payload ''secret'' (Basic (PStr val)) h)))"

definition IdentityProviderDriver_PreparePayload_mem ::
    "order \<Rightarrow> ('k, IdentityProviderSpec) kube \<Rightarrow> IdentityProviderSpec object \<Rightarrow> 'k \<Rightarrow> gval \<Rightarrow> memory \<Rightarrow>
     goerr + memory" where
  "IdentityProviderDriver_PreparePayload_mem rng K obj k payload h =
     (case configSecretRef (obj_spec obj) of
        None \<Rightarrow> Inr h
      | Some ref \<Rightarrow>
          (case readSecretValues rng K k (obj_namespace obj) ref of
             Inl e \<Rightarrow> Inl e
           | Inr vals \<Rightarrow> Inr (in_nested ''config'' (put_strings vals) payload h)))"

definition RealmDriver_mem :: "order \<Rightarrow> ('w, 'k, RealmSpec) mem_driver" where
  "RealmDriver_mem rng =
     \<lparr>md_driver = RealmDriver rng,
      md_ManagedMarker = (\<lambda>payload. stampStringAttribute_mem payload ManagedAnnotation ManagedValue),
      md_PreparePayload = RealmDriver_PreparePayload_mem rng\<rparr>"

definition ClientDriver_mem :: "order \<Rightarrow> ('w, 'k, ClientSpec) mem_driver" where
  "ClientDriver_mem rng =
     \<lparr>md_driver = ClientDriver rng,
      md_ManagedMarker = (\<lambda>payload. stampStringAttribute_mem payload ManagedAnnotation ManagedValue),
      md_PreparePayload = ClientDriver_PreparePayload_mem\<rparr>"

definition ClientScopeDriver_mem :: "('w, 'k, ClientScopeSpec) mem_driver" where
  "ClientScopeDriver_mem =
     \<lparr>md_driver = ClientScopeDriver,
      md_ManagedMarker = (\<lambda>payload. stampStringAttribute_mem payload ManagedAnnotation ManagedValue),
      md_PreparePayload = (\<lambda>K obj k payload h. Inr h)\<rparr>"

definition RealmRoleDriver_mem :: "order \<Rightarrow> ('w, 'k, RealmRoleSpec) mem_driver" where
  "RealmRoleDriver_mem rng =
     \<lparr>md_driver = RealmRoleDriver rng,
      md_ManagedMarker = (\<lambda>payload. stampSliceAttribute_mem payload ManagedAnnotation ManagedValue),
      md_PreparePayload = (\<lambda>K obj k payload h. Inr h)\<rparr>"

definition IdentityProviderDriver_mem :: "order \<Rightarrow> ('w, 'k, IdentityProviderSpec) mem_driver" where
  "IdentityProviderDriver_mem rng =
     \<lparr>md_driver = IdentityProviderDriver rng, md_ManagedMarker = (\<lambda>payload h. h),
      md_PreparePayload = IdentityProviderDriver_PreparePayload_mem rng\<rparr>"

definition GroupDriver_mem :: "order \<Rightarrow> ('w, 'k, GroupSpec) mem_driver" where
  "GroupDriver_mem rng =
     \<lparr>md_driver = GroupDriver rng,
      md_ManagedMarker = (\<lambda>payload. stampSliceAttribute_mem payload ManagedAnnotation ManagedValue),
      md_PreparePayload = (\<lambda>K obj k payload h. Inr h)\<rparr>"

section \<open>The engine\<close>

definition toJSONMap_mem :: "json gomap \<Rightarrow> memory \<Rightarrow> goerr + gval \<times> memory" where
  "toJSONMap_mem kvs h =
     (case Unmarshal_map (Marshal (JObj (mputs [] kvs))) of
        Some m \<Rightarrow> Inr (store (JObj m) h)
      | None \<Rightarrow> Inl (Errorf [''json'']))"

fun map_deletes :: "string list \<Rightarrow> gval \<Rightarrow> memory \<Rightarrow> memory" where
  "map_deletes [] v h = h"
| "map_deletes (f # fs) v h = map_deletes fs v (map_delete v f h)"

definition handleCreate_mem :: "('w, 'k, 's) engine \<Rightarrow> ('w, 'k, 's) mem_driver \<Rightarrow> 'w kc \<Rightarrow> 's object \<Rightarrow>
    gval \<Rightarrow> gval \<Rightarrow> memory \<Rightarrow> 's object \<Rightarrow> ('w, 'k) eng \<Rightarrow> result \<times> 's object \<times> ('w, 'k) eng" where
  "handleCreate_mem E D kc base specMap payload h obj st =
     (let drv = md_driver D in
      case md_PreparePayload D (e_client E) obj (cluster st) payload h of
        Inl e \<Rightarrow>
          (case fail E base ReasonSecretMissing (ErrMsg e) obj st of
             (obj', st') \<Rightarrow> (RequeueAfter secretRetry, obj', st'))
      | Inr h1 \<Rightarrow>
          let h2 = md_ManagedMarker D payload h1 in
          case d_Create drv kc obj (read_map h2 payload) (net st) of
            (Some e, w) \<Rightarrow>
              let st1 = st\<lparr>net := w\<rparr> in
              if errors_Is e ErrConflict then
                (case fail E base ReasonAlreadyExists
                        (Prefixed ''Resource appeared during reconciliation: '' e) obj st1 of
                   (obj', st') \<Rightarrow> (Done, obj', st'))
              else
                (case set_both E base ConditionFalse ReasonRetrying (ErrMsg e) (Lit ''Create failed'') obj st1 of
                   (obj', st') \<Rightarrow> (Failed e, obj', st'))
          | (None, w) \<Rightarrow>
              let st1 = record_event E
                    (Normal ''Created'' (Lit (''Created '' @ obj_kind obj @ '' on Keycloak server'')))
                    (st\<lparr>net := w\<rparr>) in
              case d_Get drv kc obj (net st1) of
                (Inl e, w2) \<Rightarrow>
                  (case setCondition E base ConditionReady ConditionFalse ReasonRetrying (ErrMsg e) obj
                          (st1\<lparr>net := w2\<rparr>) of
                     (obj', st') \<Rightarrow> (Failed e, obj', st'))
              | (Inr remote, w2) \<Rightarrow>
                  case d_PostApply drv kc (e_client E) obj remote (cluster st1) w2 of
                    ((_, err, obj2, k), w3) \<Rightarrow>
                      let st2 = st1\<lparr>net := w3, cluster := k\<rparr> in
                      case err of
                        Some e \<Rightarrow>
                          (case fail E base ReasonFailed (ErrMsg e) obj2 st2 of
                             (obj', st') \<Rightarrow> (RequeueAfter secretRetry, obj', st'))
                      | None \<Rightarrow> finalize E base (read_map h2 specMap) True obj2 st2)"

definition handleExisting_mem :: "('w, 'k, 's) engine \<Rightarrow> ('w, 'k, 's) mem_driver \<Rightarrow> 'w kc \<Rightarrow> 's object \<Rightarrow>
    gval \<Rightarrow> gval \<Rightarrow> json gomap \<Rightarrow> memory \<Rightarrow> 's object \<Rightarrow> ('w, 'k) eng \<Rightarrow>
    result \<times> 's object \<times> ('w, 'k) eng" where
  "handleExisting_mem E D kc base specMap payload remote h obj st =
     (let drv = md_driver D; kind = obj_kind obj; adoption = sv_Adoption (d_Spec drv obj) in
      if adoption = AdoptionFailIfExists then
        (case fail E base ReasonAlreadyExists
                (Lit ''adoptionPolicy is FailIfExists and the resource exists on the server'') obj st of
           (obj', st') \<Rightarrow> (Done, obj', st'))
      else
        let managed = d_IsManaged drv remote \<or> last_applied obj \<noteq> Raw [];
            adopting = (\<not> managed \<and> adoption = AdoptionAdopt) in
        if \<not> managed \<and> \<not> adopting then
          (case fail E base ReasonAlreadyExists
                  (Lit ''A foreign resource with the same key exists; set adoptionPolicy: Adopt to take it over'')
                  obj st of
             (obj', st') \<Rightarrow> (Done, obj', st'))
        else
          let st0 = (if adopting then record_event E (Normal ''Adopted'' (Lit (''Adopted existing '' @ kind))) st
                     else st) in
          case md_PreparePayload D (e_client E) obj (cluster st0) payload (md_ManagedMarker D payload h) of
            Inl e \<Rightarrow>
              (case fail E base ReasonSecretMissing (ErrMsg e) obj st0 of
                 (obj', st') \<Rightarrow> (RequeueAfter secretRetry, obj', st'))
          | Inr h2 \<Rightarrow>
              if adopting \<or> PayloadDiffers remote (read_map h2 payload)
              then updateExisting E drv kc base (read_map h2 specMap) remote (read_map h2 payload) obj st0
              else finishExisting E drv kc base (read_map h2 specMap) remote False obj st0)"

definition reconcileBody_mem :: "memory \<Rightarrow> ('w, 'k, 's) engine \<Rightarrow> ('w, 'k, 's) mem_driver \<Rightarrow> 's object \<Rightarrow>
    ('w, 'k) eng \<Rightarrow> result \<times> 's object \<times> ('w, 'k) eng" where
  "reconcileBody_mem h E D obj st =
     (let K = e_client E; base = obj; drv = md_driver D; spec = d_Spec drv obj in
      if obj_deletionTimestamp obj \<noteq> None \<and> sv_Deletion spec = DeletionOrphan then
        (let obj' = obj\<lparr>obj_finalizers := k_removeFinalizer K (obj_finalizers obj) FinalizerName\<rparr>
         in case k_update K (cluster st) obj' of
              (Inl e, k) \<Rightarrow> (Failed e, obj', st\<lparr>cluster := k\<rparr>)
            | (Inr obj'', k) \<Rightarrow> (Done, obj'', st\<lparr>cluster := k\<rparr>))
      else
        case e_provider E (cluster st) (obj_namespace obj) (sv_ConnectionName spec) (net st) of
          (Inl e, w) \<Rightarrow>
            (case set_both E base ConditionFalse ReasonConnectionUnavailable (ErrMsg e)
                    (Lit ''Connection unavailable'') obj (st\<lparr>net := w\<rparr>) of
               (obj', st') \<Rightarrow> (RequeueAfter connectionRetry, obj', st'))
        | (Inr kc, w) \<Rightarrow>
            let st = st\<lparr>net := w\<rparr> in
            if obj_deletionTimestamp obj \<noteq> None then
              (case handleDeletion E drv kc obj st of
                 (None, obj', st') \<Rightarrow> (Done, obj', st')
               | (Some e, obj', st') \<Rightarrow> (Failed e, obj', st'))
            else if \<not> k_containsFinalizer K (obj_finalizers obj) FinalizerName then
              (let obj' = obj\<lparr>obj_finalizers := k_addFinalizer K (obj_finalizers obj) FinalizerName\<rparr>
               in case k_update K (cluster st) obj' of
                    (Inl e, k) \<Rightarrow> (Failed e, obj', st\<lparr>cluster := k\<rparr>)
                  | (Inr obj'', k) \<Rightarrow> (RequeueAfter Second, obj'', st\<lparr>cluster := k\<rparr>))
            else
              case d_Protected drv obj of
                Some message \<Rightarrow>
                  (case fail E base ReasonProtectedRealm message obj st of
                     (obj', st') \<Rightarrow> (Done, obj', st'))
              | None \<Rightarrow>
                  case toJSONMap_mem (sv_JSON spec) h of
                    Inl e \<Rightarrow>
                      (case fail E base ReasonFailed (Prefixed ''encode spec: '' e) obj st of
                         (obj', st') \<Rightarrow> (Done, obj', st'))
                  | Inr (specMap, h1) \<Rightarrow>
                      let h2 = map_deletes (d_OperatorFields drv) specMap h1 in
                      case EffectivePayload_mem specMap (last_applied obj) h2 of
                        None \<Rightarrow>
                          (case fail E base ReasonFailed (Lit ''decode last-applied annotation'') obj st of
                             (obj', st') \<Rightarrow> (Done, obj', st'))
                      | Some (payload, h3) \<Rightarrow>
                          case d_Get drv kc obj (net st) of
                            (Inl e, w) \<Rightarrow>
                              if errors_Is e ErrNotFound then
                                handleCreate_mem E D kc base specMap payload h3 obj (st\<lparr>net := w\<rparr>)
                              else
                                (case set_both E base ConditionFalse ReasonRetrying (ErrMsg e)
                                        (Lit ''Server unreachable'') obj (st\<lparr>net := w\<rparr>) of
                                   (obj', st') \<Rightarrow> (Failed e, obj', st'))
                          | (Inr remote, w) \<Rightarrow>
                              handleExisting_mem E D kc base specMap payload remote h3 obj (st\<lparr>net := w\<rparr>))"

definition Reconcile_mem :: "memory \<Rightarrow> ('w, 'k, 's) engine \<Rightarrow> ('w, 'k, 's) mem_driver \<Rightarrow> 's object \<Rightarrow>
    ('w, 'k) eng \<Rightarrow> result \<times> 's object \<times> ('w, 'k) eng" where
  "Reconcile_mem h E D obj st =
     (case reconcileBody_mem h E D obj st of
        (res, obj', st') \<Rightarrow>
          (res, obj', emit (ReconciliationsTotal (obj_kind obj) (outcome_of E obj')) st'))"

section \<open>The drivers edit in place\<close>

text \<open>What a driver promises: its two writing methods change the map they are given to what the value
  model says, and no other cell; its specs encode to well-formed maps.\<close>

locale memory_driver =
  fixes D :: "('w, 'k, 's) mem_driver"
  assumes mark: "owns h m v \<Longrightarrow> edit h m v (md_ManagedMarker D v h) (d_ManagedMarker (md_driver D) m)"
    and prepare: "owns h m v \<Longrightarrow>
      (case md_PreparePayload D K obj k v h of
         Inl e \<Rightarrow> d_PreparePayload (md_driver D) K obj k m = Inl e
       | Inr h' \<Rightarrow> \<exists>m'. d_PreparePayload (md_driver D) K obj k m = Inr m' \<and> edit h m v h' m')"
    and spec_wf: "\<forall>p \<in> set (sv_JSON (d_Spec (md_driver D) obj)). jwf (snd p)"
begin

text \<open>Both orders in which the engine runs the two methods.\<close>

lemma prepare_mark:
  assumes "apart h0 h m v"
  shows "case md_PreparePayload D K obj k v h of
      Inl e \<Rightarrow> d_PreparePayload (md_driver D) K obj k m = Inl e
    | Inr h1 \<Rightarrow> \<exists>m'. d_PreparePayload (md_driver D) K obj k m = Inr m' \<and>
        apart h0 (md_ManagedMarker D v h1) (d_ManagedMarker (md_driver D) m') v"
  using prepare [OF apart_owns [OF assms], of K obj k] apart_edit [OF assms] apart_edit apart_owns mark
  by (fastforce split: sum.splits)

lemma mark_prepare:
  assumes "apart h0 h m v"
  shows "case md_PreparePayload D K obj k v (md_ManagedMarker D v h) of
      Inl e \<Rightarrow> d_PreparePayload (md_driver D) K obj k (d_ManagedMarker (md_driver D) m) = Inl e
    | Inr h1 \<Rightarrow> \<exists>m'. d_PreparePayload (md_driver D) K obj k (d_ManagedMarker (md_driver D) m) = Inr m' \<and> apart h0 h1 m' v"
proof -
  have a: "apart h0 (md_ManagedMarker D v h) (d_ManagedMarker (md_driver D) m) v"
    by (rule apart_edit [OF assms mark [OF apart_owns [OF assms]]])
  show ?thesis using prepare [OF apart_owns [OF a], of K obj k] apart_edit [OF a] by (fastforce split: sum.splits)
qed

lemma handleCreate_memory:
  assumes "owns h0 spec s" and "apart h0 h m p"
  shows "handleCreate_mem E D kc base s p h obj st = handleCreate E (md_driver D) kc base spec m obj st"
proof (cases "md_PreparePayload D (e_client E) obj (cluster st) p h")
  case (Inr h1)
  with prepare_mark [OF assms(2), of "e_client E" obj "cluster st"] obtain m' where
    m': "d_PreparePayload (md_driver D) (e_client E) obj (cluster st) m = Inr m'"
      "apart h0 (md_ManagedMarker D p h1) (d_ManagedMarker (md_driver D) m') p" by auto
  have r: "read_map (md_ManagedMarker D p h1) p = d_ManagedMarker (md_driver D) m'" "read_map (md_ManagedMarker D p h1) s = spec"
    using m'(2) by (simp_all add: read_owned [OF apart_owns] apart_keeps [OF assms(1)])
  show ?thesis unfolding handleCreate_mem_def handleCreate_def Let_def Inr m'(1) sum.case r ..
qed (use prepare_mark [OF assms(2), of "e_client E" obj "cluster st"] in \<open>simp add: handleCreate_mem_def handleCreate_def\<close>)

lemma handleExisting_memory:
  assumes "owns h0 spec s" and "apart h0 h m p"
  shows "handleExisting_mem E D kc base s p remote h obj st = handleExisting E (md_driver D) kc base spec m remote obj st"
proof -
  have k: "cluster (if c then record_event E ev st else st) = cluster st" for c ev by simp
  note both = mark_prepare [OF assms(2), of "e_client E" obj "cluster st"]
  show ?thesis
  proof (cases "md_PreparePayload D (e_client E) obj (cluster st) p (md_ManagedMarker D p h)")
    case (Inl e)
    with both have e: "d_PreparePayload (md_driver D) (e_client E) obj (cluster st) (d_ManagedMarker (md_driver D) m) = Inl e" by simp
    show ?thesis unfolding handleExisting_mem_def handleExisting_def Let_def k Inl e sum.case ..
  next
    case (Inr h2)
    with both obtain m' where
      m': "d_PreparePayload (md_driver D) (e_client E) obj (cluster st) (d_ManagedMarker (md_driver D) m) = Inr m'" "apart h0 h2 m' p"
      by auto
    have r: "read_map h2 p = m'" "read_map h2 s = spec"
      using m'(2) by (simp_all add: read_owned [OF apart_owns] apart_keeps [OF assms(1)])
    show ?thesis unfolding handleExisting_mem_def handleExisting_def Let_def k Inr m'(1) sum.case r ..
  qed
qed

lemma deletes_edit: "owns h m v \<Longrightarrow> edit h m v (map_deletes fs v h) (mdels fs m)"
proof (induction fs arbitrary: h m)
  case (Cons f fs)
  have e: "edit h m v (map_delete v f h) (mdel f m)" by (rule delete_edit [OF Cons.prems])
  from edit_trans [OF e Cons.IH [OF edit_owns [OF e]]] show ?case by simp
qed (simp add: edit_refl)

text \<open>The spec decoded into new memory, without the operator's own fields.\<close>

lemma spec_memory:
  assumes "memory_ok h"
  obtains s h1 where "toJSONMap_mem (sv_JSON (d_Spec (md_driver D) obj)) h = Inr (s, h1)"
    "owns (map_deletes (d_OperatorFields (md_driver D)) s h1) (spec_map (md_driver D) obj) s"
proof -
  let ?m = "map (\<lambda>p. (fst p, jround (snd p))) (mputs [] (sv_JSON (d_Spec (md_driver D) obj)))"
  obtain s h1 where s: "store (JObj ?m) h = (s, h1)" by fastforce
  have "jwf (JObj (mputs [] (sv_JSON (d_Spec (md_driver D) obj))))" using spec_wf by simp
  then have "mjwf ?m" using jround_wf by fastforce
  moreover have "fresh (JObj ?m) h h1 s" by (rule store_fresh(1) [OF assms s])
  ultimately have "owns h1 ?m s" by (simp add: owns_def fresh_def)
  from edit_owns [OF deletes_edit [OF this, of "d_OperatorFields (md_driver D)"]] s that show thesis
    by (simp add: toJSONMap_mem_def Marshal_def Unmarshal_map_def spec_map_def split_beta)
qed

text \<open>A pass over memory is the pass over values.\<close>

lemma reconcileBody_memory:
  assumes "memory_ok h"
  shows "reconcileBody_mem h E D obj st = reconcileBody E (md_driver D) obj st"
proof -
  obtain s h1 where s: "toJSONMap_mem (sv_JSON (d_Spec (md_driver D) obj)) h = Inr (s, h1)"
    "owns (map_deletes (d_OperatorFields (md_driver D)) s h1) (spec_map (md_driver D) obj) s" (is "owns ?h ?spec s")
    by (rule spec_memory [OF assms])
  have json: "toJSONMap (sv_JSON (d_Spec (md_driver D) obj)) = Inr (map (\<lambda>p. (fst p, jround (snd p))) (mputs [] (sv_JSON (d_Spec (md_driver D) obj))))"
    by (rule toJSONMap_total)
  note eff = EffectivePayload_memory [OF s(2), of "last_applied obj"]
  show ?thesis
  proof (cases "EffectivePayload_mem s (last_applied obj) ?h")
    case None
    with eff have e: "EffectivePayload ?spec (last_applied obj) = None" by simp
    show ?thesis
      unfolding reconcileBody_mem_def reconcileBody_def Let_def s(1) json sum.case prod.case None option.case
        e [unfolded spec_map_def] ..
  next
    case (Some q)
    then obtain p h3 m where q: "q = (p, h3)" "EffectivePayload ?spec (last_applied obj) = Some m" "apart ?h h3 m p"
      using eff by (cases q) auto
    note same = handleCreate_memory [OF s(2) q(3)] handleExisting_memory [OF s(2) q(3)]
    show ?thesis
      unfolding reconcileBody_mem_def reconcileBody_def Let_def s(1) json sum.case prod.case Some q(1) option.case same
        q(2) [unfolded spec_map_def] spec_map_def ..
  qed
qed

lemma Reconcile_memory: "memory_ok h \<Longrightarrow> Reconcile_mem h E D obj st = Reconcile E (md_driver D) obj st"
  by (simp add: Reconcile_mem_def Reconcile_def reconcileBody_memory)

end

section \<open>The six drivers\<close>

lemma put_strings_edit:
  "owns h m v \<Longrightarrow> edit h m v (put_strings vals v h) (mputs m (map (\<lambda>p. (fst p, JStr (snd p))) vals))"
proof (induction vals arbitrary: h m)
  case (Cons p vals)
  obtain k s where p: "p = (k, s)" by fastforce
  have e: "edit h m v (map_put v k (Basic (PStr s)) h) (mput k (JStr s) m)" by (rule put_string [OF Cons.prems])
  from edit_trans [OF e Cons.IH [OF edit_owns [OF e]]] show ?case by (simp add: p)
qed (simp add: edit_refl)

lemma stampString_edit:
  "owns h m v \<Longrightarrow> edit h m v (stampStringAttribute_mem v key s h) (stampStringAttribute m key s)"
  unfolding stampStringAttribute_mem_def stampStringAttribute_def Let_def
  by (rule nested_edit [where g = "mput key (JStr s)", unfolded inner_def]) (auto intro: put_string)

lemma stampSlice_edit:
  "owns h m v \<Longrightarrow> edit h m v (stampSliceAttribute_mem v key s h) (stampSliceAttribute m key s)"
  unfolding stampSliceAttribute_mem_def stampSliceAttribute_def Let_def
  by (rule nested_edit [where g = "\<lambda>n. mput key (JArr ((case any_list (map_of n key) of None \<Rightarrow> [] | Some l \<Rightarrow> l) @ [JStr s])) n",
        unfolded inner_def]) (auto intro: append_edit)

lemma inject_edit:
  "owns h m v \<Longrightarrow> edit h m v (in_nested key (put_strings vals) v h) (inject_values key vals m)"
  unfolding inject_values_def Let_def
  by (rule nested_edit [where g = "\<lambda>n. mputs n (map (\<lambda>p. (fst p, JStr (snd p))) vals)", unfolded inner_def])
    (auto intro: put_strings_edit)

lemmas in_place_edits = stampString_edit stampSlice_edit inject_edit put_string edit_refl

interpretation realm_mem: memory_driver "RealmDriver_mem rng"
  by unfold_locales
    (use specJSON_wf(1) in \<open>auto simp: RealmDriver_mem_def RealmDriver_def RealmDriver_Spec_def Let_def RealmDriver_ManagedMarker_def
      RealmDriver_PreparePayload_mem_def RealmDriver_PreparePayload_def intro!: in_place_edits split: option.split sum.split\<close>)

interpretation client_mem: memory_driver "ClientDriver_mem rng"
  by unfold_locales
    (use specJSON_wf(2) in \<open>auto simp: ClientDriver_mem_def ClientDriver_def ClientDriver_Spec_def Let_def ClientDriver_ManagedMarker_def
      ClientDriver_PreparePayload_mem_def ClientDriver_PreparePayload_def intro!: in_place_edits split: option.split sum.split\<close>)

interpretation scope_mem: memory_driver "ClientScopeDriver_mem"
  by unfold_locales
    (use specJSON_wf(3) in \<open>auto simp: ClientScopeDriver_mem_def ClientScopeDriver_def ClientScopeDriver_Spec_def Let_def ClientScopeDriver_ManagedMarker_def
      ClientScopeDriver_PreparePayload_def intro!: in_place_edits split: option.split sum.split\<close>)

interpretation role_mem: memory_driver "RealmRoleDriver_mem rng"
  by unfold_locales
    (use specJSON_wf(4) in \<open>auto simp: RealmRoleDriver_mem_def RealmRoleDriver_def RealmRoleDriver_Spec_def Let_def RealmRoleDriver_ManagedMarker_def
      RealmRoleDriver_PreparePayload_def intro!: in_place_edits split: option.split sum.split\<close>)

interpretation idp_mem: memory_driver "IdentityProviderDriver_mem rng"
  by unfold_locales
    (use specJSON_wf(5) in \<open>auto simp: IdentityProviderDriver_mem_def IdentityProviderDriver_def IdentityProviderDriver_Spec_def Let_def IdentityProviderDriver_ManagedMarker_def
      IdentityProviderDriver_PreparePayload_mem_def IdentityProviderDriver_PreparePayload_def intro!: in_place_edits split: option.split sum.split\<close>)

interpretation group_mem: memory_driver "GroupDriver_mem rng"
  by unfold_locales
    (use specJSON_wf(6) in \<open>auto simp: GroupDriver_mem_def GroupDriver_def GroupDriver_Spec_def Let_def GroupDriver_ManagedMarker_def
      GroupDriver_PreparePayload_def intro!: in_place_edits split: option.split sum.split\<close>)

section \<open>What a pass records\<close>

text \<open>The API server hands back the annotation it is given on an update too.\<close>

definition update_keeps_annotation :: "('w, 'k, 's) engine \<Rightarrow> bool" where
  "update_keeps_annotation E \<longleftrightarrow>
     (\<forall>k obj obj' k'. k_update (e_client E) k obj = (Inr obj', k') \<longrightarrow>
        map_of (obj_annotations obj') LastAppliedAnnotation = map_of (obj_annotations obj) LastAppliedAnnotation)"

lemma recorded_finalizers [simp]: "recorded_spec (obj\<lparr>obj_finalizers := fs\<rparr>) = recorded_spec obj"
  by (simp add: recorded_spec_def)

lemma update_annotation:
  "update_keeps_annotation E \<Longrightarrow> k_update (e_client E) k (obj\<lparr>obj_finalizers := fs\<rparr>) = (Inr obj', k') \<Longrightarrow>
   recorded_spec obj' = recorded_spec obj"
  unfolding update_keeps_annotation_def recorded_spec_def by fastforce

lemma handleDeletion_annotation:
  "update_keeps_annotation E \<Longrightarrow> recorded_spec (fst (snd (handleDeletion E drv kc obj st))) = recorded_spec obj"
  by (auto simp: handleDeletion_def Let_def dest: update_annotation split: prod.split sum.split option.split)

context engine_driver
begin

text \<open>Every pass, whatever path it takes.\<close>

lemma any_pass_annotation:
  assumes "recording E" and "update_keeps_annotation E"
  shows "recorded_spec (fst (snd (Reconcile E drv obj st))) \<in>
    {recorded_spec obj, Some (Marshal (JObj (spec_map drv obj)))}"
proof (cases "\<exists>kc w. live E drv obj st kc w")
  case True
  then show ?thesis using pass_annotation [OF assms(1)] by blast
next
  case False
  have "recorded_spec (fst (snd (reconcileBody E drv obj st))) = recorded_spec obj"
  proof (cases "obj_deletionTimestamp obj \<noteq> None \<and> sv_Deletion (d_Spec drv obj) = DeletionOrphan")
    case True
    then show ?thesis using assms(2) by (auto simp: reconcileBody_def Let_def dest: update_annotation split: prod.split sum.split)
  next
    case other: False
    obtain r w where p: "e_provider E (cluster st) (obj_namespace obj) (sv_ConnectionName (d_Spec drv obj)) (net st) = (r, w)"
      by (rule prod.exhaust)
    show ?thesis
    proof (cases r)
      case (Inl e)
      with p other assms(1) show ?thesis by (auto simp: reconcileBody_def Let_def split_beta)
    next
      case (Inr kc)
      with p False consider "obj_deletionTimestamp obj \<noteq> None"
        | "obj_deletionTimestamp obj = None" "\<not> k_containsFinalizer (e_client E) (obj_finalizers obj) FinalizerName"
        | msg where "obj_deletionTimestamp obj = None" "k_containsFinalizer (e_client E) (obj_finalizers obj) FinalizerName"
            "d_Protected drv obj = Some msg"
        unfolding live_def by fastforce
      then show ?thesis
        using p Inr other assms handleDeletion_annotation [OF assms(2), of drv kc obj "st\<lparr>net := w\<rparr>"]
        by cases (auto simp: reconcileBody_def Let_def dest: update_annotation split: prod.split sum.split option.split)
    qed
  qed
  then show ?thesis by (simp add: Reconcile_simps Let_def)
qed

end

end
