(* ===== verification/Spec2Isabelle.thy ===== *)
theory Spec2Isabelle
  imports Deployment Fake_Invariant Operator Deepcopy E2e_Utils Provider_Lock Payload_Memory
begin

text \<open>
  A verification library of the Keycloak operator: a Kubernetes operator that reconciles
  custom resources (realms, clients, client scopes, realm roles, identity providers, groups
  and connections) with a Keycloak server through its Admin REST API.

  \<^bold>\<open>The program.\<close> \<open>cmd/main.go\<close> wires one controller per custom resource. The controllers of
  the six server-side kinds (\<open>internal/controller/*_controller.go\<close>) fetch the object and hand
  it, with a driver for the kind, to one engine (\<open>engine.go\<close>). The engine asks the connection
  provider (\<open>internal/keycloak/provider.go\<close>) for an Admin API client (\<open>client.go\<close>), resolves the
  remote resource through the driver (\<open>driver_*.go\<close>, on the operations of \<open>resources.go\<close>),
  decides on adoption, computes the payload and the drift with the field-ownership algebra
  (\<open>lastapplied.go\<close>), creates or updates the resource, lets the driver enforce what lives
  outside the main representation, and records conditions, events, metrics and the
  last-applied annotation. The tests run the operator against an in-memory Admin API
  (\<open>internal/keycloak/fake/server.go\<close>).

  \<^bold>\<open>The theories\<close>, each with the part of \<open>src/\<close> it models:

  \<^item> \<open>Prelude\<close>: Go maps as sorted association lists, string functions of the Go library,
    the lemmas and the automation the components share.
  \<^item> \<open>Json\<close>, \<open>Errors\<close>: values and errors. \<open>Json\<close> is what \<open>encoding/json\<close> makes of a value
    (\<open>jround\<close> is one encode/decode cycle), \<open>Errors\<close> the error values of
    \<open>internal/keycloak/errors.go\<close> with \<open>errors.Is\<close>.
  \<^item> \<open>Api\<close>: \<open>api/v1alpha1\<close>, the spec structs with their JSON encoding, constants and accessors.
  \<^item> \<open>Go_Memory\<close>, \<open>Deepcopy\<close>: \<open>api/v1alpha1/zz_generated.deepcopy.go\<close> on a memory of pointers,
    slices and maps. \<open>Go_Memory\<close> has the memory, the layout of types and what makes a copy deep;
    \<open>Deepcopy\<close> the layout of every API type and the statements of its copies. With them the copy
    that the engine takes as the base of its patches is the value the other theories pass on.
  \<^item> \<open>Lastapplied\<close>: \<open>lastapplied.go\<close>, on values.
  \<^item> \<open>Json_Memory\<close>, \<open>Payload_Memory\<close>: the same payloads as references. \<open>Json_Memory\<close> has maps and lists
    in memory, the deep copy and the computation of the payload (\<open>lastapplied.go\<close>) and the algebra of in-place edits
    (\<open>edit\<close>: the map has its new contents and no cell outside it changed); \<open>Payload_Memory\<close> the
    methods of the drivers that write into the payload and the pass of \<open>engine.go\<close> over
    memory, with the locale \<open>memory_driver\<close> for what the pass relies on, interpreted on the six drivers.
  \<^item> \<open>Admin_Client\<close>, \<open>Resources\<close>, \<open>Provider\<close>: \<open>client.go\<close>, \<open>resources.go\<close>, \<open>provider.go\<close>. The
    state of a client is \<open>kcstate\<close>; a call of the provider is also given as steps between
    which other calls and cluster changes happen.
  \<^item> \<open>Provider_Lock\<close>: a call of the provider statement by statement, with the mutex: calls block at
    \<open>Lock\<close> and run between any two statements of one another.
  \<^item> \<open>Kube\<close>: the calls of the Kubernetes client as a parameter, with their laws.
  \<^item> \<open>Engine\<close>, \<open>Lifecycle\<close>: \<open>engine.go\<close> and what a pass guarantees. A driver is the record
    \<open>driver\<close>; the locale \<open>engine_driver\<close> holds what the engine relies on (\<open>Get\<close> only reads,
    \<open>PostApply\<close> reports its changes), \<open>marking_driver\<close> that payloads carry the marker.
  \<^item> \<open>Helpers\<close> and \<open>Realm_Driver\<close>, \<open>Client_Driver\<close>, \<open>Role_Driver\<close>, \<open>Idp_Driver\<close>,
    \<open>Group_Driver\<close>: \<open>driver_helpers.go\<close>, \<open>driver_realm.go\<close>, \<open>driver_client.go\<close> and
    \<open>driver_role_idp_group.go\<close>, each with its interpretations of these locales.
  \<^item> \<open>Controllers\<close>: the \<open>Reconcile\<close> methods, the connection controller, the provider as the
    engine uses it, the watch list of \<open>cmd/main.go\<close>.
  \<^item> \<open>Flags\<close>, \<open>Startup\<close>: \<open>cmd/main.go\<close> with \<open>version.go\<close>, \<open>groupversion_info.go\<close>, the \<open>init\<close>
    functions of the type files and the \<open>SetupWithManager\<close> methods. \<open>Flags\<close> has the flags and what
    the packages \<open>flag\<close>, \<open>strconv\<close> and \<open>time\<close> make of a command line, \<open>Startup\<close> the options of the
    servers and of the manager and the statements of \<open>main\<close> with every way the process can end.
  \<^item> \<open>Metrics\<close>: \<open>internal/metrics/metrics.go\<close>, the vectors and the calls behind the updates the
    other theories log, down to the series the endpoint exposes.
  \<^item> \<open>Simulation\<close>, \<open>Engine_Simulation\<close>: two clients that answer alike (\<open>kc_pair\<close>) make every
    driver (\<open>driver_pair\<close>) and every pass (\<open>engine_pair\<close>) behave alike; with it, a condition on
    the state of the client that every call keeps is kept by every pass.
  \<^item> \<open>Operator\<close>: the seven controllers around one provider, as \<open>main\<close> registers them. The states
    the process can reach are \<open>runs\<close>: reconciliations of any object in any order, with arbitrary
    changes of the cluster and of the servers in between.
  \<^item> \<open>Convergence\<close>: the contract \<open>stored_driver\<close> of a driver with a server that stores what it
    is given, and that a pass settles under it.
  \<^item> \<open>Fake_Server\<close>: every handler of \<open>fake/server.go\<close> on the record \<open>Store\<close>, with panics as
    dropped connections, and the part of \<open>net/http\<close> that routes to them.
  \<^item> \<open>Fake_Invariant\<close>: the well-formedness of the stored data over all reachable servers.
  \<^item> \<open>Fake_Backend\<close>: paths and queries of \<open>resources.go\<close> as the server reads them; the locale
    \<open>served\<close> (a client whose calls are answered by the handlers on the stored data),
    interpreted on the handlers alone and on the client with its token handling.
  \<^item> \<open>Fake_Convergence\<close>, \<open>Fake_Scopes\<close>, \<open>Fake_Clients\<close>: every served client gives
    \<open>stored_driver\<close> for realms, for client scopes and for clients, and \<open>assignment_api\<close> for the
    scope assignments of a client (sublocales of \<open>served\<close>).
  \<^item> \<open>Fake_Frames\<close>: what a pass over one resource leaves of the others on the server.
  \<^item> \<open>Fake_System\<close>: the operator on the server, with the clients of the provider as served
    clients.
  \<^item> \<open>Deployment\<close>: rounds over many realms, scopes and clients of one server.
  \<^item> \<open>E2e_Utils\<close>: \<open>test/utils/utils.go\<close>, the helpers of the end-to-end tests.
  \<^item> \<open>Instances\<close>: concrete engines, clusters and specs for the instances of the theorems.

  \<^bold>\<open>What is shown.\<close> Safety of a pass: refused and protected resources are not written, deletion
  policies are honoured, only marked representations are written, the annotation holds the
  spec and no Secret value, the drift counter is sound. A pass over memory, with references and
  in-place edits, is the pass over values. The algebra: effective payload,
  merge, drift test and list matching, independent of the iteration order of Go maps. The
  client: bounds on requests, retries, sentinel errors, token caching; every operation addresses the
  resource its arguments name. The provider: under
  every interleaving a call returns, no call waits for a mutex that is never released, and it
  returns a client for the connection and Secret it read. The process: a command line can express every
  configuration, the start stops at the first failure, every
  request of a run can be traced to a connection and Secret of the cluster, the exposed
  metrics are well formed. Deep copies share nothing with the original. Errors:
  what each failure leaves behind and when it is retried. The server: its stored data stays
  well formed under every sequence of requests. The composed system: calls through the
  client are transparent to the handlers, one pass over a realm, a client scope or a client
  brings the server to the spec and later passes are silent, scope assignments become exactly
  the listed ones, and a round over a whole deployment settles all of it for good. Some theorems record where the code departs from its documentation.

  \<^bold>\<open>Parameters.\<close> The Kubernetes client (\<open>kube\<close>; \<open>well_behaved\<close>, \<open>recording\<close> and \<open>annotations_kept\<close>
  collect the documented behaviour of conditions, finalizers, patches and updates, \<open>secrets_ok\<close> that of the
  calls on Secrets), the HTTP transport and clock
  (\<open>http\<close>), the reader of connections and Secrets (\<open>versioned\<close>: a resource version
  determines the content), the iteration order of Go maps (\<open>order_ok\<close>: a permutation of the
  keys at each loop), controller-runtime (\<open>framework\<close>), the metrics library (\<open>prometheus\<close>,
  with its documented behaviour \<open>prometheus_ok\<close>), the metadata types of \<open>apimachinery\<close> and their
  copies (\<open>metav1\<close>; \<open>metav1_ok\<close>: the copies are deep), the operating system of the test helpers
  (\<open>os\<close>), the flags the logging library binds, and the
  text \<open>encoding/json\<close> renders. Durations are integers of nanoseconds, as in Go. A type assertion that would panic
  is an error value or a dropped connection. Every definition is total: the
  loops of the program run over lists. Only following references in memory takes fuel
  (\<open>deepCopyValue_mem\<close>, \<open>read_json\<close>): the number of cells, which bounds the depth of a value that shares no cell
  (\<open>owned_depth\<close>), so it is always enough for the maps of a pass.

  \<^bold>\<open>Not modelled.\<close> Aliasing other than that of API objects and of the spec and the payload of a pass (the other
  maps are read after they are built, and passed as values), slices of
  an array that is longer than the slice, log lines of the reconcilers and the
  key-value pairs of those of \<open>main\<close>, durations and buckets of histograms, the rounding of
  fractions to \<open>float64\<close> in \<open>ParseDuration\<close> (the model takes the exact quotient), redirects, read
  limits of response bodies, the replacement of invalid UTF-8 in encoded strings, the listener of the
  in-memory server, and the client's mutex: the
  calls of one client happen one at a time, and in \<open>runs\<close> a reconciliation is one step (the
  interleaving of provider calls is that of \<open>Provider\<close> and \<open>Provider_Lock\<close>).
\<close>

section \<open>Adoption\<close>

text \<open>What a refused pass does.\<close>

definition refusal_leaves_server ::
    "('w \<times> call list, 'k, 's) driver \<Rightarrow> ('w \<times> call list, 'k, 's) engine \<Rightarrow> 's object \<Rightarrow>
     ('w \<times> call list, 'k) eng \<Rightarrow> 'w kc \<Rightarrow> bool" where
  "refusal_leaves_server drv E obj st kc \<longleftrightarrow>
     (\<forall>w remote w'. live E drv obj st (recorded kc) w \<longrightarrow>
        d_Get drv (recorded kc) obj w = (Inr remote, w') \<longrightarrow> refused drv obj remote \<longrightarrow>
        (case Reconcile E drv obj st of (res, obj', st') \<Rightarrow>
           res = Done \<and> (\<exists>cs. snd (net st') = snd w @ cs \<and> list_all is_read cs) \<and>
           (\<exists>r m. has_cond E obj' ConditionReady ConditionFalse r m)))"

lemma refusal_leaves_serverI:
  assumes "well_behaved E" and "engine_driver drv"
  shows "refusal_leaves_server drv E obj st kc"
  unfolding refusal_leaves_server_def
proof (intro allI impI)
  fix w remote w'
  assume "live E drv obj st (recorded kc) w" "d_Get drv (recorded kc) obj w = (Inr remote, w')"
    "refused drv obj remote"
  from engine_driver.refusal_reads [OF assms(2) this] obtain cs r m st0 where
    "snd (net (snd (snd (Reconcile E drv obj st)))) = snd w @ cs" "list_all is_read cs"
    "fst (Reconcile E drv obj st) = Done" "fst (snd (Reconcile E drv obj st)) = fst (fail E obj r m obj st0)"
    by blast
  moreover have "has_cond E (fst (fail E obj r m obj st0)) ConditionReady ConditionFalse r m"
    using fail_has [OF assms(1)] by blast
  ultimately show "case Reconcile E drv obj st of (res, obj', st') \<Rightarrow>
      res = Done \<and> (\<exists>cs. snd (net st') = snd w @ cs \<and> list_all is_read cs) \<and>
      (\<exists>r m. has_cond E obj' ConditionReady ConditionFalse r m)"
    by (auto simp: split_beta)
qed

text \<open>
  C1: A resource that exists and must not be taken over (\<open>FailIfExists\<close>, or a foreign
  resource under any policy but \<open>Adopt\<close>) is only read: for each of the six kinds the pass
  sends nothing but GET requests, asks for no requeue, and reports Ready as False.
\<close>
theorem refused_resource_untouched:
  assumes "well_behaved E1" and "well_behaved E2" and "well_behaved E3"
    and "well_behaved E4" and "well_behaved E5" and "well_behaved E6"
  shows "refusal_leaves_server (RealmDriver rng) E1 realm st1 kc \<and>
    refusal_leaves_server (ClientDriver rng) E2 client st2 kc \<and>
    refusal_leaves_server ClientScopeDriver E3 scope st3 kc \<and>
    refusal_leaves_server (RealmRoleDriver rng) E4 role st4 kc \<and>
    refusal_leaves_server (IdentityProviderDriver rng) E5 idp st5 kc \<and>
    refusal_leaves_server (GroupDriver rng) E6 grp st6 kc"
  using assms
  by (simp add: refusal_leaves_serverI realm.engine_driver_axioms client.engine_driver_axioms
      scope.engine_driver_axioms role.engine_driver_axioms idp.engine_driver_axioms
      group.engine_driver_axioms)

theorem refused_resource_untouched_witness:
  "case Reconcile (demo_engine (recorded (answering (Inr (JObj [(''id'', JStr ''r'')])))))
      (RealmDriver same_order) (demo_object ''Realm'' (demo_realm ''demo'')) (demo_eng (0, [])) of
     (res, obj', st') \<Rightarrow>
       res = Done \<and> (\<exists>cs. snd (net st') = cs \<and> list_all is_read cs) \<and>
       (\<exists>r m. has_cond (demo_engine (recorded (answering (Inr (JObj [(''id'', JStr ''r'')])))))
          obj' ConditionReady ConditionFalse r m)"
proof -
  let ?kc = "answering (Inr (JObj [(''id'', JStr ''r'')]))"
  let ?E = "demo_engine (recorded ?kc)"
  let ?obj = "demo_object ''Realm'' (demo_realm ''demo'')"
  have "refusal_leaves_server (RealmDriver same_order) ?E ?obj (demo_eng (0, [])) ?kc"
    using refused_resource_untouched [OF demo_engine_ok(1) demo_engine_ok(1) demo_engine_ok(1) demo_engine_ok(1)
        demo_engine_ok(1) demo_engine_ok(1)] by blast
  moreover have "live ?E (RealmDriver same_order) ?obj (demo_eng (0, [])) (recorded ?kc) (0, [])"
    by (rule demo_realm_live) simp
  moreover have "d_Get (RealmDriver same_order) (recorded ?kc) ?obj (0, []) =
      (Inr [(''id'', JStr ''r'')], Suc 0, [(''GET'', realmPath ''demo'', None)])"
    by (simp add: RealmDriver_def RealmDriver_Get_def GetRealm_def map_result_def demo_defs RealmSpec_TargetRealm_def)
  moreover have "refused (RealmDriver same_order) ?obj [(''id'', JStr ''r'')]"
    by (simp add: refused_def managed_by_us_def RealmDriver_def RealmDriver_Spec_def RealmDriver_IsManaged_def
        managedByStringAttribute_def last_applied_def demo_defs RealmSpec_Adoption_def Let_def)
  ultimately show ?thesis
    unfolding refusal_leaves_server_def by fastforce
qed

section \<open>Drift\<close>

definition uncounted_pass_reads ::
    "('w \<times> call list, 'k, 's) driver \<Rightarrow> ('w \<times> call list, 'k, 's) engine \<Rightarrow> 's object \<Rightarrow>
     ('w \<times> call list, 'k) eng \<Rightarrow> 'w kc \<Rightarrow> bool" where
  "uncounted_pass_reads drv E obj st kc \<longleftrightarrow>
     (\<forall>w remote w'. live E drv obj st (recorded kc) w \<longrightarrow>
        d_Get drv (recorded kc) obj w = (Inr remote, w') \<longrightarrow>
        emitted (snd (snd (Reconcile E drv obj st))) =
          emitted st @ [ReconciliationsTotal (obj_kind obj) OutcomeSuccess] \<longrightarrow>
        (\<exists>cs. snd (net (snd (snd (Reconcile E drv obj st)))) = snd w @ cs \<and> list_all is_read cs))"

lemma uncounted_pass_readsI:
  "well_behaved E \<Longrightarrow> engine_driver drv \<Longrightarrow> uncounted_pass_reads drv E obj st kc"
  unfolding uncounted_pass_reads_def by (blast intro: engine_driver.uncounted_reads)

text \<open>
  C3: The drift counter is sound: when a pass over an existing resource counts no drift
  correction and ends as a success, it sent nothing but GET requests, for each of the six
  kinds. This includes what \<open>PostApply\<close> enforces outside the main representation.
\<close>
theorem drift_counter_sound:
  assumes "well_behaved E1" and "well_behaved E2" and "well_behaved E3"
    and "well_behaved E4" and "well_behaved E5" and "well_behaved E6"
  shows "uncounted_pass_reads (RealmDriver rng) E1 realm st1 kc \<and>
    uncounted_pass_reads (ClientDriver rng) E2 client st2 kc \<and>
    uncounted_pass_reads ClientScopeDriver E3 scope st3 kc \<and>
    uncounted_pass_reads (RealmRoleDriver rng) E4 role st4 kc \<and>
    uncounted_pass_reads (IdentityProviderDriver rng) E5 idp st5 kc \<and>
    uncounted_pass_reads (GroupDriver rng) E6 grp st6 kc"
  using assms
  by (simp add: uncounted_pass_readsI realm.engine_driver_axioms client.engine_driver_axioms
      scope.engine_driver_axioms role.engine_driver_axioms idp.engine_driver_axioms
      group.engine_driver_axioms)

text \<open>A realm that carries the marker and the values of the spec.\<close>

definition synced_realm :: "json gomap" where
  "synced_realm = [(''attributes'', JObj [(ManagedAnnotation, JStr ManagedValue)]), (''realm'', JStr ''demo'')]"

lemma demo_realm_get:
  "d_Get (RealmDriver rng) (recorded (answering (Inr (JObj rep)))) (demo_object ''Realm'' (demo_realm ''demo'')) (n, cs) =
   (Inr rep, Suc n, cs @ [(''GET'', realmPath ''demo'', None)])"
  by (simp add: RealmDriver_def RealmDriver_Get_def GetRealm_def map_result_def demo_defs RealmSpec_TargetRealm_def)

theorem drift_counter_sound_witness:
  "\<exists>cs. snd (net (snd (snd (Reconcile (demo_engine (recorded (answering (Inr (JObj synced_realm)))))
      (RealmDriver same_order) (demo_object ''Realm'' (demo_realm ''demo'')) (demo_eng (0, [])))))) = cs \<and>
     list_all is_read cs"
proof -
  let ?kc = "answering (Inr (JObj synced_realm))"
  let ?E = "demo_engine (recorded ?kc)"
  let ?obj = "demo_object ''Realm'' (demo_realm ''demo'')"
  have "uncounted_pass_reads (RealmDriver same_order) ?E ?obj (demo_eng (0, [])) ?kc"
    using drift_counter_sound [OF demo_engine_ok(1) demo_engine_ok(1) demo_engine_ok(1) demo_engine_ok(1)
        demo_engine_ok(1) demo_engine_ok(1)] by blast
  moreover have "live ?E (RealmDriver same_order) ?obj (demo_eng (0, [])) (recorded ?kc) (0, [])"
    by (rule demo_realm_live) simp
  moreover have "emitted (snd (snd (Reconcile ?E (RealmDriver same_order) ?obj (demo_eng (0, []))))) =
      emitted (demo_eng (0, []) :: (nat \<times> call list, RealmSpec object list) eng) @
        [ReconciliationsTotal (obj_kind ?obj) OutcomeSuccess]"
    by code_simp
  ultimately show ?thesis
    unfolding uncounted_pass_reads_def using demo_realm_get [of same_order synced_realm 0 "[]"] by fastforce
qed

section \<open>What is recorded and written\<close>

definition annotations_kept :: "('w, 'k, 's) engine \<Rightarrow> bool" where
  "annotations_kept E \<longleftrightarrow> recording E \<and> update_keeps_annotation E"

text \<open>A realm whose mail server is in the spec and whose mail password is in a Secret.\<close>

definition mail_realm :: RealmSpec where
  "mail_realm = (demo_realm ''demo'')\<lparr>smtpServerSecretRef := Some \<lparr>sels_name = ''mail'', sels_keys = [(''password'', ''pw'')]\<rparr>,
     realm_fields := [(''smtpServer'', VMap [(''host'', ''mx'')])]\<rparr>"

definition mail_engine :: "'w kc \<Rightarrow> ('w, 's object list, 's) engine" where
  "mail_engine kc =
     NewEngine (demo_kube [demo_secret ''mail'' [(''pw'', ''s3cret'')]]) (\<lambda>k ns conn w. (Inr kc, w)) True 0"

definition no_memory :: memory where
  "no_memory = \<lparr>cells = Map.empty, limit = 0\<rparr>"

lemma mail_engine_ok: "annotations_kept (mail_engine kc)" "memory_ok no_memory"
  by (simp_all add: annotations_kept_def recording_def update_keeps_annotation_def mail_engine_def NewEngine_def
      demo_kube_annotation memory_ok_def no_memory_def) (simp add: demo_kube_def)

lemma md_driver_simps [simp]:
  "md_driver (RealmDriver_mem rng) = RealmDriver rng" "md_driver (ClientDriver_mem rng) = ClientDriver rng"
  "md_driver ClientScopeDriver_mem = ClientScopeDriver" "md_driver (RealmRoleDriver_mem rng) = RealmRoleDriver rng"
  "md_driver (IdentityProviderDriver_mem rng) = IdentityProviderDriver rng" "md_driver (GroupDriver_mem rng) = GroupDriver rng"
  by (simp_all add: RealmDriver_mem_def ClientDriver_mem_def ClientScopeDriver_mem_def RealmRoleDriver_mem_def
      IdentityProviderDriver_mem_def GroupDriver_mem_def)

text \<open>
  C20: The value model of a pass is adequate. In the code \<open>specMap\<close> and \<open>payload\<close> are references, and the drivers
  stamp the marker and inject secrets by writing into the payload and the maps inside it;
  carried out on a memory of cells, starting in any memory, a pass of each of the six drivers has exactly
  the result, the requests, the events and the recorded annotation of the pass on values.
\<close>
theorem memory_pass_refines:
  assumes "memory_ok h"
  shows "Reconcile_mem h E1 (RealmDriver_mem rng) realm st1 = Reconcile E1 (RealmDriver rng) realm st1 \<and>
    Reconcile_mem h E2 (ClientDriver_mem rng) client st2 = Reconcile E2 (ClientDriver rng) client st2 \<and>
    Reconcile_mem h E3 ClientScopeDriver_mem scope st3 = Reconcile E3 ClientScopeDriver scope st3 \<and>
    Reconcile_mem h E4 (RealmRoleDriver_mem rng) role st4 = Reconcile E4 (RealmRoleDriver rng) role st4 \<and>
    Reconcile_mem h E5 (IdentityProviderDriver_mem rng) idp st5 = Reconcile E5 (IdentityProviderDriver rng) idp st5 \<and>
    Reconcile_mem h E6 (GroupDriver_mem rng) grp st6 = Reconcile E6 (GroupDriver rng) grp st6"
  by (simp add: realm_mem.Reconcile_memory [OF assms] client_mem.Reconcile_memory [OF assms]
      scope_mem.Reconcile_memory [OF assms] role_mem.Reconcile_memory [OF assms] idp_mem.Reconcile_memory [OF assms]
      group_mem.Reconcile_memory [OF assms])

theorem memory_pass_refines_witness:
  "Reconcile_mem no_memory (mail_engine (recorded (answering (Inr (JObj synced_realm))))) (RealmDriver_mem same_order)
      (demo_object ''Realm'' mail_realm) (demo_eng (0, [])) =
    Reconcile (mail_engine (recorded (answering (Inr (JObj synced_realm))))) (RealmDriver same_order)
      (demo_object ''Realm'' mail_realm) (demo_eng (0, []))"
  using memory_pass_refines [OF mail_engine_ok(2)] by blast

definition records_only_spec ::
    "('w \<times> call list, 'k, 's) mem_driver \<Rightarrow> ('w \<times> call list, 'k, 's) engine \<Rightarrow> 's object \<Rightarrow>
     ('w \<times> call list, 'k) eng \<Rightarrow> bool" where
  "records_only_spec D E obj st \<longleftrightarrow>
     (\<forall>h. memory_ok h \<longrightarrow>
        recorded_spec (fst (snd (Reconcile_mem h E D obj st))) \<in>
          {recorded_spec obj, Some (Marshal (JObj (spec_map (md_driver D) obj)))})"

lemma records_only_specI:
  assumes "memory_driver D" and "engine_driver (md_driver D)" and "annotations_kept E"
  shows "records_only_spec D E obj st"
  using engine_driver.any_pass_annotation [OF assms(2), of E obj st] assms(3)
  by (simp add: records_only_spec_def annotations_kept_def memory_driver.Reconcile_memory [OF assms(1)])

text \<open>
  C8: The last-applied annotation never holds a secret, on any path of a pass and although the drivers
  write into the payload in place: after a pass over memory it is what it was, or
  the encoding of \<open>spec_map\<close>, which is a function of the driver and the object alone. The
  values read from Secrets, the marker and the server's answer never reach it. The API server is
  assumed to hand back the annotation it is given on a patch or an update.
\<close>
theorem annotation_holds_spec_only:
  assumes "annotations_kept E1" and "annotations_kept E2" and "annotations_kept E3"
    and "annotations_kept E4" and "annotations_kept E5" and "annotations_kept E6"
  shows "records_only_spec (RealmDriver_mem rng) E1 realm st1 \<and>
    records_only_spec (ClientDriver_mem rng) E2 client st2 \<and>
    records_only_spec ClientScopeDriver_mem E3 scope st3 \<and>
    records_only_spec (RealmRoleDriver_mem rng) E4 role st4 \<and>
    records_only_spec (IdentityProviderDriver_mem rng) E5 idp st5 \<and>
    records_only_spec (GroupDriver_mem rng) E6 grp st6"
  using assms
  by (simp add: records_only_specI realm.engine_driver_axioms client.engine_driver_axioms
      scope.engine_driver_axioms role.engine_driver_axioms idp.engine_driver_axioms
      group.engine_driver_axioms realm_mem.memory_driver_axioms client_mem.memory_driver_axioms
      scope_mem.memory_driver_axioms role_mem.memory_driver_axioms idp_mem.memory_driver_axioms
      group_mem.memory_driver_axioms)

theorem annotation_holds_spec_only_witness:
  "case Reconcile_mem no_memory (mail_engine (recorded (answering (Inr (JObj synced_realm)))))
      (RealmDriver_mem same_order) (demo_object ''Realm'' mail_realm) (demo_eng (0, [])) of
    (res, obj, st) \<Rightarrow>
      recorded_spec obj =
        Some (Marshal (JObj [(''realm'', JStr ''demo''), (''smtpServer'', JObj [(''host'', JStr ''mx'')])])) \<and>
      snd (net st) =
        [(''GET'', realmPath ''demo'', None),
         (''PUT'', realmPath ''demo'',
          Some (JObj [(''attributes'', JObj [(ManagedAnnotation, JStr ManagedValue)]), (''realm'', JStr ''demo''),
            (''smtpServer'', JObj [(''host'', JStr ''mx''), (''password'', JStr ''s3cret'')])]))]"
proof -
  let ?E = "mail_engine (recorded (answering (Inr (JObj synced_realm))))"
  let ?obj = "demo_object ''Realm'' mail_realm"
  let ?r = "Reconcile_mem no_memory ?E (RealmDriver_mem same_order) ?obj (demo_eng (0, []))"
  have "records_only_spec (RealmDriver_mem same_order) ?E ?obj (demo_eng (0, []))"
    using annotation_holds_spec_only [OF mail_engine_ok(1) mail_engine_ok(1) mail_engine_ok(1) mail_engine_ok(1)
        mail_engine_ok(1) mail_engine_ok(1)] by blast
  moreover have "spec_map (RealmDriver same_order :: (nat \<times> call list, RealmSpec object list, RealmSpec) driver) ?obj =
      [(''realm'', JStr ''demo''), (''smtpServer'', JObj [(''host'', JStr ''mx'')])]"
    by code_simp
  moreover have "(case ?r of (res, obj, st) \<Rightarrow> (recorded_spec obj = None, snd (net st))) =
      (False,
        [(''GET'', realmPath ''demo'', None),
         (''PUT'', realmPath ''demo'',
          Some (JObj [(''attributes'', JObj [(ManagedAnnotation, JStr ManagedValue)]), (''realm'', JStr ''demo''),
            (''smtpServer'', JObj [(''host'', JStr ''mx''), (''password'', JStr ''s3cret'')])]))])"
    unfolding realm_mem.Reconcile_memory [OF mail_engine_ok(2)] md_driver_simps by code_simp
  moreover have "recorded_spec ?obj = None" by (simp add: recorded_spec_def demo_object_def)
  ultimately show ?thesis using mail_engine_ok(2) unfolding records_only_spec_def by (fastforce simp: split_beta)
qed

text \<open>
  C7: Every representation the engine creates or updates carries the managed marker, for the
  five kinds that have attributes: a pass is the same whatever the driver would do with an
  unmarked payload, so no unmarked payload is ever written.
\<close>
theorem only_marked_representations_written:
  "Reconcile E1 (guarded c1 u1 (RealmDriver rng)) realm st1 = Reconcile E1 (RealmDriver rng) realm st1 \<and>
   Reconcile E2 (guarded c2 u2 (ClientDriver rng)) client st2 = Reconcile E2 (ClientDriver rng) client st2 \<and>
   Reconcile E3 (guarded c3 u3 ClientScopeDriver) scope st3 = Reconcile E3 ClientScopeDriver scope st3 \<and>
   Reconcile E4 (guarded c4 u4 (RealmRoleDriver rng)) role st4 = Reconcile E4 (RealmRoleDriver rng) role st4 \<and>
   Reconcile E6 (guarded c6 u6 (GroupDriver rng)) grp st6 = Reconcile E6 (GroupDriver rng) grp st6"
  by (simp add: realm_marks.only_marked_writes client_marks.only_marked_writes scope_marks.only_marked_writes
      role_marks.only_marked_writes group_marks.only_marked_writes)

section \<open>Deletion\<close>

text \<open>
  C12: Deletion with the Orphan policy needs no server: whatever the connection does, the pass
  leaves the Keycloak side alone, records no event, and submits the object unchanged but for
  the operator's finalizer, which is gone while every other finalizer stays.
\<close>
theorem orphan_deletion_offline:
  assumes "kube_ok (e_client E)" and "obj_deletionTimestamp obj \<noteq> None"
    and "sv_Deletion (d_Spec drv obj) = DeletionOrphan"
  shows "\<exists>released. released\<lparr>obj_finalizers := obj_finalizers obj\<rparr> = obj \<and>
    (\<forall>f. k_containsFinalizer (e_client E) (obj_finalizers released) f \<longleftrightarrow>
       f \<noteq> FinalizerName \<and> k_containsFinalizer (e_client E) (obj_finalizers obj) f) \<and>
    (case Reconcile E drv obj st of (res, obj', st') \<Rightarrow>
       net st' = net st \<and> events st' = events st \<and>
       cluster st' = snd (k_update (e_client E) (cluster st) released) \<and>
       (res = Done \<longleftrightarrow> (\<exists>stored. fst (k_update (e_client E) (cluster st) released) = Inr stored)))"
proof -
  let ?released = "obj\<lparr>obj_finalizers := k_removeFinalizer (e_client E) (obj_finalizers obj) FinalizerName\<rparr>"
  have "reconcileBody E drv obj st =
      (case k_update (e_client E) (cluster st) ?released of
         (Inl e, k) \<Rightarrow> (Failed e, ?released, st\<lparr>cluster := k\<rparr>)
       | (Inr stored, k) \<Rightarrow> (Done, stored, st\<lparr>cluster := k\<rparr>))"
    using assms(2,3) by (simp add: reconcileBody_def Let_def)
  then show ?thesis
    using kube_okD(4) [OF assms(1)]
    by (intro exI [of _ ?released])
      (auto simp: Reconcile_simps Let_def split: prod.split sum.split)
qed

theorem orphan_deletion_offline_witness:
  "\<exists>released. case Reconcile (demo_engine (answering (Inl ErrAuth))) (RealmDriver same_order)
      ((demo_object ''Realm'' (demo_realm ''demo''))\<lparr>obj_deletionTimestamp := Some 0\<rparr>) (demo_eng 0) of
    (res, obj', st') \<Rightarrow> net st' = 0 \<and> FinalizerName \<notin> set (obj_finalizers released) \<and> cluster st' = [released]"
proof -
  let ?E = "demo_engine (answering (Inl ErrAuth))"
  let ?obj = "(demo_object ''Realm'' (demo_realm ''demo''))\<lparr>obj_deletionTimestamp := Some 0\<rparr>"
  have K: "kube_ok (e_client ?E)" "\<And>fs f. k_containsFinalizer (e_client ?E) fs f \<longleftrightarrow> f \<in> set fs"
    "\<And>k obj. k_update (e_client ?E) k obj = (Inr obj, k @ [obj])"
    by (simp_all add: demo_kube_ok demo_engine_def NewEngine_def) (simp_all add: demo_kube_def)
  have obj: "obj_deletionTimestamp ?obj \<noteq> None" "sv_Deletion (d_Spec (RealmDriver same_order) ?obj) = DeletionOrphan"
    by (simp_all add: RealmDriver_def RealmDriver_Spec_def RealmSpec_Deletion_def Let_def demo_object_def demo_realm_def)
  from orphan_deletion_offline [OF K(1) obj, of "demo_eng 0"] show ?thesis
    by (elim exE, intro exI) (auto simp: K demo_eng_def split: prod.splits)
qed

text \<open>
  C11: With the Delete policy the finalizer waits for the server: unless the remote resource
  was deleted or did not exist, the cluster is not written and the error is returned for a
  retry; otherwise the object is submitted without the operator's finalizer.
\<close>
theorem finalizer_waits_for_delete:
  assumes "obj_deletionTimestamp obj \<noteq> None" and "sv_Deletion (d_Spec drv obj) = DeletionDelete"
    and "e_provider E (cluster st) (obj_namespace obj) (sv_ConnectionName (d_Spec drv obj)) (net st) = (Inr kc, w)"
    and "d_Delete drv kc obj w = (err, w')"
  shows "case Reconcile E drv obj st of (res, obj', st') \<Rightarrow>
    net st' = w' \<and>
    (case err of
       Some e \<Rightarrow>
         if errors_Is e ErrNotFound
         then cluster st' = snd (k_update (e_client E) (cluster st)
           (obj\<lparr>obj_finalizers := k_removeFinalizer (e_client E) (obj_finalizers obj) FinalizerName\<rparr>))
         else res = Failed e \<and> obj' = obj \<and> cluster st' = cluster st
     | None \<Rightarrow> cluster st' = snd (k_update (e_client E) (cluster st)
           (obj\<lparr>obj_finalizers := k_removeFinalizer (e_client E) (obj_finalizers obj) FinalizerName\<rparr>)))"
  using assms
  by (auto simp: Reconcile_simps reconcileBody_def handleDeletion_def Let_def split: option.split prod.split sum.split)

theorem finalizer_waits_for_delete_witness:
  "case Reconcile (demo_engine (answering (Inl ErrAuth))) ClientScopeDriver
      ((demo_object ''ClientScope'' \<lparr>keycloakRef = ''kc'', spec_realm = ''demo'', adoptionPolicy = None,
          deletionPolicy = None, scope_name = ''s'', scope_fields = []\<rparr>)\<lparr>obj_deletionTimestamp := Some 0\<rparr>)
      (demo_eng 0) of
    (res, obj', st') \<Rightarrow> net st' = 1 \<and> res = Failed ErrAuth \<and> cluster st' = []"
  using finalizer_waits_for_delete [of
      "(demo_object ''ClientScope'' \<lparr>keycloakRef = ''kc'', spec_realm = ''demo'', adoptionPolicy = None,
          deletionPolicy = None, scope_name = ''s'', scope_fields = []\<rparr>)\<lparr>obj_deletionTimestamp := Some 0\<rparr>"
      ClientScopeDriver "demo_engine (answering (Inl ErrAuth))" "demo_eng 0" "answering (Inl ErrAuth)" 0
      "Some ErrAuth" 1]
  by (simp add: ClientScopeDriver_def ClientScopeDriver_Spec_def ClientScopeSpec_Deletion_def Let_def
      ClientScopeDriver_Delete_def delete_found_def FindClientScope_def ListClientScopes_def map_result_def
      answering_def demo_engine_def demo_eng_def NewEngine_def demo_kube_def demo_object_def split: prod.splits)

text \<open>
  C35: Protection ends at deletion: a Realm resource for \<open>master\<close> that was refused all along
  (no allow-protected annotation, nothing ever applied) and whose deletion policy is Delete
  still deletes the realm on the server when the resource is deleted.
\<close>
theorem protected_realm_deleted:
  fixes E :: "('w \<times> call list, 'k, RealmSpec) engine"
  assumes "obj_deletionTimestamp obj \<noteq> None" and "deletionPolicy (obj_spec obj) = Some DeletionDelete"
    and "e_provider E (cluster st) (obj_namespace obj) (keycloakRef (obj_spec obj)) (net st) =
      (Inr (recorded kc), w)"
    and "RealmDriver_Protected obj = Some m"
  shows "snd (net (snd (snd (Reconcile E (RealmDriver rng) obj st)))) =
    snd w @ [(''DELETE'', realmPath (spec_realm (obj_spec obj)), None)]"
proof -
  let ?drv = "RealmDriver rng :: ('w \<times> call list, 'k, RealmSpec) driver"
  have "DeletionDelete \<noteq> []" by (simp add: DeletionDelete_def)
  with assms have spec: "d_Spec ?drv obj = RealmDriver_Spec obj"
    "sv_Deletion (RealmDriver_Spec obj) = DeletionDelete"
    "sv_ConnectionName (RealmDriver_Spec obj) = keycloakRef (obj_spec obj)"
    by (simp_all add: RealmDriver_def RealmDriver_Spec_def Let_def RealmSpec_Deletion_def RealmSpec_ConnectionName_def)
  have "snd (snd (d_Delete ?drv (recorded kc) obj w)) =
      snd w @ [(''DELETE'', realmPath (spec_realm (obj_spec obj)), None)]"
    by (simp add: RealmDriver_def RealmDriver_Delete_def DeleteRealm_def recorded_def RealmSpec_TargetRealm_def
        split: prod.split)
  with assms(1,3) spec show ?thesis
    by (auto simp: Reconcile_simps reconcileBody_def handleDeletion_def Let_def
        split: option.split prod.split sum.split)
qed

theorem protected_realm_deleted_witness:
  "snd (net (snd (snd (Reconcile (demo_engine (recorded (answering (Inr JNull)))) (RealmDriver same_order)
      ((demo_object ''Realm'' ((demo_realm ''master'')\<lparr>deletionPolicy := Some ''Delete''\<rparr>))
         \<lparr>obj_deletionTimestamp := Some 0\<rparr>) (demo_eng (0, [])))))) =
    [(''DELETE'', ''/admin/realms/master'', None)]"
proof -
  let ?obj = "(demo_object ''Realm'' ((demo_realm ''master'')\<lparr>deletionPolicy := Some ''Delete''\<rparr>))
    \<lparr>obj_deletionTimestamp := Some 0\<rparr>"
  have "RealmDriver_Protected ?obj = Some (protected_message ''master'')" by code_simp
  moreover have "realmPath ''master'' = ''/admin/realms/master''" by code_simp
  ultimately show ?thesis
    using protected_realm_deleted [of ?obj "demo_engine (recorded (answering (Inr JNull)))" "demo_eng (0, [])"
        "answering (Inr JNull)" "(0, [])" "protected_message ''master''" same_order]
    by (simp add: demo_engine_def NewEngine_def demo_eng_def demo_object_def demo_realm_def DeletionDelete_def)
qed

text \<open>
  C26: While the resource is not being deleted, a protected realm is untouched: without the
  allow-protected annotation a pass over a Realm for \<open>master\<close> makes no call to the server
  and reports Ready as False with the reason ProtectedRealm.
\<close>
theorem protected_realm_untouched:
  fixes E :: "('w, 'k, RealmSpec) engine"
  assumes "well_behaved E" and "obj_deletionTimestamp obj = None"
    and "k_containsFinalizer (e_client E) (obj_finalizers obj) FinalizerName"
    and "e_provider E (cluster st) (obj_namespace obj) (keycloakRef (obj_spec obj)) (net st) = (Inr kc, w)"
    and "spec_realm (obj_spec obj) = ''master''"
    and "map_of (obj_annotations obj) AllowProtectedAnnotation \<noteq> Some (Raw ''true'')"
  shows "case Reconcile E (RealmDriver rng) obj st of (res, obj', st') \<Rightarrow>
    res = Done \<and> net st' = w \<and>
    has_cond E obj' ConditionReady ConditionFalse ReasonProtectedRealm (protected_message ''master'')"
proof -
  let ?drv = "RealmDriver rng :: ('w, 'k, RealmSpec) driver"
  have "d_Protected ?drv obj = Some (protected_message ''master'')"
    using assms(5,6)
    by (simp add: RealmDriver_def RealmDriver_Protected_def RealmSpec_TargetRealm_def ProtectedRealmNames_def)
  moreover have "sv_ConnectionName (d_Spec ?drv obj) = keycloakRef (obj_spec obj)"
    by (simp add: RealmDriver_def RealmDriver_Spec_def Let_def RealmSpec_ConnectionName_def)
  ultimately have "reconcileBody E ?drv obj st =
      (Done, fail E obj ReasonProtectedRealm (protected_message ''master'') obj (st\<lparr>net := w\<rparr>))"
    using assms(2-4) by (simp add: reconcileBody_def Let_def)
  then show ?thesis
    using fail_has [OF assms(1)] by (simp add: Reconcile_simps Let_def)
qed

theorem protected_realm_untouched_witness:
  "case Reconcile (demo_engine (answering (Inr JNull))) (RealmDriver same_order)
      (demo_object ''Realm'' (demo_realm ''master'')) (demo_eng 0) of
    (res, obj', st') \<Rightarrow> res = Done \<and> net st' = 0"
proof -
  let ?kc = "answering (Inr JNull)"
  let ?obj = "demo_object ''Realm'' (demo_realm ''master'')"
  let ?E = "demo_engine ?kc :: (nat, RealmSpec object list, RealmSpec) engine"
  let ?st = "demo_eng 0 :: (nat, RealmSpec object list) eng"
  have fin: "k_containsFinalizer (e_client ?E) (obj_finalizers ?obj) FinalizerName"
    by (simp add: demo_engine_def NewEngine_def demo_kube_def demo_object_def)
  have conn: "e_provider ?E (cluster ?st) (obj_namespace ?obj) (keycloakRef (obj_spec ?obj)) (net ?st) = (Inr ?kc, 0)"
    by (simp add: demo_engine_def NewEngine_def demo_eng_def)
  have obj: "obj_deletionTimestamp ?obj = None" "spec_realm (obj_spec ?obj) = ''master''"
    "map_of (obj_annotations ?obj) AllowProtectedAnnotation \<noteq> Some (Raw ''true'')"
    by (simp_all add: demo_object_def demo_realm_def)
  show ?thesis
    using protected_realm_untouched [OF demo_engine_ok(1) obj(1) fin conn obj(2,3), of same_order]
    by (simp add: split_beta)
qed

text \<open>
  C36: Deleting a resource that never managed anything deletes what it collides with: a
  Client that was refused because a foreign client has its \<open>clientId\<close> (no marker, nothing
  ever applied, policy CreateOnly) sends the DELETE request for the foreign client when the
  resource is deleted.
\<close>
theorem foreign_client_deleted:
  assumes "obj_deletionTimestamp obj \<noteq> None" and "deletionPolicy (obj_spec obj) = None"
    and "e_provider E (cluster st) (obj_namespace obj) (keycloakRef (obj_spec obj)) (net st) =
      (Inr (recorded kc), w)"
    and "FindClient (recorded kc) (spec_realm (obj_spec obj)) (clientId (obj_spec obj)) w = (Inr remote, w')"
    and "map_of remote ''id'' = Some (JStr ident)"
    and "refused (ClientDriver rng :: ('w \<times> call list, 'k, ClientSpec) driver) obj remote"
  shows "snd (net (snd (snd (Reconcile E (ClientDriver rng :: ('w \<times> call list, 'k, ClientSpec) driver) obj st)))) =
    snd w' @ [(''DELETE'', client_path (spec_realm (obj_spec obj)) ident, None)]"
proof -
  let ?drv = "ClientDriver rng :: ('w \<times> call list, 'k, ClientSpec) driver"
  have spec: "d_Spec ?drv obj = ClientDriver_Spec obj"
    "sv_Deletion (ClientDriver_Spec obj) = DeletionDelete"
    "sv_ConnectionName (ClientDriver_Spec obj) = keycloakRef (obj_spec obj)"
    using assms(2)
    by (simp_all add: ClientDriver_def ClientDriver_Spec_def Let_def ClientSpec_Deletion_def ClientSpec_ConnectionName_def)
  have "snd (snd (d_Delete ?drv (recorded kc) obj w)) =
      snd w' @ [(''DELETE'', client_path (spec_realm (obj_spec obj)) ident, None)]"
    using assms(4,5)
    by (simp add: ClientDriver_def ClientDriver_Delete_def delete_found_def DeleteClient_def recorded_def
        ClientSpec_TargetRealm_def Let_def split: prod.split)
  with assms(1,3) spec show ?thesis
    by (auto simp: Reconcile_simps reconcileBody_def handleDeletion_def Let_def
        split: option.split prod.split sum.split)
qed

definition demo_client :: ClientSpec where
  "demo_client = \<lparr>keycloakRef = ''kc'', spec_realm = ''demo'', adoptionPolicy = None, deletionPolicy = None,
     clientId = ''app'', secretRef = None, secretOutput = None, defaultClientScopes = None,
     optionalClientScopes = None, client_fields = []\<rparr>"

definition foreign_client :: "json gomap" where
  "foreign_client = [(''clientId'', JStr ''app''), (''id'', JStr ''u1'')]"

theorem foreign_client_deleted_witness:
  "snd (net (snd (snd (Reconcile (demo_engine (recorded (answering (Inr (JArr [JObj foreign_client])))))
      (ClientDriver same_order)
      ((demo_object ''Client'' demo_client)\<lparr>obj_deletionTimestamp := Some 0\<rparr>) (demo_eng (0, [])))))) =
    [(''GET'', ''/admin/realms/demo/clients?clientId=app'', None), (''DELETE'', ''/admin/realms/demo/clients/u1'', None)]"
proof -
  let ?kc = "answering (Inr (JArr [JObj foreign_client]))"
  let ?obj = "(demo_object ''Client'' demo_client)\<lparr>obj_deletionTimestamp := Some 0\<rparr>"
  have find: "FindClient (recorded ?kc) (spec_realm (obj_spec ?obj)) (clientId (obj_spec ?obj)) (0, []) =
      (Inr foreign_client, Suc 0, [(''GET'', ''/admin/realms/demo/clients?clientId=app'', None)])"
    by code_simp
  have ident: "map_of foreign_client ''id'' = Some (JStr ''u1'')" by code_simp
  have ref: "refused (ClientDriver same_order :: (nat \<times> call list, ClientSpec object list, ClientSpec) driver) ?obj foreign_client"
    by code_simp
  have "client_path (spec_realm (obj_spec ?obj)) ''u1'' = ''/admin/realms/demo/clients/u1''" by code_simp
  then show ?thesis
    using foreign_client_deleted [where E = "demo_engine (recorded ?kc)" and st = "demo_eng (0, [])",
        OF _ _ _ find ident ref]
    by (simp add: demo_engine_def NewEngine_def demo_eng_def demo_object_def demo_client_def)
qed

section \<open>Outcomes of a pass\<close>

text \<open>
  C29: When the connection cannot be used the pass is retried after 30 seconds: no driver call
  is made, and both conditions are False with the reason ConnectionUnavailable and the error
  as the message. Only deletion with the Orphan policy goes ahead without a connection.
\<close>
theorem connection_unavailable_retries:
  assumes "well_behaved E" and "obj_deletionTimestamp obj = None \<or> sv_Deletion (d_Spec drv obj) \<noteq> DeletionOrphan"
    and "e_provider E (cluster st) (obj_namespace obj) (sv_ConnectionName (d_Spec drv obj)) (net st) = (Inl e, w)"
  shows "case Reconcile E drv obj st of (res, obj', st') \<Rightarrow>
    res = RequeueAfter (30 * Second) \<and> net st' = w \<and> events st' = events st \<and>
    has_cond E obj' ConditionReady ConditionFalse ReasonConnectionUnavailable (ErrMsg e) \<and>
    has_cond E obj' ConditionSynced ConditionFalse ReasonConnectionUnavailable (Lit ''Connection unavailable'') \<and>
    emitted st' = emitted st @ [ReconciliationsTotal (obj_kind obj) OutcomeTerminal]"
proof -
  let ?out = "set_both E obj ConditionFalse ReasonConnectionUnavailable (ErrMsg e) (Lit ''Connection unavailable'')
    obj (st\<lparr>net := w\<rparr>)"
  have "reconcileBody E drv obj st = (RequeueAfter (30 * Second), ?out)"
    using assms(2,3) by (auto simp: reconcileBody_def Let_def connectionRetry_def)
  then show ?thesis
    by (simp add: Reconcile_simps Let_def emit_def set_both_has [OF assms(1)] set_both_outcome [OF assms(1)])
qed

theorem connection_unavailable_retries_witness:
  "case Reconcile (NewEngine (demo_kube []) (\<lambda>k ns conn w. (Inl ErrAuth, w)) True 0) (RealmDriver same_order)
      (demo_object ''Realm'' (demo_realm ''demo'')) (demo_eng 0) of
    (res, obj', st') \<Rightarrow> res = RequeueAfter (30 * Second) \<and> net st' = (0::nat)"
proof -
  let ?E = "NewEngine (demo_kube []) (\<lambda>k ns conn w. (Inl ErrAuth, w)) True 0 ::
    (nat, RealmSpec object list, RealmSpec) engine"
  let ?obj = "demo_object ''Realm'' (demo_realm ''demo'')"
  let ?drv = "RealmDriver same_order :: (nat, RealmSpec object list, RealmSpec) driver"
  let ?st = "demo_eng 0 :: (nat, RealmSpec object list) eng"
  have "well_behaved ?E" by (simp add: well_behaved_def NewEngine_def demo_kube_ok demo_kube_stored)
  moreover have "obj_deletionTimestamp ?obj = None \<or> sv_Deletion (d_Spec ?drv ?obj) \<noteq> DeletionOrphan"
    by (simp add: demo_object_def)
  moreover have "e_provider ?E (cluster ?st) (obj_namespace ?obj) (sv_ConnectionName (d_Spec ?drv ?obj)) (net ?st) =
      (Inl ErrAuth, 0)"
    by (simp add: NewEngine_def demo_eng_def)
  ultimately show ?thesis
    using connection_unavailable_retries [of ?E ?obj ?drv ?st ErrAuth 0] by (simp add: split_beta)
qed

text \<open>
  C30: A failure to read the remote resource, other than its absence, is returned for a retry
  with backoff, the conditions say Retrying, nothing is written to the server, and the
  reconciliation is counted under the outcome terminal, not error.
\<close>
theorem read_failure_retried:
  assumes "well_behaved E" and "live E drv obj st kc w"
    and "EffectivePayload (spec_map drv obj) (last_applied obj) = Some payload"
    and "d_Get drv kc obj w = (Inl e, w')" and "\<not> errors_Is e ErrNotFound"
  shows "case Reconcile E drv obj st of (res, obj', st') \<Rightarrow>
    res = Failed e \<and> net st' = w' \<and> events st' = events st \<and>
    has_cond E obj' ConditionReady ConditionFalse ReasonRetrying (ErrMsg e) \<and>
    emitted st' = emitted st @ [ReconciliationsTotal (obj_kind obj) OutcomeTerminal]"
proof -
  let ?out = "set_both E obj ConditionFalse ReasonRetrying (ErrMsg e) (Lit ''Server unreachable'') obj (st\<lparr>net := w'\<rparr>)"
  have "reconcileBody E drv obj st = (Failed e, ?out)"
    using assms(3-5) by (simp add: reconcileBody_live [OF assms(2)])
  then show ?thesis
    by (simp add: Reconcile_simps Let_def emit_def set_both_has [OF assms(1)] set_both_outcome [OF assms(1)])
qed

theorem read_failure_retried_witness:
  "case Reconcile (demo_engine (answering (Inl ErrAuth))) (RealmDriver same_order)
      (demo_object ''Realm'' (demo_realm ''demo'')) (demo_eng 0) of
    (res, obj', st') \<Rightarrow> res = Failed ErrAuth \<and> net st' = 1 \<and>
      emitted st' = [ReconciliationsTotal ''Realm'' OutcomeTerminal]"
proof -
  let ?kc = "answering (Inl ErrAuth)"
  let ?obj = "demo_object ''Realm'' (demo_realm ''demo'')"
  let ?drv = "RealmDriver same_order :: (nat, RealmSpec object list, RealmSpec) driver"
  have get: "d_Get ?drv ?kc ?obj 0 = (Inl ErrAuth, 1)" by code_simp
  have eff: "EffectivePayload (spec_map ?drv ?obj) (last_applied ?obj) = Some [(''realm'', JStr ''demo'')]"
    by code_simp
  have live: "live (demo_engine ?kc) ?drv ?obj (demo_eng 0) ?kc 0" by (rule demo_realm_live) simp
  show ?thesis
    using read_failure_retried [OF demo_engine_ok(1) live eff get]
    by (simp add: split_beta demo_eng_def demo_object_def)
qed

text \<open>
  C31: A failure is announced once: the warning event is recorded when the Ready condition
  was missing or had another reason or message, and the same failure in a later pass over the
  resulting object records nothing more.
\<close>
theorem failure_event_once:
  assumes "well_behaved E" and "fail E base r m obj st = (obj1, st1)"
  shows "events (snd (fail E base' r m obj1 st2)) = events st2 \<and>
    events st1 = events st @
      (if e_recorder E \<and>
          (case k_findCondition (e_client E) (conditions (obj_status obj)) ConditionReady of
             None \<Rightarrow> True | Some c \<Rightarrow> cond_reason c \<noteq> r \<or> cond_message c \<noteq> m)
       then [Warning r m] else [])"
proof -
  have "has_cond E obj1 ConditionReady ConditionFalse r m"
    using fail_has [OF assms(1), of base r m obj st] assms(2) by simp
  then have "events (snd (fail E base' r m obj1 st2)) = events st2"
    by (auto simp: has_cond_def fail_def Let_def split_beta split: option.splits)
  moreover have "events st1 = events (snd (fail E base r m obj st))" by (simp add: assms(2))
  ultimately show ?thesis
    by (auto simp: fail_def Let_def split_beta record_event_def split: option.splits)
qed

theorem failure_event_once_witness:
  "\<exists>obj1 st1. fail (demo_engine (answering (Inr JNull))) (demo_object ''Realm'' ()) ReasonFailed (Lit ''x'')
      (demo_object ''Realm'' ()) (demo_eng 0) = (obj1, st1) \<and> events st1 = [Warning ReasonFailed (Lit ''x'')] \<and>
    events (snd (fail (demo_engine (answering (Inr JNull))) (demo_object ''Realm'' ()) ReasonFailed (Lit ''x'') obj1 st1)) =
      [Warning ReasonFailed (Lit ''x'')]"
proof -
  let ?E = "demo_engine (answering (Inr JNull)) :: (nat, unit object list, unit) engine"
  let ?obj = "demo_object ''Realm'' ()"
  obtain obj1 st1 where run: "fail ?E ?obj ReasonFailed (Lit ''x'') ?obj (demo_eng 0) = (obj1, st1)"
    by (cases "fail ?E ?obj ReasonFailed (Lit ''x'') ?obj (demo_eng 0)")
  show ?thesis
    using failure_event_once [OF demo_engine_ok(1) run, of ?obj st1] run
    by (intro exI [of _ obj1] exI [of _ st1])
      (simp add: demo_engine_def NewEngine_def demo_kube_def demo_object_def demo_eng_def)
qed

end
